(* ===== verification/Prelude.thy ===== *)
theory Prelude
  imports Complex_Main "HOL-Library.AList" "HOL-Library.Multiset"
begin

text \<open>
  The fragment of the JavaScript standard library that the dashboard sources use, and the
  generic lemmas the component theories share.

  \<^item> Strings are lists of bytes (the UTF-8 encoding of the JavaScript string). Every
    operation the sources apply (split and search at ASCII delimiters, prefix tests,
    concatenation) gives the same answer on the UTF-8 bytes as on UTF-16 code units.
    Case mapping is the ASCII one.
  \<^item> A \<open>Map\<close> iterates in insertion order and keeps the position of an overwritten key, which
    is what \<open>AList.update\<close> does on association lists; a \<open>Set\<close> is a list without duplicates
    that grows at its end.
  \<^item> \<open>Array.prototype.sort\<close> is stable. It is modelled by a stable insertion sort; the locale
    \<open>js_comparator\<close> states what a comparator must satisfy, and proves inside it that the
    result is the only sorted and stable arrangement, so the choice of algorithm is immaterial.
  \<^item> Numbers are exact (\<open>int\<close> and \<open>rat\<close>): IEEE rounding is not modelled.
\<close>

named_theorems js_str "facts about strings"
named_theorems omap_simps "facts about insertion-ordered maps and sets"
named_theorems cmp_laws "comparator laws of the components"

section \<open>Strings\<close>

text \<open>Non-ASCII literals of the sources, as UTF-8.\<close>

definition mdot :: string where
  "mdot = [CHR 0xC2, CHR 0xB7]"

definition emdash :: string where
  "emdash = [CHR 0xE2, CHR 0x80, CHR 0x94]"

definition ellipsis :: string where
  "ellipsis = [CHR 0xE2, CHR 0x80, CHR 0xA6]"

definition starts_with :: "string \<Rightarrow> string \<Rightarrow> bool" where
  "starts_with s p \<longleftrightarrow> take (length p) s = p"

fun str_includes :: "string \<Rightarrow> string \<Rightarrow> bool" where
  "str_includes [] t \<longleftrightarrow> t = []"
| "str_includes (c # s) t \<longleftrightarrow> starts_with (c # s) t \<or> str_includes s t"

fun split_on :: "'a \<Rightarrow> 'a list \<Rightarrow> 'a list list" where
  "split_on c [] = [[]]"
| "split_on c (x # xs) =
     (if x = c then [] # split_on c xs
      else (x # hd (split_on c xs)) # tl (split_on c xs))"

fun join_with :: "'a list \<Rightarrow> 'a list list \<Rightarrow> 'a list" where
  "join_with sep [] = []"
| "join_with sep [x] = x"
| "join_with sep (x # y # ys) = x @ sep @ join_with sep (y # ys)"

fun index_of :: "'a \<Rightarrow> 'a list \<Rightarrow> nat option" where
  "index_of c [] = None"
| "index_of c (x # xs) = (if x = c then Some 0 else map_option Suc (index_of c xs))"

definition last_index_of :: "'a \<Rightarrow> 'a list \<Rightarrow> nat option" where
  "last_index_of c xs =
     (case index_of c (rev xs) of None \<Rightarrow> None | Some i \<Rightarrow> Some (length xs - Suc i))"

definition lower_char :: "char \<Rightarrow> char" where
  "lower_char c =
     (let n = (of_char c :: nat) in if 65 \<le> n \<and> n \<le> 90 then char_of (n + 32) else c)"

definition to_lower :: "string \<Rightarrow> string" where
  "to_lower s = map lower_char s"

definition is_space :: "char \<Rightarrow> bool" where
  "is_space c \<longleftrightarrow> (let n = (of_char c :: nat) in n = 32 \<or> (9 \<le> n \<and> n \<le> 13))"

definition trim :: "string \<Rightarrow> string" where
  "trim s = rev (dropWhile is_space (rev (dropWhile is_space s)))"

text \<open>\<open>str_cmp\<close> is the order of the operators \<open><\<close> and \<open>>\<close> on strings.\<close>

fun code_cmp :: "nat list \<Rightarrow> nat list \<Rightarrow> int" where
  "code_cmp [] [] = 0"
| "code_cmp [] (_ # _) = -1"
| "code_cmp (_ # _) [] = 1"
| "code_cmp (a # as) (b # bs) = (if a < b then -1 else if b < a then 1 else code_cmp as bs)"

definition str_cmp :: "string \<Rightarrow> string \<Rightarrow> int" where
  "str_cmp s t = code_cmp (map of_char s) (map of_char t)"

text \<open>\<open>truthy s\<close>: the empty string is falsy, and so are null and undefined.\<close>

definition truthy :: "string option \<Rightarrow> bool" where
  "truthy s \<longleftrightarrow> (case s of None \<Rightarrow> False | Some x \<Rightarrow> x \<noteq> [])"

lemma split_on_nonempty [simp]: "split_on c xs \<noteq> []"
  by (cases xs) auto

lemma join_split [js_str]: "join_with [c] (split_on c xs) = xs"
proof (induction xs)
  case Nil
  then show ?case by simp
next
  case (Cons x xs)
  obtain y ys where "split_on c xs = y # ys"
    by (meson neq_Nil_conv split_on_nonempty)
  with Cons show ?case by (cases ys) auto
qed

lemma split_on_code [code]:
  "split_on c [] = [[]]"
  "split_on c (x # xs) =
     (if x = c then [] # split_on c xs
      else (case split_on c xs of [] \<Rightarrow> [[x]] | y # ys \<Rightarrow> (x # y) # ys))"
  by (auto split: list.splits)

lemma split_on_not_in [js_str]: "c \<notin> set xs \<Longrightarrow> split_on c xs = [xs]"
  by (induction xs) auto

lemma split_on_first [js_str]: "c \<notin> set xs \<Longrightarrow> split_on c (xs @ c # ys) = xs # split_on c ys"
  by (induction xs) auto

lemma split_join [js_str]:
  "xss \<noteq> [] \<Longrightarrow> (\<And>xs. xs \<in> set xss \<Longrightarrow> c \<notin> set xs) \<Longrightarrow> split_on c (join_with [c] xss) = xss"
proof (induction xss rule: induct_list012)
  case (2 x)
  then show ?case by (simp add: split_on_not_in)
next
  case (3 x y zs)
  then show ?case by (simp add: split_on_first)
qed simp

lemma split_on_pieces [js_str]: "ys \<in> set (split_on c xs) \<Longrightarrow> c \<notin> set ys"
proof (induction xs arbitrary: ys)
  case Nil
  then show ?case by simp
next
  case (Cons x xs)
  show ?case
  proof (cases "x = c")
    case True
    with Cons show ?thesis by auto
  next
    case False
    have "hd (split_on c xs) \<in> set (split_on c xs)" by simp
    moreover have "set (tl (split_on c xs)) \<subseteq> set (split_on c xs)"
      by (simp add: list.set_sel(2) subsetI)
    ultimately show ?thesis using Cons False by auto
  qed
qed

lemma split_on_append [js_str]:
  "c \<notin> set ys \<Longrightarrow> split_on c (xs @ c # ys) = split_on c xs @ [ys]"
proof (induction xs)
  case Nil
  then show ?case by (simp add: split_on_not_in)
next
  case (Cons x xs)
  obtain z zs where "split_on c xs = z # zs"
    by (meson neq_Nil_conv split_on_nonempty)
  with Cons show ?case by auto
qed

lemma index_of_Some: "index_of c xs = Some i \<Longrightarrow> i < length xs \<and> xs ! i = c \<and> c \<notin> set (take i xs)"
  by (induction xs arbitrary: i) (auto split: if_splits)

lemma index_of_None [simp]: "index_of c xs = None \<longleftrightarrow> c \<notin> set xs"
  by (induction xs) auto

lemma index_of_append: "c \<notin> set xs \<Longrightarrow> index_of c (xs @ c # ys) = Some (length xs)"
  by (induction xs) auto

lemma starts_with_append [simp]: "starts_with (p @ s) p"
  by (simp add: starts_with_def)

lemma starts_with_iff: "starts_with s p \<longleftrightarrow> (\<exists>r. s = p @ r)"
  by (metis append_eq_conv_conj append_take_drop_id starts_with_append starts_with_def)

lemma includes_infix: "str_includes s t \<longleftrightarrow> (\<exists>u v. s = u @ t @ v)"
proof (induction s t rule: str_includes.induct)
  case (1 t)
  then show ?case by auto
next
  case (2 c s t)
  have "(\<exists>u v. c # s = u @ t @ v) \<longleftrightarrow> starts_with (c # s) t \<or> (\<exists>u v. s = u @ t @ v)" (is "?L \<longleftrightarrow> ?R")
  proof
    assume ?L
    then obtain u v where e: "c # s = u @ t @ v" by blast
    show ?R
    proof (cases u)
      case Nil
      with e show ?thesis by (auto simp: starts_with_iff)
    next
      case (Cons d u')
      with e show ?thesis by auto
    qed
  next
    assume ?R
    then show ?L
    proof
      assume "starts_with (c # s) t"
      then show ?L by (metis append_Nil starts_with_iff)
    next
      assume "\<exists>u v. s = u @ t @ v"
      then show ?L by (metis append_Cons)
    qed
  qed
  with 2 show ?case by simp
qed

lemma code_cmp_flip: "code_cmp t s = - code_cmp s t"
  by (induction s t rule: code_cmp.induct) auto

lemma code_cmp_zero: "code_cmp s t = 0 \<longleftrightarrow> s = t"
  by (induction s t rule: code_cmp.induct) auto

lemma code_cmp_trans: "code_cmp a b \<le> 0 \<Longrightarrow> code_cmp b c \<le> 0 \<Longrightarrow> code_cmp a c \<le> 0"
proof (induction a c arbitrary: b rule: code_cmp.induct)
  case (4 x xs z zs)
  then obtain y ys where b: "b = y # ys" by (cases b) auto
  from 4(2,3) b have "x \<le> y" "y \<le> z" by (auto split: if_splits)
  show ?case
  proof (cases "x < z")
    case False
    with \<open>x \<le> y\<close> \<open>y \<le> z\<close> have "x = y" "y = z" by auto
    with 4 b False show ?thesis by auto
  qed simp
next
  case (3 a as)
  then show ?case by (cases b) auto
qed simp_all

lemma str_cmp_refl [simp]: "str_cmp s s = 0"
  by (simp add: str_cmp_def code_cmp_zero)

lemma str_cmp_flip: "str_cmp t s = - str_cmp s t"
  unfolding str_cmp_def by (rule code_cmp_flip)

lemma str_cmp_zero: "str_cmp s t = 0 \<longleftrightarrow> s = t"
  unfolding str_cmp_def code_cmp_zero
  by (rule inj_map_eq_map) (simp add: inj_on_def)

lemma str_cmp_trans: "str_cmp a b \<le> 0 \<Longrightarrow> str_cmp b c \<le> 0 \<Longrightarrow> str_cmp a c \<le> 0"
  unfolding str_cmp_def by (rule code_cmp_trans)

section \<open>Numbers\<close>

definition js_round :: "rat \<Rightarrow> int" where
  "js_round x = \<lfloor>x + 1 / 2\<rfloor>"

fun string_of_nat :: "nat \<Rightarrow> string" where
  "string_of_nat n =
     (if n < 10 then [char_of (48 + n)] else string_of_nat (n div 10) @ [char_of (48 + n mod 10)])"

declare string_of_nat.simps [simp del]

definition string_of_int :: "int \<Rightarrow> string" where
  "string_of_int i = (if i < 0 then ''-'' @ string_of_nat (nat (- i)) else string_of_nat (nat i))"

text \<open>\<open>pad2\<close> is \<open>String(n).padStart(2, '0')\<close>.\<close>

definition pad2 :: "nat \<Rightarrow> string" where
  "pad2 n = (let s = string_of_nat n in replicate (2 - length s) (CHR ''0'') @ s)"

text \<open>\<open>to_fixed f x\<close> is \<open>x.toFixed(f)\<close>: the nearest multiple of \<open>10^-f\<close>, ties to the larger.\<close>

definition to_fixed :: "nat \<Rightarrow> rat \<Rightarrow> string" where
  "to_fixed f x =
     (let a = \<bar>x\<bar>; n = nat \<lfloor>a * 10 ^ f + 1 / 2\<rfloor>; s = string_of_nat n;
          p = replicate (Suc f - length s) (CHR ''0'') @ s
      in (if x < 0 then ''-'' else '''')
         @ take (length p - f) p @ (if f = 0 then '''' else CHR ''.'' # drop (length p - f) p))"

lemma js_round_of_int [simp]: "js_round (of_int n) = n"
  by (simp add: js_round_def floor_unique)

lemma js_round_mono: "x \<le> y \<Longrightarrow> js_round x \<le> js_round y"
  by (simp add: js_round_def floor_mono)

lemma js_round_bounds: "of_int a \<le> x \<Longrightarrow> x \<le> of_int b \<Longrightarrow> a \<le> js_round x \<and> js_round x \<le> b"
  using js_round_mono [of "of_int a" x] js_round_mono [of x "of_int b"] by simp

section \<open>Insertion-ordered sets\<close>

definition oset_add :: "'a \<Rightarrow> 'a list \<Rightarrow> 'a list" where
  "oset_add x xs = (if x \<in> set xs then xs else xs @ [x])"

definition oset_of :: "'a list \<Rightarrow> 'a list" where
  "oset_of xs = fold oset_add xs []"

definition oset_toggle :: "'a \<Rightarrow> 'a list \<Rightarrow> 'a list" where
  "oset_toggle x xs = (if x \<in> set xs then filter (\<lambda>y. y \<noteq> x) xs else xs @ [x])"

lemma set_oset_add [simp, omap_simps]: "set (oset_add x xs) = insert x (set xs)"
  by (auto simp: oset_add_def)

lemma distinct_oset_add [simp, omap_simps]: "distinct xs \<Longrightarrow> distinct (oset_add x xs)"
  by (simp add: oset_add_def)

lemma fold_oset_add:
  "set (fold oset_add xs acc) = set xs \<union> set acc \<and> (distinct acc \<longrightarrow> distinct (fold oset_add xs acc))"
  by (induction xs arbitrary: acc) auto

lemma set_oset_of [simp, omap_simps]: "set (oset_of xs) = set xs"
  using fold_oset_add [of xs "[]"] by (simp add: oset_of_def)

lemma distinct_oset_of [simp, omap_simps]: "distinct (oset_of xs)"
  using fold_oset_add [of xs "[]"] by (simp add: oset_of_def)

lemma oset_of_distinct: "distinct (acc @ xs) \<Longrightarrow> fold oset_add xs acc = acc @ xs"
  by (induction xs arbitrary: acc) (auto simp: oset_add_def)

lemma oset_of_id [omap_simps]: "distinct xs \<Longrightarrow> oset_of xs = xs"
  using oset_of_distinct [of "[]" xs] by (simp add: oset_of_def)

lemma set_oset_toggle [omap_simps]:
  "set (oset_toggle x xs) = (if x \<in> set xs then set xs - {x} else insert x (set xs))"
  by (auto simp: oset_toggle_def)

section \<open>Insertion-ordered maps\<close>

type_synonym ('k, 'v) omap = "('k \<times> 'v) list"

abbreviation om_get :: "('k, 'v) omap \<Rightarrow> 'k \<Rightarrow> 'v option" where
  "om_get m \<equiv> map_of m"

abbreviation om_set :: "'k \<Rightarrow> 'v \<Rightarrow> ('k, 'v) omap \<Rightarrow> ('k, 'v) omap" where
  "om_set \<equiv> AList.update"

abbreviation om_keys :: "('k, 'v) omap \<Rightarrow> 'k list" where
  "om_keys m \<equiv> map fst m"

definition om_has :: "('k, 'v) omap \<Rightarrow> 'k \<Rightarrow> bool" where
  "om_has m k \<longleftrightarrow> map_of m k \<noteq> None"

definition om_get_or :: "'v \<Rightarrow> ('k, 'v) omap \<Rightarrow> 'k \<Rightarrow> 'v" where
  "om_get_or d m k = (case map_of m k of None \<Rightarrow> d | Some v \<Rightarrow> v)"

lemma om_get_set [simp, omap_simps]: "om_get (om_set k v m) = (om_get m)(k \<mapsto> v)"
  by (rule update_conv')

lemma om_keys_set: "om_keys (om_set k v m) = oset_add k (om_keys m)"
  by (induction m) (auto simp: oset_add_def)

lemma om_has_iff [omap_simps]: "om_has m k \<longleftrightarrow> k \<in> set (om_keys m)"
  by (simp add: om_has_def map_of_eq_None_iff)

lemma om_get_or_set [simp, omap_simps]:
  "om_get_or d (om_set k v m) j = (if j = k then v else om_get_or d m j)"
  by (simp add: om_get_or_def)

lemma distinct_om_keys_set [simp, omap_simps]:
  "distinct (om_keys m) \<Longrightarrow> distinct (om_keys (om_set k v m))"
  by (simp add: om_keys_set)

lemma om_get_in: "om_get m k = Some v \<Longrightarrow> k \<in> set (om_keys m)"
  by (metis map_of_eq_None_iff not_None_eq set_map)

text \<open>Grouping a list by a key, the groups in order of first occurrence.\<close>

definition om_group :: "('a \<Rightarrow> 'k) \<Rightarrow> 'a list \<Rightarrow> ('k, 'a list) omap" where
  "om_group k xs = fold (\<lambda>x m. om_set (k x) (om_get_or [] m (k x) @ [x]) m) xs []"

lemma om_group_fold:
  "om_get_or [] (fold (\<lambda>x m. om_set (k x) (om_get_or [] m (k x) @ [x]) m) xs m) c =
     om_get_or [] m c @ filter (\<lambda>x. k x = c) xs"
  "distinct (om_keys m) \<Longrightarrow>
     distinct (om_keys (fold (\<lambda>x m. om_set (k x) (om_get_or [] m (k x) @ [x]) m) xs m))"
  by (induction xs arbitrary: m) (auto simp del: distinct_map)

lemma om_group_get: "om_get_or [] (om_group k xs) c = filter (\<lambda>x. k x = c) xs"
  using om_group_fold(1) [of k xs "[]" c] by (simp add: om_group_def om_get_or_def)

lemma om_group_distinct [simp]: "distinct (om_keys (om_group k xs))"
  using om_group_fold(2) [of "[]" k xs] by (simp add: om_group_def)

lemma om_group_mem: "(c, g) \<in> set (om_group k xs) \<Longrightarrow> g = filter (\<lambda>x. k x = c) xs"
  using om_group_get [of k xs c] om_group_distinct [of k xs] by (simp add: om_get_or_def)

lemma om_group_has:
  assumes "x \<in> set xs"
  shows "\<exists>g. (k x, g) \<in> set (om_group k xs) \<and> x \<in> set g"
proof -
  have x: "x \<in> set (om_get_or [] (om_group k xs) (k x))" using assms by (simp add: om_group_get)
  then obtain g where g: "om_get (om_group k xs) (k x) = Some g"
    by (cases "om_get (om_group k xs) (k x)") (simp_all add: om_get_or_def)
  with x have "x \<in> set g" by (simp add: om_get_or_def)
  with map_of_SomeD [OF g] show ?thesis by blast
qed

lemma mset_om_group: "mset (concat (map snd (om_group k xs))) = mset xs"
proof -
  have "mset (concat (map snd (om_set c (om_get_or [] m c @ [x]) m))) = add_mset x (mset (concat (map snd m)))"
    for x :: 'a and c :: 'b and m
    by (induction m) (auto simp: om_get_or_def)
  then have "mset (concat (map snd (fold (\<lambda>x m. om_set (k x) (om_get_or [] m (k x) @ [x]) m) xs m))) =
      mset xs + mset (concat (map snd m))" for m
    by (induction xs arbitrary: m) auto
  from this [of "[]"] show ?thesis by (simp add: om_group_def)
qed

lemma om_group_keys: "set (om_keys (om_group k xs)) = k ` set xs"
proof -
  have "set (om_keys (fold (\<lambda>x m. om_set (k x) (om_get_or [] m (k x) @ [x]) m) xs m)) = k ` set xs \<union> set (om_keys m)" for m
    by (induction xs arbitrary: m) (auto simp: om_keys_set simp del: set_map list.set_map)
  from this [of "[]"] show ?thesis by (simp add: om_group_def)
qed

lemma om_group_nonempty:
  assumes "(c, g) \<in> set (om_group k xs)"
  shows "g \<noteq> []"
proof -
  have "c \<in> set (om_keys (om_group k xs))" using assms by force
  then obtain x where "x \<in> set xs" "k x = c" unfolding om_group_keys by blast
  then show ?thesis using om_group_mem [OF assms] by (auto simp: filter_empty_conv)
qed

lemma find_split: "find P xs = Some x \<Longrightarrow> \<exists>ys zs. xs = ys @ x # zs \<and> P x \<and> (\<forall>y \<in> set ys. \<not> P y)"
proof (induction xs)
  case (Cons a xs)
  show ?case
  proof (cases "P a")
    case True
    with Cons.prems show ?thesis by (intro exI [of _ "[]"] exI [of _ xs]) simp
  next
    case False
    with Cons.prems obtain ys zs where "xs = ys @ x # zs" "P x" "\<forall>y \<in> set ys. \<not> P y"
      using Cons.IH by auto
    with False show ?thesis by (intro exI [of _ "a # ys"] exI [of _ zs]) simp
  qed
qed simp

section \<open>Sorting\<close>

fun js_insert :: "('a \<Rightarrow> 'a \<Rightarrow> 'n::linordered_idom) \<Rightarrow> 'a \<Rightarrow> 'a list \<Rightarrow> 'a list" where
  "js_insert cmp x [] = [x]"
| "js_insert cmp x (y # ys) = (if cmp x y \<le> 0 then x # y # ys else y # js_insert cmp x ys)"

definition js_sort :: "('a \<Rightarrow> 'a \<Rightarrow> 'n::linordered_idom) \<Rightarrow> 'a list \<Rightarrow> 'a list" where
  "js_sort cmp xs = foldr (js_insert cmp) xs []"

lemma js_sort_simps [simp]:
  "js_sort cmp [] = []"
  "js_sort cmp (x # xs) = js_insert cmp x (js_sort cmp xs)"
  by (simp_all add: js_sort_def)

lemma mset_js_insert [simp]: "mset (js_insert cmp x xs) = add_mset x (mset xs)"
  by (induction xs) auto

lemma mset_js_sort [simp]: "mset (js_sort cmp xs) = mset xs"
  by (induction xs) auto

lemma set_js_sort [simp]: "set (js_sort cmp xs) = set xs"
  by (metis mset_js_sort set_mset_mset)

lemma length_js_sort [simp]: "length (js_sort cmp xs) = length xs"
  by (metis mset_js_sort size_mset)

lemma distinct_js_sort [simp]: "distinct (js_sort cmp xs) \<longleftrightarrow> distinct xs"
  by (metis distinct_count_atmost_1 mset_js_sort set_js_sort)

lemma set_js_insert [simp]: "set (js_insert cmp x xs) = insert x (set xs)"
  by (metis mset_js_insert set_mset_add_mset_insert set_mset_mset)

text \<open>
  The interface between a sort site and its comparator: the two laws under which the
  language specification makes the result of \<open>sort\<close> determinate.
\<close>

locale js_comparator =
  fixes cmp :: "'a \<Rightarrow> 'a \<Rightarrow> 'n::linordered_idom"
  assumes cmp_flip: "0 < cmp a b \<longleftrightarrow> cmp b a < 0"
    and cmp_trans: "cmp a b \<le> 0 \<Longrightarrow> cmp b c \<le> 0 \<Longrightarrow> cmp a c \<le> 0"
begin

lemma cmp_refl: "cmp a a = 0"
  using cmp_flip [of a a] by linarith

lemma cmp_zero_sym: "cmp a b = 0 \<Longrightarrow> cmp b a = 0"
  using cmp_flip [of a b] cmp_flip [of b a] by linarith

lemma cmp_total: "cmp a b \<le> 0 \<or> cmp b a \<le> 0"
  using cmp_flip [of a b] by linarith

lemma cmp_zero_trans: "cmp a b = 0 \<Longrightarrow> cmp b c = 0 \<Longrightarrow> cmp a c = 0"
  using cmp_trans [of a b c] cmp_trans [of c b a] cmp_zero_sym [of a b] cmp_zero_sym [of b c]
    cmp_flip [of c a] by force

lemma sorted_js_insert:
  "sorted_wrt (\<lambda>a b. cmp a b \<le> 0) xs \<Longrightarrow> sorted_wrt (\<lambda>a b. cmp a b \<le> 0) (js_insert cmp x xs)"
proof (induction xs)
  case (Cons y ys)
  then show ?case
    using cmp_total [of x y] by (auto intro: cmp_trans)
qed simp

lemma sorted_js_sort: "sorted_wrt (\<lambda>a b. cmp a b \<le> 0) (js_sort cmp xs)"
  by (induction xs) (auto intro: sorted_js_insert)

lemma filter_js_insert:
  "filter (\<lambda>y. cmp k y = 0) (js_insert cmp x xs) = filter (\<lambda>y. cmp k y = 0) (x # xs)"
proof (induction xs)
  case (Cons y ys)
  have "cmp k x = 0 \<Longrightarrow> cmp k y = 0 \<Longrightarrow> cmp x y = 0"
    using cmp_zero_sym cmp_zero_trans by blast
  with Cons show ?case by auto
qed simp

lemma stable_js_sort: "filter (\<lambda>y. cmp k y = 0) (js_sort cmp xs) = filter (\<lambda>y. cmp k y = 0) xs"
  by (induction xs) (simp_all add: filter_js_insert)

lemma sorted_stable_unique:
  assumes "sorted_wrt (\<lambda>a b. cmp a b \<le> 0) xs" and "sorted_wrt (\<lambda>a b. cmp a b \<le> 0) ys"
    and "\<And>k. filter (\<lambda>y. cmp k y = 0) xs = filter (\<lambda>y. cmp k y = 0) ys"
  shows "xs = ys"
  using assms
proof (induction xs arbitrary: ys)
  case Nil
  show ?case
  proof (cases ys)
    case (Cons y ys')
    with Nil.prems(3) [of y] show ?thesis by (simp add: cmp_refl)
  qed simp
next
  case (Cons x xs)
  have mem: "a \<in> set (x # xs) \<longleftrightarrow> a \<in> set ys" for a
    using Cons.prems(3) [of a] cmp_refl [of a] by (metis (mono_tags, lifting) mem_Collect_eq set_filter)
  then obtain y ys' where ys: "ys = y # ys'" by (cases ys) auto
  have "cmp x y \<le> 0" using mem [of y] Cons.prems(1) cmp_refl [of x] ys by auto
  moreover have "cmp y x \<le> 0" using mem [of x] Cons.prems(2) cmp_refl [of y] ys by auto
  ultimately have "cmp x y = 0" using cmp_flip [of y x] by linarith
  then have xy: "x = y" using Cons.prems(3) [of x] ys by (simp add: cmp_refl)
  have "xs = ys'"
  proof (rule Cons.IH)
    show "filter (\<lambda>y. cmp k y = 0) xs = filter (\<lambda>y. cmp k y = 0) ys'" for k
      using Cons.prems(3) [of k] xy ys by (simp split: if_splits)
  qed (use Cons.prems ys in auto)
  with xy ys show ?case by simp
qed

lemma js_sort_unique:
  assumes "sorted_wrt (\<lambda>a b. cmp a b \<le> 0) ys"
    and "\<And>k. filter (\<lambda>y. cmp k y = 0) ys = filter (\<lambda>y. cmp k y = 0) xs"
  shows "js_sort cmp xs = ys"
  by (rule sorted_stable_unique) (simp_all add: sorted_js_sort stable_js_sort assms)

end

text \<open>Comparators the sources build from a numeric key, and the string order.\<close>

lemma js_comparator_key: "js_comparator (\<lambda>a b. f a - f b)"
  by unfold_locales auto

lemma js_comparator_str: "js_comparator str_cmp"
proof
  fix a b c :: string
  show "0 < str_cmp a b \<longleftrightarrow> str_cmp b a < 0" by (simp add: str_cmp_flip [of b a])
  show "str_cmp a b \<le> 0 \<Longrightarrow> str_cmp b c \<le> 0 \<Longrightarrow> str_cmp a c \<le> 0" by (rule str_cmp_trans)
qed

interpretation str_order: js_comparator str_cmp
  by (rule js_comparator_str)

section \<open>Encoders and decoders\<close>

text \<open>
  The contract between whoever writes a text and whoever reads it back. \<open>ok\<close> delimits the
  values the writer produces.
\<close>

locale codec =
  fixes enc :: "'a \<Rightarrow> string" and dec :: "string \<Rightarrow> 'a option" and ok :: "'a \<Rightarrow> bool"
  assumes dec_enc: "ok x \<Longrightarrow> dec (enc x) = Some x"
begin

lemma enc_inj: "ok x \<Longrightarrow> ok y \<Longrightarrow> enc x = enc y \<Longrightarrow> x = y"
  by (metis dec_enc option.inject)

lemma dec_enc_or: "ok x \<Longrightarrow> (case dec (enc x) of None \<Rightarrow> d | Some y \<Rightarrow> y) = x"
  by (simp add: dec_enc)

end

text \<open>
  A persisted value: what is read back from the store, with a default for a missing or rejected text.
  A decoder that only accepts well-formed values makes reading total and writing lossless.
\<close>

definition read_or :: "(string \<Rightarrow> 'a option) \<Rightarrow> 'a \<Rightarrow> string option \<Rightarrow> 'a" where
  "read_or dec dflt s =
     (case s of None \<Rightarrow> dflt | Some raw \<Rightarrow> (case dec raw of None \<Rightarrow> dflt | Some x \<Rightarrow> x))"

locale persisted = codec enc dec ok
  for enc :: "'a \<Rightarrow> string" and dec :: "string \<Rightarrow> 'a option" and ok :: "'a \<Rightarrow> bool" +
  fixes dflt :: 'a
  assumes dflt_ok: "ok dflt" and dec_ok: "dec raw = Some x \<Longrightarrow> ok x"
begin

lemma read_ok: "ok (read_or dec dflt s)"
  by (auto simp: read_or_def dflt_ok dec_ok split: option.splits)

lemma read_after_write: "ok x \<Longrightarrow> read_or dec dflt (Some (enc x)) = x"
  by (simp add: read_or_def dec_enc)

lemma rewrite_stable: "read_or dec dflt (Some (enc (read_or dec dflt s))) = read_or dec dflt s"
  by (rule read_after_write [OF read_ok])

end

end
