(* ===== verification/Json.thy ===== *)
theory Json
  imports Prelude
begin

text \<open>
  \<open>JSON.stringify\<close> and \<open>JSON.parse\<close>, which every persisted setting of the dashboard and every
  text frame of the terminal bridge go through. Objects are insertion-ordered; a repeated key
  keeps its first position and its last value. The parser accepts the RFC 8259 grammar, with the
  whole input consumed, and answers \<open>None\<close> where \<open>JSON.parse\<close> throws. Its fuel is the length of
  the input plus one, which \<open>parse_stringify\<close> shows to be enough for every text the sources write.
  Numbers are exact rationals; strings are well-formed UTF-8.
\<close>

datatype json =
    JNull
  | JBool bool
  | JNum rat
  | JStr string
  | JArr "json list"
  | JObj "(string \<times> json) list"

section \<open>Printing\<close>

definition hex_digit :: "nat \<Rightarrow> char" where
  "hex_digit n = (if n < 10 then char_of (48 + n) else char_of (87 + n))"

definition esc_char :: "char \<Rightarrow> string" where
  "esc_char c =
     (let n = (of_char c :: nat) in
      if n = 34 then [CHR 0x5C, CHR 0x22]
      else if n = 92 then [CHR 0x5C, CHR 0x5C]
      else if n = 8 then [CHR 0x5C, CHR ''b'']
      else if n = 12 then [CHR 0x5C, CHR ''f'']
      else if n = 10 then [CHR 0x5C, CHR ''n'']
      else if n = 13 then [CHR 0x5C, CHR ''r'']
      else if n = 9 then [CHR 0x5C, CHR ''t'']
      else if n < 32 then [CHR 0x5C, CHR ''u'', CHR ''0'', CHR ''0'', hex_digit (n div 16), hex_digit (n mod 16)]
      else [c])"

definition quote_str :: "string \<Rightarrow> string" where
  "quote_str s = CHR 0x22 # concat (map esc_char s) @ [CHR 0x22]"

definition string_of_rat :: "rat \<Rightarrow> string" where
  "string_of_rat r =
     (case find (\<lambda>k. of_int \<lfloor>r * 10 ^ k\<rfloor> = r * 10 ^ k) [0..<21] of
        Some k \<Rightarrow> to_fixed k r | None \<Rightarrow> to_fixed 20 r)"

fun stringify :: "json \<Rightarrow> string"
  and stringify_elems :: "json list \<Rightarrow> string"
  and stringify_members :: "(string \<times> json) list \<Rightarrow> string" where
  "stringify JNull = ''null''"
| "stringify (JBool b) = (if b then ''true'' else ''false'')"
| "stringify (JNum r) = string_of_rat r"
| "stringify (JStr s) = quote_str s"
| "stringify (JArr vs) = CHR ''['' # stringify_elems vs @ [CHR '']'']"
| "stringify (JObj ms) = CHR ''{'' # stringify_members ms @ [CHR ''}'']"
| "stringify_elems [] = []"
| "stringify_elems [v] = stringify v"
| "stringify_elems (v # w # vs) = stringify v @ CHR '','' # stringify_elems (w # vs)"
| "stringify_members [] = []"
| "stringify_members [(k, v)] = quote_str k @ CHR '':'' # stringify v"
| "stringify_members ((k, v) # m # ms) =
     quote_str k @ CHR '':'' # stringify v @ CHR '','' # stringify_members (m # ms)"

section \<open>Parsing\<close>

definition json_ws :: "char \<Rightarrow> bool" where
  "json_ws c \<longleftrightarrow> c \<in> {CHR '' '', CHR 0x09, CHR 0x0A, CHR 0x0D}"

definition skip_ws :: "string \<Rightarrow> string" where
  "skip_ws s = dropWhile json_ws s"

definition hex_val :: "char \<Rightarrow> nat option" where
  "hex_val c =
     (let n = (of_char c :: nat) in
      if 48 \<le> n \<and> n \<le> 57 then Some (n - 48)
      else if 97 \<le> n \<and> n \<le> 102 then Some (n - 87)
      else if 65 \<le> n \<and> n \<le> 70 then Some (n - 55)
      else None)"

definition hex4 :: "char \<Rightarrow> char \<Rightarrow> char \<Rightarrow> char \<Rightarrow> nat option" where
  "hex4 a b c d =
     (case (hex_val a, hex_val b, hex_val c, hex_val d) of
        (Some w, Some x, Some y, Some z) \<Rightarrow> Some (((w * 16 + x) * 16 + y) * 16 + z)
      | _ \<Rightarrow> None)"

definition utf8_bytes :: "nat \<Rightarrow> string" where
  "utf8_bytes n =
     (if n < 128 then [char_of n]
      else if n < 2048 then [char_of (192 + n div 64), char_of (128 + n mod 64)]
      else if n < 65536 then
        [char_of (224 + n div 4096), char_of (128 + n div 64 mod 64), char_of (128 + n mod 64)]
      else [char_of (240 + n div 262144), char_of (128 + n div 4096 mod 64),
            char_of (128 + n div 64 mod 64), char_of (128 + n mod 64)])"

definition simple_escape :: "char \<Rightarrow> char option" where
  "simple_escape c =
     (if c = CHR 0x22 then Some (CHR 0x22) else if c = CHR 0x5C then Some (CHR 0x5C)
      else if c = CHR ''/'' then Some (CHR ''/'') else if c = CHR ''b'' then Some (CHR 0x08)
      else if c = CHR ''f'' then Some (CHR 0x0C) else if c = CHR ''n'' then Some (CHR 0x0A)
      else if c = CHR ''r'' then Some (CHR 0x0D) else if c = CHR ''t'' then Some (CHR 0x09)
      else None)"

text \<open>
  \<open>low_half r\<close> reads a low-surrogate escape at the front of \<open>r\<close>, if there is one: the second
  half of a pair.
\<close>

fun low_half :: "string \<Rightarrow> (nat \<times> string) option" where
  "low_half (x # u # a # b # c # d # r) =
     (if x = CHR 0x5C \<and> u = CHR ''u'' then
        (case hex4 a b c d of
           Some n \<Rightarrow> if 56320 \<le> n \<and> n < 57344 then Some (n, r) else None
         | None \<Rightarrow> None)
      else None)"
| "low_half _ = None"

fun parse_chars :: "nat \<Rightarrow> string \<Rightarrow> (string \<times> string) option" where
  "parse_chars 0 s = None"
| "parse_chars (Suc n) [] = None"
| "parse_chars (Suc n) (c # r) =
     (if c = CHR 0x22 then Some ([], r)
      else if c = CHR 0x5C then
        (case r of
           [] \<Rightarrow> None
         | e # r1 \<Rightarrow>
             (case simple_escape e of
                Some x \<Rightarrow> map_option (apfst ((#) x)) (parse_chars n r1)
              | None \<Rightarrow>
                  (case r1 of
                     h1 # h2 # h3 # h4 # r2 \<Rightarrow>
                       (if e = CHR ''u'' then
                          (case hex4 h1 h2 h3 h4 of
                             None \<Rightarrow> None
                           | Some hi \<Rightarrow>
                               (case (if 55296 \<le> hi \<and> hi < 56320 then low_half r2 else None) of
                                  Some (lo, r3) \<Rightarrow>
                                    map_option (apfst ((@) (utf8_bytes (65536 + (hi - 55296) * 1024 + (lo - 56320)))))
                                      (parse_chars n r3)
                                | None \<Rightarrow> map_option (apfst ((@) (utf8_bytes hi))) (parse_chars n r2)))
                        else None)
                   | _ \<Rightarrow> None)))
      else if (of_char c :: nat) < 32 then None
      else map_option (apfst ((#) c)) (parse_chars n r))"

definition is_digit :: "char \<Rightarrow> bool" where
  "is_digit c \<longleftrightarrow> (let n = (of_char c :: nat) in 48 \<le> n \<and> n \<le> 57)"

definition digits_val :: "string \<Rightarrow> nat" where
  "digits_val s = foldl (\<lambda>a c. a * 10 + (of_char c - 48)) 0 s"

text \<open>The number grammar: optional minus, integer without leading zeros, fraction, exponent.\<close>

definition parse_number :: "string \<Rightarrow> (rat \<times> string) option" where
  "parse_number s0 =
     (let neg = starts_with s0 ''-''; s = (if neg then tl s0 else s0);
          ip = takeWhile is_digit s; s1 = dropWhile is_digit s;
          hasf = starts_with s1 ''.'';
          fp = (if hasf then takeWhile is_digit (tl s1) else []);
          s2 = (if hasf then dropWhile is_digit (tl s1) else s1);
          hase = (s2 \<noteq> [] \<and> hd s2 \<in> {CHR ''e'', CHR ''E''});
          s3 = (if hase then tl s2 else s2);
          eneg = (hase \<and> starts_with s3 ''-'');
          s4 = (if hase \<and> (starts_with s3 ''-'' \<or> starts_with s3 ''+'') then tl s3 else s3);
          ep = (if hase then takeWhile is_digit s4 else []);
          s5 = (if hase then dropWhile is_digit s4 else s4);
          m = of_nat (digits_val (ip @ fp)) / 10 ^ length fp;
          e = (10 :: rat) ^ digits_val ep
      in if ip = [] \<or> (length ip > 1 \<and> hd ip = CHR ''0'') \<or> (hasf \<and> fp = []) \<or> (hase \<and> ep = [])
         then None
         else Some ((if neg then - 1 else 1) * (if eneg then m / e else m * e), s5))"

fun parse_value :: "nat \<Rightarrow> string \<Rightarrow> (json \<times> string) option"
  and parse_elems :: "nat \<Rightarrow> string \<Rightarrow> (json list \<times> string) option"
  and parse_members :: "nat \<Rightarrow> string \<Rightarrow> ((string \<times> json) list \<times> string) option" where
  "parse_value 0 s = None"
| "parse_value (Suc n) s =
     (case skip_ws s of
        [] \<Rightarrow> None
      | c # r \<Rightarrow>
          (if c = CHR 0x22 then map_option (apfst JStr) (parse_chars (Suc (length r)) r)
           else if c = CHR ''['' then
             (case skip_ws r of
                [] \<Rightarrow> None
              | d # r1 \<Rightarrow> if d = CHR '']'' then Some (JArr [], r1)
                          else map_option (apfst JArr) (parse_elems n (d # r1)))
           else if c = CHR ''{'' then
             (case skip_ws r of
                [] \<Rightarrow> None
              | d # r1 \<Rightarrow> if d = CHR ''}'' then Some (JObj [], r1)
                          else map_option (apfst (\<lambda>ms. JObj (fold (\<lambda>(k, v). om_set k v) ms [])))
                                 (parse_members n (d # r1)))
           else if starts_with (c # r) ''null'' then Some (JNull, drop 4 (c # r))
           else if starts_with (c # r) ''true'' then Some (JBool True, drop 4 (c # r))
           else if starts_with (c # r) ''false'' then Some (JBool False, drop 5 (c # r))
           else map_option (apfst JNum) (parse_number (c # r))))"
| "parse_elems 0 s = None"
| "parse_elems (Suc n) s =
     (case parse_value n s of
        None \<Rightarrow> None
      | Some (v, r) \<Rightarrow>
          (case skip_ws r of
             [] \<Rightarrow> None
           | d # r1 \<Rightarrow> if d = CHR '']'' then Some ([v], r1)
                       else if d = CHR '','' then map_option (apfst ((#) v)) (parse_elems n r1)
                       else None))"
| "parse_members 0 s = None"
| "parse_members (Suc n) s =
     (case skip_ws s of
        [] \<Rightarrow> None
      | q # r0 \<Rightarrow>
          (if q \<noteq> CHR 0x22 then None
           else (case parse_chars (Suc (length r0)) r0 of
              None \<Rightarrow> None
            | Some (k, r1) \<Rightarrow>
                (case skip_ws r1 of
                   [] \<Rightarrow> None
                 | d # r2 \<Rightarrow>
                     (if d \<noteq> CHR '':'' then None
                      else (case parse_value n r2 of
                         None \<Rightarrow> None
                       | Some (v, r3) \<Rightarrow>
                           (case skip_ws r3 of
                              [] \<Rightarrow> None
                            | e # r4 \<Rightarrow>
                                if e = CHR ''}'' then Some ([(k, v)], r4)
                                else if e = CHR '','' then map_option (apfst ((#) (k, v))) (parse_members n r4)
                                else None)))))))"

definition json_parse :: "string \<Rightarrow> json option" where
  "json_parse s =
     (case parse_value (Suc (length s)) s of
        Some (v, r) \<Rightarrow> if skip_ws r = [] then Some v else None
      | None \<Rightarrow> None)"

fun jfield :: "json \<Rightarrow> string \<Rightarrow> json option" where
  "jfield (JObj ms) k = map_of ms k"
| "jfield _ k = None"

section \<open>Round trip\<close>

text \<open>
  \<open>num_free\<close> delimits the documents the dashboard writes: no numbers, no repeated keys. On them
  \<open>JSON.parse\<close> inverts \<open>JSON.stringify\<close>.
\<close>

lemma hex_val_digit: "n < 16 \<Longrightarrow> hex_val (hex_digit n) = Some n"
  by (auto simp: hex_val_def hex_digit_def Let_def)

lemma parse_chars_esc:
  "parse_chars (Suc n) (esc_char c @ r) = map_option (apfst ((#) c)) (parse_chars n r)"
proof -
  let ?n = "of_char c :: nat"
  have ne: "c \<noteq> d" if "?n \<noteq> of_char d" for d using that by auto
  have eq: "c = d" if "?n = of_char d" for d using that by simp
  consider "?n = 34" | "?n = 92" | "?n = 8" | "?n = 12" | "?n = 10" | "?n = 13" | "?n = 9"
    | "?n < 32" "?n \<notin> {34, 92, 8, 12, 10, 13, 9}"
    | "\<not> ?n < 32" "?n \<notin> {34, 92}" by fastforce
  then show ?thesis
  proof cases
    case 1 then show ?thesis using eq [of "CHR 0x22"] by (simp add: esc_char_def simple_escape_def)
  next
    case 2 then show ?thesis using eq [of "CHR 0x5C"] by (simp add: esc_char_def simple_escape_def)
  next
    case 3 then show ?thesis using eq [of "CHR 0x08"] by (simp add: esc_char_def simple_escape_def)
  next
    case 4 then show ?thesis using eq [of "CHR 0x0C"] by (simp add: esc_char_def simple_escape_def)
  next
    case 5 then show ?thesis using eq [of "CHR 0x0A"] by (simp add: esc_char_def simple_escape_def)
  next
    case 6 then show ?thesis using eq [of "CHR 0x0D"] by (simp add: esc_char_def simple_escape_def)
  next
    case 7 then show ?thesis using eq [of "CHR 0x09"] by (simp add: esc_char_def simple_escape_def)
  next
    case 8
    have "hex_val (CHR ''0'') = Some 0" by (simp add: hex_val_def)
    moreover have "?n div 16 < 16" "?n mod 16 < 16" using 8 by simp_all
    ultimately have "hex4 (CHR ''0'') (CHR ''0'') (hex_digit (?n div 16)) (hex_digit (?n mod 16)) = Some ?n"
      by (simp add: hex4_def hex_val_digit)
    moreover have "utf8_bytes ?n = [c]" using 8 by (simp add: utf8_bytes_def)
    moreover have "(@) [c] = (#) c" by auto
    ultimately show ?thesis using 8 by (simp add: esc_char_def simple_escape_def Let_def)
  next
    case 9
    then have "esc_char c = [c]" by (simp add: esc_char_def Let_def)
    moreover have "c \<noteq> CHR 0x22" "c \<noteq> CHR 0x5C" using 9 ne by auto
    ultimately show ?thesis using 9 by simp
  qed
qed

lemma parse_chars_quote:
  "length s \<le> n \<Longrightarrow> parse_chars (Suc n) (concat (map esc_char s) @ CHR 0x22 # r) = Some (s, r)"
proof (induction s arbitrary: n)
  case (Cons c s)
  then obtain m where "n = Suc m" by (cases n) auto
  with Cons show ?case by (simp add: parse_chars_esc del: parse_chars.simps)
qed simp

lemma length_esc_char: "1 \<le> length (esc_char c)"
  by (simp add: esc_char_def Let_def)

lemma length_esc: "length s \<le> length (concat (map esc_char s))"
proof (induction s)
  case (Cons c s)
  then show ?case using length_esc_char [of c] by simp
qed simp

lemma parse_chars_quoted:
  "parse_chars (Suc (length (concat (map esc_char s) @ CHR 0x22 # r))) (concat (map esc_char s) @ CHR 0x22 # r) = Some (s, r)"
  by (rule parse_chars_quote) (use length_esc [of s] in simp)

fun num_free :: "json \<Rightarrow> bool" where
  "num_free (JNum r) = False"
| "num_free (JArr vs) = (\<forall>v\<in>set vs. num_free v)"
| "num_free (JObj ms) = (distinct (map fst ms) \<and> (\<forall>m\<in>set ms. num_free (snd m)))"
| "num_free _ = True"

lemma skip_ws_Cons: "\<not> json_ws c \<Longrightarrow> skip_ws (c # r) = c # r"
  by (simp add: skip_ws_def)

lemma stringify_head: "num_free v \<Longrightarrow> \<exists>c r. stringify v = c # r \<and> \<not> json_ws c \<and> c \<noteq> CHR '']'' \<and> c \<noteq> CHR ''}''"
  by (cases v) (auto simp: quote_str_def json_ws_def)

lemma fold_om_set: "distinct (map fst (acc @ ms)) \<Longrightarrow> fold (\<lambda>(k, v). om_set k v) ms acc = acc @ ms"
proof (induction ms arbitrary: acc)
  case (Cons m ms)
  obtain k v where m: "m = (k, v)" by (cases m)
  have "k \<notin> fst ` set acc" using Cons.prems m by auto
  then have "om_set k v acc = acc @ [(k, v)]" by (induction acc) auto
  with Cons m show ?case by simp
qed simp

lemma parse_stringify:
  "num_free v \<Longrightarrow> length (stringify v) < f \<Longrightarrow> parse_value f (stringify v @ r) = Some (v, r)"
  "vs \<noteq> [] \<Longrightarrow> \<forall>v\<in>set vs. num_free v \<Longrightarrow> Suc (length (stringify_elems vs)) < f \<Longrightarrow>
     parse_elems f (stringify_elems vs @ CHR '']'' # r) = Some (vs, r)"
  "ms \<noteq> [] \<Longrightarrow> \<forall>m\<in>set ms. num_free (snd m) \<Longrightarrow> Suc (length (stringify_members ms)) < f \<Longrightarrow>
     parse_members f (stringify_members ms @ CHR ''}'' # r) = Some (ms, r)"
proof (induction v and vs and ms arbitrary: f r and f r and f r rule: stringify_stringify_elems_stringify_members.induct)
  case 1
  then obtain g where "f = Suc g" by (cases f) auto
  then show ?case by (simp add: skip_ws_Cons json_ws_def starts_with_def)
next
  case (2 b)
  then obtain g where "f = Suc g" by (cases f) auto
  then show ?case by (simp add: skip_ws_Cons json_ws_def starts_with_def)
next
  case (3 x)
  then show ?case by simp
next
  case (4 s)
  then obtain g where "f = Suc g" by (cases f) auto
  then show ?case using parse_chars_quoted [of s r]
    by (simp add: skip_ws_Cons json_ws_def quote_str_def del: parse_chars.simps)
next
  case (5 vs)
  then obtain g where g: "f = Suc g" by (cases f) auto
  show ?case
  proof (cases vs)
    case Nil
    with g show ?thesis by (simp add: skip_ws_Cons json_ws_def)
  next
    case (Cons w ws)
    have "parse_elems g (stringify_elems vs @ CHR '']'' # r) = Some (vs, r)"
      using 5 g Cons by simp
    moreover obtain c t where "stringify_elems vs = c # t" "\<not> json_ws c" "c \<noteq> CHR '']''"
      using 5(2) Cons stringify_head [of w] by (cases ws) fastforce+
    ultimately show ?thesis using g by (simp add: skip_ws_Cons json_ws_def del: parse_elems.simps)
  qed
next
  case (6 ms)
  then obtain g where g: "f = Suc g" by (cases f) auto
  show ?case
  proof (cases ms)
    case Nil
    with g show ?thesis by (simp add: skip_ws_Cons json_ws_def)
  next
    case (Cons w ws)
    have "parse_members g (stringify_members ms @ CHR ''}'' # r) = Some (ms, r)"
      using 6 g Cons by simp
    moreover obtain t where "stringify_members ms = CHR 0x22 # t"
      using Cons by (cases ws; cases w) (auto simp: quote_str_def)
    moreover have "fold (\<lambda>(k, v). om_set k v) ms [] = ms"
      using 6(2) fold_om_set [of "[]" ms] by simp
    ultimately show ?thesis using g by (simp add: skip_ws_Cons json_ws_def del: parse_members.simps)
  qed
next
  case 7
  then show ?case by simp
next
  case (8 v)
  then obtain g where "f = Suc g" by (cases f) auto
  with 8 show ?case by (simp add: skip_ws_Cons json_ws_def)
next
  case (9 v w vs)
  then obtain g where "f = Suc g" by (cases f) auto
  with 9 show ?case by (simp add: skip_ws_Cons json_ws_def)
next
  case 10
  then show ?case by simp
next
  case (11 k v)
  then obtain g where "f = Suc g" by (cases f) auto
  with 11 parse_chars_quoted [of k "CHR '':'' # stringify v @ CHR ''}'' # r"] show ?case
    by (simp add: skip_ws_Cons json_ws_def quote_str_def del: parse_chars.simps)
next
  case (12 k v m ms)
  then obtain g where "f = Suc g" by (cases f) auto
  with 12 parse_chars_quoted [of k "CHR '':'' # stringify v @ CHR '','' # stringify_members (m # ms) @ CHR ''}'' # r"]
  show ?case
    by (simp add: skip_ws_Cons json_ws_def quote_str_def del: parse_chars.simps)
qed

lemma json_parse_stringify: "num_free v \<Longrightarrow> json_parse (stringify v) = Some v"
  using parse_stringify(1) [of v "Suc (length (stringify v))" "[]"]
  by (simp add: json_parse_def skip_ws_def)

interpretation json_codec: codec stringify json_parse num_free
  by unfold_locales (rule json_parse_stringify)

end
