(* ===== verification/Types.thy ===== *)
theory Types
  imports Json
begin

text \<open>
  The data model of \<open>dashboard/app/src/types.ts\<close>: one record per interface, one datatype per
  union of literals. An optional or nullable field is an \<open>option\<close> (the code tests both with
  \<open>== null\<close> or \<open>??\<close>); an \<open>unknown\<close> payload is a \<open>json\<close> value. Field selectors carry a prefix per
  interface (\<open>t_\<close> task, \<open>ph_\<close> phase, \<open>pl_\<close> plan, \<open>s_\<close> session, \<open>ps_\<close> project summary, \<open>ap_\<close>
  autopilot phase, \<open>as_\<close> autopilot session, \<open>e_\<close> stream event, \<open>f_\<close> feature). Counts, indices and
  tokens are \<open>int\<close>; costs, hours and durations are \<open>rat\<close>.
\<close>

section \<open>Statuses\<close>

datatype task_status = TPending | TWip | TDone | TFailed | TSkipped | TBlocked

datatype session_status =
  SWorking | SNeedsInput | SIdle | SCompleted | SStopped | SStale | SClosed

datatype autopilot_phase_status = APending | ARunning | ACompleted | AFailed

datatype autopilot_session_status = ASRunning | ASCompleted | ASFailed

text \<open>The feature status union, with the values a newer server may send kept apart.\<close>

datatype feature_status = FStuck | FWaiting | FActive | FPaused | FDone | FUnknown string

section \<open>Gates\<close>

record checklist_check =
  ck_kind :: string
  ck_cmd :: "string option"

datatype checklist_item = PlainItem string | CheckedItem string "checklist_check option"

datatype checklist_item_kind = KShell | KHuman

datatype checklist_item_result = RPassed | RFailed | RTimeout | RNeedsReview

record enriched_checklist_item =
  ei_item :: string
  ei_kind :: checklist_item_kind
  ei_lastResult :: "checklist_item_result option"
  ei_check :: "checklist_check option"

record gate =
  g_name :: string
  g_checklist :: "checklist_item list"
  g_enrichedChecklist :: "enriched_checklist_item list option"
  g_passed :: bool
  g_command :: "string option"

section \<open>Schema 2.0 blocks\<close>

datatype task_type =
  TtDevelopment | TtDocumentation | TtResearch | TtSetup | TtReview | TtRefactor | TtTesting | TtOther

record test_target =
  tt_id :: string
  tt_path :: string
  tt_description :: "string option"
  tt_test_command :: "string option"
  tt_symlink_allowlist :: "string list option"

record where_block =
  w_modify :: "string list option"
  w_create :: "string list option"
  w_delete :: "string list option"

record task_estimate =
  te_lines_estimate :: "int option"
  te_duration_hours :: "rat option"

datatype deviation_decision = DevAccept | DevRevert | DevDefer

record task_deviation =
  td_phase :: string
  td_deviation_id :: string
  td_description :: string
  td_decision :: deviation_decision
  td_recorded_at :: string

record auto_update =
  au_enabled :: bool
  au_last_attempt_at :: "string option"
  au_retry_count :: "int option"

record artifact_refs =
  ar_requirements_path :: "string option"
  ar_plan_path :: "string option"
  ar_review_path :: "string option"
  ar_team_review_path :: "string option"
  ar_testplan_path :: "string option"
  ar_qa_report_path :: "string option"
  ar_team_qa_path :: "string option"
  ar_static_analysis_path :: "string option"
  ar_autopilot_summary_path :: "string option"
  ar_autopilot_stream_path :: "string option"

datatype deferred_code_finding_state = WontFix | FalsePositive | Deferred | Accepted

record deferred_code_finding =
  dcf_id :: string
  dcf_finding_id :: string
  dcf_rule :: string
  dcf_file :: string
  dcf_line :: int
  dcf_state :: deferred_code_finding_state
  dcf_reason :: string
  dcf_owner :: string
  dcf_reviewed_at :: string
  dcf_review_trigger :: string
  dcf_ticket :: "string option"
  dcf_deferred_at_task_id :: "string option"
  dcf_deferred_at_phase_id :: "string option"

record deferred_review_suggestion =
  drs_id :: string
  drs_date :: string
  drs_feature_or_task_id :: string
  drs_phase_id :: string
  drs_reviewer :: string
  drs_category :: string
  drs_description :: string
  drs_reason_deferred :: string

datatype scope_decision_value = ScDismissed | ScDeferred | ScAcceptedForFuture

record deferred_scope_decision =
  dsd_id :: string
  dsd_date :: string
  dsd_decided_at_task_id :: string
  dsd_decision :: scope_decision_value
  dsd_rationale :: string

record deferred_future_enhancement =
  dfe_id :: string
  dfe_date :: string
  dfe_description :: string
  dfe_target_release :: "string option"
  dfe_effort_estimate :: "string option"

text \<open>The tagged union: the \<open>kind\<close> field of the four interfaces is the constructor.\<close>

datatype deferred_entry =
    CodeFinding deferred_code_finding
  | ReviewSuggestion deferred_review_suggestion
  | ScopeDecision deferred_scope_decision
  | FutureEnhancement deferred_future_enhancement

section \<open>Tasks, phases, plans\<close>

record task =
  t_id :: string
  t_name :: string
  t_description :: "string option"
  t_status :: task_status
  t_depends :: "string list option"
  t_prompt :: "string option"
  t_acceptance :: "string list option"
  t_parallel_group :: "string option"
  t_last_updated :: "string option"
  t_autopilot :: "bool option"
  t_pipeline :: "string option"
  t_extensions :: "json option"
  t_task_type :: "task_type option"
  t_what :: "string option"
  t_why :: "string option"
  t_where :: "where_block option"
  t_constraints :: "string list option"
  t_estimate :: "task_estimate option"
  t_artifact_refs :: "artifact_refs option"
  t_deferred_refs :: "string list option"
  t_manualtest_scenarios :: "string list option"
  t_manual_test :: "string option"
  t_deviations :: "task_deviation list option"
  t_auto_update :: "auto_update option"
  t_scope_change :: "string option"
  t_delivered_beyond_plan :: "string list option"
  t_remaining_gaps :: "string list option"

text \<open>A task literal that sets only the three mandatory fields.\<close>

definition mk_task :: "string \<Rightarrow> string \<Rightarrow> task_status \<Rightarrow> task" where
  "mk_task i n s =
     \<lparr>t_id = i, t_name = n, t_description = None, t_status = s, t_depends = None, t_prompt = None,
      t_acceptance = None, t_parallel_group = None, t_last_updated = None, t_autopilot = None,
      t_pipeline = None, t_extensions = None, t_task_type = None, t_what = None, t_why = None,
      t_where = None, t_constraints = None, t_estimate = None, t_artifact_refs = None,
      t_deferred_refs = None, t_manualtest_scenarios = None, t_manual_test = None,
      t_deviations = None, t_auto_update = None, t_scope_change = None,
      t_delivered_beyond_plan = None, t_remaining_gaps = None\<rparr>"

record phase =
  ph_id :: string
  ph_name :: string
  ph_description :: "string option"
  ph_tasks :: "task list"
  ph_gate :: "gate option"
  ph_extensions :: "json option"
  ph_overview_summary :: "string option"
  ph_sequencing_rationale :: "string option"
  ph_cross_cutting_constraints :: "string list option"
  ph_kill_criteria_refs :: "string list option"
  ph_advisory :: "string option"

definition mk_phase :: "string \<Rightarrow> string \<Rightarrow> task list \<Rightarrow> phase" where
  "mk_phase i n ts =
     \<lparr>ph_id = i, ph_name = n, ph_description = None, ph_tasks = ts, ph_gate = None,
      ph_extensions = None, ph_overview_summary = None, ph_sequencing_rationale = None,
      ph_cross_cutting_constraints = None, ph_kill_criteria_refs = None, ph_advisory = None\<rparr>"

text \<open>
  A plan. The schema-2.0 blocks the modelled code only tests for presence or passes through are
  kept as the \<open>json\<close> value the server sent (\<open>pl_rest\<close>, read by \<open>planValidity\<close>).
\<close>

record plan =
  pl_schema_version :: "string option"
  pl_name :: string
  pl_phases :: "phase list"
  pl_test_targets :: "test_target list option"
  pl_deferred :: "deferred_entry list option"
  pl_rest :: json

section \<open>Sessions and project summaries\<close>

record flow_info =
  fl_feature :: string
  fl_phase :: string
  fl_phase_index :: int
  fl_total_phases :: int

record session =
  s_sid :: string
  s_cwd :: string
  s_worktree :: string
  s_branch :: string
  s_event :: string
  s_type :: string
  s_msg :: string
  s_ts :: string
  s_status :: session_status
  s_flow :: "flow_info option"

record project_summary =
  ps_project :: string
  ps_path :: string
  ps_phases :: int
  ps_progress :: rat
  ps_has_plan :: bool
  ps_lifecycle :: "string option"
  ps_plan_dir :: "string option"
  ps_schema_version :: "string option"
  ps_active_session_count :: "int option"
  ps_last_activity :: "string option"

section \<open>Autopilot\<close>

record autopilot_phase =
  ap_name :: string
  ap_status :: autopilot_phase_status
  ap_duration_s :: "rat option"
  ap_cost :: "rat option"
  ap_artifact :: "string option"
  ap_input_tokens :: "int option"
  ap_cache_creation_tokens :: "int option"
  ap_cache_read_tokens :: "int option"
  ap_output_tokens :: "int option"
  ap_num_turns :: "int option"
  ap_started_at :: "string option"
  ap_ended_at :: "string option"

record autopilot_session =
  as_task :: string
  as_project :: "string option"
  as_branch :: "string option"
  as_status :: autopilot_session_status
  as_phases :: "autopilot_phase list"
  as_elapsed_s :: rat
  as_cost :: "rat option"
  as_log_path :: "string option"
  as_stream_path :: "string option"

section \<open>Stream events\<close>

datatype content_block_type = BText | BToolUse | BThinking | BToolResult

record stream_content_block =
  b_type :: content_block_type
  b_text :: "string option"
  b_thinking :: "string option"
  b_name :: "string option"
  b_input :: "json option"
  b_content :: "json option"

datatype stream_event_type = EPhase | EAssistant | EUser | EResult | EOrchestrator

record stream_event =
  e_type :: stream_event_type
  e_phase :: "string option"
  e_status :: "string option"
  e_duration_s :: "rat option"
  e_ts :: "string option"
  e_message :: "stream_content_block list option"
  e_msg :: "string option"
  e_subtype :: "string option"
  e_total_cost_usd :: "rat option"
  e_duration_ms :: "rat option"
  e_num_turns :: "int option"
  e_is_error :: "bool option"

definition mk_event :: "stream_event_type \<Rightarrow> stream_event" where
  "mk_event ty =
     \<lparr>e_type = ty, e_phase = None, e_status = None, e_duration_s = None, e_ts = None,
      e_message = None, e_msg = None, e_subtype = None, e_total_cost_usd = None,
      e_duration_ms = None, e_num_turns = None, e_is_error = None\<rparr>"

section \<open>Features\<close>

datatype pipeline_type = PipelineFull | PipelineLight

datatype stuck_reason = AttractorLoop | PermissionOscillation

record stuck_info =
  si_reason :: stuck_reason
  si_tool :: "string option"
  si_file :: "string option"

record feature_session =
  fs_sid :: string
  fs_status :: string
  fs_last_ts :: string

record feature =
  f_name :: string
  f_project :: string
  f_project_root :: string
  f_phase :: string
  f_phase_index :: int
  f_total_phases :: int
  f_pipeline_type :: pipeline_type
  f_artifacts :: "(string \<times> string) list"
  f_sessions :: "feature_session list"
  f_status :: feature_status
  f_stuck_info :: "stuck_info option"
  f_last_activity :: "string option"
  f_is_autopilot :: bool
  f_lifecycle :: "string option"
  f_done_at :: "string option"
  f_plan_dir :: "string option"
  f_plan_task_id :: "string option"
  f_plan_task_name :: "string option"
  f_plan_task_estimate_hours :: "rat option"

section \<open>Status vocabularies of the views\<close>

datatype wf_status = WfRunning | WfCompleted | WfStalled | WfFault | WfQueued

datatype wf_phase_type =
  PtAutopilot | PtDevelopment | PtRefactor | PtReview | PtDocumentation | PtManual | PtSetup | PtGate

datatype grinder_pass_status = GpPending | GpInProgress | GpCompleted | GpFailed

datatype grinder_event_type =
  GeStarted | GeCompleted | GeFailed | GeAbandoned | GeDeferred | GePaused | GeResumed

end
