(* ===== verification/DagLayoutCorrect.thy ===== *)
theory DagLayoutCorrect
  imports DagLayout
begin

text \<open>
  What \<open>DagLayout\<close> guarantees: on an acyclic dependency graph the layout exists, every task gets
  one cell of its own inside the reported bounds, and every dependency is drawn in a column
  strictly left of its dependent. On a cycle reachable from a root the queue loop does not return.
\<close>

section \<open>Edges\<close>

definition dep_rel :: "task list \<Rightarrow> (string \<times> string) set" where
  "dep_rel tasks = {(d, t_id t) | d t. t \<in> set tasks \<and> d \<in> set (known_deps (by_id tasks) t)}"

definition edges :: "child_map \<Rightarrow> (string \<times> string) set" where
  "edges ch = {(p, c). c \<in> set (om_get_or [] ch p)}"

lemma fold_set_keys: "set (om_keys (fold (\<lambda>x. om_set (k x) (v x)) xs m)) = k ` set xs \<union> set (om_keys m)"
  by (induction xs arbitrary: m) (auto simp: om_keys_set simp del: set_map list.set_map)

lemma fold_set_get:
  "\<forall>x\<in>set xs. k x = i \<longrightarrow> v x = y \<Longrightarrow>
     om_get (fold (\<lambda>x. om_set (k x) (v x)) xs m) i = (if i \<in> k ` set xs then Some y else om_get m i)"
  by (induction xs arbitrary: m) auto

lemma keys_by_id: "set (om_keys (by_id tasks)) = t_id ` set tasks"
  unfolding by_id_def fold_set_keys by simp

lemma om_has_by_id [simp]: "om_has (by_id tasks) i \<longleftrightarrow> i \<in> t_id ` set tasks"
  by (simp only: om_has_iff keys_by_id)

lemma by_id_get:
  assumes "distinct (map t_id tasks)" and "t \<in> set tasks"
  shows "om_get (by_id tasks) (t_id t) = Some t"
proof -
  have "\<forall>x\<in>set tasks. t_id x = t_id t \<longrightarrow> x = t"
    using assms by (auto simp: distinct_map inj_on_def)
  with assms(2) show ?thesis
    unfolding by_id_def by (subst fold_set_get [where y = t]) auto
qed

lemma dep_rel_ids: "(p, c) \<in> dep_rel tasks \<Longrightarrow> p \<in> t_id ` set tasks \<and> c \<in> t_id ` set tasks"
  by (auto simp: dep_rel_def known_deps_def)

lemma finite_dep_rel: "finite (dep_rel tasks)"
  by (rule finite_subset [of _ "t_id ` set tasks \<times> t_id ` set tasks"]) (auto dest: dep_rel_ids)

lemma set_add_children:
  "set (om_get_or [] (fold (add_child c) ds ch) d) =
     set (om_get_or [] ch d) \<union> (if d \<in> set ds then {c} else {})"
  by (induction ds arbitrary: ch) (auto simp: add_child_def)

lemma link_fold:
  "set (om_get_or [] (fst (fold (link_task b) ts (ch, rs))) d) =
     set (om_get_or [] ch d) \<union> {t_id t | t. t \<in> set ts \<and> d \<in> set (known_deps b t)}
   \<and> snd (fold (link_task b) ts (ch, rs)) = rs @ map t_id (filter (\<lambda>t. known_deps b t = []) ts)"
proof (induction ts arbitrary: ch rs)
  case Nil
  then show ?case by simp
next
  case (Cons t ts)
  have "link_task b t (ch, rs) =
      (fold (add_child (t_id t)) (known_deps b t) ch, if known_deps b t = [] then rs @ [t_id t] else rs)"
    by (simp add: link_task_def Let_def)
  then show ?case
    by (auto simp: Cons.IH set_add_children)
qed

lemma edges_children_of: "edges (children_of tasks) = dep_rel tasks"
  unfolding edges_def dep_rel_def children_of_def link_tasks_def
  by (auto simp: link_fold om_get_or_def [of _ "[]"])

lemma roots_of_link: "snd (link_tasks tasks) = map t_id (filter (\<lambda>t. known_deps (by_id tasks) t = []) tasks)"
  by (simp add: link_tasks_def link_fold)

lemma layout_roots_ids: "r \<in> set (layout_roots tasks) \<Longrightarrow> r \<in> t_id ` set tasks"
  by (auto simp: layout_roots_def roots_of_link Let_def split: if_splits list.splits)

lemma layout_roots_no_deps:
  "t \<in> set tasks \<Longrightarrow> known_deps (by_id tasks) t = [] \<Longrightarrow> t_id t \<in> set (layout_roots tasks)"
  by (auto simp: layout_roots_def roots_of_link Let_def filter_empty_conv)

section \<open>The depth recursion always has enough fuel\<close>

lemma compute_depth_fuel:
  assumes "finite U" and "\<And>p. set (om_get_or [] ch p) \<subseteq> U"
  shows "i \<in> U \<Longrightarrow> card (U - set seen) < n \<Longrightarrow>
      \<exists>d s' dep'. compute_depth n ch i seen dep = Some (d, s', dep') \<and> set seen \<subseteq> set s'"
    and "set cs \<subseteq> U \<Longrightarrow> card (U - set seen) < n \<Longrightarrow>
      \<exists>d s' dep'. compute_kids n ch cs mk seen dep = Some (d, s', dep') \<and> set seen \<subseteq> set s'"
  using assms(2)
proof (induction n ch i seen dep and n ch cs mk seen dep rule: compute_depth_compute_kids.induct)
  case (1 ch i seen dep)
  then show ?case by simp
next
  case (2 n ch i seen dep)
  show ?case
  proof (cases "om_get dep i")
    case None
    show ?thesis
    proof (cases "i \<in> set seen \<or> om_get_or [] ch i = []")
      case True
      with None show ?thesis by auto
    next
      case False
      have "card (U - insert i (set seen)) < card (U - set seen)"
        using False 2(2) assms(1) by (metis Diff_insert DiffI card_Diff1_less finite_Diff)
      then have "card (U - set (oset_add i seen)) < n" using 2(3) by simp
      moreover have "set (om_get_or [] ch i) \<subseteq> U" using 2(4) .
      ultimately obtain d s' dep' where
        "compute_kids n ch (om_get_or [] ch i) 0 (oset_add i seen) dep = Some (d, s', dep')"
        "set (oset_add i seen) \<subseteq> set s'"
        using 2(1) [OF None] False 2(4) by fastforce
      with None False show ?thesis by auto
    qed
  qed auto
next
  case (3 n ch mk seen dep)
  then show ?case by simp
next
  case (4 n ch c cs mk seen dep)
  then obtain d s' dep' where d: "compute_depth n ch c seen dep = Some (d, s', dep')" "set seen \<subseteq> set s'"
    by fastforce
  have "card (U - set s') \<le> card (U - set seen)"
    using d(2) assms(1) by (intro card_mono) auto
  then have "card (U - set s') < n" using 4(4) by simp
  with 4(2) [OF d(1) refl refl] 4(3,5) d show ?case by fastforce
qed

lemma root_depths_fuel:
  assumes "finite U" and "\<And>p. set (om_get_or [] ch p) \<subseteq> U" and "set rs \<subseteq> U" and "card U < n"
  shows "\<exists>dep'. root_depths n ch rs dep = Some dep'"
  using assms(3)
proof (induction rs arbitrary: dep)
  case (Cons r rs)
  then obtain d s' dep' where "compute_depth n ch r [] dep = Some (d, s', dep')"
    using compute_depth_fuel(1) [of U ch r "[]" n dep] assms by auto
  with Cons show ?case by simp
qed simp

lemma layout_depths:
  "\<exists>dep. root_depths (Suc (length tasks)) (children_of tasks) (layout_roots tasks) [] = Some dep"
proof (rule root_depths_fuel)
  show "set (om_get_or [] (children_of tasks) p) \<subseteq> t_id ` set tasks" for p
    using edges_children_of [of tasks] by (auto simp: edges_def dest: dep_rel_ids)
  show "set (layout_roots tasks) \<subseteq> t_id ` set tasks" using layout_roots_ids by blast
  show "card (t_id ` set tasks) < Suc (length tasks)"
    by (metis card_image_le card_length le_trans less_Suc_eq_le List.finite_set)
qed simp

interpretation depth_order: js_comparator "depth_cmp dep" for dep
  by unfold_locales (auto simp: depth_cmp_def)

section \<open>The queue loop\<close>

text \<open>The runs of the loop that return, as an inductive relation.\<close>

inductive bfs_run :: "child_map \<Rightarrow> (string \<times> nat) list \<Rightarrow> (string, nat) omap \<Rightarrow> (string, nat) omap \<Rightarrow> bool"
  for ch where
  done_run: "bfs_run ch [] colOf colOf"
| skip: "om_get colOf i = Some prev \<Longrightarrow> col \<le> prev \<Longrightarrow> bfs_run ch rest colOf res \<Longrightarrow>
     bfs_run ch ((i, col) # rest) colOf res"
| visit: "(\<And>prev. om_get colOf i = Some prev \<Longrightarrow> prev < col) \<Longrightarrow>
     bfs_run ch (rest @ map (\<lambda>c. (c, Suc col)) (om_get_or [] ch i)) (om_set i col colOf) res \<Longrightarrow>
     bfs_run ch ((i, col) # rest) colOf res"

lemma bfs_cols_run:
  assumes "bfs_cols ch q colOf = Some res"
  shows "bfs_run ch q colOf res"
proof (rule bfs_cols.raw_induct [where P = "\<lambda>ch q colOf res. bfs_run ch q colOf res", OF _ assms])
  fix f ch q colOf res
  assume IH: "\<And>ch q colOf res. f ch q colOf = Some res \<Longrightarrow> bfs_run ch q colOf res"
    and step: "(case q of
        [] \<Rightarrow> Some colOf
      | (i, col) # rest \<Rightarrow>
          if (case om_get colOf i of None \<Rightarrow> False | Some prev \<Rightarrow> col \<le> prev) then f ch rest colOf
          else f ch (rest @ map (\<lambda>c. (c, Suc col)) (om_get_or [] ch i)) (om_set i col colOf)) = Some res"
  show "bfs_run ch q colOf res"
  proof (cases q)
    case Nil
    with step show ?thesis by (auto intro: bfs_run.intros)
  next
    case (Cons x rest)
    obtain i col where x: "x = (i, col)" by (cases x)
    show ?thesis
    proof (cases "\<exists>prev. om_get colOf i = Some prev \<and> col \<le> prev")
      case True
      with step Cons x have "f ch rest colOf = Some res" by auto
      from bfs_run.skip [OF _ _ IH [OF this]] True Cons x show ?thesis by blast
    next
      case False
      then have "\<not> (case om_get colOf i of None \<Rightarrow> False | Some prev \<Rightarrow> col \<le> prev)"
        by (auto split: option.splits)
      with step Cons x have
        "f ch (rest @ map (\<lambda>c. (c, Suc col)) (om_get_or [] ch i)) (om_set i col colOf) = Some res"
        by simp
      from IH [OF this] False Cons x show ?thesis by (auto intro!: bfs_run.visit simp: not_le)
    qed
  qed
qed

definition bfs_inv :: "child_map \<Rightarrow> (string \<times> nat) list \<Rightarrow> (string, nat) omap \<Rightarrow> bool" where
  "bfs_inv ch q colOf \<longleftrightarrow>
     (\<forall>p k c. om_get colOf p = Some k \<and> (p, c) \<in> edges ch \<longrightarrow>
        (\<exists>k'. om_get colOf c = Some k' \<and> k < k') \<or> (c, Suc k) \<in> set q)"

lemma bfs_run_inv: "bfs_run ch q colOf res \<Longrightarrow> bfs_inv ch q colOf \<Longrightarrow> bfs_inv ch [] res"
proof (induction rule: bfs_run.induct)
  case (skip colOf i prev col rest res)
  have "bfs_inv ch rest colOf"
    unfolding bfs_inv_def
  proof (intro allI impI)
    fix p k c
    assume a: "om_get colOf p = Some k \<and> (p, c) \<in> edges ch"
    show "(\<exists>k'. om_get colOf c = Some k' \<and> k < k') \<or> (c, Suc k) \<in> set rest"
    proof (cases "(c, Suc k) = (i, col)")
      case True
      with skip(1,2) show ?thesis by auto
    next
      case False
      with skip.prems a show ?thesis unfolding bfs_inv_def by fastforce
    qed
  qed
  then show ?case by (rule skip.IH)
next
  case (visit colOf i col rest res)
  have "bfs_inv ch (rest @ map (\<lambda>c. (c, Suc col)) (om_get_or [] ch i)) (om_set i col colOf)"
    unfolding bfs_inv_def
  proof (intro allI impI)
    fix p k c
    assume a: "om_get (om_set i col colOf) p = Some k \<and> (p, c) \<in> edges ch"
    show "(\<exists>k'. om_get (om_set i col colOf) c = Some k' \<and> k < k') \<or>
        (c, Suc k) \<in> set (rest @ map (\<lambda>c. (c, Suc col)) (om_get_or [] ch i))"
    proof (cases "p = i")
      case True
      with a show ?thesis by (auto simp: edges_def)
    next
      case False
      with a have p: "om_get colOf p = Some k" by simp
      with a visit.prems have
        "(\<exists>k'. om_get colOf c = Some k' \<and> k < k') \<or> (c, Suc k) \<in> set ((i, col) # rest)"
        unfolding bfs_inv_def by blast
      then show ?thesis using visit(1) by fastforce
    qed
  qed
  then show ?case by (rule visit.IH)
qed simp

lemma in_om_keys: "k \<in> set (om_keys m) \<longleftrightarrow> (\<exists>v. om_get m k = Some v)"
  by (metis map_of_eq_None_iff not_None_eq set_map)

lemma set_keys_set: "set (om_keys (om_set k v m)) = insert k (set (om_keys m))"
  by (simp only: om_keys_set set_oset_add)

lemma bfs_run_dom:
  "bfs_run ch q colOf res \<Longrightarrow> set (om_keys colOf) \<union> fst ` set q \<subseteq> set (om_keys res)"
proof (induction rule: bfs_run.induct)
  case (skip colOf i prev col rest res)
  then show ?case using om_get_in [of colOf i prev] by auto
next
  case (visit colOf i col rest res)
  then show ?case unfolding set_keys_set by auto
qed simp

lemma bfs_run_keys:
  "bfs_run ch q colOf res \<Longrightarrow> (\<And>p c. (p, c) \<in> edges ch \<Longrightarrow> c \<in> S) \<Longrightarrow>
     set (om_keys colOf) \<union> fst ` set q \<subseteq> S \<Longrightarrow> distinct (om_keys colOf) \<Longrightarrow>
     set (om_keys res) \<subseteq> S \<and> distinct (om_keys res)"
proof (induction rule: bfs_run.induct)
  case (visit colOf i col rest res)
  have "set (om_get_or [] ch i) \<subseteq> S" using visit.prems(1) by (auto simp: edges_def)
  then have "set (om_keys (om_set i col colOf)) \<union>
      fst ` set (rest @ map (\<lambda>c. (c, Suc col)) (om_get_or [] ch i)) \<subseteq> S"
    using visit.prems(2) unfolding set_keys_set by auto
  with visit.IH visit.prems(1,3) show ?case by simp
qed auto

text \<open>
  Acyclic graphs: replacing a queued node by its children decreases the multiset of queued nodes.
\<close>

lemma bfs_terminates:
  assumes "wf ((edges ch)\<inverse>)"
  shows "\<exists>res. bfs_cols ch q colOf = Some res"
proof (induction "mset (map fst q)" arbitrary: q colOf rule: wf_induct_rule [OF wf_mult [OF assms]])
  case (1 q)
  show ?case
  proof (cases q)
    case Nil
    then show ?thesis by (simp add: bfs_cols.simps)
  next
    case (Cons x rest)
    obtain i col where x: "x = (i, col)" by (cases x)
    have skip: "(mset (map fst rest), mset (map fst q)) \<in> mult ((edges ch)\<inverse>)"
      using one_step_implies_mult [of "{#i#}" "{#}" "(edges ch)\<inverse>" "mset (map fst rest)"] Cons x by simp
    have visit: "(mset (map fst (rest @ map (\<lambda>c. (c, Suc col)) (om_get_or [] ch i))), mset (map fst q))
        \<in> mult ((edges ch)\<inverse>)"
      using one_step_implies_mult [of "{#i#}" "mset (om_get_or [] ch i)" "(edges ch)\<inverse>" "mset (map fst rest)"]
        Cons x by (simp add: edges_def comp_def)
    show ?thesis
      using 1 [OF skip, of colOf] 1 [OF visit, of "om_set i col colOf"] Cons x
      by (subst bfs_cols.simps) simp
  qed
qed

section \<open>Reachable tasks\<close>

lemma roots_reach:
  assumes "acyclic (dep_rel tasks)" and "i \<in> t_id ` set tasks"
  shows "\<exists>r\<in>set (layout_roots tasks). (r, i) \<in> (dep_rel tasks)\<^sup>*"
proof -
  have "wf (dep_rel tasks)" by (intro finite_acyclic_wf finite_dep_rel assms(1))
  then show ?thesis using assms(2)
  proof (induction i)
    case (less i)
    show ?case
    proof (cases "\<exists>d. (d, i) \<in> dep_rel tasks")
      case True
      then show ?thesis using less.IH dep_rel_ids by (meson rtrancl.rtrancl_into_rtrancl)
    next
      case False
      obtain t where t: "t \<in> set tasks" "i = t_id t" using less.prems by blast
      have "known_deps (by_id tasks) t = []"
      proof (rule ccontr)
        assume "known_deps (by_id tasks) t \<noteq> []"
        then obtain d where "d \<in> set (known_deps (by_id tasks) t)" using hd_in_set by blast
        with t False show False unfolding dep_rel_def by blast
      qed
      with t layout_roots_no_deps show ?thesis by blast
    qed
  qed
qed

lemma bfs_result:
  assumes "bfs_run ch (map (\<lambda>i. (i, 0)) rs) [] res"
  shows bfs_result_step: "om_get res p = Some k \<Longrightarrow> (p, c) \<in> edges ch \<Longrightarrow> \<exists>k'. om_get res c = Some k' \<and> k < k'"
    and bfs_result_roots: "r \<in> set rs \<Longrightarrow> \<exists>k. om_get res r = Some k"
    and bfs_result_keys: "(\<And>p c. (p, c) \<in> edges ch \<Longrightarrow> c \<in> S) \<Longrightarrow> set rs \<subseteq> S \<Longrightarrow>
          set (om_keys res) \<subseteq> S \<and> distinct (om_keys res)"
proof -
  show "om_get res p = Some k \<Longrightarrow> (p, c) \<in> edges ch \<Longrightarrow> \<exists>k'. om_get res c = Some k' \<and> k < k'"
    using bfs_run_inv [OF assms] by (auto simp: bfs_inv_def)
  show "r \<in> set rs \<Longrightarrow> \<exists>k. om_get res r = Some k"
  proof -
    assume "r \<in> set rs"
    then have "r \<in> set (om_keys res)" using bfs_run_dom [OF assms] by (auto simp: image_image)
    then show ?thesis by (simp only: in_om_keys)
  qed
  show "(\<And>p c. (p, c) \<in> edges ch \<Longrightarrow> c \<in> S) \<Longrightarrow> set rs \<subseteq> S \<Longrightarrow>
          set (om_keys res) \<subseteq> S \<and> distinct (om_keys res)"
    using bfs_run_keys [OF assms, of S] by (simp add: image_image)
qed

lemma bfs_result_reach:
  assumes "bfs_run ch (map (\<lambda>i. (i, 0)) rs) [] res" and "(p, c) \<in> (edges ch)\<^sup>*" and "om_get res p = Some k"
  shows "\<exists>k'. om_get res c = Some k' \<and> k \<le> k'"
  using assms(2,3)
proof (induction)
  case (step y z)
  then show ?case using bfs_result_step [OF assms(1)] by (meson le_trans less_imp_le)
qed auto

lemma bfs_result_acyclic:
  assumes "bfs_run ch (map (\<lambda>i. (i, 0)) rs) [] res" and "r \<in> set rs" and "(r, x) \<in> (edges ch)\<^sup>*"
  shows "(x, x) \<notin> (edges ch)\<^sup>+"
proof
  assume "(x, x) \<in> (edges ch)\<^sup>+"
  then obtain y where y: "(x, y) \<in> edges ch" "(y, x) \<in> (edges ch)\<^sup>*" by (meson tranclD)
  obtain k where k: "om_get res x = Some k"
    using bfs_result_roots [OF assms(1,2)] bfs_result_reach [OF assms(1,3)] by blast
  then obtain k' where "om_get res y = Some k'" "k < k'" using bfs_result_step [OF assms(1)] y(1) by blast
  with bfs_result_reach [OF assms(1) y(2)] k show False by fastforce
qed

section \<open>Placement as a list of cells\<close>

definition conn_cells :: "(nat, string list) omap \<Rightarrow> (string \<times> nat \<times> nat) list" where
  "conn_cells groups = concat (map (\<lambda>(c, ids). map (\<lambda>(r, i). (i, c, r)) (enumerate 0 ids)) groups)"

definition iso_cells :: "nat \<Rightarrow> string list \<Rightarrow> (string \<times> nat \<times> nat) list" where
  "iso_cells n ids = map (\<lambda>(r, i). (i, 0, r)) (enumerate n ids)"

definition cell_node :: "(string, task) omap \<Rightarrow> child_map \<Rightarrow> string \<times> nat \<times> nat \<Rightarrow> tree_node" where
  "cell_node byId ch = (\<lambda>(i, c, r). \<lparr>tn_task = the (om_get byId i), tn_col = c, tn_row = r,
     tn_children = filter (om_has byId) (om_get_or [] ch i)\<rparr>)"

definition put_cell :: "(string, task) omap \<Rightarrow> child_map \<Rightarrow> string \<times> nat \<times> nat \<Rightarrow> placement \<Rightarrow> placement" where
  "put_cell byId ch x = (\<lambda>(nodes, mc, mr).
     (om_set (fst x) (cell_node byId ch x) nodes, max mc (fst (snd x)), max mr (snd (snd x))))"

lemma put_cells:
  assumes "fold (put_cell byId ch) xs (nodes, mc, mr) = (nodes', mc', mr')"
  shows "nodes' = fold (\<lambda>x. om_set (fst x) (cell_node byId ch x)) xs nodes"
    and "mc \<le> mc' \<and> mr \<le> mr' \<and> (\<forall>(i, c, r)\<in>set xs. c \<le> mc' \<and> r \<le> mr')"
  using assms
  by (induction xs arbitrary: nodes mc mr) (fastforce simp: put_cell_def)+

lemma place_group_cells:
  "place_group byId ch (c, ids) = fold (put_cell byId ch) (map (\<lambda>(r, i). (i, c, r)) (enumerate 0 ids))"
proof -
  have "place_connected byId ch c = (\<lambda>x. put_cell byId ch ((\<lambda>(r, i). (i, c, r)) x))"
    by (auto simp: fun_eq_iff place_connected_def put_cell_def cell_node_def max_def)
  then show ?thesis by (simp add: place_group_def fold_map comp_def)
qed

lemma place_groups_cells: "fold (place_group byId ch) groups = fold (put_cell byId ch) (conn_cells groups)"
proof (induction groups)
  case (Cons g gs)
  then show ?case by (cases g) (simp add: conn_cells_def place_group_cells)
qed (simp add: conn_cells_def)

lemma place_isolated_cells:
  "\<forall>i\<in>set ids. om_get_or [] ch i = [] \<Longrightarrow>
     fold (place_isolated byId) ids (p, n) = (fold (put_cell byId ch) (iso_cells n ids) p, n + length ids)"
proof (induction ids arbitrary: p n)
  case (Cons i ids)
  have "place_isolated byId i (p, n) = (put_cell byId ch (i, 0, n) p, Suc n)"
    using Cons.prems by (cases p) (simp add: place_isolated_def put_cell_def cell_node_def max_def)
  with Cons show ?case by (simp add: iso_cells_def)
qed (simp add: iso_cells_def)

lemma place_all_cells:
  assumes "\<forall>i\<in>set isos. om_get_or [] ch i = []"
  shows "\<exists>n. place_all byId ch isos groups =
      fold (put_cell byId ch) (conn_cells groups @ iso_cells n isos) ([], 0, 0) \<and>
      (\<forall>(i, c, r)\<in>set (conn_cells groups). r < n)"
proof -
  obtain nodes mc mr where p: "fold (put_cell byId ch) (conn_cells groups) ([], 0, 0) = (nodes, mc, mr)"
    by (cases "fold (put_cell byId ch) (conn_cells groups) ([], 0, 0)") auto
  define n where "n = (if groups \<noteq> [] then Suc mr else 0)"
  have "\<forall>(i, c, r)\<in>set (conn_cells groups). r < n"
  proof (cases "groups = []")
    case False
    then show ?thesis using put_cells(2) [OF p] by (fastforce simp: n_def)
  qed (simp add: conn_cells_def)
  moreover have "place_all byId ch isos groups =
      fold (put_cell byId ch) (conn_cells groups @ iso_cells n isos) ([], 0, 0)"
    using assms p by (simp add: place_all_def place_groups_cells place_isolated_cells n_def Let_def iso_cells_def)
  ultimately show ?thesis by blast
qed

lemma in_conn_cells:
  "(i, c, r) \<in> set (conn_cells groups) \<longleftrightarrow> (\<exists>ids. (c, ids) \<in> set groups \<and> r < length ids \<and> ids ! r = i)"
  by (fastforce simp: conn_cells_def in_set_enumerate_eq)

lemma in_iso_cells:
  "(i, c, r) \<in> set (iso_cells n ids) \<longleftrightarrow> c = 0 \<and> n \<le> r \<and> r < n + length ids \<and> ids ! (r - n) = i"
proof -
  have "(i, c, r) \<in> set (iso_cells n ids) \<longleftrightarrow> c = 0 \<and> (r, i) \<in> set (enumerate n ids)"
    by (force simp: iso_cells_def)
  then show ?thesis by (auto simp: in_set_enumerate_eq)
qed

section \<open>Column groups\<close>

lemma col_groups_get:
  "om_get_or [] (fold (\<lambda>(i, col) g. if i \<in> set isos then g else om_set col (om_get_or [] g col @ [i]) g) cs g) c =
     om_get_or [] g c @ map fst (filter (\<lambda>(i, k). k = c \<and> i \<notin> set isos) cs)
   \<and> (distinct (om_keys g) \<longrightarrow>
     distinct (om_keys (fold (\<lambda>(i, col) g. if i \<in> set isos then g else om_set col (om_get_or [] g col @ [i]) g) cs g)))"
  by (induction cs arbitrary: g) (auto simp: distinct_om_keys_set simp del: map_map)

lemma in_col_groups:
  assumes "(c, ids) \<in> set (col_groups isos colOf)"
  shows "ids = map fst (filter (\<lambda>(i, k). k = c \<and> i \<notin> set isos) colOf)"
proof -
  have "distinct (om_keys (col_groups isos colOf))"
    using col_groups_get [of isos colOf "[]"] by (simp add: col_groups_def)
  then have "om_get (col_groups isos colOf) c = Some ids" using assms by (rule map_of_is_SomeI)
  then have "ids = om_get_or [] (col_groups isos colOf) c" by (simp add: om_get_or_def)
  also have "\<dots> = om_get_or [] [] c @ map fst (filter (\<lambda>(i, k). k = c \<and> i \<notin> set isos) colOf)"
    unfolding col_groups_def using col_groups_get [of isos colOf "[]" c] by (rule conjunct1)
  finally show ?thesis by (simp add: om_get_or_def)
qed

lemma col_groups_has:
  assumes "(i, k) \<in> set colOf" and "i \<notin> set isos"
  shows "\<exists>ids. (k, ids) \<in> set (col_groups isos colOf) \<and> i \<in> set ids"
proof -
  let ?ids = "om_get_or [] (col_groups isos colOf) k"
  have e: "?ids = map fst (filter (\<lambda>(j, c). c = k \<and> j \<notin> set isos) colOf)"
    using col_groups_get [of isos colOf "[]" k] by (simp add: col_groups_def om_get_or_def)
  then have i: "i \<in> set ?ids" using assms by force
  then obtain ids where "om_get (col_groups isos colOf) k = Some ids"
    by (cases "om_get (col_groups isos colOf) k") (auto simp: om_get_or_def)
  with i show ?thesis by (auto simp: om_get_or_def dest: map_of_SomeD)
qed

lemma fill_cols_get:
  "om_get (fill_cols tasks m) i =
     (case om_get m i of Some k \<Rightarrow> Some k | None \<Rightarrow> if i \<in> t_id ` set tasks then Some 0 else None)
   \<and> (distinct (om_keys m) \<longrightarrow> distinct (om_keys (fill_cols tasks m)))"
  unfolding fill_cols_def
  by (induction tasks arbitrary: m) (auto simp: om_has_def split: option.splits)

definition cells_ok :: "(string \<times> nat \<times> nat) list \<Rightarrow> bool" where
  "cells_ok xs \<longleftrightarrow> inj_on fst (set xs) \<and> inj_on snd (set xs)"

lemma conn_cells_ok:
  assumes "distinct (om_keys colOf)"
    and "(i, c, r) \<in> set (conn_cells (col_groups isos colOf))"
    and "(i', c', r') \<in> set (conn_cells (col_groups isos colOf))"
  shows "i \<notin> set isos \<and> om_get colOf i = Some c"
    and "(i = i' \<longrightarrow> r = r') \<and> (c = c' \<and> r = r' \<longrightarrow> i = i')"
proof -
  let ?ids = "\<lambda>c. map fst (filter (\<lambda>(i, k). k = c \<and> i \<notin> set isos) colOf)"
  have 1: "r < length (?ids c) \<and> ?ids c ! r = i"
    using assms(2) in_col_groups unfolding in_conn_cells by blast
  have 2: "r' < length (?ids c') \<and> ?ids c' ! r' = i'"
    using assms(3) in_col_groups unfolding in_conn_cells by blast
  from 1 have "i \<in> set (?ids c)" by (metis nth_mem)
  then show a: "i \<notin> set isos \<and> om_get colOf i = Some c" using assms(1) by auto
  from 2 have "i' \<in> set (?ids c')" by (metis nth_mem)
  then have "om_get colOf i' = Some c'" using assms(1) by auto
  moreover have "distinct (?ids c)" using assms(1) by (rule distinct_map_filter)
  ultimately show "(i = i' \<longrightarrow> r = r') \<and> (c = c' \<and> r = r' \<longrightarrow> i = i')"
    using 1 2 a by (metis nth_eq_iff_index_eq option.inject)
qed

lemma all_cells_ok:
  assumes "distinct (om_keys colOf)" and "distinct isos"
    and "\<forall>(i, c, r)\<in>set (conn_cells (col_groups isos colOf)). r < n"
  shows "cells_ok (conn_cells (col_groups isos colOf) @ iso_cells n isos)"
proof -
  have iso: "i = i' \<longleftrightarrow> r = r'" if "(i, c, r) \<in> set (iso_cells n isos)" "(i', c', r') \<in> set (iso_cells n isos)"
    for i c r i' c' r'
  proof -
    have "i = isos ! (r - n)" "i' = isos ! (r' - n)" "r - n < length isos" "r' - n < length isos" "n \<le> r" "n \<le> r'"
      using that unfolding in_iso_cells by auto
    with assms(2) show ?thesis by (metis eq_diff_iff nth_eq_iff_index_eq)
  qed
  have mix: "i \<noteq> i' \<and> (c, r) \<noteq> (c', r')"
    if "(i, c, r) \<in> set (conn_cells (col_groups isos colOf))" "(i', c', r') \<in> set (iso_cells n isos)"
    for i c r i' c' r'
  proof -
    have "i' \<in> set isos" "n \<le> r'" using that(2) unfolding in_iso_cells by auto
    moreover have "i \<notin> set isos" using conn_cells_ok(1) [OF assms(1) that(1) that(1)] by simp
    moreover have "r < n" using assms(3) that(1) by auto
    ultimately show ?thesis by auto
  qed
  have iso0: "c = 0" if "(i, c, r) \<in> set (iso_cells n isos)" for i c r
    using that unfolding in_iso_cells by simp
  show ?thesis
    unfolding cells_ok_def inj_on_def
  proof (intro conjI ballI impI)
    fix x y
    assume x: "x \<in> set (conn_cells (col_groups isos colOf) @ iso_cells n isos)"
      and y: "y \<in> set (conn_cells (col_groups isos colOf) @ iso_cells n isos)"
    obtain i c r i' c' r' where xy: "x = (i, c, r)" "y = (i', c', r')" by (metis prod.collapse)
    have conn: "x \<in> set (conn_cells (col_groups isos colOf)) \<Longrightarrow> y \<in> set (conn_cells (col_groups isos colOf)) \<Longrightarrow>
        (i = i' \<longrightarrow> x = y) \<and> ((c, r) = (c', r') \<longrightarrow> x = y)"
      using conn_cells_ok [OF assms(1), of i c r isos i' c' r'] conn_cells_ok(1) [OF assms(1), of i' c' r' isos i' c' r'] xy
      by auto
    show "fst x = fst y \<Longrightarrow> x = y" and "snd x = snd y \<Longrightarrow> x = y"
      using x y xy conn mix [of i c r i' c' r'] mix [of i' c' r' i c r] iso [of i c r i' c' r'] iso0 [of i c r] iso0 [of i' c' r']
      by auto
  qed
qed

lemma in_isolated:
  "i \<in> set (isolated_ids byId ch tasks) \<longleftrightarrow>
     (\<exists>t\<in>set tasks. t_id t = i \<and> known_deps byId t = [] \<and> om_get_or [] ch i = [])"
  by (auto simp: isolated_ids_def)

section \<open>The layout as a whole\<close>

lemma layout_runs:
  assumes "tasks \<noteq> []" and "buildTreeLayout tasks = Some L"
  shows "\<exists>rs colOf0 isos n xs.
      set rs = set (layout_roots tasks)
    \<and> bfs_run (children_of tasks) (map (\<lambda>i. (i, 0)) rs) [] colOf0
    \<and> isos = isolated_ids (by_id tasks) (children_of tasks) tasks
    \<and> xs = conn_cells (col_groups isos (fill_cols tasks colOf0)) @ iso_cells n isos
    \<and> fold (put_cell (by_id tasks) (children_of tasks)) xs ([], 0, 0) = (lr_nodes L, lr_maxCol L, lr_maxRow L)
    \<and> (\<forall>(i, c, r)\<in>set (conn_cells (col_groups isos (fill_cols tasks colOf0))). r < n)"
proof -
  let ?ch = "children_of tasks" and ?b = "by_id tasks"
  obtain dep where dep: "root_depths (Suc (length tasks)) ?ch (layout_roots tasks) [] = Some dep"
    using layout_depths by blast
  let ?rs = "js_sort (depth_cmp dep) (layout_roots tasks)"
  obtain colOf0 where c: "bfs_cols ?ch (map (\<lambda>i. (i, 0)) ?rs) [] = Some colOf0"
    using assms dep by (auto simp: buildTreeLayout_def Let_def split: option.splits)
  define isos where "isos = isolated_ids ?b ?ch tasks"
  have L: "place_all ?b ?ch isos (col_groups isos (fill_cols tasks colOf0)) = (lr_nodes L, lr_maxCol L, lr_maxRow L)"
    using assms dep c by (auto simp: buildTreeLayout_def Let_def isos_def split: prod.splits)
  have "\<forall>i\<in>set isos. om_get_or [] ?ch i = []"
    using in_isolated unfolding isos_def by blast
  from place_all_cells [OF this, of ?b "col_groups isos (fill_cols tasks colOf0)"] L obtain n where
    "fold (put_cell ?b ?ch) (conn_cells (col_groups isos (fill_cols tasks colOf0)) @ iso_cells n isos) ([], 0, 0)
       = (lr_nodes L, lr_maxCol L, lr_maxRow L)"
    "\<forall>(i, c, r)\<in>set (conn_cells (col_groups isos (fill_cols tasks colOf0))). r < n" by auto
  then show ?thesis
    using bfs_cols_run [OF c] isos_def by (intro exI [of _ ?rs] exI [of _ colOf0] exI [of _ isos] exI [of _ n]) simp
qed

text \<open>
  The facts about the cells from which the properties follow: each task has one, no two share
  their position, the connected ones sit in the column the queue loop computed.
\<close>

lemma layout_cells:
  assumes "buildTreeLayout tasks = Some L"
  shows "\<exists>rs colOf0 xs.
      set rs = set (layout_roots tasks)
    \<and> bfs_run (children_of tasks) (map (\<lambda>i. (i, 0)) rs) [] colOf0
    \<and> cells_ok xs \<and> fst ` set xs = t_id ` set tasks
    \<and> (\<forall>i. om_get (lr_nodes L) i =
         (if i \<in> t_id ` set tasks then Some (cell_node (by_id tasks) (children_of tasks) (THE x. x \<in> set xs \<and> fst x = i))
          else None))
    \<and> (\<forall>(i, c, r)\<in>set xs. c \<le> lr_maxCol L \<and> r \<le> lr_maxRow L
        \<and> (i \<notin> set (isolated_ids (by_id tasks) (children_of tasks) tasks) \<longrightarrow>
             om_get (fill_cols tasks colOf0) i = Some c))"
proof (cases "tasks = []")
  case True
  with assms show ?thesis
    by (auto simp: buildTreeLayout_def cells_ok_def layout_roots_def link_tasks_def intro: bfs_run.intros
        intro!: exI [of _ "[]"])
next
  case False
  let ?ch = "children_of tasks" and ?b = "by_id tasks"
  from layout_runs [OF False assms] obtain rs colOf0 isos n xs where
    r: "set rs = set (layout_roots tasks)" "bfs_run ?ch (map (\<lambda>i. (i, 0)) rs) [] colOf0"
    and isos: "isos = isolated_ids ?b ?ch tasks"
    and xs: "xs = conn_cells (col_groups isos (fill_cols tasks colOf0)) @ iso_cells n isos"
    and f: "fold (put_cell ?b ?ch) xs ([], 0, 0) = (lr_nodes L, lr_maxCol L, lr_maxRow L)"
    and n: "\<forall>(i, c, r)\<in>set (conn_cells (col_groups isos (fill_cols tasks colOf0))). r < n"
    by metis
  let ?colOf = "fill_cols tasks colOf0"
  have k0: "set (om_keys colOf0) \<subseteq> t_id ` set tasks \<and> distinct (om_keys colOf0)"
  proof (rule bfs_result_keys [OF r(2)])
    show "(p, c) \<in> edges ?ch \<Longrightarrow> c \<in> t_id ` set tasks" for p c
      using edges_children_of dep_rel_ids by metis
    show "set rs \<subseteq> t_id ` set tasks" using r(1) layout_roots_ids by auto
  qed
  then have d: "distinct (om_keys ?colOf)" using fill_cols_get by blast
  have dom: "(\<exists>k. om_get ?colOf i = Some k) \<longleftrightarrow> i \<in> t_id ` set tasks" for i
    using fill_cols_get [of tasks colOf0 i] k0 in_om_keys [of i colOf0] by (auto split: option.splits)
  have ok: "cells_ok xs"
    unfolding xs by (rule all_cells_ok [OF d _ n]) (simp add: isos isolated_ids_def)
  have fst_xs: "fst ` set xs = t_id ` set tasks"
  proof (intro equalityI subsetI)
    fix i assume "i \<in> fst ` set xs"
    then obtain c r where "(i, c, r) \<in> set xs" by force
    then consider "(i, c, r) \<in> set (conn_cells (col_groups isos ?colOf))" | "(i, c, r) \<in> set (iso_cells n isos)"
      unfolding xs by auto
    then show "i \<in> t_id ` set tasks"
    proof cases
      case 1
      then show ?thesis using conn_cells_ok(1) [OF d 1 1] dom by blast
    next
      case 2
      then have "i \<in> set isos" unfolding in_iso_cells by auto
      then show ?thesis by (auto simp: isos in_isolated)
    qed
  next
    fix i assume i: "i \<in> t_id ` set tasks"
    show "i \<in> fst ` set xs"
    proof (cases "i \<in> set isos")
      case True
      then obtain j where "j < length isos" "isos ! j = i" by (auto simp: in_set_conv_nth)
      then have "(i, 0, n + j) \<in> set (iso_cells n isos)" unfolding in_iso_cells by simp
      then show ?thesis unfolding xs by force
    next
      case False
      obtain k where "(i, k) \<in> set ?colOf" using dom i map_of_SomeD by metis
      from col_groups_has [OF this False] obtain ids j where
        "(k, ids) \<in> set (col_groups isos ?colOf)" "j < length ids" "ids ! j = i" by (auto simp: in_set_conv_nth)
      then have "(i, k, j) \<in> set (conn_cells (col_groups isos ?colOf))" unfolding in_conn_cells by blast
      then show ?thesis unfolding xs by force
    qed
  qed
  have get: "om_get (lr_nodes L) i =
      (if i \<in> t_id ` set tasks then Some (cell_node ?b ?ch (THE x. x \<in> set xs \<and> fst x = i)) else None)" for i
  proof -
    have the: "(THE x. x \<in> set xs \<and> fst x = i) = y" if "y \<in> set xs" "fst y = i" for y
      using ok that unfolding cells_ok_def inj_on_def by blast
    have "\<forall>x\<in>set xs. fst x = i \<longrightarrow> cell_node ?b ?ch x = cell_node ?b ?ch (THE x. x \<in> set xs \<and> fst x = i)"
      by (intro ballI impI) (simp only: the)
    from fold_set_get [OF this, of "[]"] show ?thesis
      unfolding put_cells(1) [OF f] fst_xs by simp
  qed
  have "c \<le> lr_maxCol L \<and> r \<le> lr_maxRow L \<and> (i \<notin> set isos \<longrightarrow> om_get ?colOf i = Some c)"
    if "(i, c, r) \<in> set xs" for i c r
  proof -
    have "i \<notin> set isos \<Longrightarrow> (i, c, r) \<in> set (conn_cells (col_groups isos ?colOf))"
      using that unfolding xs by (auto simp: in_iso_cells)
    then have "i \<notin> set isos \<longrightarrow> om_get ?colOf i = Some c" using conn_cells_ok(1) [OF d] by blast
    moreover have "c \<le> lr_maxCol L \<and> r \<le> lr_maxRow L" using put_cells(2) [OF f] that by blast
    ultimately show ?thesis by blast
  qed
  then show ?thesis
    unfolding isos [symmetric]
    by (intro exI [of _ rs] exI [of _ colOf0] exI [of _ xs] conjI r ok fst_xs allI get) blast
qed

lemma layout_node:
  assumes "buildTreeLayout tasks = Some L"
  obtains rs colOf0 pos where "set rs = set (layout_roots tasks)"
    and "bfs_run (children_of tasks) (map (\<lambda>i. (i, 0)) rs) [] colOf0"
    and "inj_on pos (t_id ` set tasks)"
    and "\<And>i n. om_get (lr_nodes L) i = Some n \<longleftrightarrow>
           i \<in> t_id ` set tasks \<and> n = cell_node (by_id tasks) (children_of tasks) (i, pos i)"
    and "\<And>i. i \<in> t_id ` set tasks \<Longrightarrow> fst (pos i) \<le> lr_maxCol L \<and> snd (pos i) \<le> lr_maxRow L"
    and "\<And>i. i \<in> t_id ` set tasks \<Longrightarrow> i \<notin> set (isolated_ids (by_id tasks) (children_of tasks) tasks) \<Longrightarrow>
           om_get (fill_cols tasks colOf0) i = Some (fst (pos i))"
proof -
  obtain rs colOf0 xs where r: "set rs = set (layout_roots tasks)"
      "bfs_run (children_of tasks) (map (\<lambda>i. (i, 0)) rs) [] colOf0"
    and ok: "cells_ok xs" and dom: "fst ` set xs = t_id ` set tasks"
    and get: "\<forall>i. om_get (lr_nodes L) i =
         (if i \<in> t_id ` set tasks then Some (cell_node (by_id tasks) (children_of tasks) (THE x. x \<in> set xs \<and> fst x = i))
          else None)"
    and box: "\<forall>(i, c, r)\<in>set xs. c \<le> lr_maxCol L \<and> r \<le> lr_maxRow L
        \<and> (i \<notin> set (isolated_ids (by_id tasks) (children_of tasks) tasks) \<longrightarrow>
             om_get (fill_cols tasks colOf0) i = Some c)"
    using layout_cells [OF assms] by (elim exE conjE) (rule that; assumption)
  define pos where "pos i = snd (THE x. x \<in> set xs \<and> fst x = i)" for i
  have cell: "(i, pos i) \<in> set xs \<and> (THE x. x \<in> set xs \<and> fst x = i) = (i, pos i)"
    if i: "i \<in> t_id ` set tasks" for i
  proof -
    have "\<exists>!x. x \<in> set xs \<and> fst x = i"
    proof -
      obtain x where x: "x \<in> set xs" "fst x = i" using i unfolding dom [symmetric] by blast
      have "inj_on fst (set xs)" using ok by (simp add: cells_ok_def)
      show ?thesis
      proof (rule ex1I [of _ x])
        show "x \<in> set xs \<and> fst x = i" using x by simp
        show "y = x" if "y \<in> set xs \<and> fst y = i" for y
          using inj_onD [OF \<open>inj_on fst (set xs)\<close>, of y x] that x by simp
      qed
    qed
    then have the: "(THE x. x \<in> set xs \<and> fst x = i) \<in> set xs \<and> fst (THE x. x \<in> set xs \<and> fst x = i) = i"
      by (rule theI')
    then have "(THE x. x \<in> set xs \<and> fst x = i) = (i, pos i)" by (simp add: pos_def prod_eq_iff)
    with the show ?thesis by simp
  qed
  have inj: "inj_on pos (t_id ` set tasks)"
  proof (rule inj_onI)
    fix i j assume ij: "i \<in> t_id ` set tasks" "j \<in> t_id ` set tasks" "pos i = pos j"
    have "inj_on snd (set xs)" using ok by (simp add: cells_ok_def)
    from inj_onD [OF this, of "(i, pos i)" "(j, pos j)"] cell [OF ij(1)] cell [OF ij(2)] ij(3)
    show "i = j" by simp
  qed
  show ?thesis
  proof (rule that [OF r inj])
    show "om_get (lr_nodes L) i = Some n \<longleftrightarrow>
        i \<in> t_id ` set tasks \<and> n = cell_node (by_id tasks) (children_of tasks) (i, pos i)" for i n
      using get cell by auto
    show "fst (pos i) \<le> lr_maxCol L \<and> snd (pos i) \<le> lr_maxRow L" if "i \<in> t_id ` set tasks" for i
      using bspec [OF box conjunct1 [OF cell [OF that]]] by (simp split: prod.splits)
    show "om_get (fill_cols tasks colOf0) i = Some (fst (pos i))"
      if "i \<in> t_id ` set tasks" "i \<notin> set (isolated_ids (by_id tasks) (children_of tasks) tasks)" for i
      using bspec [OF box conjunct1 [OF cell [OF that(1)]]] that(2) by (simp split: prod.splits)
  qed
qed

section \<open>Properties\<close>

lemma layout_returns:
  assumes "acyclic (dep_rel tasks)"
  shows "\<exists>L. buildTreeLayout tasks = Some L"
proof (cases "tasks = []")
  case False
  have "wf ((edges (children_of tasks))\<inverse>)"
    unfolding edges_children_of by (intro finite_acyclic_wf_converse finite_dep_rel assms)
  then show ?thesis
    using False layout_depths [of tasks] bfs_terminates
    by (fastforce simp: buildTreeLayout_def Let_def split: prod.splits option.splits)
qed (simp add: buildTreeLayout_def)

text \<open>
  On every task list whose dependency graph has no cycle, the layout computation returns.
\<close>
theorem layout_terminates:
  assumes "acyclic (dep_rel tasks)"
  shows "\<exists>L. buildTreeLayout tasks = Some L"
  using assms by (rule layout_returns)

lemma layout_nodes_ok:
  assumes "distinct (map t_id tasks)" and "buildTreeLayout tasks = Some L"
  shows "(\<forall>i. om_has (lr_nodes L) i \<longleftrightarrow> i \<in> t_id ` set tasks)
    \<and> (\<forall>t\<in>set tasks. \<exists>n. om_get (lr_nodes L) (t_id t) = Some n \<and> tn_task n = t
           \<and> set (tn_children n) = {c. (t_id t, c) \<in> dep_rel tasks}
           \<and> tn_col n \<le> lr_maxCol L \<and> tn_row n \<le> lr_maxRow L)"
proof (rule layout_node [OF assms(2)], intro conjI ballI allI)
  fix rs colOf0 pos
  assume get: "\<And>i n. om_get (lr_nodes L) i = Some n \<longleftrightarrow>
      i \<in> t_id ` set tasks \<and> n = cell_node (by_id tasks) (children_of tasks) (i, pos i)"
    and box: "\<And>i. i \<in> t_id ` set tasks \<Longrightarrow> fst (pos i) \<le> lr_maxCol L \<and> snd (pos i) \<le> lr_maxRow L"
  show "om_has (lr_nodes L) i \<longleftrightarrow> i \<in> t_id ` set tasks" for i
    using get [of i] by (auto simp: om_has_def)
  fix t assume t: "t \<in> set tasks"
  let ?n = "cell_node (by_id tasks) (children_of tasks) (t_id t, pos (t_id t))"
  have "set (tn_children ?n) = {c. (t_id t, c) \<in> dep_rel tasks}"
    using edges_children_of [of tasks] dep_rel_ids
    by (auto simp: cell_node_def edges_def split: prod.splits)
  moreover have "tn_task ?n = t" using by_id_get [OF assms(1) t] by (simp add: cell_node_def split: prod.splits)
  ultimately show "\<exists>n. om_get (lr_nodes L) (t_id t) = Some n \<and> tn_task n = t
      \<and> set (tn_children n) = {c. (t_id t, c) \<in> dep_rel tasks}
      \<and> tn_col n \<le> lr_maxCol L \<and> tn_row n \<le> lr_maxRow L"
    using get [of "t_id t" ?n] box [of "t_id t"] t by (auto simp: cell_node_def split: prod.splits)
qed

text \<open>
  Whenever the layout returns, every task of the phase (and nothing else) has a node, the
  node carries that task, lists exactly its dependents, and lies inside the reported bounds.
\<close>
theorem layout_complete:
  assumes "distinct (map t_id tasks)" and "buildTreeLayout tasks = Some L"
  shows "(\<forall>i. om_has (lr_nodes L) i \<longleftrightarrow> i \<in> t_id ` set tasks)
    \<and> (\<forall>t\<in>set tasks. \<exists>n. om_get (lr_nodes L) (t_id t) = Some n \<and> tn_task n = t
           \<and> set (tn_children n) = {c. (t_id t, c) \<in> dep_rel tasks}
           \<and> tn_col n \<le> lr_maxCol L \<and> tn_row n \<le> lr_maxRow L)"
  using assms by (rule layout_nodes_ok)

lemma cells_distinct:
  assumes "buildTreeLayout tasks = Some L"
    and "om_get (lr_nodes L) i = Some n" and "om_get (lr_nodes L) j = Some m"
    and "tn_col n = tn_col m" and "tn_row n = tn_row m"
  shows "i = j"
proof (rule layout_node [OF assms(1)])
  fix rs colOf0 pos
  assume get: "\<And>i n. om_get (lr_nodes L) i = Some n \<longleftrightarrow>
      i \<in> t_id ` set tasks \<and> n = cell_node (by_id tasks) (children_of tasks) (i, pos i)"
    and inj: "inj_on pos (t_id ` set tasks)"
  from assms(2,3) get have "i \<in> t_id ` set tasks" "j \<in> t_id ` set tasks"
    "n = cell_node (by_id tasks) (children_of tasks) (i, pos i)"
    "m = cell_node (by_id tasks) (children_of tasks) (j, pos j)" by auto
  with assms(4,5) have "pos i = pos j" by (auto simp: cell_node_def prod_eq_iff split: prod.splits)
  then show "i = j" using inj_onD [OF inj] \<open>i \<in> _\<close> \<open>j \<in> _\<close> by blast
qed

text \<open>
  No two tasks are placed in the same grid cell.
\<close>
theorem layout_no_overlap:
  assumes "buildTreeLayout tasks = Some L"
    and "om_get (lr_nodes L) i = Some n" and "om_get (lr_nodes L) j = Some m"
    and "tn_col n = tn_col m" and "tn_row n = tn_row m"
  shows "i = j"
  using assms by (rule cells_distinct)

lemma layout_edges_right:
  assumes "distinct (map t_id tasks)" and "acyclic (dep_rel tasks)" and "buildTreeLayout tasks = Some L"
    and "(d, i) \<in> dep_rel tasks"
    and "om_get (lr_nodes L) d = Some n" and "om_get (lr_nodes L) i = Some m"
  shows "tn_col n < tn_col m"
proof (rule layout_node [OF assms(3)])
  fix rs colOf0 pos
  assume rs: "set rs = set (layout_roots tasks)"
    and run: "bfs_run (children_of tasks) (map (\<lambda>i. (i, 0)) rs) [] colOf0"
    and get: "\<And>i n. om_get (lr_nodes L) i = Some n \<longleftrightarrow>
      i \<in> t_id ` set tasks \<and> n = cell_node (by_id tasks) (children_of tasks) (i, pos i)"
    and col: "\<And>i. i \<in> t_id ` set tasks \<Longrightarrow> i \<notin> set (isolated_ids (by_id tasks) (children_of tasks) tasks) \<Longrightarrow>
      om_get (fill_cols tasks colOf0) i = Some (fst (pos i))"
  have ids: "d \<in> t_id ` set tasks" "i \<in> t_id ` set tasks" using dep_rel_ids [OF assms(4)] by auto
  obtain r where "r \<in> set rs" "(r, d) \<in> (edges (children_of tasks))\<^sup>*"
    using roots_reach [OF assms(2) ids(1)] rs edges_children_of by metis
  then obtain k where k: "om_get colOf0 d = Some k"
    using bfs_result_roots [OF run] bfs_result_reach [OF run] by blast
  then obtain k' where k': "om_get colOf0 i = Some k'" "k < k'"
    using bfs_result_step [OF run] assms(4) edges_children_of by metis
  have d: "d \<notin> set (isolated_ids (by_id tasks) (children_of tasks) tasks)"
  proof
    assume "d \<in> set (isolated_ids (by_id tasks) (children_of tasks) tasks)"
    then have "om_get_or [] (children_of tasks) d = []" by (auto simp: in_isolated)
    then have "(d, i) \<notin> edges (children_of tasks)" by (simp add: edges_def)
    then show False using assms(4) by (simp add: edges_children_of)
  qed
  have i: "i \<notin> set (isolated_ids (by_id tasks) (children_of tasks) tasks)"
  proof
    assume "i \<in> set (isolated_ids (by_id tasks) (children_of tasks) tasks)"
    then obtain t where t: "t \<in> set tasks" "t_id t = i" "known_deps (by_id tasks) t = []"
      by (auto simp: in_isolated)
    obtain u where u: "u \<in> set tasks" "t_id u = i" "d \<in> set (known_deps (by_id tasks) u)"
      using assms(4) unfolding dep_rel_def by blast
    have "t = u" using assms(1) t u by (metis by_id_get option.inject)
    with t u show False by simp
  qed
  have "fst (pos d) = k" "fst (pos i) = k'"
    using col [OF ids(1) d] col [OF ids(2) i] fill_cols_get [of tasks colOf0] k k' by auto
  with k' assms(5,6) get show "tn_col n < tn_col m" by (auto simp: cell_node_def split: prod.splits)
qed

text \<open>
  C1. In an acyclic graph every dependency is drawn strictly to the left of its dependent, so
  connectors always run left to right.
\<close>
theorem layout_deps_left:
  assumes "distinct (map t_id tasks)" and "acyclic (dep_rel tasks)" and "buildTreeLayout tasks = Some L"
    and "(d, i) \<in> dep_rel tasks"
    and "om_get (lr_nodes L) d = Some n" and "om_get (lr_nodes L) i = Some m"
  shows "tn_col n < tn_col m"
  using assms by (rule layout_edges_right)

text \<open>
  A dependency cycle that a root leads to makes the queue loop run forever: the cycle guard
  of the depth computation and the fallback root do not protect it.
\<close>
theorem layout_diverges_on_cycle:
  assumes "r \<in> set (layout_roots tasks)" and "(r, x) \<in> (dep_rel tasks)\<^sup>*" and "(x, x) \<in> (dep_rel tasks)\<^sup>+"
  shows "buildTreeLayout tasks = None"
proof (rule ccontr)
  assume "buildTreeLayout tasks \<noteq> None"
  then obtain L where L: "buildTreeLayout tasks = Some L" by blast
  show False
  proof (rule layout_node [OF L])
    fix rs colOf0 pos
    assume "set rs = set (layout_roots tasks)"
      and run: "bfs_run (children_of tasks) (map (\<lambda>i. (i, 0)) rs) [] colOf0"
    then show False
      using bfs_result_acyclic [OF run, of r x] assms by (simp add: edges_children_of)
  qed
qed

section \<open>Witnesses\<close>

text \<open>
  A diamond-like phase with an isolated task; \<open>bad_tasks\<close> has a root that leads into a cycle.
\<close>

definition dep_task :: "string \<Rightarrow> string list \<Rightarrow> task" where
  "dep_task i ds = (mk_task i i TPending)\<lparr>t_depends := Some ds\<rparr>"

definition good_tasks :: "task list" where
  "good_tasks = [dep_task ''a'' [], dep_task ''b'' [''a''], dep_task ''c'' [''a'', ''b''], dep_task ''d'' []]"

definition bad_tasks :: "task list" where
  "bad_tasks = [dep_task ''a'' [], dep_task ''b'' [''a'', ''c''], dep_task ''c'' [''b'']]"

lemma dep_rel_code: "dep_rel tasks = set (concat (map (\<lambda>t. map (\<lambda>d. (d, t_id t)) (known_deps (by_id tasks) t)) tasks))"
  by (auto simp: dep_rel_def)

lemma good_rel: "dep_rel good_tasks = {(''a'', ''b''), (''a'', ''c''), (''b'', ''c'')}"
proof -
  have "concat (map (\<lambda>t. map (\<lambda>d. (d, t_id t)) (known_deps (by_id good_tasks) t)) good_tasks) =
      [(''a'', ''b''), (''a'', ''c''), (''b'', ''c'')]" by code_simp
  then show ?thesis unfolding dep_rel_code by simp
qed

lemma bad_rel: "dep_rel bad_tasks = {(''a'', ''b''), (''c'', ''b''), (''b'', ''c'')}"
proof -
  have "concat (map (\<lambda>t. map (\<lambda>d. (d, t_id t)) (known_deps (by_id bad_tasks) t)) bad_tasks) =
      [(''a'', ''b''), (''c'', ''b''), (''b'', ''c'')]" by code_simp
  then show ?thesis unfolding dep_rel_code by simp
qed

lemma good_acyclic: "acyclic (dep_rel good_tasks)"
proof (rule acyclicI_order [where f = "\<lambda>s. if s = ''a'' then 2 else if s = ''b'' then 1 else 0 :: nat"])
qed (auto simp: good_rel)

lemma good_distinct: "distinct (map t_id good_tasks)"
  by code_simp

definition good_layout :: layout_result where
  "good_layout = the (buildTreeLayout good_tasks)"

lemma layout_runs_good: "\<exists>L. buildTreeLayout good_tasks = Some L"
proof -
  have "buildTreeLayout good_tasks \<noteq> None" by code_simp
  then show ?thesis by blast
qed

lemma good_layout: "buildTreeLayout good_tasks = Some good_layout"
  using layout_runs_good by (auto simp: good_layout_def)

lemma good_layout_cols:
  "map_option (\<lambda>n. (tn_col n, tn_row n)) (om_get (lr_nodes good_layout) ''a'') = Some (0, 0)
   \<and> map_option (\<lambda>n. (tn_col n, tn_row n)) (om_get (lr_nodes good_layout) ''b'') = Some (1, 0)
   \<and> map_option (\<lambda>n. (tn_col n, tn_row n)) (om_get (lr_nodes good_layout) ''c'') = Some (2, 0)"
  by code_simp

lemma layout_terminates_witness: "\<exists>L. buildTreeLayout good_tasks = Some L"
  by (rule layout_terminates [OF good_acyclic])


lemma layout_complete_witness:
  "\<exists>L n. buildTreeLayout good_tasks = Some L \<and> om_get (lr_nodes L) ''a'' = Some n
     \<and> set (tn_children n) = {''b'', ''c''}"
proof -
  obtain L where L: "buildTreeLayout good_tasks = Some L"
    using layout_runs_good by blast
  have "dep_task ''a'' [] \<in> set good_tasks" by (simp add: good_tasks_def)
  then have "\<exists>n. om_get (lr_nodes L) (t_id (dep_task ''a'' [])) = Some n
      \<and> set (tn_children n) = {c. (t_id (dep_task ''a'' []), c) \<in> dep_rel good_tasks}"
    using layout_complete [OF good_distinct L] by blast
  moreover have "{c. (''a'', c) \<in> dep_rel good_tasks} = {''b'', ''c''}" by (auto simp: good_rel)
  ultimately show ?thesis using L by (auto simp: dep_task_def mk_task_def)
qed

lemma layout_no_overlap_witness:
  "{i. \<exists>n. om_get (lr_nodes good_layout) i = Some n \<and> tn_col n = 2 \<and> tn_row n = 0} = {''c''}"
proof (intro equalityI subsetI)
  fix i
  assume "i \<in> {i. \<exists>n. om_get (lr_nodes good_layout) i = Some n \<and> tn_col n = 2 \<and> tn_row n = 0}"
  then obtain n where n: "om_get (lr_nodes good_layout) i = Some n" "tn_col n = 2" "tn_row n = 0" by blast
  obtain m where m: "om_get (lr_nodes good_layout) ''c'' = Some m" "tn_col m = 2" "tn_row m = 0"
    using good_layout_cols by auto
  show "i \<in> {''c''}"
    using layout_no_overlap [OF good_layout n(1) m(1)] n m by simp
qed (use good_layout_cols in auto)

lemma layout_deps_left_witness:
  "tn_col (the (om_get (lr_nodes good_layout) ''a'')) < tn_col (the (om_get (lr_nodes good_layout) ''b''))"
proof (rule layout_deps_left [OF good_distinct good_acyclic good_layout, of "''a''" "''b''"])
  show "(''a'', ''b'') \<in> dep_rel good_tasks" by (simp add: good_rel)
qed (use good_layout_cols in auto)

lemma layout_diverges_witness: "buildTreeLayout bad_tasks = None"
proof (rule layout_diverges_on_cycle [of "''a''" bad_tasks "''b''"])
  show "''a'' \<in> set (layout_roots bad_tasks)" by code_simp
  have ab: "(''a'', ''b'') \<in> dep_rel bad_tasks" and bc: "(''b'', ''c'') \<in> dep_rel bad_tasks"
    and cb: "(''c'', ''b'') \<in> dep_rel bad_tasks" by (auto simp: bad_rel)
  show "(''a'', ''b'') \<in> (dep_rel bad_tasks)\<^sup>*" using ab by (rule r_into_rtrancl)
  show "(''b'', ''b'') \<in> (dep_rel bad_tasks)\<^sup>+" using bc cb by (rule trancl.trancl_into_trancl [OF r_into_trancl])
qed

end
