(* ===== verification/UriCodec.thy ===== *)
theory UriCodec
  imports Json
begin

text \<open>
  \<open>encodeURIComponent\<close> and \<open>decodeURIComponent\<close> on the UTF-8 bytes of a string, and the reading
  of a query string that the URL builders of the hooks are specified against.
\<close>

definition uri_unreserved :: "char \<Rightarrow> bool" where
  "uri_unreserved c \<longleftrightarrow>
     (let n = (of_char c :: nat) in
        (48 \<le> n \<and> n \<le> 57) \<or> (65 \<le> n \<and> n \<le> 90) \<or> (97 \<le> n \<and> n \<le> 122) \<or>
        n \<in> {45, 95, 46, 33, 126, 42, 39, 40, 41})"

definition upper_hex :: "nat \<Rightarrow> char" where
  "upper_hex n = (if n < 10 then char_of (48 + n) else char_of (55 + n))"

definition encode_byte :: "char \<Rightarrow> string" where
  "encode_byte c =
     (if uri_unreserved c then [c]
      else [CHR ''%'', upper_hex (of_char c div 16), upper_hex (of_char c mod 16)])"

definition encodeURIComponent :: "string \<Rightarrow> string" where
  "encodeURIComponent s = concat (map encode_byte s)"

fun uri_unescape :: "string \<Rightarrow> string option" where
  "uri_unescape [] = Some []"
| "uri_unescape (c # r) =
     (if c = CHR ''%'' then
        (case r of
           a # b # r' \<Rightarrow>
             (case (hex_val a, hex_val b) of
                (Some x, Some y) \<Rightarrow> map_option ((#) (char_of (x * 16 + y))) (uri_unescape r')
              | _ \<Rightarrow> None)
         | _ \<Rightarrow> None)
      else map_option ((#) c) (uri_unescape r))"

definition cont_byte :: "nat \<Rightarrow> bool" where
  "cont_byte n \<longleftrightarrow> 128 \<le> n \<and> n < 192"

fun utf8_codes :: "nat list \<Rightarrow> bool" where
  "utf8_codes [] = True"
| "utf8_codes (n # r) =
     (if n < 128 then utf8_codes r
      else if 194 \<le> n \<and> n < 224 then
        (case r of a # r' \<Rightarrow> cont_byte a \<and> utf8_codes r' | _ \<Rightarrow> False)
      else if 224 \<le> n \<and> n < 240 then
        (case r of a # b # r' \<Rightarrow>
             cont_byte a \<and> cont_byte b \<and> (n = 224 \<longrightarrow> 160 \<le> a) \<and> (n = 237 \<longrightarrow> a < 160) \<and> utf8_codes r'
         | _ \<Rightarrow> False)
      else if 240 \<le> n \<and> n < 245 then
        (case r of a # b # c # r' \<Rightarrow>
             cont_byte a \<and> cont_byte b \<and> cont_byte c \<and> (n = 240 \<longrightarrow> 144 \<le> a) \<and> (n = 244 \<longrightarrow> a < 144) \<and>
             utf8_codes r'
         | _ \<Rightarrow> False)
      else False)"

definition utf8_valid :: "string \<Rightarrow> bool" where
  "utf8_valid s \<longleftrightarrow> utf8_codes (map of_char s)"

definition decodeURIComponent :: "string \<Rightarrow> string option" where
  "decodeURIComponent s =
     (case uri_unescape s of
        Some b \<Rightarrow> if utf8_valid b then Some b else None
      | None \<Rightarrow> None)"

lemma char_nibble: "(of_char c :: nat) div 16 < 16"
  using nat_of_char_less_256 [of c] by linarith

lemma hex_val_upper: "n < 16 \<Longrightarrow> hex_val (upper_hex n) = Some n"
  by (auto simp: hex_val_def upper_hex_def Let_def)

lemma percent_reserved: "\<not> uri_unreserved (CHR ''%'')"
  by (simp add: uri_unreserved_def)

lemma uri_unescape_encode_byte: "uri_unescape (encode_byte c @ r) = map_option ((#) c) (uri_unescape r)"
proof (cases "uri_unreserved c")
  case True
  with percent_reserved have "c \<noteq> CHR ''%''" by auto
  with True show ?thesis by (simp add: encode_byte_def)
next
  case False
  have "(of_char c :: nat) div 16 < 16" by (rule char_nibble)
  moreover have "char_of ((of_char c :: nat) div 16 * 16 + of_char c mod 16) = c"
    by (simp only: div_mult_mod_eq char_of_char)
  ultimately show ?thesis using False by (simp add: encode_byte_def hex_val_upper)
qed

lemma uri_unescape_encode: "uri_unescape (encodeURIComponent s @ r) = map_option ((@) s) (uri_unescape r)"
  by (induction s)
    (simp_all add: encodeURIComponent_def uri_unescape_encode_byte option.map_comp comp_def option.map_ident)

lemma decode_encode: "utf8_valid s \<Longrightarrow> decodeURIComponent (encodeURIComponent s) = Some s"
  using uri_unescape_encode [of s "[]"] by (simp add: decodeURIComponent_def)

interpretation uri_codec: codec encodeURIComponent decodeURIComponent utf8_valid
  by unfold_locales (rule decode_encode)

lemma upper_hex_unreserved: "n < 16 \<Longrightarrow> uri_unreserved (upper_hex n)"
  by (auto simp: uri_unreserved_def upper_hex_def Let_def)

lemma set_encode:
  "c \<in> set (encodeURIComponent s) \<Longrightarrow> uri_unreserved c \<or> c = CHR ''%''"
proof (induction s)
  case Nil
  then show ?case by (simp add: encodeURIComponent_def)
next
  case (Cons d s)
  have "(of_char d :: nat) div 16 < 16" by (rule char_nibble)
  then have "c \<in> set (encode_byte d) \<Longrightarrow> uri_unreserved c \<or> c = CHR ''%''"
    by (auto simp: encode_byte_def upper_hex_unreserved split: if_splits)
  with Cons show ?case by (auto simp: encodeURIComponent_def)
qed

lemma encode_no_delim [js_str]:
  "CHR ''&'' \<notin> set (encodeURIComponent s)" "CHR ''='' \<notin> set (encodeURIComponent s)"
  "CHR ''?'' \<notin> set (encodeURIComponent s)" "CHR ''#'' \<notin> set (encodeURIComponent s)"
  "CHR ''/'' \<notin> set (encodeURIComponent s)"
  by (auto dest!: set_encode simp: uri_unreserved_def)

section \<open>Reading a query string\<close>

text \<open>
  What a server sees: the text after the question mark, split at ampersands, each piece split at
  its first equals sign, the value decoded.
\<close>

definition query_pair :: "string \<Rightarrow> (string \<times> string) option" where
  "query_pair p =
     (case index_of (CHR ''='') p of
        None \<Rightarrow> None
      | Some i \<Rightarrow> map_option (Pair (take i p)) (decodeURIComponent (drop (Suc i) p)))"

definition query_of :: "string \<Rightarrow> (string \<times> string) option list" where
  "query_of url =
     (case index_of (CHR ''?'') url of
        None \<Rightarrow> []
      | Some i \<Rightarrow> map query_pair (split_on (CHR ''&'') (drop (Suc i) url)))"

lemma query_pair_encode:
  "CHR ''='' \<notin> set k \<Longrightarrow> utf8_valid v \<Longrightarrow>
     query_pair (k @ CHR ''='' # encodeURIComponent v) = Some (k, v)"
  by (simp add: query_pair_def index_of_append decode_encode)

text \<open>How the hooks build a query, and that the server reads it back.\<close>

definition query_text :: "(string \<times> string) list \<Rightarrow> string" where
  "query_text kvs = join_with ''&'' (map (\<lambda>(k, v). k @ CHR ''='' # encodeURIComponent v) kvs)"

lemma query_of_build:
  assumes "kvs \<noteq> []" and "CHR ''?'' \<notin> set pre"
    and "\<And>k v. (k, v) \<in> set kvs \<Longrightarrow> CHR ''='' \<notin> set k \<and> CHR ''&'' \<notin> set k \<and> utf8_valid v"
  shows "query_of (pre @ CHR ''?'' # query_text kvs) = map Some kvs"
proof -
  have "split_on (CHR ''&'') (query_text kvs) = map (\<lambda>(k, v). k @ CHR ''='' # encodeURIComponent v) kvs"
    unfolding query_text_def
    by (rule split_join) (use assms encode_no_delim(1) in auto)
  then show ?thesis
    using assms(2,3) by (auto simp: query_of_def index_of_append query_pair_encode)
qed

end
