(* ===== verification/CsrfToken.thy ===== *)
theory CsrfToken
  imports UriCodec
begin

text \<open>
  \<open>hooks/csrfToken.ts\<close>: the synchronous read chain (cookie, meta tag, module cache) and the shared
  \<open>/api/csrf\<close> request. The module variables \<open>_csrfBodyTokenCache\<close> and \<open>_csrfFetchPromise\<close>, the
  requests on the wire and the callers that await one of them form one state; a call, the arrival of
  a reply and the reset are its steps. Console warnings are not modelled.
\<close>

section \<open>Synchronous reads\<close>

definition csrf_cookie_name :: string where "csrf_cookie_name = ''csrf_token''"

fun scan_entries :: "string list \<Rightarrow> string option" where
  "scan_entries [] = None"
| "scan_entries (e # es) =
     (case index_of (CHR ''='') e of
        None \<Rightarrow> scan_entries es
      | Some eq \<Rightarrow>
          if take eq e \<noteq> csrf_cookie_name then scan_entries es
          else (case decodeURIComponent (drop (Suc eq) e) of
                  Some decoded \<Rightarrow> if decoded \<noteq> [] then Some decoded else None
                | None \<Rightarrow> None))"

text \<open>The argument is \<open>document.cookie\<close>, \<open>None\<close> when reading it throws.\<close>

definition readCsrfFromCookie :: "string option \<Rightarrow> string option" where
  "readCsrfFromCookie doc =
     (case doc of
        None \<Rightarrow> None
      | Some s \<Rightarrow> if s = [] then None else scan_entries (map trim (split_on (CHR '';'') s)))"

definition readCsrfFromMeta :: "string option \<Rightarrow> string option" where
  "readCsrfFromMeta content = (if truthy content then content else None)"

record page =
  pg_cookie :: "string option"
  pg_meta :: "string option"

definition readCsrfToken :: "page \<Rightarrow> string option \<Rightarrow> string option" where
  "readCsrfToken pg cache =
     (case readCsrfFromCookie (pg_cookie pg) of
        Some t \<Rightarrow> Some t
      | None \<Rightarrow> (case readCsrfFromMeta (pg_meta pg) of Some t \<Rightarrow> Some t | None \<Rightarrow> cache))"

section \<open>The shared request\<close>

datatype csrf_reply = CsrfThrow | CsrfHttpError nat | CsrfBody json

definition token_of_reply :: "csrf_reply \<Rightarrow> string option" where
  "token_of_reply r =
     (case r of
        CsrfBody body \<Rightarrow>
          (case jfield body ''token'' of
             Some (JStr t) \<Rightarrow> if length t > 0 then Some t else None
           | _ \<Rightarrow> None)
      | _ \<Rightarrow> None)"

text \<open>
  \<open>cs_flight\<close> are the requests on the wire, \<open>cs_waiting\<close> the callers with the request each awaits,
  \<open>cs_answers\<close> what each caller got.
\<close>

record csrf_state =
  cs_cache :: "string option"
  cs_promise :: "nat option"
  cs_next :: nat
  cs_flight :: "nat list"
  cs_waiting :: "(nat \<times> nat) list"
  cs_answers :: "(nat \<times> string option) list"

definition csrf_init :: csrf_state where
  "csrf_init = \<lparr>cs_cache = None, cs_promise = None, cs_next = 0, cs_flight = [], cs_waiting = [], cs_answers = []\<rparr>"

definition fetchCsrfBodyToken :: "nat \<Rightarrow> csrf_state \<Rightarrow> csrf_state" where
  "fetchCsrfBodyToken caller s =
     (case cs_cache s of
        Some t \<Rightarrow> s\<lparr>cs_answers := cs_answers s @ [(caller, Some t)]\<rparr>
      | None \<Rightarrow>
          (case cs_promise s of
             Some p \<Rightarrow> s\<lparr>cs_waiting := cs_waiting s @ [(caller, p)]\<rparr>
           | None \<Rightarrow> s\<lparr>cs_promise := Some (cs_next s), cs_next := Suc (cs_next s),
                       cs_flight := cs_flight s @ [cs_next s],
                       cs_waiting := cs_waiting s @ [(caller, cs_next s)]\<rparr>))"

definition csrf_settle :: "nat \<Rightarrow> csrf_reply \<Rightarrow> csrf_state \<Rightarrow> csrf_state" where
  "csrf_settle r reply s =
     (if r \<notin> set (cs_flight s) then s
      else s\<lparr>cs_cache := (case token_of_reply reply of Some t \<Rightarrow> Some t | None \<Rightarrow> cs_cache s),
             cs_promise := None,
             cs_flight := filter ((\<noteq>) r) (cs_flight s),
             cs_waiting := filter (\<lambda>(c, x). x \<noteq> r) (cs_waiting s),
             cs_answers := cs_answers s @
               map (\<lambda>(c, x). (c, token_of_reply reply)) (filter (\<lambda>(c, x). x = r) (cs_waiting s))\<rparr>)"

definition resolveCsrfToken :: "page \<Rightarrow> nat \<Rightarrow> csrf_state \<Rightarrow> csrf_state" where
  "resolveCsrfToken pg caller s =
     (case readCsrfToken pg (cs_cache s) of
        Some t \<Rightarrow> s\<lparr>cs_answers := cs_answers s @ [(caller, Some t)]\<rparr>
      | None \<Rightarrow> fetchCsrfBodyToken caller s)"

definition resetCsrfBodyTokenCache :: "csrf_state \<Rightarrow> csrf_state" where
  "resetCsrfBodyTokenCache s = s\<lparr>cs_cache := None, cs_promise := None\<rparr>"

datatype csrf_event = CsrfResolve page nat | CsrfReply nat csrf_reply | CsrfReset

fun csrf_step :: "csrf_event \<Rightarrow> csrf_state \<Rightarrow> csrf_state" where
  "csrf_step (CsrfResolve pg c) s = resolveCsrfToken pg c s"
| "csrf_step (CsrfReply r reply) s = csrf_settle r reply s"
| "csrf_step CsrfReset s = resetCsrfBodyTokenCache s"

definition csrf_run :: "csrf_event list \<Rightarrow> csrf_state" where
  "csrf_run evs = fold csrf_step evs csrf_init"

lemmas csrf_defs = fetchCsrfBodyToken_def csrf_settle_def resolveCsrfToken_def resetCsrfBodyTokenCache_def

section \<open>Invariants\<close>

definition orphans :: "csrf_state \<Rightarrow> nat list" where
  "orphans s = filter (\<lambda>r. cs_promise s \<noteq> Some r) (cs_flight s)"

definition resets :: "csrf_event list \<Rightarrow> nat" where
  "resets evs = length (filter (\<lambda>e. e = CsrfReset) evs)"

definition csrf_ok :: "nat \<Rightarrow> csrf_state \<Rightarrow> bool" where
  "csrf_ok n s \<longleftrightarrow>
     distinct (cs_flight s) \<and> (\<forall>r\<in>set (cs_flight s). r < cs_next s)
   \<and> (\<forall>p. cs_promise s = Some p \<longrightarrow> p \<in> set (cs_flight s))
   \<and> snd ` set (cs_waiting s) \<subseteq> set (cs_flight s)
   \<and> length (orphans s) \<le> n
   \<and> cs_cache s \<noteq> Some []"

lemma token_of_reply_nonempty: "token_of_reply r \<noteq> Some []"
  by (auto simp: token_of_reply_def split: csrf_reply.splits option.splits json.splits)

lemma flight_le: "distinct (cs_flight s) \<Longrightarrow> length (cs_flight s) \<le> Suc (length (orphans s))"
proof -
  assume d: "distinct (cs_flight s)"
  have one: "distinct xs \<Longrightarrow> length (filter ((=) p) xs) \<le> 1" for p :: nat and xs
    by (induction xs) (auto simp: filter_empty_conv)
  have "length (filter (\<lambda>r. \<not> cs_promise s \<noteq> Some r) (cs_flight s)) \<le> 1"
    using one [OF d] by (cases "cs_promise s") auto
  then show ?thesis
    using sum_length_filter_compl [of "\<lambda>r. cs_promise s \<noteq> Some r" "cs_flight s"]
    by (simp add: orphans_def)
qed

lemma csrf_ok_fetch: "csrf_ok n s \<Longrightarrow> csrf_ok n (fetchCsrfBodyToken c s)"
  by (auto simp: csrf_ok_def fetchCsrfBodyToken_def orphans_def split: option.splits
      intro: le_trans [OF length_filter_le])

lemma csrf_ok_settle:
  assumes "csrf_ok n s"
  shows "csrf_ok n (csrf_settle r reply s)"
proof (cases "r \<in> set (cs_flight s)")
  case True
  have "length (filter ((\<noteq>) r) (cs_flight s)) \<le> n"
  proof (cases "cs_promise s = Some r")
    case True
    with assms show ?thesis by (auto simp: csrf_ok_def orphans_def intro: le_trans [OF length_filter_le])
  next
    case False
    have "length (filter ((\<noteq>) r) (cs_flight s)) < length (cs_flight s)"
      by (rule length_filter_less [OF True]) simp
    moreover have "length (cs_flight s) \<le> Suc n"
      using flight_le [of s] assms by (auto simp: csrf_ok_def)
    ultimately show ?thesis by simp
  qed
  then have "length (orphans (csrf_settle r reply s)) \<le> n"
    using True by (simp add: csrf_settle_def orphans_def)
  moreover have "cs_cache (csrf_settle r reply s) \<noteq> Some []"
    using assms True token_of_reply_nonempty [of reply] by (auto simp: csrf_settle_def csrf_ok_def split: option.splits)
  ultimately show ?thesis
    using assms True by (auto simp: csrf_ok_def csrf_settle_def)
qed (use assms in \<open>simp add: csrf_settle_def\<close>)

lemma csrf_ok_resolve: "csrf_ok n s \<Longrightarrow> csrf_ok n (resolveCsrfToken pg c s)"
  using csrf_ok_fetch [of n s c] by (auto simp: resolveCsrfToken_def csrf_ok_def orphans_def split: option.splits)

lemma csrf_ok_reset:
  assumes "csrf_ok n s"
  shows "csrf_ok (Suc n) (resetCsrfBodyTokenCache s)"
  using assms flight_le [of s] by (auto simp: csrf_ok_def resetCsrfBodyTokenCache_def orphans_def)

lemma csrf_ok_step: "csrf_ok n s \<Longrightarrow> csrf_ok (n + resets [e]) (csrf_step e s)"
  by (cases e) (auto simp: resets_def csrf_ok_resolve csrf_ok_settle csrf_ok_reset)

lemma csrf_ok_fold: "csrf_ok n s \<Longrightarrow> csrf_ok (n + resets evs) (fold csrf_step evs s)"
proof (induction evs arbitrary: n s)
  case (Cons e evs)
  from Cons.IH [OF csrf_ok_step [OF Cons.prems, of e]] show ?case
    by (simp add: resets_def split: if_splits)
qed (simp add: resets_def)

lemma csrf_ok_run: "csrf_ok (resets evs) (csrf_run evs)"
proof -
  have "csrf_ok 0 csrf_init" by (simp add: csrf_ok_def csrf_init_def orphans_def)
  from csrf_ok_fold [OF this] show ?thesis by (simp add: csrf_run_def)
qed

text \<open>Every call is answered or waits, and a settled request leaves the wire.\<close>

definition callers :: "csrf_event list \<Rightarrow> nat list" where
  "callers evs = List.map_filter (\<lambda>e. case e of CsrfResolve pg c \<Rightarrow> Some c | _ \<Rightarrow> None) evs"

definition asked :: "csrf_state \<Rightarrow> nat multiset" where
  "asked s = mset (map fst (cs_answers s)) + mset (map fst (cs_waiting s))"

lemma callers_append [simp]: "callers (xs @ ys) = callers xs @ callers ys"
  by (simp add: callers_def List.map_filter_def)

lemma callers_replies [simp]: "callers (map (\<lambda>r. CsrfReply r (reply r)) rs) = []"
  by (induction rs) (simp_all add: callers_def List.map_filter_def)

lemma asked_settle: "asked (csrf_settle r reply s) = asked s"
proof -
  have "mset (map fst (map (\<lambda>(c, x). (c, tok)) (filter (\<lambda>(c, x). x = r) ws))) + mset (map fst (filter (\<lambda>(c, x). x \<noteq> r) ws))
      = mset (map fst ws)" for ws :: "(nat \<times> nat) list" and tok :: "string option"
    by (induction ws) auto
  then show ?thesis
    by (simp add: asked_def csrf_settle_def add.assoc del: mset_map mset_filter map_map)
qed

lemma asked_step: "asked (csrf_step e s) = asked s + mset (callers [e])"
proof (cases e)
  case (CsrfReply r reply)
  then show ?thesis by (simp add: asked_settle callers_def List.map_filter_def)
qed (auto simp: asked_def callers_def List.map_filter_def resolveCsrfToken_def fetchCsrfBodyToken_def
    resetCsrfBodyTokenCache_def split: option.splits)

lemma asked_fold: "asked (fold csrf_step evs s) = asked s + mset (callers evs)"
proof (induction evs arbitrary: s)
  case (Cons e evs)
  show ?case using callers_append [of "[e]" evs] by (simp add: Cons.IH asked_step)
qed (simp add: callers_def List.map_filter_def)

lemma asked_run: "asked (csrf_run evs) = mset (callers evs)"
  by (simp add: csrf_run_def asked_fold) (simp add: asked_def csrf_init_def)

lemma settle_flight: "cs_flight (csrf_settle r reply s) = filter ((\<noteq>) r) (cs_flight s)"
  by (auto simp: csrf_settle_def intro!: filter_True [symmetric])

lemma settle_all:
  assumes "set (cs_flight s) \<subseteq> set rs"
  shows "cs_flight (fold csrf_step (map (\<lambda>r. CsrfReply r (reply r)) rs) s) = []"
  using assms
proof (induction rs arbitrary: s)
  case (Cons r rs)
  have "set (cs_flight (csrf_settle r (reply r) s)) \<subseteq> set rs" using Cons.prems by (auto simp: settle_flight)
  from Cons.IH [OF this] show ?case by simp
qed simp

section \<open>Reading a written cookie\<close>

definition cookie_pair :: "string \<times> string \<Rightarrow> string" where
  "cookie_pair kv = fst kv @ CHR ''='' # snd kv"

definition cookie_text :: "string \<Rightarrow> bool" where
  "cookie_text s \<longleftrightarrow> (\<forall>c\<in>set s. c \<noteq> CHR '';'' \<and> \<not> is_space c)"

lemma trim_id: "\<forall>c\<in>set s. \<not> is_space c \<Longrightarrow> trim s = s"
proof -
  assume a: "\<forall>c\<in>set s. \<not> is_space c"
  have "dropWhile is_space xs = xs" if "\<forall>c\<in>set xs. \<not> is_space c" for xs
    using that by (cases xs) auto
  from this [OF a] this [of "rev s"] a show ?thesis by (simp add: trim_def)
qed

lemma trim_space: "trim (CHR '' '' # s) = trim s"
  by (simp add: trim_def is_space_def)

lemma cookie_text_facts: "cookie_text p \<Longrightarrow> CHR '';'' \<notin> set p \<and> trim p = p"
  by (auto simp: cookie_text_def intro: trim_id)


lemma trim_split_space: "map trim (split_on (CHR '';'') (CHR '' '' # s)) = map trim (split_on (CHR '';'') s)"
proof -
  obtain y ys where "split_on (CHR '';'') s = y # ys" by (meson neq_Nil_conv split_on_nonempty)
  then show ?thesis by (simp add: trim_space)
qed

lemma split_cookies:
  "\<forall>p\<in>set ps. cookie_text p \<Longrightarrow> ps \<noteq> [] \<Longrightarrow>
     map trim (split_on (CHR '';'') (join_with ''; '' ps)) = ps"
proof (induction ps rule: induct_list012)
  case (2 p)
  then show ?case by (simp add: cookie_text_facts split_on_not_in)
next
  case (3 p q ps)
  have "join_with ''; '' (p # q # ps) = p @ CHR '';'' # CHR '' '' # join_with ''; '' (q # ps)" by simp
  moreover have "map trim (split_on (CHR '';'') (join_with ''; '' (q # ps))) = q # ps" using 3 by simp
  moreover have "CHR '';'' \<notin> set p \<and> trim p = p" using 3 cookie_text_facts by simp
  ultimately show ?case by (simp add: split_on_first trim_split_space del: join_with.simps split_on.simps)
qed simp

lemma unreserved_no_space: "uri_unreserved c \<Longrightarrow> \<not> is_space c \<and> c \<noteq> CHR '';''"
  by (auto simp: uri_unreserved_def is_space_def Let_def)

lemma scan_cookies:
  assumes "\<forall>kv\<in>set before. CHR ''='' \<notin> set (fst kv) \<and> fst kv \<noteq> csrf_cookie_name"
    and "utf8_valid t" and "t \<noteq> []"
  shows "scan_entries (map cookie_pair before @ cookie_pair (csrf_cookie_name, encodeURIComponent t) # rest) = Some t"
  using assms(1)
proof (induction before)
  case Nil
  have "CHR ''='' \<notin> set csrf_cookie_name" by (simp add: csrf_cookie_name_def)
  then show ?case
    using assms(2,3) by (simp add: cookie_pair_def index_of_append decode_encode)
next
  case (Cons kv kvs)
  then show ?case by (simp add: cookie_pair_def index_of_append)
qed

section \<open>Properties\<close>

text \<open>
  C5. Concurrent callers share one request: apart from the requests given up by a reset of the cache, of which there are
  at most as many as resets, no request but the shared one is in flight; so without a reset at most one is. Every
  waiting caller awaits a request in flight, and the cache never holds an empty token.
\<close>
theorem csrf_single_flight:
  "length (filter (\<lambda>r. cs_promise (csrf_run evs) \<noteq> Some r) (cs_flight (csrf_run evs))) \<le> resets evs
   \<and> length (cs_flight (csrf_run evs)) \<le> Suc (resets evs)
   \<and> snd ` set (cs_waiting (csrf_run evs)) \<subseteq> set (cs_flight (csrf_run evs))
   \<and> cs_cache (csrf_run evs) \<noteq> Some []"
  using csrf_ok_run [of evs] flight_le [of "csrf_run evs"] by (auto simp: csrf_ok_def orphans_def)

text \<open>The bound is reached: a reset abandons the request in flight, and the next caller starts another.\<close>

lemma reset_starts_second_request:
  "cs_flight (csrf_run [CsrfResolve \<lparr>pg_cookie = None, pg_meta = None\<rparr> 1, CsrfReset,
     CsrfResolve \<lparr>pg_cookie = None, pg_meta = None\<rparr> 2]) = [0, 1]"
  by code_simp

text \<open>
  C39. No caller is lost and none is answered twice: at any time every call has either been answered or is waiting,
  whatever resets and replies came in between. Once the requests in flight have settled, in any order and with
  any replies, failed ones included, every call has had exactly one answer and nobody waits.
\<close>
theorem csrf_every_caller_answered:
  assumes "set rs = set (cs_flight (csrf_run evs))"
    and "s = csrf_run (evs @ map (\<lambda>r. CsrfReply r (reply r)) rs)"
  shows "mset (map fst (cs_answers (csrf_run evs))) + mset (map fst (cs_waiting (csrf_run evs))) = mset (callers evs)
    \<and> cs_flight s = [] \<and> cs_waiting s = [] \<and> mset (map fst (cs_answers s)) = mset (callers evs)"
proof -
  let ?replies = "map (\<lambda>r. CsrfReply r (reply r)) rs"
  have flight: "cs_flight s = []"
    using settle_all [where s = "csrf_run evs" and rs = rs and reply = reply] assms by (simp add: csrf_run_def)
  then have "cs_waiting s = []"
    using csrf_ok_run [of "evs @ ?replies"] assms(2) by (simp add: csrf_ok_def)
  moreover from this have "mset (map fst (cs_answers s)) = mset (callers (evs @ ?replies))"
    using asked_run [of "evs @ ?replies"] assms(2) by (simp add: asked_def)
  ultimately show ?thesis
    using flight asked_run [of evs] by (simp add: callers_append callers_replies asked_def)
qed

lemma csrf_every_caller_answered_witness:
  "mset (map fst (cs_answers (csrf_run ([CsrfResolve \<lparr>pg_cookie = None, pg_meta = None\<rparr> 6, CsrfReset,
      CsrfResolve \<lparr>pg_cookie = None, pg_meta = None\<rparr> 7] @ map (\<lambda>r. CsrfReply r CsrfThrow) [1, 0])))) = {#6, 7#}"
proof -
  let ?evs = "[CsrfResolve \<lparr>pg_cookie = None, pg_meta = None\<rparr> 6, CsrfReset, CsrfResolve \<lparr>pg_cookie = None, pg_meta = None\<rparr> 7]"
  have "cs_flight (csrf_run ?evs) = [0, 1]" by code_simp
  then have "set [1, 0] = set (cs_flight (csrf_run ?evs))" by auto
  from csrf_every_caller_answered [OF this refl, of "\<lambda>_. CsrfThrow"]
  show ?thesis by (simp add: callers_def List.map_filter_def)
qed

text \<open>
  The cookie reader finds the token the server wrote, whatever other cookies surround it.
\<close>
theorem csrf_cookie_roundtrip:
  assumes "\<forall>kv\<in>set before \<union> set after. cookie_text (fst kv) \<and> cookie_text (snd kv) \<and> CHR ''='' \<notin> set (fst kv)"
    and "\<forall>kv\<in>set before. fst kv \<noteq> csrf_cookie_name" and "utf8_valid t" and "t \<noteq> []"
  shows "readCsrfFromCookie (Some (join_with ''; ''
           (map cookie_pair (before @ (csrf_cookie_name, encodeURIComponent t) # after)))) = Some t"
proof -
  let ?ps = "map cookie_pair (before @ (csrf_cookie_name, encodeURIComponent t) # after)"
  have enc: "cookie_text (encodeURIComponent t)"
    unfolding cookie_text_def using set_encode [of _ t] unreserved_no_space by (fastforce simp: is_space_def)
  have "cookie_text (cookie_pair kv)" if "cookie_text (fst kv)" "cookie_text (snd kv)" for kv
    using that by (auto simp: cookie_text_def cookie_pair_def is_space_def)
  moreover have "cookie_text csrf_cookie_name" by (simp add: cookie_text_def csrf_cookie_name_def is_space_def)
  ultimately have "\<forall>p\<in>set ?ps. cookie_text p" using assms(1) enc by auto
  from split_cookies [OF this] have split: "map trim (split_on (CHR '';'') (join_with ''; '' ?ps)) = ?ps" by simp
  moreover have "map trim (split_on (CHR '';'') []) = [[]]" by (simp add: trim_def)
  moreover have "?ps \<noteq> [[]]" by (cases before) (auto simp: cookie_pair_def)
  ultimately have ne: "join_with ''; '' ?ps \<noteq> []" by metis
  have "scan_entries ?ps = Some t"
    using scan_cookies [of before t "map cookie_pair after"] assms by auto
  with split ne show ?thesis by (simp add: readCsrfFromCookie_def)
qed

lemma csrf_cookie_roundtrip_witness:
  "readCsrfFromCookie (Some ''theme=dark; csrf_token=a%3Db; id=7'') = Some ''a=b''"
proof -
  have "readCsrfFromCookie (Some (join_with ''; '' (map cookie_pair
      ([(''theme'', ''dark'')] @ (csrf_cookie_name, encodeURIComponent ''a=b'') # [(''id'', ''7'')])))) = Some ''a=b''"
    by (rule csrf_cookie_roundtrip) (simp_all add: cookie_text_def is_space_def csrf_cookie_name_def utf8_valid_def)
  moreover have "join_with ''; '' (map cookie_pair
      ([(''theme'', ''dark'')] @ (csrf_cookie_name, encodeURIComponent ''a=b'') # [(''id'', ''7'')]))
      = ''theme=dark; csrf_token=a%3Db; id=7''" by code_simp
  ultimately show ?thesis by simp
qed

end
