(* ===== verification/SessionControls.thy ===== *)
theory SessionControls
  imports CsrfToken
begin

text \<open>
  \<open>hooks/useSessionControls.ts\<close>, \<open>components/SessionControls.tsx\<close>, \<open>SessionStateChip.tsx\<close> and
  \<open>CancelConfirmDialog.tsx\<close>: how the operator starts, pauses, resumes and cancels a session.

  The hook is a record of its React state and refs. A call of a mutation helper, the arrival of its
  result, a status poll, a failed poll, a timer tick and a render with its effects (\<open>commit\<close>) are
  its steps. A state update is visible to the next render at once; \<open>stateRef\<close> changes only in
  \<open>commit\<close>, as in the code.
\<close>

section \<open>Types and constants\<close>

datatype ui_state = UIdle | UStarting | URunning | UPaused | UResuming | UCancelled | UCompleted | UFailed

datatype server_status = SvIdle | SvRunning | SvPaused | SvCancelled | SvCompleted | SvFailed

datatype target_kind = KAutopilot | KChain

datatype verb = VStart | VPause | VResume | VCancel

datatype pipeline_mode = PFull | PLight

datatype refresh_category = RActive | RIdle | RTerminal

record control_error =
  ce_slug :: string
  ce_status :: nat
  ce_message :: string
  ce_hint :: "string option"
  ce_retryAfter :: "int option"

fun refresh_interval_ms :: "refresh_category \<Rightarrow> nat" where
  "refresh_interval_ms RActive = 2000"
| "refresh_interval_ms RIdle = 15000"
| "refresh_interval_ms RTerminal = 30000"

definition tick_interval_ms :: nat where "tick_interval_ms = 1000"

definition csrf_header_name :: string where "csrf_header_name = ''X-CSRF-Token''"

definition default_error_copy :: "(string, string) omap" where
  "default_error_copy =
     [(''target_not_found'', ''Session target not found''),
      (''concurrent_cap_reached'', ''Concurrent autopilot cap reached''),
      (''already_running'', ''Session is already running''),
      (''cannot_resume_cancelled'', ''Cannot resume a cancelled session''),
      (''cannot_resume_completed'', ''Cannot resume a completed session''),
      (''cannot_resume_running'', ''Cannot resume '' @ emdash @ '' session is already running''),
      (''stream_unavailable'', ''Resume stream unavailable''),
      (''pause_write_failed'', ''Failed to write pause file''),
      (''tmux_error'', ''tmux subsystem error''),
      (''origin'', ''Origin not allowed''),
      (''csrf'', ''CSRF token unavailable''),
      (''network'', ''Network error '' @ emdash @ '' check the dashboard server''),
      (''http'', ''Request failed''),
      (''pydantic'', ''Request body rejected by validator'')]"

definition error_copy :: "string \<Rightarrow> string" where
  "error_copy slug = om_get_or [] default_error_copy slug"

section \<open>Derived state\<close>

fun deriveState :: "server_status option \<Rightarrow> bool \<Rightarrow> bool \<Rightarrow> ui_state" where
  "deriveState None isStarting isResuming = UIdle"
| "deriveState (Some SvIdle) isStarting isResuming =
     (if isStarting then UStarting else if isResuming then UResuming else UIdle)"
| "deriveState (Some SvRunning) isStarting isResuming = URunning"
| "deriveState (Some SvPaused) isStarting isResuming = (if isResuming then UResuming else UPaused)"
| "deriveState (Some SvCancelled) isStarting isResuming = UCancelled"
| "deriveState (Some SvCompleted) isStarting isResuming = UCompleted"
| "deriveState (Some SvFailed) isStarting isResuming = UFailed"

definition refreshCategory :: "ui_state \<Rightarrow> bool \<Rightarrow> refresh_category" where
  "refreshCategory st isPausing =
     (if isPausing then RActive
      else (case st of
          UStarting \<Rightarrow> RActive | URunning \<Rightarrow> RActive | UResuming \<Rightarrow> RActive | UPaused \<Rightarrow> RActive
        | UIdle \<Rightarrow> RIdle
        | UCancelled \<Rightarrow> RTerminal | UCompleted \<Rightarrow> RTerminal | UFailed \<Rightarrow> RTerminal))"

fun isAllowed :: "verb \<Rightarrow> ui_state \<Rightarrow> bool" where
  "isAllowed VStart st \<longleftrightarrow> st = UIdle \<or> st = UCancelled \<or> st = UCompleted \<or> st = UFailed"
| "isAllowed VPause st \<longleftrightarrow> st = URunning"
| "isAllowed VResume st \<longleftrightarrow> st = UPaused"
| "isAllowed VCancel st \<longleftrightarrow> st = UStarting \<or> st = URunning \<or> st = UResuming \<or> st = UPaused"

section \<open>Requests and errors\<close>

record http_res =
  hr_ok :: bool
  hr_status :: nat
  hr_statusText :: string
  hr_json :: "json option"
  hr_retryAfter :: "string option"

text \<open>\<open>parse_int10 s\<close> is \<open>Number.parseInt(s, 10)\<close>, \<open>None\<close> for NaN.\<close>

definition parse_int10 :: "string \<Rightarrow> int option" where
  "parse_int10 s =
     (let s1 = dropWhile is_space s;
          neg = starts_with s1 ''-'';
          s2 = (if neg \<or> starts_with s1 ''+'' then tl s1 else s1);
          ds = takeWhile is_digit s2
      in if ds = [] then None
         else Some (if neg then - int (digits_val ds) else int (digits_val ds)))"

definition str_field :: "json \<Rightarrow> string \<Rightarrow> string option" where
  "str_field body k = (case jfield body k of Some (JStr s) \<Rightarrow> Some s | _ \<Rightarrow> None)"

definition error_slug :: "json \<Rightarrow> string" where
  "error_slug body =
     (case jfield body ''detail'' of
        Some (JArr xs) \<Rightarrow> ''pydantic''
      | _ \<Rightarrow> (case str_field body ''error'' of Some s \<Rightarrow> s | None \<Rightarrow> ''http''))"

text \<open>The second component tells whether the body token cache is reset.\<close>

definition parseControlError :: "http_res \<Rightarrow> control_error \<times> bool" where
  "parseControlError res =
     (case hr_json res of
        None \<Rightarrow> (\<lparr>ce_slug = ''http'', ce_status = hr_status res, ce_message = error_copy ''http'',
                 ce_hint = None, ce_retryAfter = None\<rparr>, False)
      | Some body \<Rightarrow>
          (let slug = error_slug body;
               message = (case str_field body ''message'' of
                   Some m \<Rightarrow> m
                 | None \<Rightarrow> (case om_get default_error_copy slug of
                     Some f \<Rightarrow> f
                   | None \<Rightarrow> hr_statusText res));
               retry = (if hr_status res = 429
                        then (case parse_int10 (case hr_retryAfter res of Some r \<Rightarrow> r | None \<Rightarrow> '''') of
                                Some n \<Rightarrow> if n > 0 then Some n else None
                              | None \<Rightarrow> None)
                        else None)
           in (\<lparr>ce_slug = slug, ce_status = hr_status res, ce_message = message,
                ce_hint = str_field body ''hint'', ce_retryAfter = retry\<rparr>, slug = ''csrf'')))"

datatype fetch_outcome = FetchThrow | FetchRes http_res

datatype post_result = POk | PErr control_error

definition csrf_unavailable :: control_error where
  "csrf_unavailable =
     \<lparr>ce_slug = ''csrf'', ce_status = 0, ce_message = error_copy ''csrf'',
      ce_hint = Some (''Open browser DevTools '' @ [CHR 0xE2, CHR 0x86, CHR 0x92] @
        '' Console for csrfToken: diagnostics. Reload only helps if the cookie was cleared.''),
      ce_retryAfter = None\<rparr>"

definition network_error :: control_error where
  "network_error =
     \<lparr>ce_slug = ''network'', ce_status = 0, ce_message = error_copy ''network'', ce_hint = None, ce_retryAfter = None\<rparr>"

text \<open>
  What a mutation does once the token is resolved: without a token nothing is sent; otherwise the
  outcome of the request decides.
\<close>

definition postMutation :: "string option \<Rightarrow> fetch_outcome \<Rightarrow> post_result \<times> bool" where
  "postMutation token out =
     (case token of
        None \<Rightarrow> (PErr csrf_unavailable, False)
      | Some t \<Rightarrow>
          (case out of
             FetchThrow \<Rightarrow> (PErr network_error, False)
           | FetchRes res \<Rightarrow>
               if hr_ok res then (POk, False)
               else (case parseControlError res of (e, reset) \<Rightarrow> (PErr e, reset))))"

fun kind_text :: "target_kind \<Rightarrow> string" where
  "kind_text KAutopilot = ''autopilot''"
| "kind_text KChain = ''chain''"

fun verb_text :: "verb \<Rightarrow> string" where
  "verb_text VStart = ''start''"
| "verb_text VPause = ''pause''"
| "verb_text VResume = ''resume''"
| "verb_text VCancel = ''cancel''"

fun mode_text :: "pipeline_mode \<Rightarrow> string" where
  "mode_text PFull = ''full''"
| "mode_text PLight = ''light''"

definition status_url :: "target_kind \<Rightarrow> string \<Rightarrow> string" where
  "status_url kind i = ''/api/'' @ kind_text kind @ ''/status?id='' @ encodeURIComponent i"

definition swr_key :: "target_kind \<Rightarrow> string option \<Rightarrow> string option" where
  "swr_key kind target = map_option (status_url kind) target"

definition mutation_url :: "target_kind \<Rightarrow> verb \<Rightarrow> string" where
  "mutation_url kind v = ''/api/'' @ kind_text kind @ ''/'' @ verb_text v"

definition target_body :: "string \<Rightarrow> json" where
  "target_body i = JObj [(''target_id'', JStr i)]"

definition start_body :: "target_kind \<Rightarrow> string \<Rightarrow> pipeline_mode option \<Rightarrow> json" where
  "start_body kind i pipeline =
     JObj ((''target_id'', JStr i) #
       (if kind = KAutopilot
        then [(''pipeline'', JStr (mode_text (case pipeline of Some p \<Rightarrow> p | None \<Rightarrow> PFull)))] else []))"

section \<open>The hook\<close>

record hook =
  h_status :: "server_status option"
  h_tmux :: "string option"
  h_isStarting :: bool
  h_isResuming :: bool
  h_pauseAt :: "nat option"
  h_elapsed :: nat
  h_error :: "control_error option"
  h_stateRef :: ui_state
  h_pauseRef :: "nat option"
  h_seen :: "server_status option"
  h_posts :: "(verb \<times> json) list"

definition hook_init :: hook where
  "hook_init =
     \<lparr>h_status = None, h_tmux = None, h_isStarting = False, h_isResuming = False, h_pauseAt = None,
      h_elapsed = 0, h_error = None, h_stateRef = UIdle, h_pauseRef = None, h_seen = None, h_posts = []\<rparr>"

definition h_state :: "hook \<Rightarrow> ui_state" where
  "h_state h = deriveState (h_status h) (h_isStarting h) (h_isResuming h)"

definition h_isPausing :: "hook \<Rightarrow> bool" where
  "h_isPausing h \<longleftrightarrow> h_pauseAt h \<noteq> None"

definition h_isStale :: "hook \<Rightarrow> bool" where
  "h_isStale h \<longleftrightarrow> h_state h = URunning \<and> h_tmux h = None"

definition poll_interval :: "hook \<Rightarrow> nat" where
  "poll_interval h = refresh_interval_ms (refreshCategory (h_state h) (h_isPausing h))"

definition post :: "verb \<Rightarrow> json \<Rightarrow> hook \<Rightarrow> hook" where
  "post v body h = h\<lparr>h_posts := h_posts h @ [(v, body)]\<rparr>"

text \<open>The mutation helpers, split where they await the server. \<open>None\<close> is the null target.\<close>

definition call_start :: "target_kind \<Rightarrow> string option \<Rightarrow> pipeline_mode option \<Rightarrow> hook \<Rightarrow> hook" where
  "call_start kind target opts h =
     (case target of
        None \<Rightarrow> h
      | Some i \<Rightarrow>
          if \<not> isAllowed VStart (h_stateRef h) then h
          else post VStart (start_body kind i opts) (h\<lparr>h_error := None, h_isStarting := True\<rparr>))"

definition done_start :: "post_result \<Rightarrow> hook \<Rightarrow> hook" where
  "done_start r h = (case r of POk \<Rightarrow> h | PErr e \<Rightarrow> h\<lparr>h_isStarting := False, h_error := Some e\<rparr>)"

definition call_pause :: "string option \<Rightarrow> nat \<Rightarrow> hook \<Rightarrow> hook" where
  "call_pause target now h =
     (case target of
        None \<Rightarrow> h
      | Some i \<Rightarrow>
          if \<not> isAllowed VPause (h_stateRef h) then h
          else (let h1 = h\<lparr>h_error := None\<rparr>;
                    h2 = (if h_pauseRef h1 = None then h1\<lparr>h_pauseRef := Some now, h_pauseAt := Some now\<rparr> else h1)
                in post VPause (target_body i) h2))"

definition done_pause :: "post_result \<Rightarrow> hook \<Rightarrow> hook" where
  "done_pause r h =
     (case r of POk \<Rightarrow> h | PErr e \<Rightarrow> h\<lparr>h_pauseRef := None, h_pauseAt := None, h_error := Some e\<rparr>)"

definition call_resume :: "string option \<Rightarrow> hook \<Rightarrow> hook" where
  "call_resume target h =
     (case target of
        None \<Rightarrow> h
      | Some i \<Rightarrow>
          if \<not> isAllowed VResume (h_stateRef h) then h
          else post VResume (target_body i) (h\<lparr>h_error := None, h_isResuming := True\<rparr>))"

definition done_resume :: "post_result \<Rightarrow> hook \<Rightarrow> hook" where
  "done_resume r h = (case r of POk \<Rightarrow> h | PErr e \<Rightarrow> h\<lparr>h_isResuming := False, h_error := Some e\<rparr>)"

definition call_cancel :: "string option \<Rightarrow> hook \<Rightarrow> hook" where
  "call_cancel target h =
     (case target of
        None \<Rightarrow> h
      | Some i \<Rightarrow>
          if \<not> isAllowed VCancel (h_stateRef h) then h
          else post VCancel (target_body i) (h\<lparr>h_error := None\<rparr>))"

text \<open>A cancelled session is polled at once: \<open>Some\<close> is the key to revalidate.\<close>

definition done_cancel :: "target_kind \<Rightarrow> string \<Rightarrow> post_result \<Rightarrow> hook \<Rightarrow> hook \<times> string option" where
  "done_cancel kind i r h =
     (case r of POk \<Rightarrow> (h, Some (status_url kind i)) | PErr e \<Rightarrow> (h\<lparr>h_error := Some e\<rparr>, None))"

definition call_restart :: "string option \<Rightarrow> hook \<Rightarrow> hook" where
  "call_restart target h =
     (case target of None \<Rightarrow> h | Some i \<Rightarrow> post VCancel (target_body i) (h\<lparr>h_error := None\<rparr>))"

definition restart_cancelled :: "target_kind \<Rightarrow> string \<Rightarrow> pipeline_mode option \<Rightarrow> post_result \<Rightarrow> hook \<Rightarrow> hook" where
  "restart_cancelled kind i opts r h =
     (case r of
        PErr e \<Rightarrow> h\<lparr>h_error := Some e\<rparr>
      | POk \<Rightarrow> post VStart (start_body kind i opts) (h\<lparr>h_isStarting := True\<rparr>))"

definition restart_started :: "target_kind \<Rightarrow> string \<Rightarrow> post_result \<Rightarrow> hook \<Rightarrow> hook \<times> string option" where
  "restart_started kind i r h =
     ((case r of POk \<Rightarrow> h | PErr e \<Rightarrow> h\<lparr>h_isStarting := False, h_error := Some e\<rparr>), Some (status_url kind i))"

definition poll_ok :: "server_status \<Rightarrow> string option \<Rightarrow> hook \<Rightarrow> hook" where
  "poll_ok s tmux h = h\<lparr>h_status := Some s, h_tmux := tmux\<rparr>"

definition poll_failed :: "nat option \<Rightarrow> string \<Rightarrow> hook \<Rightarrow> hook" where
  "poll_failed code msg h =
     h\<lparr>h_error := Some \<lparr>ce_slug = ''http'', ce_status = (case code of Some n \<Rightarrow> n | None \<Rightarrow> 0),
         ce_message = (if msg \<noteq> [] then msg else error_copy ''http''), ce_hint = None, ce_retryAfter = None\<rparr>\<rparr>"

definition reconcile :: "hook \<Rightarrow> hook" where
  "reconcile h =
     (case h_status h of
        Some SvRunning \<Rightarrow> h\<lparr>h_isStarting := False, h_isResuming := False\<rparr>
      | Some SvPaused \<Rightarrow> h\<lparr>h_isResuming := False, h_pauseAt := None\<rparr>
      | Some SvCancelled \<Rightarrow> h\<lparr>h_isStarting := False, h_isResuming := False, h_pauseAt := None\<rparr>
      | Some SvCompleted \<Rightarrow> h\<lparr>h_isStarting := False, h_isResuming := False, h_pauseAt := None\<rparr>
      | Some SvFailed \<Rightarrow> h\<lparr>h_isStarting := False, h_isResuming := False, h_pauseAt := None\<rparr>
      | _ \<Rightarrow> h)"

text \<open>
  A render followed by its effects, in the order the hook declares them; the reconcile effect runs
  only when the status differs from the one it last saw. \<open>pauseRef\<close> and \<open>pauseAt\<close> differ only after
  a change of the latter, so copying at every render is what its effect does.
\<close>

definition commit :: "hook \<Rightarrow> hook" where
  "commit h =
     (let h1 = h\<lparr>h_stateRef := h_state h, h_pauseRef := h_pauseAt h, h_seen := h_status h\<rparr>
      in if h_status h \<noteq> h_seen h then reconcile h1 else h1)"

definition tick :: "nat \<Rightarrow> hook \<Rightarrow> hook" where
  "tick now h = h\<lparr>h_elapsed := (case h_pauseAt h of None \<Rightarrow> 0 | Some t \<Rightarrow> (now - t) div 1000)\<rparr>"

datatype hook_event =
    EvStart "pipeline_mode option" | EvStartDone post_result
  | EvPause nat | EvPauseDone post_result
  | EvResume | EvResumeDone post_result
  | EvCancel | EvCancelDone post_result
  | EvRestart | EvRestartCancelled "pipeline_mode option" post_result | EvRestartStarted post_result
  | EvPoll server_status "string option" | EvPollFailed "nat option" string
  | EvCommit | EvTick nat

fun hook_step :: "target_kind \<Rightarrow> string \<Rightarrow> hook_event \<Rightarrow> hook \<Rightarrow> hook" where
  "hook_step k i (EvStart opts) h = call_start k (Some i) opts h"
| "hook_step k i (EvStartDone r) h = done_start r h"
| "hook_step k i (EvPause now) h = call_pause (Some i) now h"
| "hook_step k i (EvPauseDone r) h = done_pause r h"
| "hook_step k i EvResume h = call_resume (Some i) h"
| "hook_step k i (EvResumeDone r) h = done_resume r h"
| "hook_step k i EvCancel h = call_cancel (Some i) h"
| "hook_step k i (EvCancelDone r) h = fst (done_cancel k i r h)"
| "hook_step k i EvRestart h = call_restart (Some i) h"
| "hook_step k i (EvRestartCancelled opts r) h = restart_cancelled k i opts r h"
| "hook_step k i (EvRestartStarted r) h = fst (restart_started k i r h)"
| "hook_step k i (EvPoll s tmux) h = poll_ok s tmux h"
| "hook_step k i (EvPollFailed c m) h = poll_failed c m h"
| "hook_step k i EvCommit h = commit h"
| "hook_step k i (EvTick now) h = tick now h"

definition hook_run :: "target_kind \<Rightarrow> string \<Rightarrow> hook_event list \<Rightarrow> hook" where
  "hook_run k i evs = fold (hook_step k i) evs hook_init"

lemmas hook_defs =
  call_start_def done_start_def call_pause_def done_pause_def call_resume_def done_resume_def
  call_cancel_def done_cancel_def call_restart_def restart_cancelled_def restart_started_def
  poll_ok_def poll_failed_def reconcile_def commit_def tick_def post_def

end
