(* ===== verification/SessionButtons.thy ===== *)
theory SessionButtons
  imports SessionControls Types
begin

text \<open>
  \<open>components/SessionControls.tsx\<close>, \<open>SessionStateChip.tsx\<close>, \<open>CancelConfirmDialog.tsx\<close>: the buttons
  offered in each state, their labels, the state chip and the cancel dialog; and the properties of
  the hook together with its buttons.
\<close>

section \<open>Tables\<close>

record visibility =
  vis_start :: bool
  vis_pause :: bool
  vis_resume :: bool
  vis_cancel :: bool
  vis_attach :: bool

fun button_visibility :: "ui_state \<Rightarrow> visibility" where
  "button_visibility UIdle = \<lparr>vis_start = True, vis_pause = False, vis_resume = False, vis_cancel = False, vis_attach = False\<rparr>"
| "button_visibility UStarting = \<lparr>vis_start = False, vis_pause = False, vis_resume = False, vis_cancel = True, vis_attach = False\<rparr>"
| "button_visibility URunning = \<lparr>vis_start = False, vis_pause = True, vis_resume = False, vis_cancel = True, vis_attach = True\<rparr>"
| "button_visibility UPaused = \<lparr>vis_start = False, vis_pause = False, vis_resume = True, vis_cancel = True, vis_attach = True\<rparr>"
| "button_visibility UResuming = \<lparr>vis_start = False, vis_pause = False, vis_resume = False, vis_cancel = True, vis_attach = True\<rparr>"
| "button_visibility UCancelled = \<lparr>vis_start = True, vis_pause = False, vis_resume = False, vis_cancel = False, vis_attach = False\<rparr>"
| "button_visibility UCompleted = \<lparr>vis_start = True, vis_pause = False, vis_resume = False, vis_cancel = False, vis_attach = False\<rparr>"
| "button_visibility UFailed = \<lparr>vis_start = True, vis_pause = False, vis_resume = False, vis_cancel = False, vis_attach = False\<rparr>"

fun primary_verb :: "ui_state \<Rightarrow> string" where
  "primary_verb UCancelled = ''Restart''"
| "primary_verb UCompleted = ''Restart''"
| "primary_verb UFailed = ''Restart''"
| "primary_verb _ = ''Start''"

datatype autopilot_mode = AmLight | AmFull | AmManual

definition start_title :: "target_kind \<Rightarrow> string" where
  "start_title kind =
     (if kind = KChain
      then ''Spawns an autopilot-chain tmux session and runs every autopilot-eligible task in this plan.''
      else ''Spawns an autopilot tmux session and runs this feature end-to-end through the pipeline.'')"

definition primary_label :: "ui_state \<Rightarrow> target_kind \<Rightarrow> autopilot_mode option \<Rightarrow> string" where
  "primary_label st kind mode =
     primary_verb st @ '' '' @ kind_text kind @
     (if kind = KAutopilot then
        (case mode of
           Some AmLight \<Rightarrow> '' '' @ mdot @ '' light''
         | Some AmFull \<Rightarrow> '' '' @ mdot @ '' full''
         | _ \<Rightarrow> '''')
      else '''')"

definition formatPauseElapsed :: "nat \<Rightarrow> string" where
  "formatPauseElapsed s =
     ''Pausing'' @ ellipsis @ '' '' @
     (if s < 3600 then string_of_nat (s div 60) @ '':'' @ pad2 (s mod 60)
      else string_of_nat (s div 3600) @ '':'' @ pad2 (s mod 3600 div 60) @ '':'' @ pad2 (s mod 60))"

definition primary_text :: "control_error \<Rightarrow> string" where
  "primary_text e =
     (case ce_retryAfter e of
        Some n \<Rightarrow> if n > 0 then ce_message e @ '' '' @ emdash @ '' retry in '' @ string_of_int n @ ''s''
                  else ce_message e
      | None \<Rightarrow> ce_message e)"

definition csrf_default_hint :: string where
  "csrf_default_hint =
     ''The session token did not match. Reload the page to issue a fresh pair.''"

definition secondary_text :: "control_error \<Rightarrow> string option" where
  "secondary_text e =
     (if truthy (ce_hint e) then ce_hint e
      else if ce_slug e = ''csrf'' then Some csrf_default_hint
      else None)"

section \<open>The rendered controls\<close>

datatype density = DPanel | DHeader

datatype control =
    CStart string string
  | CPause string bool
  | CResume
  | CCancel
  | CAttach string
  | CRestart string
  | CDivider

text \<open>Buttons and dividers from left to right.\<close>

definition controls ::
    "target_kind \<Rightarrow> autopilot_mode option \<Rightarrow> density \<Rightarrow> bool \<Rightarrow> bool \<Rightarrow> hook \<Rightarrow> control list" where
  "controls kind mode density attached hideOutput h =
     (let st = h_state h; v = button_visibility st; stale = h_isStale h; pausing = h_isPausing h;
          pause_label = (if pausing then formatPauseElapsed (h_elapsed h) else ''Pause'');
          attach_label = (if attached then ''Hide'' else ''Output'');
          mainline = vis_start v \<or> vis_pause v \<or> vis_resume v
      in (if vis_start v then [CStart (primary_label st kind mode) (start_title kind)] else [])
       @ (if vis_pause v \<and> density = DPanel then [CPause pause_label pausing] else [])
       @ (if vis_resume v then [CResume] else [])
       @ (if vis_cancel v \<and> mainline \<and> density = DPanel then [CDivider] else [])
       @ (if vis_cancel v \<and> density = DPanel then [CCancel] else [])
       @ (if vis_attach v \<and> vis_cancel v \<and> density = DPanel then [CDivider] else [])
       @ (if vis_attach v \<and> density = DPanel \<and> \<not> hideOutput then [CAttach attach_label] else [])
       @ (if density = DHeader \<and> \<not> stale \<and> vis_pause v then [CPause pause_label pausing] else [])
       @ (if density = DHeader \<and> \<not> stale \<and> vis_cancel v then [CCancel] else [])
       @ (if density = DHeader \<and> \<not> stale \<and> vis_attach v \<and> \<not> hideOutput then [CAttach attach_label] else [])
       @ (if density = DHeader \<and> stale then [CRestart (''Restart '' @ kind_text kind)] else []))"

fun offers :: "control list \<Rightarrow> verb \<Rightarrow> bool" where
  "offers cs VStart \<longleftrightarrow> (\<exists>c\<in>set cs. case c of CStart l t \<Rightarrow> True | _ \<Rightarrow> False)"
| "offers cs VPause \<longleftrightarrow> (\<exists>c\<in>set cs. case c of CPause l d \<Rightarrow> True | _ \<Rightarrow> False)"
| "offers cs VResume \<longleftrightarrow> CResume \<in> set cs"
| "offers cs VCancel \<longleftrightarrow> CCancel \<in> set cs"

section \<open>Chip and dialog\<close>

fun state_label :: "ui_state \<Rightarrow> string" where
  "state_label UIdle = ''Idle''"
| "state_label UStarting = ''Starting''"
| "state_label URunning = ''Running''"
| "state_label UPaused = ''Paused''"
| "state_label UResuming = ''Resuming''"
| "state_label UCancelled = ''Cancelled''"
| "state_label UCompleted = ''Completed''"
| "state_label UFailed = ''Failed''"


fun status_by_state :: "ui_state \<Rightarrow> wf_status option" where
  "status_by_state UIdle = None"
| "status_by_state UStarting = Some WfQueued"
| "status_by_state URunning = Some WfRunning"
| "status_by_state UPaused = Some WfQueued"
| "status_by_state UResuming = Some WfQueued"
| "status_by_state UCancelled = Some WfFault"
| "status_by_state UCompleted = Some WfCompleted"
| "status_by_state UFailed = Some WfFault"

definition chip_label :: "ui_state \<Rightarrow> bool \<Rightarrow> string" where
  "chip_label st isPausing = (if st = URunning \<and> isPausing then ''Pausing'' @ ellipsis else state_label st)"

fun title_by_state :: "ui_state \<Rightarrow> string option" where
  "title_by_state URunning = Some ''Cancel running session?''"
| "title_by_state UPaused = Some ''Cancel paused session?''"
| "title_by_state UStarting = Some ''Cancel starting session?''"
| "title_by_state UResuming = Some ''Cancel resuming session?''"
| "title_by_state _ = None"

definition dialog_title :: "ui_state \<Rightarrow> string" where
  "dialog_title st = (case title_by_state st of Some t \<Rightarrow> t | None \<Rightarrow> ''Cancel session?'')"

text \<open>The state the component owns, and its handlers. The cancel request ends in either result.\<close>

record cancel_dialog =
  cd_open :: bool
  cd_isCancelling :: bool
  cd_hook :: hook

definition open_dialog :: "cancel_dialog \<Rightarrow> cancel_dialog" where
  "open_dialog d = d\<lparr>cd_open := True\<rparr>"

definition close_dialog :: "cancel_dialog \<Rightarrow> cancel_dialog" where
  "close_dialog d = (if cd_isCancelling d then d else d\<lparr>cd_open := False\<rparr>)"

definition confirm_begin :: "string option \<Rightarrow> cancel_dialog \<Rightarrow> cancel_dialog" where
  "confirm_begin target d = d\<lparr>cd_isCancelling := True, cd_hook := call_cancel target (cd_hook d)\<rparr>"

text \<open>
  \<open>mutate.cancel\<close> reports a refused request through the hook's \<open>error\<close> and returns normally, so the
  handler's normal continuation runs for both results.
\<close>

definition confirm_end :: "target_kind \<Rightarrow> string \<Rightarrow> post_result \<Rightarrow> cancel_dialog \<Rightarrow> cancel_dialog" where
  "confirm_end kind i r d =
     d\<lparr>cd_hook := fst (done_cancel kind i r (cd_hook d)), cd_isCancelling := False, cd_open := False\<rparr>"

section \<open>Invariants of the hook\<close>

definition hook_ok :: "hook \<Rightarrow> bool" where
  "hook_ok h \<longleftrightarrow>
     (h_stateRef h = URunning \<longrightarrow> h_seen h = Some SvRunning)
   \<and> (h_stateRef h = UPaused \<longrightarrow> h_seen h = Some SvPaused)
   \<and> (h_seen h \<in> {Some SvPaused, Some SvCancelled, Some SvCompleted, Some SvFailed} \<longrightarrow> h_pauseAt h = None)
   \<and> (h_seen h \<in> {Some SvRunning, Some SvCancelled, Some SvCompleted, Some SvFailed} \<longrightarrow> \<not> h_isResuming h)"

lemma derived_running: "deriveState s a b = URunning \<Longrightarrow> s = Some SvRunning"
  by (cases "(s, a, b)" rule: deriveState.cases) (auto split: if_splits)

lemma derived_paused: "deriveState s a b = UPaused \<Longrightarrow> s = Some SvPaused"
  by (cases "(s, a, b)" rule: deriveState.cases) (auto split: if_splits)

lemma reconcile_simps:
  "h_stateRef (reconcile h) = h_stateRef h" "h_seen (reconcile h) = h_seen h"
  "h_pauseAt (reconcile h) =
     (if h_status h \<in> {Some SvPaused, Some SvCancelled, Some SvCompleted, Some SvFailed} then None else h_pauseAt h)"
  "h_isResuming (reconcile h) =
     (h_isResuming h \<and> h_status h \<notin> {Some SvRunning, Some SvPaused, Some SvCancelled, Some SvCompleted, Some SvFailed})"
  by (auto simp: reconcile_def split: option.splits server_status.splits)

lemma hook_ok_commit:
  assumes "hook_ok h"
  shows "hook_ok (commit h)"
proof -
  have r: "h_state h = URunning \<Longrightarrow> h_status h = Some SvRunning" "h_state h = UPaused \<Longrightarrow> h_status h = Some SvPaused"
    unfolding h_state_def by (rule derived_running derived_paused, assumption)+
  show ?thesis
  proof (cases "h_status h = h_seen h")
    case True
    with assms r show ?thesis by (simp add: hook_ok_def commit_def)
  next
    case False
    with r show ?thesis by (simp add: hook_ok_def commit_def reconcile_simps)
  qed
qed

lemma hook_ok_step: "hook_ok h \<Longrightarrow> hook_ok (hook_step k i e h)"
proof (cases e)
  case EvCommit
  then show "hook_ok h \<Longrightarrow> hook_ok (hook_step k i e h)" by (simp add: hook_ok_commit)
qed (auto simp: hook_ok_def hook_defs Let_def split: post_result.splits option.splits)

lemma hook_ok_run: "hook_ok (hook_run k i evs)"
proof -
  have "hook_ok h \<Longrightarrow> hook_ok (fold (hook_step k i) evs h)" for h
    by (induction evs arbitrary: h) (simp_all add: hook_ok_step)
  moreover have "hook_ok hook_init" by (simp add: hook_ok_def hook_init_def)
  ultimately show ?thesis by (simp add: hook_run_def)
qed

section \<open>Properties\<close>

text \<open>
  C3. What the server says wins over the optimistic flags, with two exceptions that are stated too. In every reachable
  state that has been rendered (the last effects saw the current status): a paused, cancelled, completed or failed
  session is not shown as pausing, only an idle or paused one is shown as resuming and only an idle one as starting,
  and a running or ended one holds no resuming flag. When a poll brings another status, its render clears the
  starting and the resuming flag if the session runs or has ended, the resuming flag also if it is paused, and the pausing flag if it is
  paused or has ended. The exceptions: a change to idle clears no flag, and while the status stays the same none is
  cleared either (see restart_keeps_starting).
\<close>
theorem optimistic_flags_settle:
  assumes "h = hook_run k i evs" and "h_seen h = h_status h"
    and "h' = commit (poll_ok s tmux h)" and "Some s \<noteq> h_status h"
  shows "(h_status h \<in> {Some SvPaused, Some SvCancelled, Some SvCompleted, Some SvFailed} \<longrightarrow> \<not> h_isPausing h)
    \<and> (h_state h = UResuming \<longrightarrow> h_status h \<in> {Some SvIdle, Some SvPaused})
    \<and> (h_state h = UStarting \<longrightarrow> h_status h = Some SvIdle)
    \<and> (h_status h \<in> {Some SvRunning, Some SvCancelled, Some SvCompleted, Some SvFailed} \<longrightarrow> \<not> h_isResuming h)
    \<and> h_isStarting h' = (h_isStarting h \<and> s \<in> {SvIdle, SvPaused})
    \<and> h_isResuming h' = (h_isResuming h \<and> s = SvIdle)
    \<and> h_isPausing h' = (h_isPausing h \<and> s \<in> {SvIdle, SvRunning})"
proof -
  have "h_state h = UResuming \<Longrightarrow> h_status h \<in> {Some SvIdle, Some SvPaused}" "h_state h = UStarting \<Longrightarrow> h_status h = Some SvIdle"
    unfolding h_state_def
    by (cases "(h_status h, h_isStarting h, h_isResuming h)" rule: deriveState.cases; auto split: if_splits)+
  moreover have "h_isStarting h' = (h_isStarting h \<and> s \<in> {SvIdle, SvPaused})"
    "h_isResuming h' = (h_isResuming h \<and> s = SvIdle)" "h_isPausing h' = (h_isPausing h \<and> s \<in> {SvIdle, SvRunning})"
    using assms(2,4) by (cases s; simp add: assms(3) commit_def poll_ok_def reconcile_def h_isPausing_def)+
  ultimately show ?thesis
    using hook_ok_run [of k i evs] assms(1,2) by (auto simp: hook_ok_def h_isPausing_def)
qed

lemma optimistic_flags_settle_witness:
  "h_isPausing (hook_run KChain ''p'' [EvPoll SvRunning None, EvCommit, EvPause 5])
   \<and> \<not> h_isPausing (commit (poll_ok SvPaused None (hook_run KChain ''p'' [EvPoll SvRunning None, EvCommit, EvPause 5])))"
proof -
  let ?h = "hook_run KChain ''p'' [EvPoll SvRunning None, EvCommit, EvPause 5]"
  have h: "h_status ?h = Some SvRunning" "h_seen ?h = Some SvRunning" "h_isPausing ?h"
    by (simp_all add: hook_run_def hook_init_def hook_defs Let_def h_state_def h_isPausing_def)
  then have "h_seen ?h = h_status ?h" "Some SvPaused \<noteq> h_status ?h" by simp_all
  from optimistic_flags_settle [OF refl this(1) refl this(2), of None] h(3) show ?thesis by simp
qed

text \<open>
  A restart under a running session that the polls never see idle leaves the starting flag up; it shows when the
  session becomes idle. A session that is idle after a request to pause still counts as pausing.
\<close>

lemma restart_keeps_starting:
  "let evs = [EvPoll SvRunning None, EvCommit, EvRestart, EvRestartCancelled None POk, EvRestartStarted POk, EvPoll SvRunning None, EvCommit]
   in h_isStarting (hook_run KChain ''p'' evs) \<and> h_state (hook_run KChain ''p'' evs) = URunning
    \<and> h_state (hook_run KChain ''p'' (evs @ [EvPoll SvIdle None, EvCommit])) = UStarting"
  by (simp add: hook_run_def hook_init_def hook_defs Let_def h_state_def restart_cancelled_def)

lemma idle_keeps_pausing:
  "let h = hook_run KChain ''p'' [EvPoll SvRunning None, EvCommit, EvPause 5, EvPoll SvIdle None, EvCommit]
   in h_isPausing h \<and> h_state h = UIdle"
  by (simp add: hook_run_def hook_init_def hook_defs Let_def h_state_def h_isPausing_def)

text \<open>
  C7. The buttons agree with the guards of the hook: in the panel a verb is offered exactly when the
  hook accepts it in that state; in the header the same holds unless the session is stale. A stale session's header
  offers none of the verbs, though the hook would accept pause and cancel, but the restart button, which is there exactly
  then. In every state the hook accepts exactly one of start and cancel.
\<close>
theorem buttons_match_guards:
  "(\<forall>v. offers (controls kind mode DPanel att hide h) v \<longleftrightarrow> isAllowed v (h_state h))
   \<and> (\<forall>v. offers (controls kind mode DHeader att hide h) v \<longleftrightarrow> isAllowed v (h_state h) \<and> \<not> h_isStale h)
   \<and> (CRestart (''Restart '' @ kind_text kind) \<in> set (controls kind mode DHeader att hide h) \<longleftrightarrow> h_isStale h)
   \<and> (h_isStale h \<longrightarrow> isAllowed VPause (h_state h) \<and> isAllowed VCancel (h_state h))
   \<and> (isAllowed VStart (h_state h) \<longleftrightarrow> \<not> isAllowed VCancel (h_state h))"
proof -
  have start: "h_isStale h \<Longrightarrow> h_state h = URunning" by (simp add: h_isStale_def)
  have "offers (controls kind mode DPanel att hide h) v \<longleftrightarrow> isAllowed v (h_state h)" for v
    by (cases v; cases "h_state h") (simp_all add: controls_def Let_def)
  moreover have "offers (controls kind mode DHeader att hide h) v \<longleftrightarrow> isAllowed v (h_state h) \<and> \<not> h_isStale h" for v
    using start by (cases v; cases "h_state h") (auto simp: controls_def Let_def)
  moreover have "CRestart (''Restart '' @ kind_text kind) \<in> set (controls kind mode DHeader att hide h) \<longleftrightarrow> h_isStale h"
    by (auto simp: controls_def Let_def)
  moreover have "isAllowed VStart (h_state h) \<longleftrightarrow> \<not> isAllowed VCancel (h_state h)"
    by (cases "h_state h") simp_all
  moreover have "h_isStale h \<longrightarrow> isAllowed VPause (h_state h) \<and> isAllowed VCancel (h_state h)" using start by simp
  ultimately show ?thesis by blast
qed

lemma buttons_match_guards_witness:
  "isAllowed VCancel (h_state (hook_run KChain ''p'' [EvPoll SvRunning None, EvCommit]))
   \<and> \<not> offers (controls KChain None DHeader False False (hook_run KChain ''p'' [EvPoll SvRunning None, EvCommit])) VCancel"
proof -
  let ?h = "hook_run KChain ''p'' [EvPoll SvRunning None, EvCommit]"
  have "h_isStale ?h"
    by (simp add: hook_run_def hook_init_def hook_defs Let_def h_state_def h_isStale_def)
  then show ?thesis using buttons_match_guards [of KChain None False False ?h] by blast
qed

lemma rendered_verb:
  assumes "h_stateRef h = h_state h"
  shows "isAllowed VPause (h_stateRef h) \<Longrightarrow> h_status h = Some SvRunning"
    and "isAllowed VResume (h_stateRef h) \<Longrightarrow> h_status h = Some SvPaused \<and> \<not> h_isResuming h"
proof -
  show "isAllowed VPause (h_stateRef h) \<Longrightarrow> h_status h = Some SvRunning"
    using assms derived_running by (auto simp: h_state_def)
  assume "isAllowed VResume (h_stateRef h)"
  then have "deriveState (h_status h) (h_isStarting h) (h_isResuming h) = UPaused"
    using assms by (simp add: h_state_def)
  then show "h_status h = Some SvPaused \<and> \<not> h_isResuming h"
    using derived_paused by (cases "h_isResuming h") force+
qed

text \<open>
  C12. A refused mutation leaves no trace but its error: the state, the pausing flag and the server
  data are what they were before the click, the request was logged once, and the error is shown.
\<close>
theorem refused_mutation_rolls_back:
  assumes "h_stateRef h = h_state h" and "h_pauseRef h = None" and "h_pauseAt h = None" and "\<not> h_isStarting h"
  shows "(isAllowed VStart (h_state h) \<longrightarrow>
      done_start (PErr e) (call_start k (Some i) opts h) =
        h\<lparr>h_error := Some e, h_posts := h_posts h @ [(VStart, start_body k i opts)]\<rparr>)
    \<and> (isAllowed VPause (h_state h) \<longrightarrow>
      done_pause (PErr e) (call_pause (Some i) now h) =
        h\<lparr>h_error := Some e, h_posts := h_posts h @ [(VPause, target_body i)]\<rparr>)
    \<and> (isAllowed VResume (h_state h) \<longrightarrow>
      done_resume (PErr e) (call_resume (Some i) h) =
        h\<lparr>h_error := Some e, h_posts := h_posts h @ [(VResume, target_body i)]\<rparr>)
    \<and> (isAllowed VCancel (h_state h) \<longrightarrow>
      done_cancel k i (PErr e) (call_cancel (Some i) h) =
        (h\<lparr>h_error := Some e, h_posts := h_posts h @ [(VCancel, target_body i)]\<rparr>, None))"
  using assms rendered_verb [OF assms(1)]
  by (simp add: hook_defs Let_def del: isAllowed.simps)

lemma refused_mutation_rolls_back_witness:
  "done_start (PErr network_error) (call_start KChain (Some ''p'') None hook_init) =
     hook_init\<lparr>h_error := Some network_error, h_posts := [(VStart, target_body ''p'')]\<rparr>"
  using refused_mutation_rolls_back [of hook_init network_error KChain "''p''" None]
  by (simp add: hook_init_def h_state_def start_body_def target_body_def)

text \<open>
  Repeated pause clicks before the next render keep the time of the first one, and the counter
  shows the whole seconds since then.
\<close>
theorem pause_first_click_wins:
  assumes "isAllowed VPause (h_stateRef h)" and "h_pauseRef h = None"
  shows "h_pauseAt (call_pause (Some i) t2 (call_pause (Some i) t1 h)) = Some t1
    \<and> h_elapsed (tick now (call_pause (Some i) t2 (call_pause (Some i) t1 h))) = (now - t1) div 1000"
  using assms by (simp add: hook_defs Let_def del: isAllowed.simps)

text \<open>
  A second start click after the first one has been rendered sends nothing only when the
  server reports the session idle. On a cancelled, completed or failed session (and before the
  first poll) the state hides the pending start, and a second request goes out.
\<close>
theorem second_start_click:
  assumes "h_stateRef h = h_state h" and "h_seen h = h_status h" and "isAllowed VStart (h_state h)"
  shows "length (h_posts (call_start k (Some i) o2 (commit (call_start k (Some i) o1 h)))) =
    length (h_posts h) + (if h_status h = Some SvIdle then 1 else 2)"
proof -
  have "h_state (call_start k (Some i) o1 h) = (if h_status h = Some SvIdle then UStarting else h_state h)"
    using assms by (cases "(h_status h, h_isStarting h, h_isResuming h)" rule: deriveState.cases)
      (auto simp: h_state_def call_start_def post_def)
  with assms show ?thesis
    by (auto simp: call_start_def commit_def post_def Let_def)
qed

text \<open>
  The status is polled at the fast rate exactly while the session can be cancelled or a pause
  is pending, and at the slow terminal rate only in a terminal state.
\<close>
theorem poll_rate:
  "(poll_interval h = 2000 \<longleftrightarrow> h_isPausing h \<or> isAllowed VCancel (h_state h))
   \<and> (poll_interval h = 30000 \<longrightarrow> h_status h \<in> {Some SvCancelled, Some SvCompleted, Some SvFailed})
   \<and> (poll_interval h = 15000 \<longrightarrow> h_status h \<in> {None, Some SvIdle})"
proof -
  have "h_state h = UIdle \<Longrightarrow> h_status h \<in> {None, Some SvIdle}"
    unfolding h_state_def by (cases "(h_status h, h_isStarting h, h_isResuming h)" rule: deriveState.cases) (auto split: if_splits)
  moreover have "h_state h \<in> {UCancelled, UCompleted, UFailed} \<Longrightarrow>
      h_status h \<in> {Some SvCancelled, Some SvCompleted, Some SvFailed}"
    unfolding h_state_def by (cases "(h_status h, h_isStarting h, h_isResuming h)" rule: deriveState.cases) (auto split: if_splits)
  ultimately show ?thesis
    by (cases "h_state h") (auto simp: poll_interval_def refreshCategory_def)
qed

text \<open>
  The dialog has a title of its own for exactly the states in which cancelling is offered, it
  cannot be dismissed while the request runs, and it closes when the request ends even if the
  server refused it, with the error recorded in the hook.
\<close>
theorem cancel_dialog_lifecycle:
  "(title_by_state st \<noteq> None \<longleftrightarrow> vis_cancel (button_visibility st))
   \<and> close_dialog (confirm_begin t d) = confirm_begin t d
   \<and> \<not> cd_open (confirm_end k i (PErr e) (confirm_begin t d))
   \<and> h_error (cd_hook (confirm_end k i (PErr e) (confirm_begin t d))) = Some e"
  by (cases st) (simp_all add: close_dialog_def confirm_begin_def confirm_end_def done_cancel_def)

text \<open>
  Error responses: the status code is kept, a message of the server wins over the built-in text,
  which wins over the status line; a retry time is shown only for a rate limit and is positive; the
  token cache is dropped exactly for a CSRF rejection.
\<close>
theorem control_error_of_response:
  assumes "parseControlError res = (e, reset)"
  shows "ce_status e = hr_status res
    \<and> (reset \<longleftrightarrow> ce_slug e = ''csrf'')
    \<and> (\<forall>n. ce_retryAfter e = Some n \<longrightarrow> n > 0 \<and> hr_status res = 429)
    \<and> (\<forall>body m. hr_json res = Some body \<and> str_field body ''message'' = Some m \<longrightarrow> ce_message e = m)
    \<and> (\<forall>body. hr_json res = Some body \<and> str_field body ''message'' = None \<and> om_has default_error_copy (ce_slug e)
           \<longrightarrow> ce_message e = error_copy (ce_slug e))
    \<and> (hr_json res = None \<longrightarrow> ce_slug e = ''http'' \<and> ce_message e = error_copy ''http'')"
proof (cases "hr_json res")
  case None
  with assms have "e = \<lparr>ce_slug = ''http'', ce_status = hr_status res, ce_message = error_copy ''http'',
      ce_hint = None, ce_retryAfter = None\<rparr>" "reset = False"
    by (simp_all add: parseControlError_def)
  with None show ?thesis by simp
next
  case (Some body)
  with assms have e: "ce_slug e = error_slug body" "ce_status e = hr_status res" "reset = (error_slug body = ''csrf'')"
    "ce_message e = (case str_field body ''message'' of
        Some m \<Rightarrow> m
      | None \<Rightarrow> (case om_get default_error_copy (error_slug body) of Some f \<Rightarrow> f | None \<Rightarrow> hr_statusText res))"
    and r: "ce_retryAfter e = (if hr_status res = 429
        then (case parse_int10 (case hr_retryAfter res of Some r \<Rightarrow> r | None \<Rightarrow> '''') of
                Some n \<Rightarrow> if n > 0 then Some n else None | None \<Rightarrow> None) else None)"
    by (auto simp: parseControlError_def Let_def)
  from r have "\<forall>n. ce_retryAfter e = Some n \<longrightarrow> n > 0 \<and> hr_status res = 429"
    by (auto split: option.splits if_splits)
  with e Some show ?thesis
    by (simp add: om_has_def error_copy_def om_get_or_def split: option.splits)
qed

text \<open>
  The wire format: the server reads back the very target id from the status query, and the
  target id and pipeline from the body; a chain start carries no pipeline.
\<close>
theorem request_roundtrip:
  assumes "utf8_valid i"
  shows "query_of (status_url k i) = [Some (''id'', i)]
    \<and> json_parse (stringify (start_body k i opts)) = Some (start_body k i opts)
    \<and> str_field (start_body k i opts) ''target_id'' = Some i
    \<and> (str_field (start_body k i opts) ''pipeline'' = None \<longleftrightarrow> k = KChain)"
proof -
  have "CHR ''?'' \<notin> set (''/api/'' @ kind_text k @ ''/status'')" by (cases k) simp_all
  then have "query_of ((''/api/'' @ kind_text k @ ''/status'') @ CHR ''?'' # query_text [(''id'', i)])
      = map Some [(''id'', i)]"
    by (rule query_of_build [rotated]) (simp_all add: assms)
  then have query: "query_of (status_url k i) = [Some (''id'', i)]"
    by (simp add: status_url_def query_text_def)
  have "num_free (start_body k i opts)" by (simp add: start_body_def)
  from json_parse_stringify [OF this]
  have "json_parse (stringify (start_body k i opts)) = Some (start_body k i opts)" .
  then show ?thesis
    using query by (cases k) (simp_all add: str_field_def start_body_def del: append.simps stringify.simps)
qed

lemma pause_first_click_wins_witness:
  "h_elapsed (tick 8500 (call_pause (Some ''p'') 6000 (call_pause (Some ''p'') 5000
     (hook_run KChain ''p'' [EvPoll SvRunning None, EvCommit])))) = 3"
proof -
  let ?h = "hook_run KChain ''p'' [EvPoll SvRunning None, EvCommit]"
  have "isAllowed VPause (h_stateRef ?h)" and "h_pauseRef ?h = None" by code_simp+
  from pause_first_click_wins [OF this, of "''p''" 6000 5000 8500] show ?thesis by simp
qed

lemma second_start_click_witness:
  "length (h_posts (call_start KChain (Some ''p'') None (commit (call_start KChain (Some ''p'') None
     (hook_run KChain ''p'' [EvPoll SvFailed None, EvCommit]))))) = 2"
proof -
  let ?h = "hook_run KChain ''p'' [EvPoll SvFailed None, EvCommit]"
  have "h_stateRef ?h = h_state ?h" "h_seen ?h = h_status ?h" "isAllowed VStart (h_state ?h)"
    and p: "h_posts ?h = []" "h_status ?h = Some SvFailed" by code_simp+
  from second_start_click [OF this(1-3), of KChain "''p''" None None] p show ?thesis by simp
qed

lemma poll_rate_witness:
  "h_status (hook_run KChain ''p'' [EvPoll SvFailed None]) \<in> {Some SvCancelled, Some SvCompleted, Some SvFailed}"
proof -
  have "poll_interval (hook_run KChain ''p'' [EvPoll SvFailed None]) = 30000"
    by (simp add: hook_run_def hook_init_def hook_defs poll_interval_def refreshCategory_def h_isPausing_def h_state_def)
  then show ?thesis using poll_rate [of "hook_run KChain ''p'' [EvPoll SvFailed None]"] by (simp only: simp_thms)
qed

definition rate_limited :: http_res where
  "rate_limited =
     \<lparr>hr_ok = False, hr_status = 429, hr_statusText = ''Too Many Requests'',
      hr_json = Some (JObj [(''error'', JStr ''concurrent_cap_reached'')]), hr_retryAfter = Some ''30''\<rparr>"

lemma control_error_of_response_witness:
  "ce_message (fst (parseControlError rate_limited)) = ''Concurrent autopilot cap reached''"
proof -
  obtain e reset where p: "parseControlError rate_limited = (e, reset)" by (metis surj_pair)
  have "hr_json rate_limited = Some (JObj [(''error'', JStr ''concurrent_cap_reached'')])"
    by (simp add: rate_limited_def)
  moreover have "str_field (JObj [(''error'', JStr ''concurrent_cap_reached'')]) ''message'' = None"
    by (simp add: str_field_def)
  moreover have s: "ce_slug (fst (parseControlError rate_limited)) = ''concurrent_cap_reached''" by code_simp
  moreover have "om_has default_error_copy ''concurrent_cap_reached''" by code_simp
  ultimately have "ce_message e = error_copy ''concurrent_cap_reached''"
    using control_error_of_response [OF p] p by auto
  moreover have "error_copy ''concurrent_cap_reached'' = ''Concurrent autopilot cap reached''" by code_simp
  ultimately show ?thesis using p by simp
qed

lemma request_roundtrip_witness:
  "query_of ''/api/chain/status?id=a%26b'' = [Some (''id'', ''a&b'')]"
proof -
  have "utf8_valid ''a&b''" by code_simp
  then have "query_of (status_url KChain ''a&b'') = [Some (''id'', ''a&b'')]"
    using request_roundtrip by blast
  moreover have "status_url KChain ''a&b'' = ''/api/chain/status?id=a%26b''" by code_simp
  ultimately show ?thesis by simp
qed

end
