(* ===== verification/TerminalSocket.thy ===== *)
theory TerminalSocket
  imports SessionControls
begin

text \<open>
  \<open>hooks/useTerminalSocket.ts\<close> and the frame handling of \<open>components/TerminalPanel.tsx\<close>: the
  read-only terminal stream.

  The connection effect of the hook is modelled with what it leaves behind: sockets whose handlers
  are attached, timers that will call \<open>connect\<close>, and continuations that await a CSRF token. Each
  carries the closure of the effect run that made it (its target and a run number). The refs
  (\<open>wsRef\<close>, \<open>timerRef\<close>, \<open>mountedRef\<close>, \<open>attemptRef\<close>) are shared by all runs, as in the code.
\<close>

section \<open>Constants and pure helpers\<close>

datatype socket_status = TsIdle | TsConnecting | TsConnected | TsReconnecting | TsLost

definition backoff_base_ms :: nat where "backoff_base_ms = 1000"
definition backoff_factor :: nat where "backoff_factor = 2"
definition max_reconnect_attempts :: nat where "max_reconnect_attempts = 5"

definition reason_table :: "(string, string) omap" where
  "reason_table =
     [(''CSRF'', ''csrf''), (''INVALID_ID'', ''invalid id''), (''NOT_FOUND'', ''session not running''),
      (''HELPER_CLOSED'', ''pty session closed''), (''LIFECYCLE_MISSING'', ''lifecycle missing tmux_session''),
      (''LOOKUP_INCONSISTENT'', ''tmux_session lookup inconsistency''), (''PTY_BRINGUP'', ''pty bring-up failed''),
      (''SUBSCRIBER_CAP'', ''subscriber cap reached'')]"

definition stop_reasons_on_1011 :: "string list" where
  "stop_reasons_on_1011 = [om_get_or [] reason_table ''PTY_BRINGUP'']"

definition buildWsUrl :: "target_kind \<Rightarrow> string \<Rightarrow> string \<Rightarrow> string \<times> string \<Rightarrow> string" where
  "buildWsUrl kind i token loc =
     (let scheme = (if fst loc = ''http:'' then ''ws:'' else ''wss:'')
      in scheme @ ''//'' @ snd loc @ ''/ws/'' @ encodeURIComponent (kind_text kind)
         @ ''/terminal?id='' @ encodeURIComponent i @ ''&csrf='' @ encodeURIComponent token)"

datatype close_decision = CdReconnect | CdStop | CdClean

definition classifyClose :: "nat \<Rightarrow> string \<Rightarrow> close_decision" where
  "classifyClose code reason =
     (if code = 1000 then CdClean
      else if code = 1011 then (if reason \<in> set stop_reasons_on_1011 then CdStop else CdReconnect)
      else if code = 1006 then CdReconnect
      else if code = 1013 then CdReconnect
      else if code = 4001 then CdStop
      else if code = 4400 then CdStop
      else if code = 4404 then CdStop
      else CdReconnect)"

definition is_integer :: "rat \<Rightarrow> bool" where
  "is_integer x \<longleftrightarrow> of_int \<lfloor>x\<rfloor> = x"

definition max_safe_integer :: rat where "max_safe_integer = 2 ^ 53 - 1"

record overflow =
  ov_bytesDropped :: int
  ov_at :: int

definition parseBufferOverflow :: "string \<Rightarrow> overflow option" where
  "parseBufferOverflow raw =
     (case json_parse raw of
        None \<Rightarrow> None
      | Some obj \<Rightarrow>
          if jfield obj ''type'' \<noteq> Some (JStr ''buffer_overflow'') then None
          else (case (jfield obj ''bytes_dropped'', jfield obj ''at'') of
              (Some (JNum b), Some (JNum a)) \<Rightarrow>
                if \<not> is_integer b \<or> \<not> is_integer a then None
                else if b > max_safe_integer \<or> b < - max_safe_integer
                     \<or> a > max_safe_integer \<or> a < - max_safe_integer then None
                else Some \<lparr>ov_bytesDropped = \<lfloor>b\<rfloor>, ov_at = \<lfloor>a\<rfloor>\<rparr>
            | _ \<Rightarrow> None))"

section \<open>State of the hook and of its panel\<close>

type_synonym target = "target_kind \<times> string"

text \<open>The closure of one effect run.\<close>

record conn =
  cn_run :: nat
  cn_target :: target

text \<open>
  \<open>tm_opened\<close> logs every socket opened, with the target shown at that time and the URL;
  \<open>tm_received\<close> the frames handed to the queue, \<open>tm_written\<close> those written to the terminal.
  \<open>tm_rendered\<close> is the queue as of the last render, which the ingest effect reads.
\<close>

record tsock =
  tm_target :: "target option"
  tm_run :: nat
  tm_status :: socket_status
  tm_queue :: "string list"
  tm_shownAttempt :: nat
  tm_overflow :: "overflow option"
  tm_ws :: "nat option"
  tm_timerRef :: "nat option"
  tm_mounted :: bool
  tm_attempt :: nat
  tm_socks :: "(nat \<times> conn) list"
  tm_timers :: "(nat \<times> nat \<times> conn) list"
  tm_pending :: "(nat \<times> conn) list"
  tm_next :: nat
  tm_loc :: "string \<times> string"
  tm_opened :: "(target option \<times> string) list"
  tm_rendered :: "string list"
  tm_received :: "string list"
  tm_written :: "string list"

definition term_init :: "string \<times> string \<Rightarrow> tsock" where
  "term_init loc =
     \<lparr>tm_target = None, tm_run = 0, tm_status = TsIdle, tm_queue = [], tm_shownAttempt = 0, tm_overflow = None,
      tm_ws = None, tm_timerRef = None, tm_mounted = True, tm_attempt = 0, tm_socks = [], tm_timers = [],
      tm_pending = [], tm_next = 0, tm_loc = loc, tm_opened = [], tm_rendered = [], tm_received = [],
      tm_written = []\<rparr>"

section \<open>The connection effect\<close>

definition openSocket :: "conn \<Rightarrow> string \<Rightarrow> tsock \<Rightarrow> tsock" where
  "openSocket c token s =
     s\<lparr>tm_socks := tm_socks s @ [(tm_next s, c)], tm_ws := Some (tm_next s), tm_next := Suc (tm_next s),
       tm_status := TsConnecting,
       tm_opened := tm_opened s @
         [(tm_target s, buildWsUrl (fst (cn_target c)) (snd (cn_target c)) token (tm_loc s))]\<rparr>"

definition connect :: "conn \<Rightarrow> string option \<Rightarrow> tsock \<Rightarrow> tsock" where
  "connect c syncToken s =
     (case syncToken of
        Some t \<Rightarrow> openSocket c t s
      | None \<Rightarrow> s\<lparr>tm_pending := tm_pending s @ [(tm_next s, c)], tm_next := Suc (tm_next s)\<rparr>)"

definition token_arrives :: "nat \<Rightarrow> string option \<Rightarrow> tsock \<Rightarrow> tsock" where
  "token_arrives p token s =
     (case map_of (tm_pending s) p of
        None \<Rightarrow> s
      | Some c \<Rightarrow>
          (let s1 = s\<lparr>tm_pending := filter (\<lambda>x. fst x \<noteq> p) (tm_pending s)\<rparr>
           in if \<not> tm_mounted s1 then s1
              else (case token of None \<Rightarrow> s1\<lparr>tm_status := TsLost\<rparr> | Some t \<Rightarrow> openSocket c t s1)))"

definition effect_run :: "target option \<Rightarrow> string option \<Rightarrow> tsock \<Rightarrow> tsock" where
  "effect_run tgt syncToken s =
     (let s1 = s\<lparr>tm_target := tgt, tm_run := Suc (tm_run s), tm_mounted := True, tm_attempt := 0, tm_shownAttempt := 0\<rparr>
      in case tgt of
           None \<Rightarrow> s1\<lparr>tm_status := TsIdle\<rparr>
         | Some t \<Rightarrow> connect \<lparr>cn_run = tm_run s1, cn_target = t\<rparr> syncToken s1)"

definition cleanup :: "tsock \<Rightarrow> tsock" where
  "cleanup s =
     (case tm_target s of
        None \<Rightarrow> s\<lparr>tm_mounted := False\<rparr>
      | Some t \<Rightarrow>
          s\<lparr>tm_mounted := False,
            tm_timers := (case tm_timerRef s of None \<Rightarrow> tm_timers s | Some r \<Rightarrow> filter (\<lambda>x. fst x \<noteq> r) (tm_timers s)),
            tm_timerRef := None,
            tm_socks := (case tm_ws s of None \<Rightarrow> tm_socks s | Some w \<Rightarrow> filter (\<lambda>x. fst x \<noteq> w) (tm_socks s)),
            tm_ws := None\<rparr>)"

definition swap_target :: "target option \<Rightarrow> string option \<Rightarrow> tsock \<Rightarrow> tsock" where
  "swap_target tgt syncToken s = effect_run tgt syncToken (cleanup s)"

section \<open>Socket and timer events\<close>

datatype ws_data = WdBinary string | WdText string | WdOther

definition on_open :: "nat \<Rightarrow> tsock \<Rightarrow> tsock" where
  "on_open w s =
     (if w \<notin> fst ` set (tm_socks s) \<or> \<not> tm_mounted s then s
      else s\<lparr>tm_attempt := 0, tm_status := TsConnected, tm_shownAttempt := 0\<rparr>)"

definition on_message :: "nat \<Rightarrow> ws_data \<Rightarrow> tsock \<Rightarrow> tsock" where
  "on_message w d s =
     (if w \<notin> fst ` set (tm_socks s) \<or> \<not> tm_mounted s then s
      else (case d of
          WdBinary f \<Rightarrow> s\<lparr>tm_queue := tm_queue s @ [f], tm_received := tm_received s @ [f]\<rparr>
        | WdText t \<Rightarrow> (case parseBufferOverflow t of None \<Rightarrow> s | Some ov \<Rightarrow> s\<lparr>tm_overflow := Some ov\<rparr>)
        | WdOther \<Rightarrow> s))"

definition reconnect_delay :: "nat \<Rightarrow> nat" where
  "reconnect_delay attempt = backoff_base_ms * backoff_factor ^ (attempt - 1)"

definition on_close :: "nat \<Rightarrow> nat \<Rightarrow> string \<Rightarrow> tsock \<Rightarrow> tsock" where
  "on_close w code reason s =
     (case map_of (tm_socks s) w of
        None \<Rightarrow> s
      | Some c \<Rightarrow>
          (let s1 = s\<lparr>tm_socks := filter (\<lambda>x. fst x \<noteq> w) (tm_socks s)\<rparr>
           in if \<not> tm_mounted s1 then s1
              else (case classifyClose code reason of
                  CdClean \<Rightarrow> s1\<lparr>tm_status := TsIdle\<rparr>
                | CdStop \<Rightarrow> s1\<lparr>tm_status := TsLost\<rparr>
                | CdReconnect \<Rightarrow>
                    (let nextAttempt = tm_attempt s1 + 1
                     in if nextAttempt > max_reconnect_attempts then s1\<lparr>tm_status := TsLost\<rparr>
                        else s1\<lparr>tm_status := TsReconnecting, tm_attempt := nextAttempt, tm_shownAttempt := nextAttempt,
                                tm_timers := tm_timers s1 @ [(tm_next s1, reconnect_delay nextAttempt, c)],
                                tm_timerRef := Some (tm_next s1), tm_next := Suc (tm_next s1)\<rparr>))))"

definition timer_fires :: "nat \<Rightarrow> string option \<Rightarrow> tsock \<Rightarrow> tsock" where
  "timer_fires r syncToken s =
     (case map_of (tm_timers s) r of
        None \<Rightarrow> s
      | Some (d, c) \<Rightarrow> connect c syncToken (s\<lparr>tm_timers := filter (\<lambda>x. fst x \<noteq> r) (tm_timers s)\<rparr>))"

section \<open>The panel\<close>

text \<open>A render copies the queue; the ingest effect of that render writes it out and drains.\<close>

definition render_queue :: "tsock \<Rightarrow> tsock" where
  "render_queue s = s\<lparr>tm_rendered := tm_queue s\<rparr>"

definition drainFrames :: "tsock \<Rightarrow> tsock" where
  "drainFrames s = s\<lparr>tm_queue := []\<rparr>"

definition ingest :: "tsock \<Rightarrow> tsock" where
  "ingest s =
     (if length (tm_rendered s) = 0 then s
      else drainFrames (s\<lparr>tm_written := tm_written s @ tm_rendered s, tm_rendered := []\<rparr>))"

text \<open>The overflow alert: the \<open>at\<close> of the previous render and the dismissed one.\<close>

record overflow_view =
  ow_prevAt :: "int option"
  ow_dismissedAt :: "int option"

definition overflow_effect :: "string list \<Rightarrow> overflow option \<Rightarrow> overflow_view \<Rightarrow> overflow_view" where
  "overflow_effect frames ov v =
     (let v1 = v\<lparr>ow_prevAt := map_option ov_at ov\<rparr>
      in case ov of
           None \<Rightarrow> v1
         | Some o1 \<Rightarrow>
             if length frames = 0 then v1
             else if ow_prevAt v \<noteq> Some (ov_at o1) then v1
             else v1\<lparr>ow_dismissedAt := Some (ov_at o1)\<rparr>)"

definition overflow_visible :: "overflow option \<Rightarrow> overflow_view \<Rightarrow> bool" where
  "overflow_visible ov v \<longleftrightarrow>
     (case ov of None \<Rightarrow> False | Some o1 \<Rightarrow> ow_dismissedAt v \<noteq> Some (ov_at o1))"

section \<open>Runs\<close>

datatype term_event =
    TeSwap "target option" "string option"
  | TeToken nat "string option"
  | TeOpen nat
  | TeMessage nat ws_data
  | TeClose nat nat string
  | TeTimer nat "string option"
  | TeFlush
  | TeUnmount

fun term_step :: "term_event \<Rightarrow> tsock \<Rightarrow> tsock" where
  "term_step (TeSwap tgt tok) s = swap_target tgt tok s"
| "term_step (TeToken p tok) s = token_arrives p tok s"
| "term_step (TeOpen w) s = on_open w s"
| "term_step (TeMessage w d) s = on_message w d s"
| "term_step (TeClose w code reason) s = on_close w code reason s"
| "term_step (TeTimer r tok) s = timer_fires r tok s"
| "term_step TeFlush s = ingest (render_queue s)"
| "term_step TeUnmount s = cleanup s"

definition term_run :: "string \<times> string \<Rightarrow> target option \<Rightarrow> string option \<Rightarrow> term_event list \<Rightarrow> tsock" where
  "term_run loc tgt tok evs = fold term_step evs (effect_run tgt tok (term_init loc))"

lemmas term_defs =
  openSocket_def connect_def token_arrives_def effect_run_def cleanup_def swap_target_def on_open_def
  on_message_def on_close_def timer_fires_def render_queue_def drainFrames_def ingest_def

end
