(* ===== verification/TerminalCorrect.thy ===== *)
theory TerminalCorrect
  imports TerminalSocket
begin

text \<open>
  What the terminal stream guarantees: bounded reconnection, one connection at a time for the shown
  target as long as no target swap meets an outstanding token request, and frames in order.
\<close>

section \<open>One activity at a time\<close>

text \<open>
  \<open>calm\<close> are the runs in which the target is swapped only while no token request is outstanding.
\<close>

inductive calm :: "string \<times> string \<Rightarrow> tsock \<Rightarrow> bool" for loc where
  calm_mount: "calm loc (effect_run tgt tok (term_init loc))"
| calm_event: "calm loc s \<Longrightarrow> (\<forall>tgt tok. e \<noteq> TeSwap tgt tok) \<Longrightarrow> calm loc (term_step e s)"
| calm_swap: "calm loc s \<Longrightarrow> tm_pending s = [] \<Longrightarrow> calm loc (swap_target tgt tok s)"

definition no_activity :: "tsock \<Rightarrow> bool" where
  "no_activity s \<longleftrightarrow> tm_socks s = [] \<and> tm_timers s = [] \<and> tm_pending s = []"

definition act_ok :: "tsock \<Rightarrow> bool" where
  "act_ok s \<longleftrightarrow> no_activity s
     \<or> (\<exists>w c. tm_socks s = [(w, c)] \<and> tm_timers s = [] \<and> tm_pending s = [] \<and> tm_ws s = Some w
          \<and> tm_target s = Some (cn_target c) \<and> tm_mounted s)
     \<or> (\<exists>r d c. tm_timers s = [(r, d, c)] \<and> tm_socks s = [] \<and> tm_pending s = [] \<and> tm_timerRef s = Some r
          \<and> tm_target s = Some (cn_target c) \<and> tm_mounted s)
     \<or> (\<exists>p c. tm_pending s = [(p, c)] \<and> tm_socks s = [] \<and> tm_timers s = [] \<and> tm_target s = Some (cn_target c))"

definition opened_ok :: "string \<times> string \<Rightarrow> tsock \<Rightarrow> bool" where
  "opened_ok loc s \<longleftrightarrow> tm_loc s = loc \<and>
     (\<forall>x\<in>set (tm_opened s). \<exists>k i tok. x = (Some (k, i), buildWsUrl k i tok loc))"

lemma open_ok:
  assumes "no_activity s" and "opened_ok loc s" and "tm_target s = Some (cn_target c)" and "tm_mounted s"
  shows "act_ok (openSocket c tok s) \<and> opened_ok loc (openSocket c tok s)"
  using assms by (cases "cn_target c") (auto simp: openSocket_def act_ok_def opened_ok_def no_activity_def)

lemma connect_ok:
  assumes "no_activity s" and "opened_ok loc s" and "tm_target s = Some (cn_target c)" and "tm_mounted s"
  shows "act_ok (connect c tok s) \<and> opened_ok loc (connect c tok s)"
proof (cases tok)
  case None
  with assms show ?thesis by (auto simp: connect_def act_ok_def opened_ok_def no_activity_def)
next
  case (Some t)
  with open_ok [OF assms] show ?thesis by (simp add: connect_def)
qed

lemma effect_ok:
  assumes "no_activity s" and "opened_ok loc s"
  shows "act_ok (effect_run tgt tok s) \<and> opened_ok loc (effect_run tgt tok s)"
proof (cases tgt)
  case None
  with assms show ?thesis by (simp add: effect_run_def Let_def act_ok_def opened_ok_def no_activity_def)
next
  case (Some t)
  let ?s = "s\<lparr>tm_target := tgt, tm_run := Suc (tm_run s), tm_mounted := True, tm_attempt := 0, tm_shownAttempt := 0\<rparr>"
  have "no_activity ?s" "opened_ok loc ?s" using assms by (simp_all add: no_activity_def opened_ok_def)
  from connect_ok [OF this, of "\<lparr>cn_run = tm_run ?s, cn_target = t\<rparr>" tok] Some show ?thesis
    by (simp add: effect_run_def)
qed

lemma cleanup_ok:
  assumes "act_ok s" and "opened_ok loc s"
  shows "act_ok (cleanup s)" and "opened_ok loc (cleanup s)"
    and "tm_pending s = [] \<Longrightarrow> no_activity (cleanup s)"
proof -
  consider "no_activity s"
    | w c where "tm_socks s = [(w, c)]" "tm_timers s = []" "tm_pending s = []" "tm_ws s = Some w" "tm_target s = Some (cn_target c)"
    | r d c where "tm_timers s = [(r, d, c)]" "tm_socks s = []" "tm_pending s = []" "tm_timerRef s = Some r" "tm_target s = Some (cn_target c)"
    | p c where "tm_pending s = [(p, c)]" "tm_socks s = []" "tm_timers s = []" "tm_target s = Some (cn_target c)"
    using assms(1) unfolding act_ok_def by blast
  note c = this
  show "act_ok (cleanup s)"
    using c by cases (auto simp: cleanup_def act_ok_def no_activity_def split: option.splits)
  show "opened_ok loc (cleanup s)" using assms(2) by (auto simp: cleanup_def opened_ok_def split: option.splits)
  show "tm_pending s = [] \<Longrightarrow> no_activity (cleanup s)"
    using c by cases (auto simp: cleanup_def no_activity_def split: option.splits)
qed

text \<open>Steps that keep the socket, timer and pending lists and the logs.\<close>

lemma act_frame:
  assumes "act_ok s" and "tm_socks s' = tm_socks s" and "tm_timers s' = tm_timers s" and "tm_pending s' = tm_pending s"
    and "tm_ws s' = tm_ws s" and "tm_timerRef s' = tm_timerRef s" and "tm_target s' = tm_target s" and "tm_mounted s' = tm_mounted s"
  shows "act_ok s'"
  using assms unfolding act_ok_def no_activity_def by simp

lemma token_ok:
  assumes "act_ok s" and "opened_ok loc s"
  shows "act_ok (token_arrives p tok s) \<and> opened_ok loc (token_arrives p tok s)"
proof (cases "map_of (tm_pending s) p")
  case None
  with assms show ?thesis by (simp add: token_arrives_def)
next
  case (Some c)
  then have s: "tm_pending s = [(p, c)]" "tm_socks s = []" "tm_timers s = []" "tm_target s = Some (cn_target c)"
    using assms(1) by (auto simp: act_ok_def no_activity_def split: if_splits)
  let ?s = "s\<lparr>tm_pending := []\<rparr>"
  have "no_activity ?s" "opened_ok loc ?s" "tm_target ?s = Some (cn_target c)"
    using s assms(2) by (simp_all add: no_activity_def opened_ok_def)
  with open_ok [OF this, of "the tok"] s show ?thesis
    by (auto simp: token_arrives_def Let_def act_ok_def no_activity_def opened_ok_def split: option.splits)
qed

lemma timer_ok:
  assumes "act_ok s" and "opened_ok loc s"
  shows "act_ok (timer_fires r tok s) \<and> opened_ok loc (timer_fires r tok s)"
proof (cases "map_of (tm_timers s) r")
  case None
  with assms show ?thesis by (simp add: timer_fires_def)
next
  case (Some dc)
  obtain d c where dc: "dc = (d, c)" by (cases dc)
  have s: "tm_timers s = [(r, d, c)]" "tm_socks s = []" "tm_pending s = []" "tm_target s = Some (cn_target c)" "tm_mounted s"
    using assms(1) Some dc by (auto simp: act_ok_def no_activity_def split: if_splits)
  let ?s = "s\<lparr>tm_timers := []\<rparr>"
  have "no_activity ?s" "opened_ok loc ?s" "tm_target ?s = Some (cn_target c)" "tm_mounted ?s"
    using s assms(2) by (simp_all add: no_activity_def opened_ok_def)
  from connect_ok [OF this, of tok] s show ?thesis by (simp add: timer_fires_def)
qed

lemma close_ok:
  assumes "act_ok s" and "opened_ok loc s"
  shows "act_ok (on_close w code reason s) \<and> opened_ok loc (on_close w code reason s)"
proof (cases "map_of (tm_socks s) w")
  case None
  with assms show ?thesis by (simp add: on_close_def)
next
  case (Some c)
  have s: "tm_socks s = [(w, c)]" "tm_timers s = []" "tm_pending s = []" "tm_target s = Some (cn_target c)" "tm_mounted s"
    using assms(1) Some by (auto simp: act_ok_def no_activity_def split: if_splits)
  show ?thesis
    using s assms(2)
    by (cases "classifyClose code reason")
      (simp_all add: on_close_def Let_def act_ok_def no_activity_def opened_ok_def)
qed

lemma event_ok:
  assumes ok: "act_ok s" "opened_ok loc s" and e: "\<forall>tgt tok. e \<noteq> TeSwap tgt tok"
  shows "act_ok (term_step e s) \<and> opened_ok loc (term_step e s)"
proof -
  have frame: "act_ok s' \<and> opened_ok loc s'"
    if "tm_socks s' = tm_socks s" "tm_timers s' = tm_timers s" "tm_pending s' = tm_pending s"
      "tm_ws s' = tm_ws s" "tm_timerRef s' = tm_timerRef s" "tm_target s' = tm_target s" "tm_mounted s' = tm_mounted s"
      "tm_opened s' = tm_opened s" "tm_loc s' = tm_loc s" for s'
    using act_frame [OF ok(1) that(1-7)] ok(2) that(8,9) by (simp add: opened_ok_def)
  show ?thesis
  proof (cases e)
    case (TeOpen w)
    show ?thesis unfolding TeOpen term_step.simps by (rule frame) (simp_all add: on_open_def)
  next
    case (TeMessage w d)
    show ?thesis unfolding TeMessage term_step.simps
      by (rule frame) (simp_all add: on_message_def split: ws_data.splits option.splits)
  next
    case TeFlush
    show ?thesis unfolding TeFlush term_step.simps
      by (rule frame) (simp_all add: ingest_def render_queue_def drainFrames_def)
  qed (use e ok cleanup_ok [of s loc] token_ok [of s loc] timer_ok [of s loc] close_ok [of s loc] in auto)
qed

lemma mount_ok: "act_ok (effect_run tgt tok (term_init loc)) \<and> opened_ok loc (effect_run tgt tok (term_init loc))"
  by (rule effect_ok) (simp_all add: no_activity_def opened_ok_def term_init_def)

lemma calm_ok: "calm loc s \<Longrightarrow> act_ok s \<and> opened_ok loc s"
proof (induction rule: calm.induct)
  case (calm_swap s tgt tok)
  then show ?case using cleanup_ok [of s loc] effect_ok [of "cleanup s" loc tgt tok] by (simp add: swap_target_def)
next
  case (calm_event s e)
  then show ?case using event_ok [of s loc e] by simp
qed (rule mount_ok)

section \<open>Attempts\<close>

definition attempts_ok :: "tsock \<Rightarrow> bool" where
  "attempts_ok s \<longleftrightarrow> tm_shownAttempt s = tm_attempt s \<and> tm_attempt s \<le> max_reconnect_attempts
     \<and> (\<forall>x\<in>set (tm_timers s). fst (snd x) \<in> {1000, 2000, 4000, 8000, 16000})"

lemma attempts_connect: "attempts_ok s \<Longrightarrow> attempts_ok (connect c tok s)"
  by (auto simp: attempts_ok_def connect_def openSocket_def split: option.splits)

lemma delay_cases: "1 \<le> n \<Longrightarrow> n \<le> 5 \<Longrightarrow> reconnect_delay n \<in> {1000, 2000, 4000, 8000, 16000}"
proof -
  assume "1 \<le> n" "n \<le> 5"
  then consider "n = 1" | "n = 2" | "n = 3" | "n = 4" | "n = 5" by linarith
  then show ?thesis by cases (simp_all add: reconnect_delay_def backoff_base_ms_def backoff_factor_def)
qed

lemma attempts_cleanup: "attempts_ok s \<Longrightarrow> attempts_ok (cleanup s)"
  by (auto simp: attempts_ok_def cleanup_def split: option.splits)

lemma attempts_effect: "attempts_ok s \<Longrightarrow> attempts_ok (effect_run tgt tok s)"
  by (auto simp: effect_run_def Let_def split: option.splits intro!: attempts_connect)
    (auto simp: attempts_ok_def)

lemma attempts_close: "attempts_ok s \<Longrightarrow> attempts_ok (on_close w code reason s)"
  using delay_cases [of "Suc (tm_attempt s)"]
  by (auto simp: attempts_ok_def on_close_def Let_def max_reconnect_attempts_def
      split: option.splits close_decision.splits)

lemma attempts_token: "attempts_ok s \<Longrightarrow> attempts_ok (token_arrives p tok s)"
  by (auto simp: attempts_ok_def token_arrives_def Let_def openSocket_def split: option.splits)

lemma attempts_timer: "attempts_ok s \<Longrightarrow> attempts_ok (timer_fires r tok s)"
  by (auto simp: timer_fires_def split: option.splits intro!: attempts_connect) (auto simp: attempts_ok_def)

lemma attempts_step: "attempts_ok s \<Longrightarrow> attempts_ok (term_step e s)"
proof (cases e)
  case (TeOpen w)
  then show "attempts_ok s \<Longrightarrow> ?thesis" by (auto simp: attempts_ok_def on_open_def)
next
  case (TeMessage w d)
  then show "attempts_ok s \<Longrightarrow> ?thesis"
    by (auto simp: attempts_ok_def on_message_def split: ws_data.splits option.splits)
next
  case TeFlush
  then show "attempts_ok s \<Longrightarrow> ?thesis"
    by (auto simp: attempts_ok_def ingest_def render_queue_def drainFrames_def)
qed (auto simp: swap_target_def attempts_effect attempts_cleanup attempts_token attempts_timer attempts_close)

lemma attempts_init: "attempts_ok (term_init loc)"
  by (simp add: attempts_ok_def term_init_def max_reconnect_attempts_def)

lemma attempts_run: "attempts_ok (term_run loc tgt tok evs)"
proof -
  have "attempts_ok s \<Longrightarrow> attempts_ok (fold term_step evs s)" for s
    by (induction evs arbitrary: s) (simp_all add: attempts_step)
  then show ?thesis unfolding term_run_def using attempts_effect attempts_init by blast
qed

text \<open>
  Connection attempts in runs where the socket never opens and the target stays.
\<close>

text \<open>
  \<open>k\<close> and \<open>n\<close> are fixed at the start of a stretch in which no connection is accepted; from then on every socket
  opened is paid for by an attempt. A state is spare when neither a timer nor a token request is about to open one.
\<close>

definition spare :: "tsock \<Rightarrow> nat" where
  "spare s = (if tm_timers s = [] \<and> tm_pending s = [] then 1 else 0)"

definition barren :: "string \<times> string \<Rightarrow> nat \<Rightarrow> nat \<Rightarrow> tsock \<Rightarrow> bool" where
  "barren loc k n s \<longleftrightarrow> act_ok s \<and> opened_ok loc s \<and> tm_attempt s \<le> max_reconnect_attempts \<and>
     length (tm_opened s) + k \<le> n + tm_attempt s + spare s"

definition unaccepted :: "term_event \<Rightarrow> bool" where
  "unaccepted e \<longleftrightarrow> (\<forall>w. e \<noteq> TeOpen w) \<and> (\<forall>tgt tok. e \<noteq> TeSwap tgt tok)"

lemma barren_step:
  assumes "barren loc k n s" and "unaccepted e"
  shows "barren loc k n (term_step e s)"
proof -
  have "length (tm_opened (term_step e s)) + k \<le> n + tm_attempt (term_step e s) + spare (term_step e s)
      \<and> tm_attempt (term_step e s) \<le> max_reconnect_attempts"
    using assms
    by (cases e; auto simp: barren_def unaccepted_def spare_def act_ok_def no_activity_def term_defs Let_def max_reconnect_attempts_def
        split: option.splits if_splits close_decision.splits ws_data.splits)
  with event_ok [of s loc e] assms show ?thesis by (simp add: barren_def unaccepted_def)
qed

lemma barren_run: "list_all unaccepted evs \<Longrightarrow> barren loc k n s \<Longrightarrow> barren loc k n (fold term_step evs s)"
  by (induction evs arbitrary: s) (simp_all add: barren_step)

lemma barren_bound:
  assumes "calm loc s" and "tm_attempt s \<le> max_reconnect_attempts" and "list_all unaccepted evs"
  shows "length (tm_opened (fold term_step evs s)) + tm_attempt s + spare s \<le> length (tm_opened s) + 6"
proof -
  have "barren loc (tm_attempt s + spare s) (length (tm_opened s)) s"
    using calm_ok [OF assms(1)] assms(2) by (simp add: barren_def)
  from barren_run [OF assms(3) this] show ?thesis
    by (auto simp: barren_def max_reconnect_attempts_def spare_def split: if_splits)
qed

section \<open>Frames\<close>

lemma frames_step:
  "tm_written s @ tm_queue s = tm_received s \<Longrightarrow>
     tm_written (term_step e s) @ tm_queue (term_step e s) = tm_received (term_step e s)"
  by (cases e) (auto simp: term_defs Let_def split: option.splits ws_data.splits close_decision.splits)

section \<open>Properties\<close>

text \<open>
  C2. As long as the target is not swapped while a token request is outstanding, every socket is
  opened for the target shown at that time, at most one socket, timer or token request is alive, and
  after an unmount no socket handler and no timer is left.
\<close>
theorem socket_follows_target:
  assumes "calm loc s"
  shows "(\<forall>x\<in>set (tm_opened s). \<exists>k i tok. x = (Some (k, i), buildWsUrl k i tok loc))
    \<and> length (tm_socks s) + length (tm_timers s) + length (tm_pending s) \<le> 1
    \<and> (\<not> tm_mounted s \<longrightarrow> tm_socks s = [] \<and> tm_timers s = [])"
  using calm_ok [OF assms] by (auto simp: act_ok_def no_activity_def opened_ok_def)

text \<open>
  A swap while a token request is outstanding breaks this: the continuation of the old target
  finds the shared mounted flag set by the new effect run and opens a second socket, for the old
  target, whose frames reach the panel of the new one.
\<close>
theorem stale_token_opens_old_target:
  "let s = term_run loc (Some (k, a)) None [TeSwap (Some (k, b)) (Some t1), TeToken 0 (Some t2)]
   in tm_opened s = [(Some (k, b), buildWsUrl k b t1 loc), (Some (k, b), buildWsUrl k a t2 loc)]
    \<and> length (tm_socks s) = 2
    \<and> tm_queue (on_message 2 (WdBinary f) s) = [f]"
  by (simp add: term_run_def term_init_def term_defs Let_def)

text \<open>
  C11. In every run the reconnect counter shown equals the internal one and never exceeds five, and
  every scheduled delay is one of 1, 2, 4, 8 and 16 seconds. While no connection is accepted and the target
  stays, the panel opens at most five more sockets, less the attempts already made, and one more if a timer or a
  token request is about to open one; provided no earlier change of target met an outstanding token request (calm).
  An accepted connection sets the counter to zero, so a server that accepts and drops is reconnected to without bound.
\<close>
theorem reconnects_bounded:
  assumes "s = term_run loc tgt tok before" and "list_all unaccepted evs"
  shows "tm_shownAttempt s = tm_attempt s \<and> tm_attempt s \<le> 5
   \<and> fst ` snd ` set (tm_timers s) \<subseteq> {1000, 2000, 4000, 8000, 16000}
   \<and> (calm loc s \<longrightarrow> length (tm_opened (term_run loc tgt tok (before @ evs))) + tm_attempt s
         \<le> length (tm_opened s) + (if tm_timers s = [] \<and> tm_pending s = [] then 5 else 6))
   \<and> (\<forall>w. w \<in> fst ` set (tm_socks s) \<and> tm_mounted s \<longrightarrow> tm_attempt (term_step (TeOpen w) s) = 0)"
proof -
  have a: "tm_shownAttempt s = tm_attempt s \<and> tm_attempt s \<le> 5 \<and> fst ` snd ` set (tm_timers s) \<subseteq> {1000, 2000, 4000, 8000, 16000}"
    using attempts_run [of loc tgt tok before] unfolding assms(1) by (auto simp: attempts_ok_def max_reconnect_attempts_def)
  have "term_run loc tgt tok (before @ evs) = fold term_step evs s" by (simp add: assms(1) term_run_def)
  then show ?thesis
    using a barren_bound [OF _ _ assms(2), of loc s] by (auto simp: max_reconnect_attempts_def spare_def on_open_def split: if_splits)
qed

text \<open>
  What a close does: a normal close and the codes and reasons that cannot be cured end the
  connection without a timer; any other close schedules exactly one reconnect of the same target
  with doubled delay, until the fifth attempt has failed.
\<close>
theorem close_schedules:
  assumes "tm_socks s = [(w, c)]" and "tm_mounted s"
  shows "(classifyClose code reason = CdClean \<longrightarrow>
           tm_status (on_close w code reason s) = TsIdle \<and> tm_timers (on_close w code reason s) = tm_timers s)
    \<and> (classifyClose code reason = CdStop \<longrightarrow>
           tm_status (on_close w code reason s) = TsLost \<and> tm_timers (on_close w code reason s) = tm_timers s)
    \<and> (classifyClose code reason = CdReconnect \<and> tm_attempt s \<ge> 5 \<longrightarrow>
           tm_status (on_close w code reason s) = TsLost \<and> tm_timers (on_close w code reason s) = tm_timers s)
    \<and> (classifyClose code reason = CdReconnect \<and> tm_attempt s < 5 \<longrightarrow>
           tm_status (on_close w code reason s) = TsReconnecting
         \<and> tm_timers (on_close w code reason s) = tm_timers s @ [(tm_next s, 1000 * 2 ^ tm_attempt s, c)])"
  using assms
  by (simp add: on_close_def Let_def max_reconnect_attempts_def reconnect_delay_def backoff_base_ms_def backoff_factor_def)

text \<open>
  C10. When every render is followed by its ingest effect before the next message, the frames written
  to the terminal followed by those still queued are the frames received, in order, in any run.
\<close>
theorem frames_in_order:
  "tm_written (term_run loc tgt tok evs) @ tm_queue (term_run loc tgt tok evs) = tm_received (term_run loc tgt tok evs)"
proof -
  have "tm_written s @ tm_queue s = tm_received s \<Longrightarrow>
      tm_written (fold term_step evs s) @ tm_queue (fold term_step evs s) = tm_received (fold term_step evs s)" for s
    by (induction evs arbitrary: s) (simp_all add: frames_step)
  moreover have "tm_written (effect_run tgt tok (term_init loc)) @ tm_queue (effect_run tgt tok (term_init loc))
      = tm_received (effect_run tgt tok (term_init loc))"
    by (simp add: term_init_def effect_run_def Let_def connect_def openSocket_def split: option.splits)
  ultimately show ?thesis by (simp add: term_run_def)
qed

text \<open>
  A frame that arrives between a render and the ingest effect of that render is lost: the effect
  writes the rendered queue and then empties the queue that already holds the new frame.
\<close>
theorem frame_between_render_and_effect_lost:
  assumes "(w, c) \<in> set (tm_socks s)" and "tm_mounted s" and "tm_queue s \<noteq> []"
  shows "tm_written (ingest (on_message w (WdBinary f) (render_queue s))) = tm_written s @ tm_queue s
    \<and> tm_queue (ingest (on_message w (WdBinary f) (render_queue s))) = []
    \<and> tm_received (ingest (on_message w (WdBinary f) (render_queue s))) = tm_received s @ [f]"
proof -
  have "w \<in> fst ` set (tm_socks s)" using assms(1) by force
  with assms show ?thesis by (simp add: ingest_def on_message_def render_queue_def drainFrames_def)
qed

text \<open>
  The server reads back the target id and the token from the socket URL, whatever they contain.
\<close>
theorem ws_url_roundtrip:
  assumes "utf8_valid i" and "utf8_valid tok" and "CHR ''?'' \<notin> set (snd loc)"
  shows "query_of (buildWsUrl k i tok loc) = [Some (''id'', i), Some (''csrf'', tok)]"
proof -
  let ?pre = "(if fst loc = ''http:'' then ''ws:'' else ''wss:'') @ ''//'' @ snd loc @ ''/ws/''
      @ encodeURIComponent (kind_text k) @ ''/terminal''"
  have "buildWsUrl k i tok loc = ?pre @ CHR ''?'' # query_text [(''id'', i), (''csrf'', tok)]"
    by (simp add: buildWsUrl_def query_text_def Let_def)
  moreover have "CHR ''?'' \<notin> set ?pre" using assms(3) encode_no_delim(3) by simp
  moreover have "query_of (?pre @ CHR ''?'' # query_text [(''id'', i), (''csrf'', tok)])
      = map Some [(''id'', i), (''csrf'', tok)]"
    by (rule query_of_build) (use assms encode_no_delim(3) in auto)
  ultimately show ?thesis by simp
qed

section \<open>Witnesses\<close>

definition demo_loc :: "string \<times> string" where
  "demo_loc = (''http:'', ''localhost:8787'')"

definition demo_socket :: tsock where
  "demo_socket = effect_run (Some (KChain, ''p'')) (Some ''tok'') (term_init demo_loc)"

lemma demo_socket_open:
  "tm_socks demo_socket = [(0, \<lparr>cn_run = 1, cn_target = (KChain, ''p'')\<rparr>)]" "tm_mounted demo_socket"
  "tm_attempt demo_socket = 0" "tm_timers demo_socket = []" "tm_next demo_socket = 1"
  "tm_queue demo_socket = []" "tm_written demo_socket = []"
  by (simp_all add: demo_socket_def term_init_def effect_run_def connect_def openSocket_def Let_def)

lemma socket_follows_target_witness:
  "length (tm_socks demo_socket) + length (tm_timers demo_socket) + length (tm_pending demo_socket) \<le> 1"
proof -
  have "calm demo_loc demo_socket" unfolding demo_socket_def by (rule calm.calm_mount)
  from socket_follows_target [OF this] show ?thesis by blast
qed

lemma reconnects_bounded_witness:
  "length (tm_opened (term_run demo_loc (Some (KChain, ''p'')) (Some ''tok'')
      ([TeOpen 0] @ [TeClose 0 1006 [], TeTimer 1 (Some ''tok''), TeClose 2 1006 [], TeTimer 3 (Some ''tok'')]))) \<le> 6"
proof -
  let ?s = "term_run demo_loc (Some (KChain, ''p'')) (Some ''tok'') [TeOpen 0]"
  let ?evs = "[TeClose 0 1006 [], TeTimer 1 (Some ''tok''), TeClose 2 1006 [], TeTimer 3 (Some ''tok'')]"
  have "calm demo_loc ?s" unfolding term_run_def by (simp add: calm_event [OF calm_mount, of "TeOpen 0", simplified])
  moreover have "list_all unaccepted ?evs" by (simp add: unaccepted_def)
  moreover have "tm_timers ?s = []" "tm_pending ?s = []" "length (tm_opened ?s) = 1"
    by (simp_all add: term_run_def term_init_def term_defs Let_def)
  ultimately show ?thesis using reconnects_bounded [OF refl, of ?evs demo_loc "Some (KChain, ''p'')" "Some ''tok''" "[TeOpen 0]"] by simp
qed


lemma close_schedules_witness:
  "tm_timers (on_close 0 1006 [] demo_socket) = [(1, 1000, \<lparr>cn_run = 1, cn_target = (KChain, ''p'')\<rparr>)]"
proof -
  have "classifyClose 1006 [] = CdReconnect" by code_simp
  with close_schedules [OF demo_socket_open(1,2), of 1006 "[]"] demo_socket_open show ?thesis by simp
qed

lemma frame_between_render_and_effect_lost_witness:
  "tm_written (ingest (on_message 0 (WdBinary ''b'') (render_queue (on_message 0 (WdBinary ''a'') demo_socket)))) = [''a'']"
proof -
  let ?s = "on_message 0 (WdBinary ''a'') demo_socket"
  have s: "tm_socks ?s = tm_socks demo_socket" "tm_mounted ?s" "tm_queue ?s = [''a'']" "tm_written ?s = []"
    using demo_socket_open by (simp_all add: on_message_def)
  have "(0, \<lparr>cn_run = 1, cn_target = (KChain, ''p'')\<rparr>) \<in> set (tm_socks ?s)" using s demo_socket_open by simp
  from frame_between_render_and_effect_lost [OF this s(2), of "''b''"] s show ?thesis by simp
qed

lemma ws_url_roundtrip_witness:
  "query_of (buildWsUrl KChain ''a&b'' ''t=1'' demo_loc) = [Some (''id'', ''a&b''), Some (''csrf'', ''t=1'')]"
  by (rule ws_url_roundtrip) (code_simp, code_simp, simp add: demo_loc_def)

end
