(* ===== verification/TerminalView.thy ===== *)
theory TerminalView
  imports TerminalCorrect
begin

text \<open>
  The panel of the terminal, \<open>components/TerminalPanel.tsx\<close>, around the socket of \<open>TerminalSocket\<close>: mounting and
  disposing of the terminal, fitting it to its box, the keys, writing the frames, the latch of the waiting banner, the
  overflow alert and what is drawn. The terminal itself is the xterm library's; \<open>tm_written\<close> is what it was given.
\<close>

section \<open>State\<close>

text \<open>
  \<open>tv_terminal\<close> says that the mount effect has built a terminal, \<open>tv_raf\<close> that a fit is scheduled for the next animation
  frame; \<open>tv_fits\<close> counts the fits and \<open>tv_clipboard\<close> logs what was copied. A panel is mounted with its box on the page.
\<close>

record term_panel =
  tv_sock :: tsock
  tv_terminal :: bool
  tv_raf :: bool
  tv_fits :: nat
  tv_overflow :: overflow_view
  tv_hasReceived :: bool
  tv_clipboard :: "string list"

definition scheduleFit :: "term_panel \<Rightarrow> term_panel" where
  "scheduleFit p = (if tv_raf p then p else p\<lparr>tv_raf := True\<rparr>)"

definition terminal_mount :: "term_panel \<Rightarrow> term_panel" where
  "terminal_mount p = scheduleFit (p\<lparr>tv_terminal := True\<rparr>)"

definition terminal_unmount :: "term_panel \<Rightarrow> term_panel" where
  "terminal_unmount p = p\<lparr>tv_raf := False, tv_terminal := False\<rparr>"

definition tv_mount :: "tsock \<Rightarrow> term_panel" where
  "tv_mount s =
     terminal_mount \<lparr>tv_sock = s, tv_terminal = False, tv_raf = False, tv_fits = 0,
       tv_overflow = \<lparr>ow_prevAt = None, ow_dismissedAt = None\<rparr>, tv_hasReceived = False, tv_clipboard = []\<rparr>"

section \<open>Keys\<close>

record key_event =
  ke_type :: string
  ke_key :: string
  ke_ctrl :: bool
  ke_shift :: bool

text \<open>The handler answers \<open>False\<close> for every key, so that the terminal passes none of them on.\<close>

definition key_handler :: "key_event \<Rightarrow> string \<Rightarrow> term_panel \<Rightarrow> bool \<times> term_panel" where
  "key_handler ev sel p =
     (if ke_type ev = ''keydown'' \<and> ke_key ev = ''c'' \<and> ke_ctrl ev \<and> \<not> ke_shift ev \<and> length sel > 0
      then (False, p\<lparr>tv_clipboard := tv_clipboard p @ [sel]\<rparr>) else (False, p))"

section \<open>Commits\<close>

text \<open>
  A commit runs the two effects with the queue of its rendering: frames are written if there is a terminal, and then the
  alert is looked at. Running the second effect when neither of its inputs changed leaves its state as it is.
\<close>

definition tv_commit :: "term_panel \<Rightarrow> term_panel" where
  "tv_commit p =
     (let s = render_queue (tv_sock p); frames = tm_rendered s
      in p\<lparr>tv_sock := (if tv_terminal p then ingest s else s),
           tv_hasReceived := (tv_hasReceived p \<or> (tv_terminal p \<and> length frames > 0)),
           tv_overflow := overflow_effect frames (tm_overflow s) (tv_overflow p)\<rparr>)"

datatype tv_event =
    PvSocket term_event
  | PvCommit
  | PvResize
  | PvFrame
  | PvKey key_event string
  | PvUnmount

text \<open>A socket event of the hook; writing out happens in commits only.\<close>

fun tv_step :: "tv_event \<Rightarrow> term_panel \<Rightarrow> term_panel" where
  "tv_step (PvSocket e) p = (if e = TeFlush then p else p\<lparr>tv_sock := term_step e (tv_sock p)\<rparr>)"
| "tv_step PvCommit p = tv_commit p"
| "tv_step PvResize p = (if tv_terminal p then scheduleFit p else p)"
| "tv_step PvFrame p = (if tv_raf p then p\<lparr>tv_raf := False, tv_fits := Suc (tv_fits p)\<rparr> else p)"
| "tv_step (PvKey ev sel) p = (if tv_terminal p then snd (key_handler ev sel p) else p)"
| "tv_step PvUnmount p = terminal_unmount (p\<lparr>tv_sock := cleanup (tv_sock p)\<rparr>)"

definition tv_run :: "string \<times> string \<Rightarrow> target option \<Rightarrow> string option \<Rightarrow> tv_event list \<Rightarrow> term_panel" where
  "tv_run loc tgt tok evs = fold tv_step evs (tv_mount (effect_run tgt tok (term_init loc)))"

section \<open>What is drawn\<close>

fun socket_status_text :: "socket_status \<Rightarrow> string" where
  "socket_status_text TsIdle = ''idle''"
| "socket_status_text TsConnecting = ''connecting''"
| "socket_status_text TsConnected = ''connected''"
| "socket_status_text TsReconnecting = ''reconnecting''"
| "socket_status_text TsLost = ''lost''"

fun pill_hex :: "socket_status \<Rightarrow> string" where
  "pill_hex TsConnected = ''#5BD68A''"
| "pill_hex TsConnecting = ''#3B9EFF''"
| "pill_hex TsReconnecting = ''#F2B441''"
| "pill_hex TsLost = ''#EF4D4D''"
| "pill_hex TsIdle = ''#5A6472''"

datatype term_alert = AlOverflow string | AlReconnecting string | AlLost string | AlWaiting string

definition overflow_label :: string where "overflow_label = ''Output buffer overflow''"
definition reconnecting_label :: string where "reconnecting_label = ''Reconnecting'' @ ellipsis"
definition lost_label :: string where "lost_label = ''Connection lost''"
definition idle_placeholder :: string where "idle_placeholder = ''No active session attached''"
definition waiting_label :: string where
  "waiting_label = ''Connected '' @ emdash @ '' waiting for output'' @ ellipsis"

record term_page =
  tp_pill :: "string \<times> string"
  tp_alerts :: "term_alert list"
  tp_placeholder :: "string option"

definition TerminalPanel :: "term_panel \<Rightarrow> term_page" where
  "TerminalPanel p =
     (let status = tm_status (tv_sock p); ov = tm_overflow (tv_sock p)
      in \<lparr>tp_pill = (pill_hex status, [CHR 0xE2, CHR 0x97, CHR 0x8F] @ '' '' @ socket_status_text status),
          tp_alerts =
            (if overflow_visible ov (tv_overflow p)
             then [AlOverflow (overflow_label @ '' '' @ emdash @ '' '' @ string_of_int (ov_bytesDropped (the ov)) @ '' bytes dropped'')] else [])
            @ (if status = TsReconnecting then [AlReconnecting reconnecting_label] else [])
            @ (if status = TsLost then [AlLost lost_label] else [])
            @ (if (status = TsConnected \<or> status = TsConnecting) \<and> \<not> tv_hasReceived p then [AlWaiting waiting_label] else []),
          tp_placeholder = (if status = TsIdle then Some idle_placeholder else None)\<rparr>)"

section \<open>The panel runs the socket\<close>

fun socket_events :: "tv_event \<Rightarrow> term_event list" where
  "socket_events (PvSocket e) = (if e = TeFlush then [] else [e])"
| "socket_events PvCommit = [TeFlush]"
| "socket_events PvResize = []"
| "socket_events PvFrame = []"
| "socket_events (PvKey ev sel) = []"
| "socket_events PvUnmount = [TeUnmount]"

lemma fit_fields [simp]: "tv_sock (scheduleFit p) = tv_sock p" "tv_terminal (scheduleFit p) = tv_terminal p"
  "tv_hasReceived (scheduleFit p) = tv_hasReceived p" "tv_overflow (scheduleFit p) = tv_overflow p" "tv_raf (scheduleFit p)"
  by (simp_all add: scheduleFit_def)

lemma key_fields [simp]: "tv_sock (snd (key_handler ev sel p)) = tv_sock p" "tv_terminal (snd (key_handler ev sel p)) = tv_terminal p"
  "tv_hasReceived (snd (key_handler ev sel p)) = tv_hasReceived p" "tv_overflow (snd (key_handler ev sel p)) = tv_overflow p"
  "fst (key_handler ev sel p) = False"
  by (simp_all add: key_handler_def)

lemma mount_fields [simp]: "tv_sock (tv_mount s) = s" "tv_terminal (tv_mount s)" "\<not> tv_hasReceived (tv_mount s)"
  by (simp_all add: tv_mount_def terminal_mount_def)

lemma tv_step_terminal: "tv_terminal p \<Longrightarrow> e \<noteq> PvUnmount \<Longrightarrow> tv_terminal (tv_step e p)"
  by (cases e) (simp_all add: tv_commit_def Let_def)

lemma tv_step_sock: "tv_terminal p \<Longrightarrow> tv_sock (tv_step e p) = fold term_step (socket_events e) (tv_sock p)"
  by (cases e) (simp_all add: tv_commit_def terminal_unmount_def Let_def)

lemma written_step: "tm_written (term_step e s) = (if e = TeFlush then tm_written s @ tm_queue s else tm_written s)"
  by (cases e) (simp_all add: term_defs Let_def split: option.splits ws_data.splits close_decision.splits)

lemma tv_step_received:
  assumes "tv_terminal p" and "e \<noteq> PvUnmount" and "tv_hasReceived p \<longleftrightarrow> tm_written (tv_sock p) \<noteq> []"
  shows "tv_hasReceived (tv_step e p) \<longleftrightarrow> tm_written (tv_sock (tv_step e p)) \<noteq> []"
  using assms by (cases e) (auto simp: written_step tv_commit_def ingest_def drainFrames_def render_queue_def Let_def)

lemma tv_fold:
  assumes "PvUnmount \<notin> set evs" and "tv_terminal p" and "tv_hasReceived p \<longleftrightarrow> tm_written (tv_sock p) \<noteq> []"
  shows "tv_terminal (fold tv_step evs p) \<and>
         tv_sock (fold tv_step evs p) = fold term_step (concat (map socket_events evs)) (tv_sock p) \<and>
         (tv_hasReceived (fold tv_step evs p) \<longleftrightarrow> tm_written (tv_sock (fold tv_step evs p)) \<noteq> [])"
  using assms
proof (induction evs arbitrary: p)
  case (Cons e evs)
  then have "e \<noteq> PvUnmount" by auto
  with Cons.prems have "tv_terminal (tv_step e p)" "tv_hasReceived (tv_step e p) \<longleftrightarrow> tm_written (tv_sock (tv_step e p)) \<noteq> []"
    by (simp_all add: tv_step_terminal tv_step_received)
  with Cons show ?case by (simp add: tv_step_sock)
qed simp

lemma effect_run_written [simp]: "tm_written (effect_run tgt tok s) = tm_written s"
  by (simp add: effect_run_def connect_def openSocket_def Let_def split: option.splits)

text \<open>
  C8. A mounted panel does to its socket exactly what the socket's own run does, so that what holds of every such run holds
  in the panel; no key has any effect on it. The banner that waits for output is there exactly while the socket is open or
  opening and nothing was written since the panel was mounted.
\<close>
theorem panel_refines_socket:
  assumes "PvUnmount \<notin> set evs" and "p = tv_run loc tgt tok evs"
  shows "tv_sock p = term_run loc tgt tok (concat (map socket_events evs)) \<and>
         tv_sock p = tv_sock (tv_run loc tgt tok (filter (\<lambda>e. \<forall>k sel. e \<noteq> PvKey k sel) evs)) \<and>
         ((\<exists>txt. AlWaiting txt \<in> set (tp_alerts (TerminalPanel p))) \<longleftrightarrow>
            tm_status (tv_sock p) \<in> {TsConnected, TsConnecting} \<and> tm_written (tv_sock p) = [])"
proof -
  let ?start = "tv_mount (effect_run tgt tok (term_init loc))"
  have run: "tv_sock (tv_run loc tgt tok es) = term_run loc tgt tok (concat (map socket_events es)) \<and>
      (tv_hasReceived (tv_run loc tgt tok es) \<longleftrightarrow> tm_written (tv_sock (tv_run loc tgt tok es)) \<noteq> [])" if "PvUnmount \<notin> set es" for es
    using tv_fold [OF that, of ?start] by (simp add: tv_run_def term_run_def term_init_def)
  have "concat (map socket_events (filter (\<lambda>e. \<forall>k sel. e \<noteq> PvKey k sel) es)) = concat (map socket_events es)" for es
  proof (induction es)
    case (Cons e es)
    then show ?case by (cases e) simp_all
  qed simp
  then show ?thesis
    using run [OF assms(1)] run [of "filter (\<lambda>e. \<forall>k sel. e \<noteq> PvKey k sel) evs"] assms
    by (auto simp: TerminalPanel_def Let_def)
qed

text \<open>Another target keeps what was written for the one before, and shows no banner for its own output.\<close>

lemma new_target_keeps_old_screen:
  assumes "p = tv_run loc tgt tok evs" and "q = tv_run loc tgt tok (evs @ PvSocket (TeSwap tgt' tok') # later)"
    and "PvUnmount \<notin> set (evs @ later)" and "tm_written (tv_sock p) \<noteq> []"
  shows "\<exists>fs. tm_written (tv_sock q) = tm_written (tv_sock p) @ fs" and "AlWaiting txt \<notin> set (tp_alerts (TerminalPanel q))"
proof -
  have grows: "\<exists>fs. tm_written (fold term_step es s) = tm_written s @ fs" for es s
  proof (induction es arbitrary: s)
    case (Cons e es)
    from Cons [of "term_step e s"] show ?case by (auto simp: written_step)
  qed simp
  let ?rest = "PvSocket (TeSwap tgt' tok') # later"
  have "PvUnmount \<notin> set evs" using assms(3) by simp
  from tv_fold [OF this, of "tv_mount (effect_run tgt tok (term_init loc))"]
  have p: "tv_terminal p" "tv_hasReceived p \<longleftrightarrow> tm_written (tv_sock p) \<noteq> []"
    by (simp_all add: assms(1) tv_run_def term_init_def)
  have q: "q = fold tv_step ?rest p" by (simp add: assms(1,2) tv_run_def)
  have "PvUnmount \<notin> set ?rest" using assms(3) by simp
  from tv_fold [OF this p] have f: "tv_sock q = fold term_step (concat (map socket_events ?rest)) (tv_sock p)"
    "tv_hasReceived q \<longleftrightarrow> tm_written (tv_sock q) \<noteq> []" unfolding q by simp_all
  from grows show one: "\<exists>fs. tm_written (tv_sock q) = tm_written (tv_sock p) @ fs" unfolding f(1) .
  from one f(2) assms(4) have "tv_hasReceived q" by auto
  then show "AlWaiting txt \<notin> set (tp_alerts (TerminalPanel q))" by (simp add: TerminalPanel_def Let_def)
qed

section \<open>Fitting\<close>

definition resizes :: "tv_event list \<Rightarrow> nat" where
  "resizes evs = length (filter (\<lambda>e. e = PvResize) evs)"

text \<open>However often the box is resized, one fit is scheduled at a time, and the next animation frame does it.\<close>

lemma fits_bounded:
  assumes "p = tv_run loc tgt tok evs" and "PvUnmount \<notin> set evs"
  shows "tv_fits p + (if tv_raf p then 1 else 0) \<le> Suc (resizes evs)"
    and "tv_fits (tv_step PvFrame (tv_step PvResize p)) = Suc (tv_fits p)"
proof -
  have step: "tv_fits (tv_step e q) + (if tv_raf (tv_step e q) then 1 else 0)
      \<le> tv_fits q + (if tv_raf q then 1 else 0) + (if e = PvResize then 1 else 0)" if "e \<noteq> PvUnmount" for e q
    using that by (cases e) (auto simp: tv_commit_def scheduleFit_def key_handler_def Let_def)
  have "tv_fits (fold tv_step evs q) + (if tv_raf (fold tv_step evs q) then 1 else 0)
      \<le> tv_fits q + (if tv_raf q then 1 else 0) + resizes evs" if "PvUnmount \<notin> set evs" for evs q
    using that
  proof (induction evs arbitrary: q)
    case (Cons e evs)
    then have "e \<noteq> PvUnmount" "PvUnmount \<notin> set evs" by auto
    with Cons.IH [of "tv_step e q"] step [of e q] show ?case by (simp add: resizes_def split: if_splits)
  qed (simp add: resizes_def)
  from this [OF assms(2), of "tv_mount (effect_run tgt tok (term_init loc))"]
  show "tv_fits p + (if tv_raf p then 1 else 0) \<le> Suc (resizes evs)"
    by (simp add: assms(1) tv_run_def tv_mount_def terminal_mount_def scheduleFit_def)
  have "tv_terminal p"
    using tv_fold [OF assms(2), of "tv_mount (effect_run tgt tok (term_init loc))"]
    by (simp add: assms(1) tv_run_def term_init_def)
  then show "tv_fits (tv_step PvFrame (tv_step PvResize p)) = Suc (tv_fits p)" by (simp add: scheduleFit_def)
qed

section \<open>The overflow alert\<close>

text \<open>
  A reported overflow is shown from the commit that brings it, also when frames come with it, until the next commit
  with frames, and never again after that while it is the last one reported.
\<close>
theorem overflow_alert_until_next_frames:
  assumes "ow_prevAt v \<noteq> Some (ov_at o1)" and "ow_dismissedAt v \<noteq> Some (ov_at o1)"
  shows "overflow_visible (Some o1) (fold (\<lambda>fs. overflow_effect fs (Some o1)) (first # quiet) v) \<longleftrightarrow> (\<forall>fs \<in> set quiet. fs = [])"
proof -
  have first: "ow_prevAt (overflow_effect first (Some o1) v) = Some (ov_at o1)"
    "ow_dismissedAt (overflow_effect first (Some o1) v) = ow_dismissedAt v"
    using assms(1) by (simp_all add: overflow_effect_def Let_def)
  have step: "ow_prevAt (overflow_effect fs (Some o1) w) = Some (ov_at o1)"
    "ow_dismissedAt (overflow_effect fs (Some o1) w) = (if fs = [] then ow_dismissedAt w else Some (ov_at o1))"
    if "ow_prevAt w = Some (ov_at o1)" for fs w
    using that by (simp_all add: overflow_effect_def Let_def)
  have "ow_dismissedAt (fold (\<lambda>fs. overflow_effect fs (Some o1)) qs w) =
      (if \<forall>fs \<in> set qs. fs = [] then ow_dismissedAt w else Some (ov_at o1))" if "ow_prevAt w = Some (ov_at o1)" for qs w
    using that by (induction qs arbitrary: w) (auto simp: step)
  from this [OF first(1), of quiet] show ?thesis using assms(2) by (simp add: overflow_visible_def first(2))
qed

section \<open>Witnesses\<close>

lemma panel_refines_socket_witness:
  "tv_sock (tv_run (''http:'', ''h'') (Some (KChain, ''c'')) (Some ''t'') [PvKey \<lparr>ke_type = ''keydown'', ke_key = ''c'', ke_ctrl = True, ke_shift = False\<rparr> ''x'', PvSocket (TeOpen 0), PvCommit])
     = term_run (''http:'', ''h'') (Some (KChain, ''c'')) (Some ''t'') [TeOpen 0, TeFlush]"
  using panel_refines_socket [OF _ refl, of "[PvKey \<lparr>ke_type = ''keydown'', ke_key = ''c'', ke_ctrl = True, ke_shift = False\<rparr> ''x'', PvSocket (TeOpen 0), PvCommit]"
      "(''http:'', ''h'')" "Some (KChain, ''c'')" "Some ''t''"] by simp

lemma overflow_alert_until_next_frames_witness:
  "\<not> overflow_visible (Some \<lparr>ov_bytesDropped = 9, ov_at = 5\<rparr>)
     (fold (\<lambda>fs. overflow_effect fs (Some \<lparr>ov_bytesDropped = 9, ov_at = 5\<rparr>)) [[''a''], [], [''b'']] \<lparr>ow_prevAt = None, ow_dismissedAt = None\<rparr>)"
  using overflow_alert_until_next_frames [of "\<lparr>ow_prevAt = None, ow_dismissedAt = None\<rparr>" "\<lparr>ov_bytesDropped = 9, ov_at = 5\<rparr>" "[''a'']" "[[], [''b'']]"] by simp
end
