(* ===== verification/FilterState.thy ===== *)
theory FilterState
  imports Json
begin

text \<open>
  \<open>hooks/createVersionedFilterState.ts\<close> with its two instances \<open>usePlanFilters\<close> and
  \<open>useFeatureFilters\<close>, and \<open>hooks/useTaskBriefFilters.ts\<close>: filter settings kept in local storage.

  A \<open>Set\<close> is an insertion-ordered list without duplicates. The setters compare sets by reference;
  the version counters \<open>fh_lver\<close> and \<open>fh_pver\<close> stand for the identity of the two sets. The storage
  item is \<open>None\<close> when it is absent or cannot be read.
\<close>

section \<open>Stored values\<close>

record filter_values =
  fv_lifecycle :: "string list"
  fv_project :: "string list"
  fv_search :: string
  fv_sort :: string

record filter_config =
  fc_storageKey :: string
  fc_lifecycleValues :: "string list"
  fc_sortValues :: "string list"
  fc_defaults :: filter_values

definition isMember :: "string list \<Rightarrow> json \<Rightarrow> bool" where
  "isMember values v \<longleftrightarrow> (case v of JStr s \<Rightarrow> s \<in> set values | _ \<Rightarrow> False)"

definition is_str :: "json \<Rightarrow> bool" where
  "is_str v \<longleftrightarrow> (case v of JStr s \<Rightarrow> True | _ \<Rightarrow> False)"

fun str_of :: "json \<Rightarrow> string" where
  "str_of (JStr s) = s"
| "str_of _ = []"

definition parseStored :: "filter_config \<Rightarrow> string \<Rightarrow> filter_values option" where
  "parseStored config raw =
     (case json_parse raw of
        Some (JObj obj) \<Rightarrow>
          (case (map_of obj ''lifecycle'', map_of obj ''project'', map_of obj ''search'', map_of obj ''sort'') of
             (Some lifecycle, Some project, Some search, Some srt) \<Rightarrow>
               (case lifecycle of
                  JArr ls \<Rightarrow>
                    if \<not> list_all (isMember (fc_lifecycleValues config)) ls then None
                    else (case project of
                      JArr ps \<Rightarrow>
                        if \<not> list_all is_str ps then None
                        else if \<not> is_str search then None
                        else if \<not> isMember (fc_sortValues config) srt then None
                        else Some \<lparr>fv_lifecycle = oset_of (map str_of ls), fv_project = oset_of (map str_of ps),
                                   fv_search = str_of search, fv_sort = str_of srt\<rparr>
                    | _ \<Rightarrow> None)
                | _ \<Rightarrow> None)
           | _ \<Rightarrow> None)
      | _ \<Rightarrow> None)"

definition serialize :: "filter_values \<Rightarrow> string" where
  "serialize v =
     stringify (JObj [(''lifecycle'', JArr (map JStr (fv_lifecycle v))),
                      (''project'', JArr (map JStr (fv_project v))),
                      (''search'', JStr (fv_search v)),
                      (''sort'', JStr (fv_sort v))])"

definition safeRead :: "filter_config \<Rightarrow> string option \<Rightarrow> filter_values" where
  "safeRead config item =
     (case item of
        None \<Rightarrow> fc_defaults config
      | Some raw \<Rightarrow> (case parseStored config raw of Some v \<Rightarrow> v | None \<Rightarrow> fc_defaults config))"

text \<open>\<open>ok\<close> is false when \<open>setItem\<close> throws.\<close>

definition safeWrite :: "bool \<Rightarrow> filter_values \<Rightarrow> string option \<Rightarrow> string option" where
  "safeWrite ok v item = (if ok then Some (serialize v) else item)"

section \<open>Instances\<close>

definition plan_filters :: filter_config where
  "plan_filters =
     \<lparr>fc_storageKey = ''wf.planFilters.v1'',
      fc_lifecycleValues = [''active'', ''open'', ''done'', ''pending''],
      fc_sortValues = [''group-then-progress-desc'', ''name-asc'', ''last-activity-desc''],
      fc_defaults = \<lparr>fv_lifecycle = [''active'', ''open''], fv_project = [], fv_search = '''',
                     fv_sort = ''group-then-progress-desc''\<rparr>\<rparr>"

definition feature_filters :: filter_config where
  "feature_filters =
     \<lparr>fc_storageKey = ''wf.featureFilters.v1'',
      fc_lifecycleValues = [''active'', ''paused'', ''pending'', ''done''],
      fc_sortValues = [''urgency-then-completion'', ''name-asc'', ''last-activity-desc''],
      fc_defaults = \<lparr>fv_lifecycle = [''active'', ''paused''], fv_project = [], fv_search = '''',
                     fv_sort = ''urgency-then-completion''\<rparr>\<rparr>"

section \<open>The hook\<close>

definition search_debounce_ms :: nat where "search_debounce_ms = 300"

record filter_hook =
  fh_state :: filter_values
  fh_lver :: nat
  fh_pver :: nat
  fh_stateRef :: filter_values
  fh_seen :: "nat \<times> nat \<times> string"
  fh_seenSearch :: string
  fh_timer :: "nat option"
  fh_item :: "string option"

definition fh_mount :: "filter_config \<Rightarrow> string option \<Rightarrow> filter_hook" where
  "fh_mount config item =
     (let v = safeRead config item
      in \<lparr>fh_state = v, fh_lver = 0, fh_pver = 0, fh_stateRef = v, fh_seen = (0, 0, fv_sort v),
          fh_seenSearch = fv_search v, fh_timer = None, fh_item = item\<rparr>)"

text \<open>The first argument tells whether the given set is the very object already stored.\<close>

definition setLifecycle :: "bool \<Rightarrow> string list \<Rightarrow> filter_hook \<Rightarrow> filter_hook" where
  "setLifecycle same next h =
     (if same then h
      else h\<lparr>fh_state := (fh_state h)\<lparr>fv_lifecycle := oset_of next\<rparr>, fh_lver := Suc (fh_lver h)\<rparr>)"

definition setProject :: "bool \<Rightarrow> string list \<Rightarrow> filter_hook \<Rightarrow> filter_hook" where
  "setProject same next h =
     (if same then h
      else h\<lparr>fh_state := (fh_state h)\<lparr>fv_project := oset_of next\<rparr>, fh_pver := Suc (fh_pver h)\<rparr>)"

definition setSearch :: "string \<Rightarrow> filter_hook \<Rightarrow> filter_hook" where
  "setSearch next h =
     (if next = fv_search (fh_state h) then h else h\<lparr>fh_state := (fh_state h)\<lparr>fv_search := next\<rparr>\<rparr>)"

definition setSort :: "string \<Rightarrow> filter_hook \<Rightarrow> filter_hook" where
  "setSort next h =
     (if next = fv_sort (fh_state h) then h else h\<lparr>fh_state := (fh_state h)\<lparr>fv_sort := next\<rparr>\<rparr>)"

text \<open>A render with its effects: the immediate write of the slices, the debounced one of the search.\<close>

definition fh_commit :: "nat \<Rightarrow> bool \<Rightarrow> filter_hook \<Rightarrow> filter_hook" where
  "fh_commit now ok h =
     (let v = fh_state h; deps = (fh_lver h, fh_pver h, fv_sort v);
          h1 = h\<lparr>fh_stateRef := v, fh_seen := deps, fh_seenSearch := fv_search v\<rparr>;
          h2 = (if deps \<noteq> fh_seen h then h1\<lparr>fh_item := safeWrite ok v (fh_item h1)\<rparr> else h1)
      in if fv_search v \<noteq> fh_seenSearch h then h2\<lparr>fh_timer := Some (now + search_debounce_ms)\<rparr> else h2)"

definition fh_timeout :: "nat \<Rightarrow> bool \<Rightarrow> filter_hook \<Rightarrow> filter_hook" where
  "fh_timeout now ok h =
     (case fh_timer h of
        None \<Rightarrow> h
      | Some t \<Rightarrow> if now < t then h
                 else h\<lparr>fh_timer := None, fh_item := safeWrite ok (fh_stateRef h) (fh_item h)\<rparr>)"

datatype filter_event =
    FeLifecycle bool "string list" | FeProject bool "string list" | FeSearch string | FeSort string
  | FeCommit nat | FeTimeout nat

fun filter_step :: "filter_event \<Rightarrow> filter_hook \<Rightarrow> filter_hook" where
  "filter_step (FeLifecycle same s) h = setLifecycle same s h"
| "filter_step (FeProject same s) h = setProject same s h"
| "filter_step (FeSearch s) h = setSearch s h"
| "filter_step (FeSort s) h = setSort s h"
| "filter_step (FeCommit now) h = fh_commit now True h"
| "filter_step (FeTimeout now) h = fh_timeout now True h"

text \<open>What the types of the setters guarantee about their arguments.\<close>

fun event_typed :: "filter_config \<Rightarrow> filter_event \<Rightarrow> bool" where
  "event_typed config (FeLifecycle same s) \<longleftrightarrow> set s \<subseteq> set (fc_lifecycleValues config)"
| "event_typed config (FeSort s) \<longleftrightarrow> s \<in> set (fc_sortValues config)"
| "event_typed config _ \<longleftrightarrow> True"

section \<open>The stored text is faithful\<close>

definition values_ok :: "filter_config \<Rightarrow> filter_values \<Rightarrow> bool" where
  "values_ok config v \<longleftrightarrow>
     distinct (fv_lifecycle v) \<and> set (fv_lifecycle v) \<subseteq> set (fc_lifecycleValues config)
   \<and> distinct (fv_project v) \<and> fv_sort v \<in> set (fc_sortValues config)"

lemma map_str_of [simp]: "map (str_of \<circ> JStr) xs = xs" "map str_of (map JStr xs) = xs"
  by (induction xs) auto

lemma num_free_strs: "num_free (JArr (map JStr xs))"
  by (induction xs) auto

lemma parse_serialize:
  assumes "values_ok config v"
  shows "parseStored config (serialize v) = Some v"
proof -
  have "json_parse (serialize v) = Some (JObj [(''lifecycle'', JArr (map JStr (fv_lifecycle v))),
      (''project'', JArr (map JStr (fv_project v))), (''search'', JStr (fv_search v)), (''sort'', JStr (fv_sort v))])"
    unfolding serialize_def
    by (rule json_parse_stringify) (use num_free_strs in simp)
  moreover have "list_all (isMember (fc_lifecycleValues config)) (map JStr (fv_lifecycle v))"
    using assms by (auto simp: list_all_iff isMember_def values_ok_def)
  moreover have "list_all is_str (map JStr (fv_project v))" by (simp add: list_all_iff is_str_def)
  ultimately show ?thesis
    using assms by (simp add: parseStored_def values_ok_def is_str_def isMember_def oset_of_id)
qed

lemma isMember_str: "isMember values x \<Longrightarrow> str_of x \<in> set values"
  by (cases x) (simp_all add: isMember_def)

lemma parse_ok:
  assumes "parseStored config raw = Some v"
  shows "values_ok config v"
  using assms
  by (auto simp: parseStored_def values_ok_def list_all_iff isMember_str
      split: option.splits json.splits if_splits)

text \<open>Both instances satisfy the contract of a persisted value.\<close>

lemma safeRead_read_or: "safeRead config item = read_or (parseStored config) (fc_defaults config) item"
  by (simp add: safeRead_def read_or_def split: option.splits)

lemma persisted_filters: "values_ok config (fc_defaults config) \<Longrightarrow>
    persisted serialize (parseStored config) (values_ok config) (fc_defaults config)"
  by unfold_locales (auto simp: parse_serialize parse_ok)

interpretation plan_store: persisted serialize "parseStored plan_filters" "values_ok plan_filters" "fc_defaults plan_filters"
  by (rule persisted_filters) (simp add: values_ok_def plan_filters_def)

interpretation feature_store: persisted serialize "parseStored feature_filters" "values_ok feature_filters" "fc_defaults feature_filters"
  by (rule persisted_filters) (simp add: values_ok_def feature_filters_def)

section \<open>Persistence of the hook\<close>

text \<open>
  The invariant: what a reload would show is the state of the last render, up to the search text while a write
  of it is pending, and the version counters witness every change since then.
\<close>

definition same_slices :: "filter_values \<Rightarrow> filter_values \<Rightarrow> bool" where
  "same_slices v w \<longleftrightarrow> fv_lifecycle v = fv_lifecycle w \<and> fv_project v = fv_project w \<and> fv_sort v = fv_sort w"

lemma same_slices_refl [simp]: "same_slices v v"
  by (simp add: same_slices_def)

definition fh_inv :: "filter_config \<Rightarrow> filter_hook \<Rightarrow> bool" where
  "fh_inv config h \<longleftrightarrow>
     values_ok config (fh_state h) \<and> values_ok config (fh_stateRef h)
   \<and> fh_seenSearch h = fv_search (fh_stateRef h) \<and> snd (snd (fh_seen h)) = fv_sort (fh_stateRef h)
   \<and> fst (fh_seen h) \<le> fh_lver h \<and> fst (snd (fh_seen h)) \<le> fh_pver h
   \<and> (fh_lver h = fst (fh_seen h) \<longrightarrow> fv_lifecycle (fh_state h) = fv_lifecycle (fh_stateRef h))
   \<and> (fh_pver h = fst (snd (fh_seen h)) \<longrightarrow> fv_project (fh_state h) = fv_project (fh_stateRef h))
   \<and> same_slices (safeRead config (fh_item h)) (fh_stateRef h)
   \<and> (fh_timer h = None \<longrightarrow> safeRead config (fh_item h) = fh_stateRef h)"

lemma fh_inv_mount:
  assumes "persisted serialize (parseStored config) (values_ok config) (fc_defaults config)"
  shows "fh_inv config (fh_mount config item)"
proof -
  have "values_ok config (safeRead config item)"
    unfolding safeRead_read_or by (rule persisted.read_ok [OF assms])
  then show ?thesis by (simp add: fh_inv_def fh_mount_def Let_def)
qed

lemma safeRead_serialize: "values_ok config v \<Longrightarrow> safeRead config (Some (serialize v)) = v"
  by (simp add: safeRead_def parse_serialize)

lemma fh_inv_commit:
  assumes "fh_inv config h"
  shows "fh_inv config (fh_commit now True h)"
proof -
  obtain a b c where seen: "fh_seen h = (a, b, c)" by (metis prod_cases3)
  have unchanged: "fh_state h = fh_stateRef h"
    if "(fh_lver h, fh_pver h, fv_sort (fh_state h)) = fh_seen h" "fv_search (fh_state h) = fh_seenSearch h"
    using assms that seen by (auto simp: fh_inv_def intro: filter_values.equality)
  show ?thesis
    using assms unchanged seen
    by (auto simp: fh_inv_def fh_commit_def Let_def safeWrite_def safeRead_serialize same_slices_def)
qed

lemma fh_inv_step: "fh_inv config h \<Longrightarrow> event_typed config e \<Longrightarrow> fh_inv config (filter_step e h)"
proof (cases e)
  case (FeCommit now)
  then show "fh_inv config h \<Longrightarrow> ?thesis" by (simp add: fh_inv_commit)
next
  case (FeTimeout now)
  then show "fh_inv config h \<Longrightarrow> ?thesis"
    by (auto simp: fh_inv_def fh_timeout_def safeWrite_def safeRead_serialize split: option.splits)
qed (auto simp: fh_inv_def setLifecycle_def setProject_def setSearch_def setSort_def values_ok_def)

lemma fh_inv_run:
  assumes "persisted serialize (parseStored config) (values_ok config) (fc_defaults config)"
    and "list_all (event_typed config) evs"
  shows "fh_inv config (fold filter_step evs (fh_mount config item))"
proof -
  have "fh_inv config h \<Longrightarrow> list_all (event_typed config) evs \<Longrightarrow> fh_inv config (fold filter_step evs h)" for h
    by (induction evs arbitrary: h) (simp_all add: fh_inv_step)
  with assms fh_inv_mount show ?thesis by blast
qed

section \<open>The task brief settings\<close>

definition mode_values :: "string list" where "mode_values = [''stream'', ''brief'']"

definition section_values :: "string list" where
  "section_values =
     [''task_type'', ''what'', ''why'', ''where'', ''constraints'', ''acceptance'', ''manualtest_scenarios'',
      ''manual_test'', ''estimate'', ''description'', ''scope_change'', ''delivered_beyond_plan'', ''remaining_gaps'']"

record brief =
  bf_mode :: string
  bf_sections :: "string list"

definition brief_default :: brief where
  "brief_default = \<lparr>bf_mode = ''brief'', bf_sections = section_values\<rparr>"

definition brief_parse :: "string \<Rightarrow> brief option" where
  "brief_parse raw =
     (case json_parse raw of
        Some (JObj obj) \<Rightarrow>
          (case map_of obj ''mode'' of
             Some m \<Rightarrow>
               if \<not> isMember mode_values m then None
               else (case map_of obj ''visibleSections'' of
                 Some (JArr xs) \<Rightarrow>
                   if list_all (isMember section_values) xs
                   then Some \<lparr>bf_mode = str_of m, bf_sections = oset_of (map str_of xs)\<rparr> else None
               | _ \<Rightarrow> None)
           | None \<Rightarrow> None)
      | _ \<Rightarrow> None)"

definition brief_read :: "string option \<Rightarrow> brief" where
  "brief_read item =
     (case item of None \<Rightarrow> brief_default | Some raw \<Rightarrow> (case brief_parse raw of None \<Rightarrow> brief_default | Some v \<Rightarrow> v))"

definition brief_text :: "brief \<Rightarrow> string" where
  "brief_text v =
     stringify (JObj [(''mode'', JStr (bf_mode v)), (''visibleSections'', JArr (map JStr (bf_sections v)))])"

definition brief_persist :: "bool \<Rightarrow> brief \<Rightarrow> string option \<Rightarrow> string option" where
  "brief_persist ok v item = (if ok then Some (brief_text v) else item)"

record brief_hook =
  bh_state :: brief
  bh_ref :: brief
  bh_item :: "string option"

definition setMode :: "bool \<Rightarrow> string \<Rightarrow> brief_hook \<Rightarrow> brief_hook" where
  "setMode ok next h =
     h\<lparr>bh_state := (bh_state h)\<lparr>bf_mode := next\<rparr>,
       bh_item := brief_persist ok \<lparr>bf_mode = next, bf_sections = bf_sections (bh_ref h)\<rparr> (bh_item h)\<rparr>"

definition setVisibleSections :: "bool \<Rightarrow> string list \<Rightarrow> brief_hook \<Rightarrow> brief_hook" where
  "setVisibleSections ok next h =
     h\<lparr>bh_state := (bh_state h)\<lparr>bf_sections := next\<rparr>,
       bh_item := brief_persist ok \<lparr>bf_mode = bf_mode (bh_ref h), bf_sections = next\<rparr> (bh_item h)\<rparr>"

definition bh_commit :: "brief_hook \<Rightarrow> brief_hook" where
  "bh_commit h = h\<lparr>bh_ref := bh_state h\<rparr>"

definition brief_ok :: "brief \<Rightarrow> bool" where
  "brief_ok v \<longleftrightarrow> bf_mode v \<in> set mode_values \<and> distinct (bf_sections v) \<and> set (bf_sections v) \<subseteq> set section_values"

lemma brief_parse_text: "brief_ok v \<Longrightarrow> brief_parse (brief_text v) = Some v"
proof -
  assume ok: "brief_ok v"
  have "json_parse (brief_text v) =
      Some (JObj [(''mode'', JStr (bf_mode v)), (''visibleSections'', JArr (map JStr (bf_sections v)))])"
    unfolding brief_text_def by (rule json_parse_stringify) (use num_free_strs in simp)
  moreover have "list_all (isMember section_values) (map JStr (bf_sections v))"
    using ok by (auto simp: brief_ok_def list_all_iff isMember_def)
  ultimately show ?thesis using ok by (simp add: brief_parse_def brief_ok_def isMember_def oset_of_id)
qed

lemma brief_parse_ok: "brief_parse raw = Some v \<Longrightarrow> brief_ok v"
  by (auto simp: brief_parse_def brief_ok_def list_all_iff isMember_str
      split: option.splits json.splits if_splits)

interpretation brief_store: persisted brief_text brief_parse brief_ok brief_default
proof unfold_locales
  show "brief_ok brief_default" by (simp add: brief_ok_def brief_default_def mode_values_def section_values_def)
qed (simp_all add: brief_parse_text brief_parse_ok)

section \<open>Properties\<close>

text \<open>
  C6. Reloading the page restores the filters (of the plan and the feature list). Let the storage accept every write,
  and take any typed sequence of setter calls, renders and timer firings that ends in a render. A fresh mount
  then reads back the chosen lifecycle and project sets and the sort mode at once, and the search text too from the
  moment the write that a change of it has scheduled is due, or if none is pending. (A reload before that loses the text:
  see early_reload_loses_search.)
\<close>
theorem filters_survive_reload:
  assumes "config \<in> {plan_filters, feature_filters}" and "list_all (event_typed config) evs"
    and "h = fh_commit now True (fold filter_step evs (fh_mount config item))"
  shows "same_slices (fh_state (fh_mount config (fh_item h))) (fh_state h) \<and>
         (\<forall>t. list_all (\<lambda>due. due \<le> t) (case fh_timer h of None \<Rightarrow> [] | Some due \<Rightarrow> [due]) \<longrightarrow>
           fh_state (fh_mount config (fh_item (fh_timeout t True h))) = fh_state h)"
proof -
  have p: "persisted serialize (parseStored config) (values_ok config) (fc_defaults config)"
    using assms(1) plan_store.persisted_axioms feature_store.persisted_axioms by auto
  have inv: "fh_inv config h" unfolding assms(3) by (intro fh_inv_commit fh_inv_run p assms(2))
  have ref: "fh_stateRef h = fh_state h" unfolding assms(3) by (simp add: fh_commit_def Let_def)
  have late: "safeRead config (fh_item (fh_timeout t True h)) = fh_state h"
    if "list_all (\<lambda>due. due \<le> t) (case fh_timer h of None \<Rightarrow> [] | Some due \<Rightarrow> [due])" for t
    using that inv ref by (auto simp: fh_timeout_def fh_inv_def safeWrite_def safeRead_serialize split: option.splits)
  show ?thesis using inv ref late by (simp add: fh_inv_def fh_mount_def Let_def)
qed

lemma filters_survive_reload_witness:
  "fh_state (fh_mount plan_filters (fh_item (fh_timeout 1200 True (fh_commit 900 True (fold filter_step
     [FeSort ''name-asc'', FeCommit 10, FeSearch ''api''] (fh_mount plan_filters (Some ''{'')))))))
   = \<lparr>fv_lifecycle = [''active'', ''open''], fv_project = [], fv_search = ''api'', fv_sort = ''name-asc''\<rparr>"
proof -
  let ?evs = "[FeSort ''name-asc'', FeCommit 10, FeSearch ''api'']"
  let ?h = "fh_commit 900 True (fold filter_step ?evs (fh_mount plan_filters (Some ''{'')))"
  have t: "list_all (event_typed plan_filters) ?evs" by (simp add: plan_filters_def)
  have due: "fh_timer ?h = Some 1200"
    and s: "fh_state ?h = \<lparr>fv_lifecycle = [''active'', ''open''], fv_project = [], fv_search = ''api'', fv_sort = ''name-asc''\<rparr>"
    by code_simp+
  have "list_all (\<lambda>d. d \<le> 1200) (case fh_timer ?h of None \<Rightarrow> [] | Some d \<Rightarrow> [d])" unfolding due by simp
  with filters_survive_reload [OF _ t refl] show ?thesis unfolding s [symmetric] by blast
qed

text \<open>The search text is written 300 milliseconds after the last key; a reload in between loses it.\<close>

lemma early_reload_loses_search:
  "let h = fh_commit 900 True (setSearch ''api'' (fh_mount plan_filters None))
   in fh_timer h = Some 1200 \<and> fv_search (fh_state h) = ''api'' \<and> fv_search (fh_state (fh_mount plan_filters (fh_item h))) = []"
  by code_simp

text \<open>
  C40. Whatever the storage contains (nothing, broken text, values of an older version), the filters
  that are read satisfy the configuration: known chips without repetition and a known sort mode.
\<close>
theorem filters_read_total:
  "values_ok plan_filters (safeRead plan_filters item) \<and> values_ok feature_filters (safeRead feature_filters item)
   \<and> brief_ok (brief_read item)"
proof -
  have "brief_read item = read_or brief_parse brief_default item"
    by (simp add: brief_read_def read_or_def split: option.splits)
  then show ?thesis
    unfolding safeRead_read_or using plan_store.read_ok feature_store.read_ok brief_store.read_ok by simp
qed

text \<open>
  The task brief settings are stored by the setter itself: when it is called on a rendered state,
  a reload reads back the new state.
\<close>
theorem brief_survives_reload:
  assumes "bh_ref h = bh_state h" and "brief_ok (bh_state h)"
    and "m \<in> set mode_values" and "distinct ss" and "set ss \<subseteq> set section_values"
  shows "brief_read (bh_item (setMode True m h)) = bh_state (setMode True m h)
    \<and> brief_read (bh_item (setVisibleSections True ss h)) = bh_state (setVisibleSections True ss h)"
proof -
  have "brief_ok ((bh_state h)\<lparr>bf_mode := m\<rparr>)" "brief_ok ((bh_state h)\<lparr>bf_sections := ss\<rparr>)"
    using assms by (simp_all add: brief_ok_def)
  then show ?thesis
    using assms(1)
    by (cases "bh_state h")
      (simp add: setMode_def setVisibleSections_def brief_persist_def brief_read_def brief_parse_text)
qed

lemma brief_survives_reload_witness:
  "brief_read (bh_item (setMode True ''stream'' \<lparr>bh_state = brief_default, bh_ref = brief_default, bh_item = None\<rparr>))
     = brief_default\<lparr>bf_mode := ''stream''\<rparr>"
  using brief_survives_reload [of "\<lparr>bh_state = brief_default, bh_ref = brief_default, bh_item = None\<rparr>" "''stream''" "[]"]
    brief_store.dflt_ok
  by (simp add: mode_values_def setMode_def)

end
