(* ===== verification/StreamPolling.thy ===== *)
theory StreamPolling
  imports UriCodec Types
begin

text \<open>
  \<open>hooks/useStreamPolling.ts\<close> (with \<open>useAutopilotStream.ts\<close>), and the server function it polls,
  \<open>read_stream_incremental\<close> of \<open>dashboard/server/autopilot_helpers.py\<close>.

  The contract between the two is the locale \<open>tail_server\<close>: what one read at a byte offset returns.
  The client's theorem is proved against the contract, which the model of the server satisfies.
  Files are byte strings; decoding with replacement characters is not modelled, and path checks of
  the server are left out. \<open>po_all\<close> logs every event handed over since the last reset.
\<close>

section \<open>The server: incremental read of an NDJSON file\<close>

definition tail_start :: "nat \<Rightarrow> nat \<Rightarrow> nat option \<Rightarrow> nat \<times> bool" where
  "tail_start sz offset maxTail =
     (case maxTail of
        Some t \<Rightarrow> if offset = 0 \<and> t > 0 \<and> sz > t then (sz - t, True) else (offset, False)
      | None \<Rightarrow> (offset, False))"

definition drop_partial_first_line :: "string \<Rightarrow> string" where
  "drop_partial_first_line content =
     (case index_of (CHR 0x0A) content of Some nl \<Rightarrow> drop (Suc nl) content | None \<Rightarrow> '''')"

text \<open>
  Line separators of \<open>str.splitlines\<close> on UTF-8 bytes: the length of the separator at the head, 0 if
  there is none. A carriage return and line feed count as two; the blank line between is skipped.
\<close>

fun sep_len :: "string \<Rightarrow> nat" where
  "sep_len [] = 0"
| "sep_len (c # s) =
     (let n = (of_char c :: nat) in
      if n \<in> {10, 11, 12, 13, 28, 29, 30} then 1
      else if n = 0xC2 then (case s of d # _ \<Rightarrow> if (of_char d :: nat) = 0x85 then 2 else 0 | [] \<Rightarrow> 0)
      else if n = 0xE2 then
        (case s of d # e # _ \<Rightarrow> if (of_char d :: nat) = 0x80 \<and> (of_char e :: nat) \<in> {0xA8, 0xA9} then 3 else 0 | _ \<Rightarrow> 0)
      else 0)"

fun py_lines :: "string \<Rightarrow> string list" where
  "py_lines [] = [[]]"
| "py_lines (c # s) =
     (if sep_len (c # s) = 0 then (case py_lines s of [] \<Rightarrow> [[c]] | l # ls \<Rightarrow> (c # l) # ls)
      else [] # py_lines (drop (sep_len (c # s) - 1) s))"

declare sep_len.simps(2) [simp del]

definition filtered_types :: "string list" where
  "filtered_types = [''system'', ''rate_limit_event'']"

definition line_events :: "string \<Rightarrow> json list" where
  "line_events line =
     (let t = trim line in
      if t = [] then []
      else (case json_parse t of
          Some (JObj ms) \<Rightarrow>
            (case map_of ms ''type'' of
               Some (JStr ty) \<Rightarrow> if ty \<in> set filtered_types then [] else [JObj ms]
             | _ \<Rightarrow> [JObj ms])
        | _ \<Rightarrow> []))"

definition stream_events :: "string \<Rightarrow> json list" where
  "stream_events content = concat (map line_events (py_lines content))"

definition read_stream_incremental :: "string \<Rightarrow> nat \<Rightarrow> nat option \<Rightarrow> json list \<times> nat" where
  "read_stream_incremental file offset maxTail =
     (case tail_start (length file) offset maxTail of
        (start, drop_partial) \<Rightarrow>
          (let raw = drop start file;
               content = (if drop_partial then drop_partial_first_line raw else raw)
           in (stream_events content, start + length raw)))"

section \<open>The client\<close>

definition max_events :: nat where "max_events = 10000"
definition initial_tail_bytes :: nat where "initial_tail_bytes = 262144"
definition empty_threshold :: nat where "empty_threshold = 5"

record 'e poller =
  po_base :: "string option"
  po_run :: nat
  po_offset :: nat
  po_events :: "(nat \<times> 'e) list"
  po_seq :: nat
  po_display :: "(nat \<times> 'e) list"
  po_isLive :: bool
  po_hasStream :: "bool option"
  po_empty :: nat
  po_inFlight :: bool
  po_wire :: "(nat \<times> nat \<times> string) list"
  po_all :: "'e list"

definition po_init :: "'e poller" where
  "po_init =
     \<lparr>po_base = None, po_run = 0, po_offset = 0, po_events = [], po_seq = 0, po_display = [], po_isLive = False,
      po_hasStream = None, po_empty = 0, po_inFlight = False, po_wire = [], po_all = []\<rparr>"

definition po_reset :: "'e poller \<Rightarrow> 'e poller" where
  "po_reset p =
     p\<lparr>po_offset := 0, po_events := [], po_seq := 0, po_empty := 0, po_display := [], po_isLive := False,
       po_hasStream := None, po_all := []\<rparr>"

definition poll_url :: "string \<Rightarrow> nat \<Rightarrow> string" where
  "poll_url base offset =
     base @ (if str_includes base ''?'' then ''&'' else ''?'') @ ''offset='' @ string_of_nat offset
     @ (if offset = 0 then ''&tail='' @ string_of_nat initial_tail_bytes else '''')"

definition autopilot_stream_base :: "string option \<Rightarrow> string option" where
  "autopilot_stream_base task =
     (if truthy task then map_option (\<lambda>t. ''/api/autopilot/stream?task='' @ encodeURIComponent t) task else None)"

definition poll :: "'e poller \<Rightarrow> 'e poller" where
  "poll p =
     (if \<not> truthy (po_base p) then p
      else if po_inFlight p then p
      else p\<lparr>po_inFlight := True,
             po_wire := po_wire p @ [(po_run p, po_offset p, poll_url (the (po_base p)) (po_offset p))]\<rparr>)"

text \<open>The base URL changes: the old run is cancelled, the state reset, and the new run polls at once.\<close>

definition set_base :: "string option \<Rightarrow> 'e poller \<Rightarrow> 'e poller" where
  "set_base b p = poll (po_reset (p\<lparr>po_base := b, po_run := Suc (po_run p), po_inFlight := False\<rparr>))"

datatype 'e stream_reply = StreamThrow | StreamHttp nat | StreamData "'e list" nat

definition apply_reply :: "'e stream_reply \<Rightarrow> 'e poller \<Rightarrow> 'e poller" where
  "apply_reply r p =
     (case r of
        StreamThrow \<Rightarrow> p
      | StreamHttp status \<Rightarrow> if status = 404 then p\<lparr>po_hasStream := Some False\<rparr> else p
      | StreamData evs offset \<Rightarrow>
          (let p1 = p\<lparr>po_hasStream := Some True, po_offset := offset, po_all := po_all p @ evs\<rparr>
           in if length evs > 0 then
                (let joined = po_events p1 @ enumerate (po_seq p1) evs;
                     kept = (if length joined > max_events then drop (length joined - max_events) joined else joined)
                 in p1\<lparr>po_empty := 0, po_seq := po_seq p1 + length evs, po_events := kept, po_display := kept,
                       po_isLive := True\<rparr>)
              else
                (let n = po_empty p1 + 1
                 in p1\<lparr>po_empty := n, po_isLive := (if n \<ge> empty_threshold then False else po_isLive p1)\<rparr>)))"

definition poll_reply :: "nat \<Rightarrow> 'e stream_reply \<Rightarrow> 'e poller \<Rightarrow> 'e poller" where
  "poll_reply run r p =
     (if run \<notin> fst ` set (po_wire p) then p
      else (let p1 = p\<lparr>po_wire := filter (\<lambda>w. fst w \<noteq> run) (po_wire p)\<rparr>
            in if run \<noteq> po_run p1 then p1 else (apply_reply r p1)\<lparr>po_inFlight := False\<rparr>))"

datatype 'e poll_event = PeTick | PeReply nat "'e stream_reply" | PeBase "string option"

fun poll_step :: "'e poll_event \<Rightarrow> 'e poller \<Rightarrow> 'e poller" where
  "poll_step PeTick p = poll p"
| "poll_step (PeReply run r) p = poll_reply run r p"
| "poll_step (PeBase b) p = set_base b p"

definition poll_run :: "'e poll_event list \<Rightarrow> 'e poller" where
  "poll_run evs = fold poll_step evs po_init"

section \<open>Invariant of the client\<close>

definition po_inv :: "'e poller \<Rightarrow> bool" where
  "po_inv p \<longleftrightarrow>
     po_events p = drop (length (po_all p) - max_events) (enumerate 0 (po_all p))
   \<and> po_display p = po_events p \<and> po_seq p = length (po_all p)
   \<and> (\<forall>w\<in>set (po_wire p). fst w \<le> po_run p)
   \<and> filter (\<lambda>w. fst w = po_run p) (po_wire p) =
       (if po_inFlight p then [(po_run p, po_offset p, poll_url (the (po_base p)) (po_offset p))] else [])"

lemma po_inv_poll: "po_inv p \<Longrightarrow> po_inv (poll p)"
  by (auto simp: po_inv_def poll_def)

lemma po_inv_base: "po_inv p \<Longrightarrow> po_inv (set_base b p)"
proof -
  assume inv: "po_inv p"
  have "\<forall>w\<in>set (po_wire p). fst w \<noteq> Suc (po_run p)" using inv by (auto simp: po_inv_def)
  then have "filter (\<lambda>w. fst w = Suc (po_run p)) (po_wire p) = []" by (simp add: filter_empty_conv)
  with inv show ?thesis
    unfolding set_base_def by (intro po_inv_poll) (auto simp: po_inv_def po_reset_def)
qed

lemma apply_reply_fields:
  "po_run (apply_reply r p) = po_run p" "po_wire (apply_reply r p) = po_wire p" "po_base (apply_reply r p) = po_base p"
  by (simp_all add: apply_reply_def Let_def split: stream_reply.splits)

lemma enumerate_snoc: "enumerate 0 (xs @ ys) = enumerate 0 xs @ enumerate (length xs) ys"
  by (simp add: enumerate_append_eq)

lemma keep_if: "(if length xs > m then drop (length xs - m) xs else xs) = drop (length xs - m) xs"
  by simp

lemma keep_last:
  "drop (length (drop (length xs - m) xs @ ys) - m) (drop (length xs - m) xs @ ys) =
     drop (length (xs @ ys) - m) (xs @ ys)"
  by (cases "length xs \<le> m") (auto simp: add.commute)

lemma apply_reply_events:
  assumes "po_events p = drop (length (po_all p) - max_events) (enumerate 0 (po_all p))" and "po_seq p = length (po_all p)"
    and "po_display p = po_events p"
  shows "po_events (apply_reply r p) =
      drop (length (po_all (apply_reply r p)) - max_events) (enumerate 0 (po_all (apply_reply r p)))
    \<and> po_display (apply_reply r p) = po_events (apply_reply r p)
    \<and> po_seq (apply_reply r p) = length (po_all (apply_reply r p))"
proof (cases r)
  case (StreamData evs off)
  let ?xs = "enumerate 0 (po_all p)" and ?ys = "enumerate (length (po_all p)) evs"
  show ?thesis
  proof (cases "evs = []")
    case False
    have ev: "po_events (apply_reply r p) = drop (length (po_events p @ ?ys) - max_events) (po_events p @ ?ys)"
      using StreamData False assms(2) unfolding apply_reply_def Let_def keep_if by simp
    moreover have "po_events p = drop (length ?xs - max_events) ?xs" using assms(1) by simp
    ultimately have "po_events (apply_reply r p) = drop (length (?xs @ ?ys) - max_events) (?xs @ ?ys)"
      using keep_last [of ?xs max_events ?ys] by simp
    moreover have "po_display (apply_reply r p) = po_events (apply_reply r p)"
      "po_seq (apply_reply r p) = length (po_all (apply_reply r p))" "po_all (apply_reply r p) = po_all p @ evs"
      using StreamData False assms(2) unfolding apply_reply_def Let_def by simp_all
    ultimately show ?thesis by (simp add: enumerate_snoc)
  next
    case True
    with StreamData assms show ?thesis by (simp add: apply_reply_def Let_def)
  qed
qed (use assms in \<open>simp_all add: apply_reply_def\<close>)

lemma po_inv_reply:
  assumes "po_inv p"
  shows "po_inv (poll_reply run r p)"
proof (cases "run \<in> fst ` set (po_wire p)")
  case True
  let ?p = "p\<lparr>po_wire := filter (\<lambda>w. fst w \<noteq> run) (po_wire p)\<rparr>"
  show ?thesis
  proof (cases "run = po_run p")
    case True
    have "filter (\<lambda>w. fst w = run \<and> fst w \<noteq> run) (po_wire p) = []" by (simp add: filter_empty_conv)
    with assms apply_reply_events [of ?p r] True show ?thesis
      using \<open>run \<in> fst ` set (po_wire p)\<close>
      by (auto simp: po_inv_def poll_reply_def apply_reply_fields Let_def conj_commute)
  next
    case False
    have "filter (\<lambda>w. fst w = po_run p \<and> fst w \<noteq> run) (po_wire p) = filter (\<lambda>w. fst w = po_run p) (po_wire p)"
      using False by (intro filter_cong) auto
    with assms False show ?thesis by (auto simp: po_inv_def poll_reply_def Let_def conj_commute)
  qed
qed (use assms in \<open>simp add: poll_reply_def\<close>)

lemma po_inv_run: "po_inv (poll_run evs)"
proof -
  have "po_inv p \<Longrightarrow> po_inv (fold poll_step evs p)" for p :: "'a poller"
  proof (induction evs arbitrary: p)
    case (Cons e evs)
    then show ?case by (cases e) (simp_all add: po_inv_poll po_inv_reply po_inv_base)
  qed simp
  moreover have "po_inv po_init" by (simp add: po_inv_def po_init_def)
  ultimately show ?thesis by (simp add: poll_run_def)
qed

section \<open>The contract between client and server\<close>

definition ends_nl :: "string \<Rightarrow> bool" where
  "ends_nl f \<longleftrightarrow> f = [] \<or> last f = CHR 0x0A"

text \<open>
  \<open>serve f offset first\<close> is one read of the file \<open>f\<close>; \<open>items\<close> are the records of a text, \<open>window\<close>
  the part of a file an initial read covers.
\<close>

locale tail_server =
  fixes serve :: "string \<Rightarrow> nat \<Rightarrow> bool \<Rightarrow> 'e list \<times> nat"
    and items :: "string \<Rightarrow> 'e list"
    and window :: "string \<Rightarrow> string"
  assumes serve_first: "serve f 0 True = (items (window f), length f)"
    and serve_next: "0 < offset \<Longrightarrow> offset \<le> length f \<Longrightarrow> serve f offset False = (items (drop offset f), length f)"
    and items_append: "ends_nl a \<Longrightarrow> items (a @ b) = items a @ items b"
    and window_suffix: "\<exists>u. f = u @ window f"

definition one_poll :: "(string \<Rightarrow> nat \<Rightarrow> bool \<Rightarrow> 'e list \<times> nat) \<Rightarrow> string \<Rightarrow> 'e poller \<Rightarrow> 'e poller" where
  "one_poll serve f p =
     (case serve f (po_offset p) (po_offset p = 0) of
        (evs, offset) \<Rightarrow> poll_reply (po_run p) (StreamData evs offset) (poll p))"

definition watch :: "(string \<Rightarrow> nat \<Rightarrow> bool \<Rightarrow> 'e list \<times> nat) \<Rightarrow> string \<Rightarrow> string list \<Rightarrow> 'e poller" where
  "watch serve base files = fold (one_poll serve) files (po_init\<lparr>po_base := Some base\<rparr>)"

text \<open>The part of the file a client has been handed after polling the given snapshots.\<close>

definition seen_part :: "(string \<Rightarrow> string) \<Rightarrow> string list \<Rightarrow> string" where
  "seen_part window files =
     (case filter (\<lambda>f. f \<noteq> []) files of
        [] \<Rightarrow> [] | f # _ \<Rightarrow> window f @ drop (length f) (last files))"

definition grows :: "string list \<Rightarrow> bool" where
  "grows files \<longleftrightarrow> sorted_wrt (\<lambda>f g. \<exists>u. g = f @ u) files"

lemma ends_nl_append: "ends_nl a \<Longrightarrow> ends_nl b \<Longrightarrow> ends_nl (a @ b)"
  by (cases "b = []") (simp_all add: ends_nl_def)

lemma ends_nl_drop: "ends_nl f \<Longrightarrow> ends_nl (drop n f)"
  by (cases "n < length f") (auto simp: ends_nl_def last_drop)

lemma grows_last: "grows files \<Longrightarrow> f \<in> set files \<Longrightarrow> \<exists>u. last files = f @ u"
  by (cases files rule: rev_cases) (auto simp: grows_def sorted_wrt_append)

lemma one_poll_all:
  assumes "po_base p = Some base" and "base \<noteq> []" and "\<not> po_inFlight p" and "po_run p \<notin> fst ` set (po_wire p)"
    and "serve f (po_offset p) (po_offset p = 0) = (evs, off)"
  shows "po_all (one_poll serve f p) = po_all p @ evs \<and> po_offset (one_poll serve f p) = off
    \<and> po_base (one_poll serve f p) = Some base \<and> \<not> po_inFlight (one_poll serve f p)
    \<and> po_run (one_poll serve f p) \<notin> fst ` set (po_wire (one_poll serve f p))"
  using assms
  by (auto simp: one_poll_def poll_def poll_reply_def apply_reply_def Let_def truthy_def)

lemma po_inv_one_poll: "po_inv p \<Longrightarrow> po_inv (one_poll serve f p)"
  by (simp add: one_poll_def po_inv_reply po_inv_poll split: prod.split)

lemma po_inv_watch: "po_inv (watch serve base files)"
proof -
  have "po_inv p \<Longrightarrow> po_inv (fold (one_poll serve) files p)" for p :: "'a poller"
    by (induction files arbitrary: p) (simp_all add: po_inv_one_poll)
  moreover have "po_inv (po_init\<lparr>po_base := Some base\<rparr> :: 'a poller)" by (simp add: po_inv_def po_init_def)
  ultimately show ?thesis by (simp add: watch_def)
qed

text \<open>A file that fits into the window from the start is seen completely.\<close>

lemma seen_all:
  assumes "grows files" and "files \<noteq> []" and "\<forall>f\<in>set files. window f = f"
  shows "seen_part window files = last files"
proof (cases "filter (\<lambda>f. f \<noteq> []) files")
  case Nil
  then have "last files = []" using assms(2) last_in_set by (auto simp: filter_empty_conv)
  with Nil show ?thesis by (simp add: seen_part_def)
next
  case (Cons f rest)
  then have f: "f \<in> set files" by (auto simp: filter_eq_Cons_iff)
  with Cons assms(3) grows_last [OF assms(1) f] show ?thesis by (auto simp: seen_part_def)
qed

context tail_server
begin

lemma items_Nil: "items [] = []"
  using items_append [of "[]" "[]"] by (simp add: ends_nl_def)

lemma window_ends_nl: "ends_nl f \<Longrightarrow> ends_nl (window f)"
  using window_suffix [of f] by (metis append_is_Nil_conv ends_nl_def last_append)

lemma watch_state:
  assumes "grows files" and "\<forall>f\<in>set files. ends_nl f" and "base \<noteq> []"
  shows "po_all (watch serve base files) = items (seen_part window files)
    \<and> po_offset (watch serve base files) = (if files = [] then 0 else length (last files))
    \<and> po_base (watch serve base files) = Some base \<and> \<not> po_inFlight (watch serve base files)
    \<and> po_run (watch serve base files) \<notin> fst ` set (po_wire (watch serve base files))"
  using assms(1,2)
proof (induction files rule: rev_induct)
  case Nil
  then show ?case by (simp add: watch_def po_init_def seen_part_def items_Nil)
next
  case (snoc g files)
  let ?p = "watch serve base files"
  have IH: "po_all ?p = items (seen_part window files)"
    "po_offset ?p = (if files = [] then 0 else length (last files))"
    "po_base ?p = Some base" "\<not> po_inFlight ?p" "po_run ?p \<notin> fst ` set (po_wire ?p)"
    using snoc by (auto simp: grows_def sorted_wrt_append)
  have pre: "\<exists>u. g = f @ u" if "f \<in> set files" for f
    using snoc.prems(1) that by (auto simp: grows_def sorted_wrt_append)
  have w: "watch serve base (files @ [g]) = one_poll serve g ?p" by (simp add: watch_def)
  show ?case
  proof (cases "filter (\<lambda>f. f \<noteq> []) files")
    case Nil
    then have off: "po_offset ?p = 0"
      using IH(2) by (auto simp: filter_empty_conv)
    have "seen_part window (files @ [g]) = (if g = [] then [] else window g)" "seen_part window files = []"
      using Nil by (simp_all add: seen_part_def)
    moreover have "window [] = []" using window_suffix [of "[]"] by simp
    ultimately show ?thesis
      using one_poll_all [OF IH(3) assms(3) IH(4,5), of serve g "items (window g)" "length g"] off serve_first [of g] IH(1)
      by (simp add: w items_Nil)
  next
    case (Cons f rest)
    have f: "f \<in> set files" "f \<noteq> []" using Cons by (auto simp: filter_eq_Cons_iff)
    then have ne: "files \<noteq> []" by auto
    let ?l = "last files"
    have l: "\<exists>u. g = ?l @ u" using pre ne by simp
    have fl: "\<exists>u. ?l = f @ u"
      using grows_last [OF _ f(1)] snoc.prems(1) by (simp add: grows_def sorted_wrt_append)
    then have pos: "0 < length ?l" using f(2) by auto
    have off: "po_offset ?p = length ?l" using IH(2) ne by simp
    have sv: "serve g (po_offset ?p) (po_offset ?p = 0) = (items (drop (length ?l) g), length g)"
      using serve_next [of "length ?l" g] l off pos by auto
    have seen: "seen_part window (files @ [g]) = seen_part window files @ drop (length ?l) g"
      using Cons l fl by (auto simp: seen_part_def)
    have "ends_nl (window f)" using window_ends_nl snoc.prems(2) f by simp
    moreover have "ends_nl (drop (length f) ?l)"
      using snoc.prems(2) ne ends_nl_drop by simp
    ultimately have "ends_nl (seen_part window files)"
      using Cons by (simp add: seen_part_def ends_nl_append)
    from items_append [OF this, of "drop (length ?l) g"]
    show ?thesis
      using one_poll_all [OF IH(3) assms(3) IH(4,5), of serve g, OF sv] IH(1) seen by (simp add: w)
  qed
qed

end

section \<open>The server satisfies the contract\<close>

lemma sep_len_le: "sep_len (c # s) \<le> Suc (length s)"
  by (auto simp: sep_len.simps(2) Let_def split: list.splits)

lemma sep_len_nl: "sep_len (c # a @ CHR 0x0A # b) = sep_len (c # a)"
  by (cases a rule: remdups_adj.cases) (auto simp: sep_len.simps(2) Let_def split: list.splits)

lemma py_lines_nonempty [simp]: "py_lines s \<noteq> []"
  by (cases s) (auto simp: Let_def split: list.splits)

lemma py_lines_append: "py_lines (a @ CHR 0x0A # b) = py_lines a @ py_lines b"
proof (induction a rule: py_lines.induct)
  case 1
  then show ?case by (simp add: sep_len.simps(2))
next
  case (2 c s)
  show ?case
  proof (cases "sep_len (c # s) = 0")
    case True
    obtain l ls where "py_lines s = l # ls" by (meson neq_Nil_conv py_lines_nonempty)
    with True 2(1) sep_len_nl [of c s b] show ?thesis by simp
  next
    case False
    have "sep_len (c # s) - 1 \<le> length s" using sep_len_le [of c s] by simp
    then have "drop (sep_len (c # s) - 1) (s @ CHR 0x0A # b) = drop (sep_len (c # s) - 1) s @ CHR 0x0A # b" by simp
    with 2(2) [OF False] False sep_len_nl [of c s b] show ?thesis by simp
  qed
qed

lemma stream_events_Nil [simp]: "stream_events [] = []"
  by (simp add: stream_events_def line_events_def trim_def)

lemma stream_events_append: "ends_nl a \<Longrightarrow> stream_events (a @ b) = stream_events a @ stream_events b"
proof (cases "a = []")
  case False
  assume "ends_nl a"
  with False obtain a' where a: "a = a' @ [CHR 0x0A]" by (metis append_butlast_last_id ends_nl_def)
  have "stream_events (x @ CHR 0x0A # y) = stream_events x @ stream_events y" for x y
    by (simp add: stream_events_def py_lines_append)
  from this [of a' b] this [of a' "[]"] a show ?thesis by simp
qed simp

definition stream_window :: "string \<Rightarrow> string" where
  "stream_window f =
     (if length f > initial_tail_bytes then drop_partial_first_line (drop (length f - initial_tail_bytes) f) else f)"

definition serve_stream :: "string \<Rightarrow> nat \<Rightarrow> bool \<Rightarrow> json list \<times> nat" where
  "serve_stream f offset first = read_stream_incremental f offset (if first then Some initial_tail_bytes else None)"

lemma drop_partial_suffix: "\<exists>u. s = u @ drop_partial_first_line s"
proof (cases "index_of (CHR 0x0A) s")
  case None
  then show ?thesis unfolding drop_partial_first_line_def by (simp del: index_of_None)
next
  case (Some n)
  then have "s = take (Suc n) s @ drop_partial_first_line s" by (simp add: drop_partial_first_line_def)
  then show ?thesis by blast
qed

interpretation stream_server: tail_server serve_stream stream_events stream_window
proof
  fix f a b :: string and offset :: nat
  show "serve_stream f 0 True = (stream_events (stream_window f), length f)"
    by (simp add: serve_stream_def read_stream_incremental_def tail_start_def stream_window_def initial_tail_bytes_def)
  show "0 < offset \<Longrightarrow> offset \<le> length f \<Longrightarrow>
      serve_stream f offset False = (stream_events (drop offset f), length f)"
    by (simp add: serve_stream_def read_stream_incremental_def tail_start_def)
  show "ends_nl a \<Longrightarrow> stream_events (a @ b) = stream_events a @ stream_events b"
    by (rule stream_events_append)
  show "\<exists>u. f = u @ stream_window f"
  proof (cases "length f > initial_tail_bytes")
    case True
    obtain u where "drop (length f - initial_tail_bytes) f = u @ stream_window f"
      using drop_partial_suffix True by (auto simp: stream_window_def)
    then show ?thesis by (metis append.assoc append_take_drop_id)
  qed (simp add: stream_window_def)
qed

section \<open>Properties\<close>

text \<open>
  C9. In any interleaving of timer ticks, replies (also late, failed or cancelled ones) and base URL
  changes: the events shown are the last ten thousand delivered since the last reset, numbered
  consecutively (so row keys are unique and nothing is duplicated or reordered), and at most one
  request of the current run is on the wire, asking for the current offset.
\<close>
theorem stream_client_log:
  "po_display (poll_run evs) =
     drop (length (po_all (poll_run evs)) - 10000) (enumerate 0 (po_all (poll_run evs)))
   \<and> distinct (map fst (po_display (poll_run evs)))
   \<and> length (filter (\<lambda>w. fst w = po_run (poll_run evs)) (po_wire (poll_run evs))) \<le> 1
   \<and> (\<forall>w\<in>set (po_wire (poll_run evs)). fst w = po_run (poll_run evs) \<longrightarrow> fst (snd w) = po_offset (poll_run evs))"
proof -
  let ?p = "poll_run evs"
  have inv: "po_inv ?p" by (rule po_inv_run)
  then have d: "po_display ?p = drop (length (po_all ?p) - 10000) (enumerate 0 (po_all ?p))"
    by (simp add: po_inv_def max_events_def)
  moreover have "distinct (map fst (po_display ?p))"
    unfolding d by (simp only: drop_map [symmetric] map_fst_enumerate distinct_drop distinct_upt)
  moreover have "length (filter (\<lambda>w. fst w = po_run ?p) (po_wire ?p)) \<le> 1"
    using inv by (simp add: po_inv_def)
  moreover have "fst (snd w) = po_offset ?p" if "w \<in> set (po_wire ?p)" "fst w = po_run ?p" for w
  proof -
    have eq: "filter (\<lambda>w. fst w = po_run ?p) (po_wire ?p) =
        (if po_inFlight ?p then [(po_run ?p, po_offset ?p, poll_url (the (po_base ?p)) (po_offset ?p))] else [])"
      using inv by (simp only: po_inv_def)
    have "w \<in> set (filter (\<lambda>w. fst w = po_run ?p) (po_wire ?p))" using that by simp
    then show ?thesis unfolding eq by (auto split: if_splits)
  qed
  ultimately show ?thesis by blast
qed

lemma stream_client_log_witness:
  "po_display (poll_run [PeBase (Some ''/s''), PeTick, PeReply 1 (StreamData [7, 9 :: nat] 20), PeTick]) = [(0, 7), (1, 9)]"
proof -
  let ?p = "poll_run [PeBase (Some ''/s''), PeTick, PeReply 1 (StreamData [7, 9 :: nat] 20), PeTick]"
  have "po_all ?p = [7, 9]"
    by (simp add: poll_run_def set_base_def poll_def po_reset_def po_init_def poll_reply_def apply_reply_def truthy_def Let_def)
  with stream_client_log [of "[PeBase (Some ''/s''), PeTick, PeReply 1 (StreamData [7, 9 :: nat] 20), PeTick]"]
  show ?thesis by simp
qed

text \<open>
  C4. End to end: polling a growing file whose snapshots end at line boundaries, each poll answered before the next, the client is handed
  exactly the events of the file, each once and in order, and shows the last ten thousand of them; of a file that is
  larger than the read window at the first poll, those of the window and of everything appended later. (At a partly written line an
  event is lost, see partial_line_lost.)
\<close>
theorem stream_end_to_end:
  assumes "grows files" and "\<forall>f\<in>set files. ends_nl f" and "base \<noteq> []"
    and "es = stream_events (seen_part stream_window files)"
  shows "po_all (watch serve_stream base files) = es
    \<and> map snd (po_display (watch serve_stream base files)) = drop (length es - 10000) es
    \<and> (files \<noteq> [] \<and> (\<forall>f\<in>set files. length f \<le> initial_tail_bytes) \<longrightarrow> es = stream_events (last files))"
proof -
  have all: "po_all (watch serve_stream base files) = es"
    using stream_server.watch_state [OF assms(1-3)] assms(4) by simp
  then have "map snd (po_display (watch serve_stream base files)) = drop (length es - 10000) es"
    using po_inv_watch [of serve_stream base files] by (simp add: po_inv_def max_events_def drop_map [symmetric])
  moreover have "seen_part stream_window files = last files"
    if "files \<noteq> []" "\<forall>f\<in>set files. length f \<le> initial_tail_bytes"
    using that by (intro seen_all [OF assms(1)]) (auto simp: stream_window_def)
  ultimately show ?thesis using all assms(4) by auto
qed

definition demo_obj :: "string \<Rightarrow> json" where
  "demo_obj ty = JObj [(''type'', JStr ty)]"

definition demo_line :: "string \<Rightarrow> string" where
  "demo_line ty = stringify (demo_obj ty) @ [CHR 0x0A]"

lemma demo_text: "stringify (demo_obj ty) = ''{'' @ quote_str ''type'' @ '':'' @ quote_str ty @ ''}''"
  by (simp add: demo_obj_def)

lemma demo_event:
  "line_events (stringify (demo_obj ty)) = (if ty \<in> set filtered_types then [] else [demo_obj ty])"
proof -
  have "trim (stringify (demo_obj ty)) = stringify (demo_obj ty)"
    by (simp add: demo_text trim_def is_space_def)
  moreover have "json_parse (stringify (demo_obj ty)) = Some (demo_obj ty)"
    by (rule json_parse_stringify) (simp add: demo_obj_def)
  ultimately show ?thesis by (simp add: line_events_def demo_text) (simp add: demo_obj_def)
qed

lemma demo_stream: "py_lines (stringify (demo_obj ty)) = [stringify (demo_obj ty)] \<Longrightarrow>
    stream_events (demo_line ty @ s) = (if ty \<in> set filtered_types then [] else [demo_obj ty]) @ stream_events s"
  using py_lines_append [of "stringify (demo_obj ty)" s]
  by (simp add: stream_events_def demo_line_def demo_event)

lemma stream_end_to_end_witness:
  "po_all (watch serve_stream ''/s'' [demo_line ''phase'', demo_line ''phase'' @ demo_line ''system'' @ demo_line ''user''])
     = [demo_obj ''phase'', demo_obj ''user'']"
proof -
  let ?fs = "[demo_line ''phase'', demo_line ''phase'' @ demo_line ''system'' @ demo_line ''user'']"
  have "grows ?fs" by (simp add: grows_def)
  moreover have "\<forall>f\<in>set ?fs. ends_nl f" by (simp add: ends_nl_def demo_line_def)
  moreover have "\<forall>f\<in>set ?fs. length f \<le> initial_tail_bytes"
    by (simp add: demo_line_def demo_text initial_tail_bytes_def quote_str_def esc_char_def)
  ultimately have "po_all (watch serve_stream ''/s'' ?fs) = stream_events (last ?fs)"
    using stream_end_to_end [of ?fs "''/s''", OF _ _ _ refl] by fastforce
  moreover have "stream_events (demo_line ''phase'' @ demo_line ''system'' @ demo_line ''user'') = [demo_obj ''phase'', demo_obj ''user'']"
  proof -
    have "py_lines (stringify (demo_obj ''phase'')) = [stringify (demo_obj ''phase'')]"
      and "py_lines (stringify (demo_obj ''system'')) = [stringify (demo_obj ''system'')]"
      and "py_lines (stringify (demo_obj ''user'')) = [stringify (demo_obj ''user'')]"
      unfolding demo_text by code_simp+
    then show ?thesis using demo_stream [of "''user''" "[]"] by (simp add: demo_stream filtered_types_def)
  qed
  ultimately show ?thesis by simp
qed

text \<open>
  The line boundary matters: when a poll meets a line that is only partly written, the server
  moves the offset past the fragment, both fragments fail to parse, and the event is never delivered.
\<close>
theorem partial_line_lost:
  assumes "ends_nl a" and "a @ l1 \<noteq> []" and "length (a @ l1) \<le> initial_tail_bytes" and "base \<noteq> []"
    and "py_lines l1 = [l1]" and "line_events l1 = []" and "py_lines l2 = [l2]" and "line_events l2 = []"
    and "py_lines (l1 @ l2) = [l1 @ l2]" and "line_events (l1 @ l2) = [e]"
  shows "po_all (watch serve_stream base [a @ l1, a @ l1 @ l2 @ [CHR 0x0A]]) = stream_events a
    \<and> stream_events (a @ l1 @ l2 @ [CHR 0x0A]) = stream_events a @ [e]"
proof -
  let ?p0 = "po_init\<lparr>po_base := Some base\<rparr> :: json poller"
  have nl: "stream_events (x @ [CHR 0x0A]) = stream_events x" for x
    by (simp add: stream_events_def py_lines_append line_events_def trim_def)
  have one: "stream_events l1 = []" "stream_events l2 = []" "stream_events (l1 @ l2) = [e]"
    using assms by (simp_all add: stream_events_def)
  have s1: "serve_stream (a @ l1) 0 True = (stream_events a, length (a @ l1))"
    using assms(1,3) one by (simp add: stream_server.serve_first stream_window_def stream_events_append)
  have p1: "po_all (one_poll serve_stream (a @ l1) ?p0) = stream_events a
      \<and> po_offset (one_poll serve_stream (a @ l1) ?p0) = length (a @ l1)
      \<and> po_base (one_poll serve_stream (a @ l1) ?p0) = Some base \<and> \<not> po_inFlight (one_poll serve_stream (a @ l1) ?p0)
      \<and> po_run (one_poll serve_stream (a @ l1) ?p0) \<notin> fst ` set (po_wire (one_poll serve_stream (a @ l1) ?p0))"
    using one_poll_all [of ?p0 base serve_stream "a @ l1" "stream_events a" "length (a @ l1)"] assms(4) s1
    by (simp add: po_init_def)
  let ?p1 = "one_poll serve_stream (a @ l1) ?p0"
  have s2: "serve_stream (a @ l1 @ l2 @ [CHR 0x0A]) (po_offset ?p1) (po_offset ?p1 = 0) =
      ([], length (a @ l1 @ l2 @ [CHR 0x0A]))"
    using stream_server.serve_next [of "length (a @ l1)" "a @ l1 @ l2 @ [CHR 0x0A]"] p1 assms(2) one nl [of l2] by auto
  have "po_all (watch serve_stream base [a @ l1, a @ l1 @ l2 @ [CHR 0x0A]]) = stream_events a"
    using one_poll_all [of ?p1 base serve_stream, OF _ assms(4) _ _ s2] p1 by (simp add: watch_def)
  moreover have "stream_events (a @ l1 @ l2 @ [CHR 0x0A]) = stream_events a @ [e]"
    using nl [of "l1 @ l2"] one assms(1) by (simp add: stream_events_append)
  ultimately show ?thesis by simp
qed

lemma partial_line_lost_witness:
  "po_all (watch serve_stream ''/s'' [''{'' @ quote_str ''type'' @ '':'', demo_line ''user'']) = []"
proof -
  let ?l1 = "''{'' @ quote_str ''type'' @ '':''" and ?l2 = "quote_str ''user'' @ ''}''"
  have "ends_nl []" by (simp add: ends_nl_def)
  moreover have "[] @ ?l1 \<noteq> []" "length ([] @ ?l1) \<le> initial_tail_bytes" "''/s'' \<noteq> []"
    by (simp_all add: initial_tail_bytes_def quote_str_def esc_char_def)
  moreover have "py_lines ?l1 = [?l1]" by code_simp
  moreover have "line_events ?l1 = []" by code_simp
  moreover have "py_lines ?l2 = [?l2]" by code_simp
  moreover have "line_events ?l2 = []" by code_simp
  moreover have "py_lines (?l1 @ ?l2) = [?l1 @ ?l2]" by code_simp
  moreover have "line_events (?l1 @ ?l2) = [demo_obj ''user'']"
    using demo_event [of "''user''"] by (simp add: demo_text filtered_types_def)
  ultimately have "po_all (watch serve_stream ''/s'' [[] @ ?l1, [] @ ?l1 @ ?l2 @ [CHR 0x0A]]) = stream_events []"
    using partial_line_lost by blast
  then show ?thesis by (simp add: demo_line_def demo_text)
qed

end
