(* ===== verification/StreamView.thy ===== *)
theory StreamView
  imports Types
begin

text \<open>
  \<open>utils/derivePhaseEvents.ts\<close> and the event logic of \<open>components/autopilot/StreamViewer.tsx\<close>: which
  events of a stream are shown, with which phase status, and how their texts are made.

  Events carry a key (the sequence number of the polling hook). Lengths of cut texts count bytes.
\<close>

section \<open>Effective phase status\<close>

type_synonym 'k keyed = "'k \<times> stream_event"

definition phase_name :: "stream_event \<Rightarrow> string option" where
  "phase_name e = (if e_type e = EPhase then e_phase e else None)"

text \<open>First pass: the latest index of every phase name and of any phase event (0 if there is none).\<close>

definition latestIdxByPhase :: "'k keyed list \<Rightarrow> (string, nat) omap \<times> nat option" where
  "latestIdxByPhase events =
     fold (\<lambda>(i, e) (m, l). case phase_name (snd e) of Some p \<Rightarrow> (om_set p i m, Some i) | None \<Rightarrow> (m, l))
       (enumerate 0 events) ([], None)"

definition running_or_unknown :: "stream_event \<Rightarrow> bool" where
  "running_or_unknown e \<longleftrightarrow> e_status e = None \<or> e_status e = Some ''running''"

definition complete :: "'k keyed \<Rightarrow> 'k keyed" where
  "complete e = (fst e, (snd e)\<lparr>e_status := Some ''completed''\<rparr>)"

definition derive_one :: "(string, nat) omap \<Rightarrow> nat option \<Rightarrow> nat \<times> 'k keyed \<Rightarrow> 'k keyed list" where
  "derive_one latest lastIdx = (\<lambda>(i, e).
     case phase_name (snd e) of
       None \<Rightarrow> [e]
     | Some p \<Rightarrow>
         if om_get latest p \<noteq> Some i then []
         else if running_or_unknown (snd e) \<and> (case lastIdx of Some l \<Rightarrow> i < l | None \<Rightarrow> False) then [complete e]
         else [e])"

definition derivePhaseEvents :: "'k keyed list \<Rightarrow> 'k keyed list" where
  "derivePhaseEvents events =
     (case latestIdxByPhase events of
        (latest, lastIdx) \<Rightarrow> concat (map (derive_one latest lastIdx) (enumerate 0 events)))"

section \<open>A one-pass reference\<close>

definition phases :: "'k keyed list \<Rightarrow> string list" where
  "phases es = List.map_filter (\<lambda>e. phase_name (snd e)) es"

fun derive_ref :: "'k keyed list \<Rightarrow> 'k keyed list" where
  "derive_ref [] = []"
| "derive_ref (e # es) =
     (case phase_name (snd e) of
        None \<Rightarrow> e # derive_ref es
      | Some p \<Rightarrow>
          if p \<in> set (phases es) then derive_ref es
          else (if running_or_unknown (snd e) \<and> phases es \<noteq> [] then complete e else e) # derive_ref es)"

fun last_pos :: "string \<Rightarrow> 'k keyed list \<Rightarrow> nat option" where
  "last_pos p [] = None"
| "last_pos p (e # es) =
     (case last_pos p es of
        Some j \<Rightarrow> Some (Suc j)
      | None \<Rightarrow> if phase_name (snd e) = Some p then Some 0 else None)"

fun last_phase :: "'k keyed list \<Rightarrow> nat option" where
  "last_phase [] = None"
| "last_phase (e # es) =
     (case last_phase es of
        Some j \<Rightarrow> Some (Suc j)
      | None \<Rightarrow> if phase_name (snd e) = None then None else Some 0)"

lemma phases_simps [simp]:
  "phases [] = []"
  "phases (e # es) = (case phase_name (snd e) of None \<Rightarrow> phases es | Some p \<Rightarrow> p # phases es)"
  by (simp_all add: phases_def map_filter_simps split: option.splits)

lemma last_pos_None: "last_pos p es = None \<longleftrightarrow> p \<notin> set (phases es)"
  by (induction es) (auto split: option.splits)

lemma last_phase_None: "last_phase es = None \<longleftrightarrow> phases es = []"
  by (induction es) (auto split: option.splits)

lemma latest_fold:
  "fold (\<lambda>(i, e) (m, l). case phase_name (snd e) of Some p \<Rightarrow> (om_set p i m, Some i) | None \<Rightarrow> (m, l))
     (enumerate n es) (m, l) = (m', l') \<Longrightarrow>
   om_get m' p = (case last_pos p es of Some j \<Rightarrow> Some (n + j) | None \<Rightarrow> om_get m p)
   \<and> l' = (case last_phase es of Some j \<Rightarrow> Some (n + j) | None \<Rightarrow> l)"
proof (induction es arbitrary: n m l)
  case (Cons e es)
  show ?case
  proof (cases "phase_name (snd e)")
    case None
    with Cons.IH [of "Suc n" m l] Cons.prems show ?thesis by (auto split: option.splits)
  next
    case (Some q)
    with Cons.IH [of "Suc n" "om_set q n m" "Some n"] Cons.prems show ?thesis by (auto split: option.splits)
  qed
qed simp

lemma derive_suffix:
  assumes "\<And>p. p \<in> set (phases es) \<Longrightarrow> om_get m p = map_option ((+) n) (last_pos p es)"
    and "phases es \<noteq> [] \<Longrightarrow> l = map_option ((+) n) (last_phase es)"
  shows "concat (map (derive_one m l) (enumerate n es)) = derive_ref es"
  using assms
proof (induction es arbitrary: n)
  case (Cons e es)
  have IH: "concat (map (derive_one m l) (enumerate (Suc n) es)) = derive_ref es"
  proof (rule Cons.IH)
    show "om_get m p = map_option ((+) (Suc n)) (last_pos p es)" if pin: "p \<in> set (phases es)" for p
    proof -
      obtain j where "last_pos p es = Some j" using pin last_pos_None [of p es] by (cases "last_pos p es") auto
      with Cons.prems(1) [of p] pin show ?thesis by (auto split: option.splits)
    qed
    show "l = map_option ((+) (Suc n)) (last_phase es)" if ne: "phases es \<noteq> []"
    proof -
      obtain j where "last_phase es = Some j" using ne last_phase_None [of es] by (cases "last_phase es") auto
      with Cons.prems(2) ne show ?thesis by (auto split: option.splits)
    qed
  qed
  show ?case
  proof (cases "phase_name (snd e)")
    case None
    with IH show ?thesis by (simp add: derive_one_def)
  next
    case (Some p)
    have pos: "om_get m p = map_option ((+) n) (last_pos p (e # es))" using Cons.prems(1) [of p] Some by simp
    have last: "l = map_option ((+) n) (last_phase (e # es))" using Cons.prems(2) Some by simp
    show ?thesis
    proof (cases "p \<in> set (phases es)")
      case True
      then obtain j where "last_pos p es = Some j" using last_pos_None [of p es] by (cases "last_pos p es") auto
      with IH Some True pos show ?thesis by (simp add: derive_one_def)
    next
      case False
      then have lp: "last_pos p es = None" by (simp add: last_pos_None)
      have "(case l of Some l \<Rightarrow> n < l | None \<Rightarrow> False) \<longleftrightarrow> phases es \<noteq> []"
      proof (cases "last_phase es")
        case None
        with last Some show ?thesis using last_phase_None [of es] by simp
      next
        case (Some j)
        with last show ?thesis using last_phase_None [of es] by simp
      qed
      with IH Some False pos lp show ?thesis by (simp add: derive_one_def)
    qed
  qed
qed simp

lemma derive_is_ref: "derivePhaseEvents es = derive_ref es"
proof -
  obtain m l where ml: "latestIdxByPhase es = (m, l)" by (cases "latestIdxByPhase es") auto
  have f: "om_get m p = (case last_pos p es of Some j \<Rightarrow> Some j | None \<Rightarrow> None)
      \<and> l = (case last_phase es of Some j \<Rightarrow> Some j | None \<Rightarrow> None)" for p
    using latest_fold [of 0 es "[]" None m l p] ml by (simp add: latestIdxByPhase_def split: option.splits)
  have "concat (map (derive_one m l) (enumerate 0 es)) = derive_ref es"
    by (rule derive_suffix) (use f in \<open>auto split: option.splits\<close>)
  with ml show ?thesis by (simp add: derivePhaseEvents_def)
qed

lemma complete_simps [simp]:
  "phase_name (snd (complete e)) = phase_name (snd e)" "fst (complete e) = fst e"
  "\<not> running_or_unknown (snd (complete e))"
  by (simp_all add: complete_def phase_name_def running_or_unknown_def)


lemma set_phases_derive [simp]: "set (phases (derive_ref es)) = set (phases es)"
  by (induction es) (auto split: option.splits)

lemma phases_derive_empty [simp]: "phases (derive_ref es) = [] \<longleftrightarrow> phases es = []"
  by (metis set_empty set_phases_derive)

lemma distinct_phases_derive: "distinct (phases (derive_ref es))"
  by (induction es) (auto split: option.splits)

lemma derive_ref_idem: "derive_ref (derive_ref es) = derive_ref es"
  by (induction es) (auto split: option.splits)

lemma derive_others: "filter (\<lambda>e. phase_name (snd e) = None) (derive_ref es) = filter (\<lambda>e. phase_name (snd e) = None) es"
  by (induction es) (auto split: option.splits)

lemma derive_from: "e \<in> set (derive_ref es) \<Longrightarrow>
    e \<in> set es \<or> (\<exists>e'\<in>set es. e = complete e' \<and> running_or_unknown (snd e'))"
  by (induction es) (auto split: option.splits if_splits)

text \<open>The position of the only phase that may still show as running: the last one.\<close>

lemma derive_running: "derive_ref es = xs @ e # ys \<Longrightarrow> phase_name (snd e) = Some p \<Longrightarrow>
    running_or_unknown (snd e) \<Longrightarrow> phases ys = []"
proof (induction es arbitrary: xs)
  case (Cons a es)
  show ?case
  proof (cases "phase_name (snd a)")
    case None
    with Cons show ?thesis by (cases xs) auto
  next
    case (Some q)
    show ?thesis
    proof (cases "q \<in> set (phases es)")
      case True
      with Cons Some show ?thesis by auto
    next
      case False
      let ?b = "if running_or_unknown (snd a) \<and> phases es \<noteq> [] then complete a else a"
      have d: "?b # derive_ref es = xs @ e # ys" using Cons.prems(1) Some False by simp
      show ?thesis
      proof (cases xs)
        case Nil
        with d have "e = ?b" "ys = derive_ref es" by auto
        with Cons.prems(3) show ?thesis by (auto split: if_splits)
      next
        case (Cons x xs')
        with d have "derive_ref es = xs' @ e # ys" by simp
        from Cons.IH [OF this Cons.prems(2,3)] show ?thesis .
      qed
    qed
  qed
qed simp

section \<open>Filters of the viewer\<close>

datatype event_filter = FText | FTool | FResult | FPhase | FOrchestrator

definition has_block :: "content_block_type \<Rightarrow> stream_content_block list \<Rightarrow> bool" where
  "has_block ty bs \<longleftrightarrow> list_ex (\<lambda>b. b_type b = ty) bs"

definition getEventFilter :: "stream_event \<Rightarrow> event_filter option" where
  "getEventFilter e =
     (if e_type e = EPhase then Some FPhase
      else if e_type e = EOrchestrator then Some FOrchestrator
      else if e_type e = EResult then Some FResult
      else if e_type e = EAssistant then
        (case e_message e of
           Some bs \<Rightarrow> if has_block BToolUse bs then Some FTool else if has_block BText bs then Some FText else None
         | None \<Rightarrow> None)
      else if e_type e = EUser then Some FTool
      else None)"

definition filter_order :: "event_filter list" where
  "filter_order = [FPhase, FOrchestrator, FText, FResult, FTool]"

fun filter_label :: "event_filter \<Rightarrow> string" where
  "filter_label FPhase = ''Phases''"
| "filter_label FText = ''Narrative''"
| "filter_label FTool = ''Tool calls''"
| "filter_label FResult = ''Results''"
| "filter_label FOrchestrator = ''Pipeline''"

definition hidden_init :: "event_filter list" where "hidden_init = [FTool]"

definition toggleFilter :: "event_filter \<Rightarrow> event_filter list \<Rightarrow> event_filter list" where
  "toggleFilter f hidden = oset_toggle f hidden"

definition filteredEvents :: "event_filter list \<Rightarrow> 'k keyed list \<Rightarrow> 'k keyed list" where
  "filteredEvents hidden events =
     filter (\<lambda>e. case getEventFilter (snd e) of None \<Rightarrow> True | Some f \<Rightarrow> f \<notin> set hidden) (derivePhaseEvents events)"

section \<open>Texts\<close>

datatype wf_phase_status = WpsCompleted | WpsFault | WpsRunning

definition phaseStatusToWf :: "string option \<Rightarrow> wf_phase_status" where
  "phaseStatusToWf st =
     (if st = Some ''completed'' then WpsCompleted else if st = Some ''failed'' then WpsFault else WpsRunning)"

text \<open>\<open>js_string v\<close> is \<open>String(v)\<close> on JSON values.\<close>

fun js_string :: "json \<Rightarrow> string" where
  "js_string (JStr s) = s"
| "js_string (JBool b) = (if b then ''true'' else ''false'')"
| "js_string (JNum r) = string_of_rat r"
| "js_string JNull = ''null''"
| "js_string (JArr vs) = join_with '','' (map (\<lambda>v. if v = JNull then '''' else js_string v) vs)"
| "js_string (JObj ms) = ''[object Object]''"

definition non_null :: "json \<Rightarrow> string \<Rightarrow> json option" where
  "non_null obj k = (case jfield obj k of Some JNull \<Rightarrow> None | v \<Rightarrow> v)"

definition getToolCallDescription :: "json option \<Rightarrow> string option" where
  "getToolCallDescription inp =
     (case inp of
        None \<Rightarrow> None
      | Some obj \<Rightarrow>
          (case non_null obj ''command'' of Some v \<Rightarrow> Some (take 140 (js_string v))
           | None \<Rightarrow>
          (case non_null obj ''file_path'' of Some v \<Rightarrow> Some (js_string v)
           | None \<Rightarrow>
          (case non_null obj ''pattern'' of Some v \<Rightarrow> Some (js_string v)
           | None \<Rightarrow> map_option (\<lambda>v. take 100 (js_string v)) (non_null obj ''prompt'')))))"

definition formatToolResultContent :: "json option \<Rightarrow> string" where
  "formatToolResultContent raw =
     (case raw of
        Some (JStr s) \<Rightarrow> s
      | Some (JArr cs) \<Rightarrow>
          join_with [CHR 0x0A] (map (\<lambda>c. case jfield c ''text'' of Some t \<Rightarrow> js_string t | None \<Rightarrow> js_string c) cs)
      | Some JNull \<Rightarrow> ''''
      | Some v \<Rightarrow> js_string v
      | None \<Rightarrow> '''')"

definition formatAge :: "int option \<Rightarrow> string" where
  "formatAge age =
     (case age of None \<Rightarrow> '''' | Some a \<Rightarrow> if a < 60 then string_of_int a @ ''s'' else string_of_int (a div 60) @ ''m'')"

definition formatDuration :: "rat \<Rightarrow> string" where
  "formatDuration seconds =
     (if seconds \<ge> 60
      then (let m = \<lfloor>seconds / 60\<rfloor> in string_of_int m @ ''m '' @ string_of_rat (seconds - 60 * of_int m) @ ''s'')
      else string_of_rat seconds @ ''s'')"

definition tool_result_preview_lines :: nat where "tool_result_preview_lines = 4"

definition tool_result_display :: "bool \<Rightarrow> string \<Rightarrow> string" where
  "tool_result_display expanded content =
     (let lines = split_on (CHR 0x0A) content
      in if expanded \<or> \<not> length lines > tool_result_preview_lines then content
         else join_with [CHR 0x0A] (take tool_result_preview_lines lines))"

definition result_duration_min :: "rat option \<Rightarrow> string option" where
  "result_duration_min ms = map_option (\<lambda>d. to_fixed 1 (d / 60000)) ms"

text \<open>The rows an event is rendered to: kind and text.\<close>

datatype row = RPhase stream_event | RResult stream_event | ROrchestrator string | RText string
  | RToolCall string "string option" | RToolResult string

definition render_event :: "stream_event \<Rightarrow> row list" where
  "render_event e =
     (if e_type e = EPhase then [RPhase e]
      else if e_type e = EResult then [RResult e]
      else if e_type e = EOrchestrator then (if truthy (e_msg e) then [ROrchestrator (the (e_msg e))] else [])
      else if e_type e = EAssistant then
        (case e_message e of None \<Rightarrow> []
         | Some bs \<Rightarrow> concat (map (\<lambda>b.
             if b_type b = BThinking then []
             else if b_type b = BText \<and> truthy (b_text b) then [RText (the (b_text b))]
             else if b_type b = BToolUse then
               [RToolCall (case b_name b of Some n \<Rightarrow> n | None \<Rightarrow> ''tool'') (getToolCallDescription (b_input b))]
             else []) bs))
      else if e_type e = EUser then
        (case e_message e of None \<Rightarrow> []
         | Some bs \<Rightarrow> concat (map (\<lambda>b.
             if b_type b = BToolResult then [RToolResult (formatToolResultContent (b_content b))] else []) bs))
      else [])"

section \<open>Properties\<close>

text \<open>
  C22. The two-pass phase derivation equals the one-pass reference and is idempotent; it keeps every
  other event in place, shows each phase name once, and no phase but the last one as running.
\<close>
theorem derive_phase_events_correct:
  "derivePhaseEvents es = derive_ref es
   \<and> derivePhaseEvents (derivePhaseEvents es) = derivePhaseEvents es
   \<and> filter (\<lambda>e. phase_name (snd e) = None) (derivePhaseEvents es) = filter (\<lambda>e. phase_name (snd e) = None) es
   \<and> distinct (phases (derivePhaseEvents es)) \<and> set (phases (derivePhaseEvents es)) = set (phases es)
   \<and> (\<forall>xs e ys. derivePhaseEvents es = xs @ e # ys \<and> phase_name (snd e) \<noteq> None \<and> running_or_unknown (snd e)
        \<longrightarrow> phases ys = [])
   \<and> (\<forall>e\<in>set (derivePhaseEvents es). e_status (snd e) = Some ''failed'' \<longrightarrow> e \<in> set es)"
proof -
  have "e \<in> set es" if "e \<in> set (derive_ref es)" "e_status (snd e) = Some ''failed''" for e
    using derive_from [OF that(1)] that(2) by (auto simp: complete_def)
  then show ?thesis
    unfolding derive_is_ref
    using derive_ref_idem [of es] derive_others [of es] distinct_phases_derive [of es] set_phases_derive [of es]
      derive_running [of es] by blast
qed

definition demo_phase :: "nat \<Rightarrow> string \<Rightarrow> string \<Rightarrow> nat keyed" where
  "demo_phase k p st = (k, (mk_event EPhase)\<lparr>e_phase := Some p, e_status := Some st\<rparr>)"

lemma derive_phase_events_correct_witness:
  "phases (derivePhaseEvents [demo_phase 0 ''plan'' ''running'', demo_phase 1 ''build'' ''running'', demo_phase 2 ''plan'' ''failed''])
     = [''build'', ''plan'']
   \<and> phases (tl (derivePhaseEvents [demo_phase 0 ''plan'' ''running'', demo_phase 1 ''build'' ''running''])) = [''build'']"
proof -
  let ?es = "[demo_phase 0 ''plan'' ''running'', demo_phase 1 ''build'' ''running'', demo_phase 2 ''plan'' ''failed'']"
  have "derivePhaseEvents ?es = derive_ref ?es" using derive_phase_events_correct [of ?es] by blast
  moreover have "phases (derive_ref ?es) = [''build'', ''plan'']" by code_simp
  moreover have "phases (tl (derivePhaseEvents [demo_phase 0 ''plan'' ''running'', demo_phase 1 ''build'' ''running''])) = [''build'']"
    by code_simp
  ultimately show ?thesis by simp
qed

text \<open>
  The filter chips: every row a viewer would draw belongs to exactly one chip (messages with both
  text and a tool call count as tool calls), hiding a chip hides exactly its events, and toggling a
  chip twice gives the same selection back.
\<close>
theorem stream_filter_correct:
  "(render_event e \<noteq> [] \<longrightarrow> (\<exists>f\<in>set filter_order. getEventFilter e = Some f))
   \<and> (\<forall>x\<in>set (filteredEvents hidden es). getEventFilter (snd x) \<notin> Some ` set hidden)
   \<and> (\<forall>x\<in>set (derivePhaseEvents es). getEventFilter (snd x) \<notin> Some ` set hidden \<longrightarrow> x \<in> set (filteredEvents hidden es))
   \<and> set (toggleFilter f (toggleFilter f hidden)) = set hidden"
proof -
  have "f \<in> set filter_order" for f by (cases f) (simp_all add: filter_order_def)
  moreover have "render_event e \<noteq> [] \<Longrightarrow> getEventFilter e \<noteq> None"
    by (cases "e_type e") (auto simp: render_event_def getEventFilter_def has_block_def list_ex_iff split: option.splits if_splits)
  moreover have "set (toggleFilter f (toggleFilter f hidden)) = set hidden"
    by (auto simp: toggleFilter_def oset_toggle_def)
  ultimately show ?thesis
    by (auto simp: filteredEvents_def split: option.splits)
qed

lemma stream_filter_correct_witness:
  "getEventFilter ((mk_event EOrchestrator)\<lparr>e_msg := Some ''hi''\<rparr>) \<in> Some ` set filter_order"
proof -
  have "render_event ((mk_event EOrchestrator)\<lparr>e_msg := Some ''hi''\<rparr>) \<noteq> []"
    by (simp add: render_event_def mk_event_def truthy_def)
  with stream_filter_correct [of "(mk_event EOrchestrator)\<lparr>e_msg := Some ''hi''\<rparr>" "[]" "[] :: nat keyed list" FTool]
  show ?thesis by auto
qed

end
