(* ===== verification/LogPolling.thy ===== *)
theory LogPolling
  imports UriCodec Types
begin

text \<open>
  \<open>hooks/useAutopilotLog.ts\<close> (the text log with its byte cap), \<open>hooks/useSessionActivity.ts\<close> and the
  announcement of \<open>components/autopilot/LogViewer.tsx\<close>.

  Unlike the event stream, the log hook has no in-flight guard: every timer tick sends a request, so
  \<open>lg_wire\<close> may hold several. Replies are matched with the request they answer. \<open>lg_all\<close> logs every
  line handed over since the last reset.
\<close>

section \<open>The log hook\<close>

definition max_buffer_bytes :: int where "max_buffer_bytes = 500 * 1024"
definition log_tail_bytes :: nat where "log_tail_bytes = 262144"

record log_state =
  lg_task :: "string option"
  lg_run :: nat
  lg_offset :: nat
  lg_lines :: "(nat \<times> string) list"
  lg_bytes :: int
  lg_counter :: nat
  lg_wire :: "(nat \<times> string) list"
  lg_all :: "string list"

definition log_init :: log_state where
  "log_init =
     \<lparr>lg_task = None, lg_run = 0, lg_offset = 0, lg_lines = [], lg_bytes = 0, lg_counter = 0, lg_wire = [], lg_all = []\<rparr>"

definition log_reset :: "log_state \<Rightarrow> log_state" where
  "log_reset s = s\<lparr>lg_offset := 0, lg_lines := [], lg_bytes := 0, lg_counter := 0, lg_all := []\<rparr>"

definition log_url :: "string \<Rightarrow> nat \<Rightarrow> string" where
  "log_url task offset =
     ''/api/autopilot/log?task='' @ encodeURIComponent task @ ''&offset='' @ string_of_nat offset
     @ (if offset = 0 then ''&tail='' @ string_of_nat log_tail_bytes else '''')"

definition log_poll :: "log_state \<Rightarrow> log_state" where
  "log_poll s =
     (if \<not> truthy (lg_task s) then s
      else s\<lparr>lg_wire := lg_wire s @ [(lg_run s, log_url (the (lg_task s)) (lg_offset s))]\<rparr>)"

definition log_task :: "string option \<Rightarrow> log_state \<Rightarrow> log_state" where
  "log_task t s = log_poll (log_reset (s\<lparr>lg_task := t, lg_run := Suc (lg_run s)\<rparr>))"

definition content_lines :: "string \<Rightarrow> string list" where
  "content_lines content =
     (let raw = split_on (CHR 0x0A) content
      in if length raw > 0 \<and> last raw = '''' then butlast raw else raw)"

text \<open>The trimming loop; a line costs its bytes and the newline.\<close>

fun trim_log :: "int \<Rightarrow> (nat \<times> string) list \<Rightarrow> int \<times> (nat \<times> string) list" where
  "trim_log bytes [] = (bytes, [])"
| "trim_log bytes [l] = (bytes, [l])"
| "trim_log bytes (l # m # ls) =
     (if bytes > max_buffer_bytes then trim_log (bytes - int (length (snd l) + 1)) (m # ls)
      else (bytes, l # m # ls))"

datatype log_reply = LogFailed | LogData string nat

definition log_apply :: "log_reply \<Rightarrow> log_state \<Rightarrow> log_state" where
  "log_apply r s =
     (case r of
        LogFailed \<Rightarrow> s
      | LogData content offset \<Rightarrow>
          if content = '''' then s
          else (let new = content_lines content
                in (case trim_log (lg_bytes s + int (length content)) (lg_lines s @ enumerate (lg_counter s) new) of
                      (bytes, lines) \<Rightarrow>
                        s\<lparr>lg_offset := offset, lg_bytes := bytes, lg_lines := lines,
                          lg_counter := lg_counter s + length new, lg_all := lg_all s @ new\<rparr>)))"

text \<open>The \<open>n\<close>-th outstanding request is answered; an answer to a cancelled run is dropped.\<close>

definition log_answer :: "nat \<Rightarrow> log_reply \<Rightarrow> log_state \<Rightarrow> log_state" where
  "log_answer n r s =
     (if n \<ge> length (lg_wire s) then s
      else (let s1 = s\<lparr>lg_wire := take n (lg_wire s) @ drop (Suc n) (lg_wire s)\<rparr>
            in if fst (lg_wire s ! n) \<noteq> lg_run s1 then s1 else log_apply r s1))"

datatype log_event = LgTick | LgAnswer nat log_reply | LgTask "string option"

fun log_step :: "log_event \<Rightarrow> log_state \<Rightarrow> log_state" where
  "log_step LgTick s = log_poll s"
| "log_step (LgAnswer n r) s = log_answer n r s"
| "log_step (LgTask t) s = log_task t s"

definition log_run :: "log_event list \<Rightarrow> log_state" where
  "log_run evs = fold log_step evs log_init"

section \<open>Invariants\<close>

definition line_cost :: "(nat \<times> string) list \<Rightarrow> int" where
  "line_cost ls = sum_list (map (\<lambda>l. int (length (snd l) + 1)) ls)"

lemma trim_log_suffix: "trim_log b ls = (b', ls') \<Longrightarrow>
    (\<exists>k. ls' = drop k ls \<and> b' = b - line_cost (take k ls)) \<and> (b' \<le> max_buffer_bytes \<or> length ls' \<le> 1)"
proof (induction b ls arbitrary: b' ls' rule: trim_log.induct)
  case (3 b l m ls)
  show ?case
  proof (cases "b > max_buffer_bytes")
    case True
    with 3 obtain k where k: "ls' = drop k (m # ls)" "b' = b - int (length (snd l) + 1) - line_cost (take k (m # ls))"
      "b' \<le> max_buffer_bytes \<or> length ls' \<le> 1" by fastforce
    have "ls' = drop (Suc k) (l # m # ls) \<and> b' = b - line_cost (take (Suc k) (l # m # ls))"
      using k(1,2) by (simp add: line_cost_def)
    with k(3) show ?thesis by blast
  next
    case False
    with 3 have "ls' = drop 0 (l # m # ls) \<and> b' = b - line_cost (take 0 (l # m # ls))" by (simp add: line_cost_def)
    with False 3(2) show ?thesis by (metis not_le_imp_less prod.inject trim_log.simps(3))
  qed
qed (auto simp: line_cost_def intro: exI [of _ 0])

definition log_ok :: "log_state \<Rightarrow> bool" where
  "log_ok s \<longleftrightarrow>
     (\<exists>k. lg_lines s = drop k (enumerate 0 (lg_all s))) \<and> lg_counter s = length (lg_all s)
   \<and> (lg_bytes s \<le> max_buffer_bytes \<or> length (lg_lines s) \<le> 1)"

lemma log_ok_apply:
  assumes "log_ok s"
  shows "log_ok (log_apply r s)"
proof (cases r)
  case (LogData content offset)
  show ?thesis
  proof (cases "content = ''''")
    case False
    let ?new = "content_lines content"
    obtain b ls where t: "trim_log (lg_bytes s + int (length content)) (lg_lines s @ enumerate (lg_counter s) ?new) = (b, ls)"
      by (metis surj_pair)
    obtain k where k: "lg_lines s = drop k (enumerate 0 (lg_all s))" using assms by (auto simp: log_ok_def)
    have "lg_lines s @ enumerate (lg_counter s) ?new = drop (min k (length (lg_all s))) (enumerate 0 (lg_all s @ ?new))"
      using k assms by (cases "k \<le> length (lg_all s)") (simp_all add: log_ok_def enumerate_append_eq)
    with trim_log_suffix [OF t] obtain j where "ls = drop j (drop (min k (length (lg_all s))) (enumerate 0 (lg_all s @ ?new)))"
      and b: "b \<le> max_buffer_bytes \<or> length ls \<le> 1" by auto
    then have "\<exists>j. ls = drop j (enumerate 0 (lg_all s @ ?new))" by (metis drop_drop)
    with b LogData False t assms show ?thesis by (simp add: log_apply_def log_ok_def Let_def)
  qed (use assms LogData in \<open>simp add: log_apply_def\<close>)
qed (use assms in \<open>simp add: log_apply_def\<close>)

lemma log_ok_run: "log_ok (log_run evs)"
proof -
  have step: "log_ok s \<Longrightarrow> log_ok (log_step e s)" for e s
  proof (cases e)
    case (LgAnswer n r)
    assume "log_ok s"
    then have "log_ok (s\<lparr>lg_wire := w\<rparr>)" for w by (simp add: log_ok_def)
    then show ?thesis using \<open>log_ok s\<close> LgAnswer by (auto simp: log_answer_def Let_def intro: log_ok_apply)
  qed (auto simp: log_ok_def log_poll_def log_task_def log_reset_def max_buffer_bytes_def)
  have "log_ok s \<Longrightarrow> log_ok (fold log_step evs s)" for s
    by (induction evs arbitrary: s) (simp_all add: step)
  moreover have "log_ok log_init" by (simp add: log_ok_def log_init_def max_buffer_bytes_def)
  ultimately show ?thesis by (simp add: log_run_def)
qed

text \<open>The byte counter, when every chunk ends with a newline.\<close>

definition whole_lines :: "log_reply \<Rightarrow> bool" where
  "whole_lines r \<longleftrightarrow> (case r of LogData c off \<Rightarrow> c = '''' \<or> last c = CHR 0x0A | LogFailed \<Rightarrow> True)"

lemma split_cost: "sum_list (map (\<lambda>l. length l + 1) (split_on c xs)) = length xs + 1"
proof (induction xs)
  case (Cons x xs)
  obtain y ys where "split_on c xs = y # ys" by (meson neq_Nil_conv split_on_nonempty)
  with Cons show ?case by simp
qed simp

lemma content_cost: "content \<noteq> [] \<Longrightarrow> last content = CHR 0x0A \<Longrightarrow>
    sum_list (map (\<lambda>l. length l + 1) (content_lines content)) = length content"
proof -
  assume "content \<noteq> []" "last content = CHR 0x0A"
  then obtain c' where c: "content = c' @ [CHR 0x0A]" by (metis append_butlast_last_id)
  have "split_on (CHR 0x0A) content = split_on (CHR 0x0A) c' @ [[]]"
    unfolding c using split_on_append [of "CHR 0x0A" "[]" c'] by simp
  then have "content_lines content = split_on (CHR 0x0A) c'" by (simp add: content_lines_def Let_def)
  with split_cost [of "CHR 0x0A" c'] c show ?thesis by simp
qed

lemma line_cost_simps:
  "line_cost (xs @ ys) = line_cost xs + line_cost ys"
  "line_cost (enumerate n ls) = int (sum_list (map (\<lambda>l. length l + 1) ls))"
proof -
  show "line_cost (xs @ ys) = line_cost xs + line_cost ys" by (simp add: line_cost_def)
  show "line_cost (enumerate n ls) = int (sum_list (map (\<lambda>l. length l + 1) ls))"
    by (induction ls arbitrary: n) (simp_all add: line_cost_def)
qed

lemma bytes_apply:
  assumes "lg_bytes s = line_cost (lg_lines s)" and "whole_lines r"
  shows "lg_bytes (log_apply r s) = line_cost (lg_lines (log_apply r s))"
proof (cases r)
  case (LogData content offset)
  show ?thesis
  proof (cases "content = ''''")
    case False
    let ?in = "lg_lines s @ enumerate (lg_counter s) (content_lines content)"
    obtain b ls where t: "trim_log (lg_bytes s + int (length content)) ?in = (b, ls)" by (metis surj_pair)
    have "line_cost ?in = lg_bytes s + int (length content)"
      using assms content_cost [of content] LogData False by (simp add: line_cost_simps whole_lines_def)
    moreover obtain k where "ls = drop k ?in" "b = lg_bytes s + int (length content) - line_cost (take k ?in)"
      using trim_log_suffix [OF t] by blast
    moreover have "line_cost ?in = line_cost (take k ?in) + line_cost (drop k ?in)"
      by (metis append_take_drop_id line_cost_simps(1))
    ultimately have "b = line_cost ls" by simp
    with LogData False t show ?thesis by (simp add: log_apply_def Let_def)
  qed (use assms LogData in \<open>simp add: log_apply_def\<close>)
qed (use assms in \<open>simp add: log_apply_def\<close>)

section \<open>Session activity and announcements\<close>

record tool_activity =
  ta_tool :: string
  ta_summary :: string
  ta_ts :: "string option"
  ta_sid :: string

text \<open>
  \<open>activity_active\<close>: the newest entry is less than 30 s old; \<open>time_of\<close> is the library's date parser
  in milliseconds, \<open>None\<close> when the date is invalid (the comparison with NaN is then false).
\<close>

definition activity_active :: "(string \<Rightarrow> int option) \<Rightarrow> int \<Rightarrow> tool_activity list \<Rightarrow> bool" where
  "activity_active time_of now events =
     (case events of
        [] \<Rightarrow> False
      | e # _ \<Rightarrow>
          if truthy (ta_ts e)
          then (case time_of (the (ta_ts e)) of Some t \<Rightarrow> now - t < 30000 | None \<Rightarrow> False)
          else False)"

definition activity_url :: "string \<Rightarrow> string" where
  "activity_url task = ''/api/autopilot/activity?task='' @ encodeURIComponent task"

definition activity_polls :: "string option \<Rightarrow> bool \<Rightarrow> bool" where
  "activity_polls task enabled \<longleftrightarrow> truthy task \<and> enabled"

section \<open>Properties\<close>

text \<open>
  In every run of the log hook the lines shown are a suffix of the lines received, numbered
  consecutively, and the buffer is within its byte cap or down to a single line.
\<close>
theorem log_buffer_bounded:
  "(\<exists>k. lg_lines (log_run evs) = drop k (enumerate 0 (lg_all (log_run evs))))
   \<and> (lg_bytes (log_run evs) \<le> 512000 \<or> length (lg_lines (log_run evs)) \<le> 1)"
  using log_ok_run [of evs] by (simp add: log_ok_def max_buffer_bytes_def)

text \<open>
  When every chunk ends with a newline, the reported total is exactly the size of the lines kept.
\<close>
theorem log_bytes_exact:
  assumes "\<forall>n r. LgAnswer n r \<in> set evs \<longrightarrow> whole_lines r"
  shows "lg_bytes (log_run evs) = line_cost (lg_lines (log_run evs))"
proof -
  have step: "lg_bytes (log_step e s) = line_cost (lg_lines (log_step e s))"
    if "lg_bytes s = line_cost (lg_lines s)" "\<forall>n r. e = LgAnswer n r \<longrightarrow> whole_lines r" for e s
  proof (cases e)
    case (LgAnswer n r)
    with that bytes_apply [of "s\<lparr>lg_wire := w\<rparr>" r for w] show ?thesis by (simp add: log_answer_def Let_def)
  qed (use that in \<open>auto simp: log_poll_def log_task_def log_reset_def line_cost_def\<close>)
  have "lg_bytes (fold log_step evs s) = line_cost (lg_lines (fold log_step evs s))"
    if "lg_bytes s = line_cost (lg_lines s)" for s
    using assms that by (induction evs arbitrary: s) (auto simp: step)
  then show ?thesis by (simp add: log_run_def log_init_def line_cost_def)
qed

lemma log_bytes_exact_witness:
  "lg_bytes (log_run [LgTask (Some ''t''), LgAnswer 0 (LogData (''ab'' @ [CHR 0x0A]) 3)]) = 3"
proof -
  let ?evs = "[LgTask (Some ''t''), LgAnswer 0 (LogData (''ab'' @ [CHR 0x0A]) 3)]"
  have "\<forall>n r. LgAnswer n r \<in> set ?evs \<longrightarrow> whole_lines r" by (auto simp: whole_lines_def)
  from log_bytes_exact [OF this]
  have "lg_bytes (log_run ?evs) = line_cost (lg_lines (log_run ?evs))" .
  moreover have "lg_lines (log_run ?evs) = [(0, ''ab'')]"
    by (simp add: log_run_def log_init_def log_task_def log_poll_def log_reset_def log_answer_def log_apply_def
        content_lines_def truthy_def Let_def)
  ultimately show ?thesis by (simp add: line_cost_def)
qed

text \<open>
  Two ticks before the first answer ask for the same offset, and both answers are appended: the
  same lines appear twice. (The event stream has a guard against exactly this.)
\<close>
theorem log_overlap_duplicates:
  assumes "task \<noteq> []" and "content \<noteq> []" and "length content \<le> 512000"
    and "s = log_run [LgTask (Some task), LgTick]"
  shows "snd (lg_wire s ! 0) = snd (lg_wire s ! 1)
    \<and> lg_all (log_run [LgTask (Some task), LgTick, LgAnswer 0 (LogData content n), LgAnswer 0 (LogData content n)])
        = content_lines content @ content_lines content"
proof -
  have "truthy (Some task)" using assms(1) by (simp add: truthy_def)
  then show ?thesis
    using assms
    by (simp add: log_run_def log_init_def log_task_def log_poll_def log_reset_def log_answer_def log_apply_def Let_def
        split: prod.splits)
qed

lemma log_overlap_duplicates_witness:
  "lg_all (log_run [LgTask (Some ''t''), LgTick, LgAnswer 0 (LogData ''a'' 1), LgAnswer 0 (LogData ''a'' 1)]) = [''a'', ''a'']"
  using log_overlap_duplicates [of "''t''" "''a''" _ 1, OF _ _ _ refl] by (simp add: content_lines_def)

end
