(* ===== verification/PlanUtils.thy ===== *)
theory PlanUtils
  imports Types
begin

text \<open>
  The pure helpers of \<open>utils/\<close> about plans, phases and tasks: \<open>planVersion.ts\<close>, \<open>planMetrics.ts\<close>,
  \<open>planValidity.ts\<close>, \<open>planLifecycle.ts\<close>, \<open>phaseHelpers.ts\<close>, \<open>effectivePhaseProgress.ts\<close>,
  \<open>featureToPhases.ts\<close>, \<open>featureStatusMapping.ts\<close>, \<open>taskTypeIcons.ts\<close>, \<open>taskTypeToWfPhase.ts\<close> and
  \<open>taskExecutionMode.ts\<close>.
\<close>

section \<open>Versions, counts, validity, lifecycle\<close>

definition isPlan2 :: "json \<Rightarrow> bool" where
  "isPlan2 p = (case jfield p ''schema_version'' of Some (JStr s) \<Rightarrow> starts_with s ''2.'' | _ \<Rightarrow> False)"

definition SCHEMA_MAJOR :: "string option \<Rightarrow> string" where
  "SCHEMA_MAJOR sv = hd (split_on (CHR ''.'') (case sv of Some s \<Rightarrow> s | None \<Rightarrow> ''''))"

definition flattenTasks :: "plan \<Rightarrow> task list" where
  "flattenTasks p = concat (map ph_tasks (pl_phases p))"

fun task_status_text :: "task_status \<Rightarrow> string" where
  "task_status_text TPending = ''pending''"
| "task_status_text TWip = ''wip''"
| "task_status_text TDone = ''done''"
| "task_status_text TFailed = ''failed''"
| "task_status_text TSkipped = ''skipped''"
| "task_status_text TBlocked = ''blocked''"

definition count_task :: "task \<Rightarrow> (string, nat) omap \<Rightarrow> (string, nat) omap" where
  "count_task t counts =
     (let k = task_status_text (t_status t) in om_set k (om_get_or 0 counts k + 1) counts)"

definition computeTaskCounts :: "plan \<Rightarrow> (string, nat) omap" where
  "computeTaskCounts p =
     (let tasks = flattenTasks p
      in fold count_task tasks
           [(''total'', length tasks), (''done'', 0), (''wip'', 0), (''failed'', 0), (''pending'', 0), (''skipped'', 0)])"

definition computeProgressPct :: "plan \<Rightarrow> int" where
  "computeProgressPct p =
     (let tasks = flattenTasks p
      in if length tasks = 0 then 0
         else (let done_n = length (filter (\<lambda>t. t_status t = TDone) tasks)
               in js_round (of_nat done_n / of_nat (length tasks) * 100)))"

record plan_validity =
  pv_valid :: bool
  pv_errors :: "string list"
  pv_totalCount :: nat

definition required_2_0_fields :: "string list" where
  "required_2_0_fields =
     [''schema_version'', ''name'', ''vision'', ''users'', ''success_criteria'', ''scope'',
      ''tech_stack'', ''existing_infrastructure_to_reuse'', ''test_targets'', ''setup'',
      ''kill_criteria'', ''design_notes'', ''risks'', ''phases'']"

definition error_cap :: nat where "error_cap = 5"

text \<open>\<open>falsy v\<close> is \<open>!v\<close> for a property that may be missing.\<close>

definition falsy :: "json option \<Rightarrow> bool" where
  "falsy v = (case v of
       None \<Rightarrow> True | Some JNull \<Rightarrow> True | Some (JBool b) \<Rightarrow> \<not> b | Some (JNum r) \<Rightarrow> r = 0
     | Some (JStr s) \<Rightarrow> s = [] | _ \<Rightarrow> False)"

definition missing_field :: "string \<Rightarrow> string" where
  "missing_field f = ''missing required field '' @ [CHR 0x27] @ f @ [CHR 0x27]"

definition absent :: "json option \<Rightarrow> bool" where
  "absent v \<longleftrightarrow> v = None \<or> v = Some JNull \<or> v = Some (JStr [])"

definition planValidity :: "json option \<Rightarrow> plan_validity" where
  "planValidity plan =
     (case plan of
        None \<Rightarrow> \<lparr>pv_valid = False, pv_errors = [''Plan is missing''], pv_totalCount = 1\<rparr>
      | Some p \<Rightarrow>
          (let errors = (if isPlan2 p
               then map missing_field (filter (\<lambda>f. absent (jfield p f)) required_2_0_fields)
               else (if falsy (jfield p ''name'') then [missing_field ''name''] else [])
                  @ (if falsy (jfield p ''phases'') then [missing_field ''phases''] else []))
           in \<lparr>pv_valid = (length errors = 0), pv_errors = take error_cap errors, pv_totalCount = length errors\<rparr>))"

datatype lifecycle_chip = LcActive | LcOpen | LcDone | LcPending

definition classifyPlan :: "project_summary \<Rightarrow> lifecycle_chip" where
  "classifyPlan p =
     (let lifecycle = (case ps_lifecycle p of Some l \<Rightarrow> l | None \<Rightarrow> ''inprogress'');
          sessions = (case ps_active_session_count p of Some n \<Rightarrow> n | None \<Rightarrow> 0)
      in if lifecycle = ''done'' then LcDone
         else if lifecycle = ''pending'' then LcPending
         else if sessions > 0 then LcActive else LcOpen)"

definition statusPillProps :: "project_summary \<Rightarrow> wf_status option \<times> string" where
  "statusPillProps p =
     (let klass = classifyPlan p
      in if klass = LcActive then (Some WfRunning, ''active'')
         else if klass = LcDone then (Some WfCompleted, ''done'')
         else if klass = LcOpen then (None, ''open'')
         else (None, ''pending''))"

section \<open>Phase status and progress\<close>

definition phaseStatus :: "phase \<Rightarrow> task_status" where
  "phaseStatus p =
     (let t = ph_tasks p
      in if length t = 0 then TPending
         else if list_all (\<lambda>x. t_status x = TDone) t then TDone
         else if list_ex (\<lambda>x. t_status x = TFailed) t then TFailed
         else if list_ex (\<lambda>x. t_status x = TWip) t then TWip
         else TPending)"

record progress =
  pr_done :: nat
  pr_total :: nat
  pr_pct :: int

definition done_count :: "task list \<Rightarrow> nat" where
  "done_count ts = length (filter (\<lambda>t. t_status t = TDone) ts)"

definition phaseProgress :: "phase \<Rightarrow> progress" where
  "phaseProgress p =
     (let total = length (ph_tasks p); d = done_count (ph_tasks p)
      in \<lparr>pr_done = d, pr_total = total,
          pr_pct = (if total > 0 then js_round (of_nat d / of_nat total * 100) else 0)\<rparr>)"

definition clamp01 :: "rat \<Rightarrow> rat" where
  "clamp01 v = (if v < 0 then 0 else if v > 1 then 1 else v)"

definition phaseStatusWithOverlay :: "phase \<Rightarrow> (string, rat) omap \<Rightarrow> task_status" where
  "phaseStatusWithOverlay p overlay =
     (if length overlay = 0 then phaseStatus p
      else (let t = ph_tasks p
            in if length t = 0 then TPending
               else if list_ex (\<lambda>x. t_status x = TFailed) t then TFailed
               else if list_all (\<lambda>x. t_status x = TDone) t then TDone
               else if list_ex (\<lambda>x. t_status x = TWip \<or> om_has overlay (t_id x)) t then TWip
               else TPending))"

definition overlay_share :: "(string, rat) omap \<Rightarrow> task \<Rightarrow> rat" where
  "overlay_share overlay t =
     (if t_status t = TDone \<or> t_status t = TFailed then 0
      else (case om_get overlay (t_id t) of Some ratio \<Rightarrow> clamp01 ratio | None \<Rightarrow> 0))"

definition phaseProgressWithOverlay :: "phase \<Rightarrow> (string, rat) omap \<Rightarrow> progress" where
  "phaseProgressWithOverlay p overlay =
     (let total = length (ph_tasks p)
      in if total = 0 then \<lparr>pr_done = 0, pr_total = 0, pr_pct = 0\<rparr>
         else (let d = done_count (ph_tasks p);
                   fractional = fold (\<lambda>t acc. acc + overlay_share overlay t) (ph_tasks p) (of_nat d)
               in \<lparr>pr_done = d, pr_total = total, pr_pct = js_round (fractional / of_nat total * 100)\<rparr>))"

section \<open>Live phase of a task\<close>

definition canonical_pipeline_phases :: nat where "canonical_pipeline_phases = 9"

record effective_progress =
  ep_phase :: string
  ep_completed :: int
  ep_total :: int
  ep_isActive :: bool

definition completed_phases :: "autopilot_phase list \<Rightarrow> nat" where
  "completed_phases ps = length (filter (\<lambda>p. ap_status p = ACompleted) ps)"

definition phase_total :: "autopilot_session \<Rightarrow> nat" where
  "phase_total s =
     (if as_status s = ASRunning then max (length (as_phases s)) canonical_pipeline_phases
      else length (as_phases s))"

text \<open>\<open>phases[completed - 1]\<close> is undefined for \<open>completed = 0\<close>.\<close>

definition current_phase :: "autopilot_phase list \<Rightarrow> string" where
  "current_phase phases =
     (let c = completed_phases phases
      in case find (\<lambda>p. ap_status p = ARunning) phases of
           Some p \<Rightarrow> ap_name p
         | None \<Rightarrow> if c < length phases then ap_name (phases ! c)
                   else if 0 < c \<and> c - 1 < length phases then ap_name (phases ! (c - 1))
                   else '''')"

definition effectivePhaseProgress ::
    "task \<Rightarrow> session option \<Rightarrow> autopilot_session option \<Rightarrow> effective_progress option" where
  "effectivePhaseProgress t sess auto =
     (case (case auto of Some a \<Rightarrow> if length (as_phases a) > 0 then Some a else None | None \<Rightarrow> None) of
        Some a \<Rightarrow>
          Some \<lparr>ep_phase = current_phase (as_phases a), ep_completed = int (completed_phases (as_phases a)),
                ep_total = int (phase_total a), ep_isActive = (as_status a = ASRunning)\<rparr>
      | None \<Rightarrow>
          (case sess of
             Some s \<Rightarrow>
               (case s_flow s of
                  Some fl \<Rightarrow> Some \<lparr>ep_phase = fl_phase fl, ep_completed = fl_phase_index fl,
                                  ep_total = fl_total_phases fl, ep_isActive = (t_status t = TWip)\<rparr>
                | None \<Rightarrow> None)
           | None \<Rightarrow> None))"

definition autopilotPhaseFraction :: "autopilot_session option \<Rightarrow> rat option" where
  "autopilotPhaseFraction auto =
     (case auto of
        None \<Rightarrow> None
      | Some a \<Rightarrow>
          if length (as_phases a) = 0 then None
          else Some ((of_nat (completed_phases (as_phases a)) + 1 / 2) / of_nat (phase_total a)))"

section \<open>Synthesised phases of a feature\<close>

definition full_slugs :: "string list" where
  "full_slugs = [''ba'', ''plan'', ''team-review'', ''implement'', ''static-analysis'', ''manualtest'',
     ''team-qa'', ''commit'', ''done'']"

definition light_slugs :: "string list" where
  "light_slugs = [''ba'', ''plan'', ''review'', ''implement'', ''static-analysis'', ''qa'', ''commit'', ''done'']"

definition phase_display :: "(string, string) omap" where
  "phase_display =
     [(''ba'', ''BA''), (''plan'', ''Plan''), (''team-review'', ''Team Review''), (''review'', ''Review''),
      (''implement'', ''Implement''), (''static-analysis'', ''Static Analysis''), (''manualtest'', ''Manual Test''),
      (''team-qa'', ''Team QA''), (''qa'', ''QA''), (''commit'', ''Commit''), (''done'', ''Done'')]"

text \<open>\<open>slice0 n xs\<close> is \<open>xs.slice(0, n)\<close>: a negative end counts from the end.\<close>

definition slice0 :: "int \<Rightarrow> 'a list \<Rightarrow> 'a list" where
  "slice0 n xs = take (if n < 0 then length xs - nat (- n) else nat n) xs"

definition slug_phase :: "feature \<Rightarrow> nat \<times> string \<Rightarrow> autopilot_phase" where
  "slug_phase f e =
     (case e of (idx, slug) \<Rightarrow>
        (let isDone = f_status f = FDone; isPastEnd = f_phase_index f \<ge> f_total_phases f
         in \<lparr>ap_name = om_get_or slug phase_display slug,
             ap_status = (if isDone \<or> isPastEnd \<or> int idx < f_phase_index f then ACompleted
                          else if int idx = f_phase_index f then ARunning else APending),
             ap_duration_s = None, ap_cost = None, ap_artifact = None, ap_input_tokens = None,
             ap_cache_creation_tokens = None, ap_cache_read_tokens = None, ap_output_tokens = None,
             ap_num_turns = None, ap_started_at = None, ap_ended_at = None\<rparr>))"

definition featureToPhases :: "feature \<Rightarrow> autopilot_phase list" where
  "featureToPhases f =
     (let slugs = (if f_pipeline_type f = PipelineLight then light_slugs else full_slugs)
      in map (slug_phase f) (enumerate 0 (slice0 (f_total_phases f) slugs)))"

section \<open>Status colours and task kinds\<close>

definition featureToWfStatus :: "string \<Rightarrow> wf_status option" where
  "featureToWfStatus s =
     (if s = ''active'' then Some WfRunning
      else if s = ''waiting'' then Some WfStalled
      else if s = ''stuck'' then Some WfFault
      else if s = ''done'' then Some WfCompleted
      else None)"

datatype rail_tone = ToneInfo | ToneWarning | ToneError | ToneSuccess | ToneMuted

fun toneToWfStatus :: "rail_tone \<Rightarrow> wf_status option" where
  "toneToWfStatus ToneInfo = Some WfRunning"
| "toneToWfStatus ToneWarning = Some WfStalled"
| "toneToWfStatus ToneError = Some WfFault"
| "toneToWfStatus ToneSuccess = Some WfCompleted"
| "toneToWfStatus ToneMuted = None"

definition isAutopilotActive :: "string \<Rightarrow> bool" where
  "isAutopilotActive s \<longleftrightarrow> s = ''running''"

fun taskStatusToWfStatus :: "task_status \<Rightarrow> wf_status option" where
  "taskStatusToWfStatus TWip = Some WfRunning"
| "taskStatusToWfStatus TDone = Some WfCompleted"
| "taskStatusToWfStatus TBlocked = Some WfStalled"
| "taskStatusToWfStatus TFailed = Some WfFault"
| "taskStatusToWfStatus TPending = None"
| "taskStatusToWfStatus TSkipped = None"

fun sessionStatusToWfStatus :: "session_status \<Rightarrow> wf_status option" where
  "sessionStatusToWfStatus SWorking = Some WfRunning"
| "sessionStatusToWfStatus SNeedsInput = Some WfStalled"
| "sessionStatusToWfStatus SCompleted = Some WfCompleted"
| "sessionStatusToWfStatus SStale = Some WfFault"
| "sessionStatusToWfStatus SIdle = None"
| "sessionStatusToWfStatus SStopped = None"
| "sessionStatusToWfStatus SClosed = None"

text \<open>\<open>None\<close> is the extra literal \<open>idle\<close> of the project row.\<close>

fun grinderPassStatusToWfStatus :: "grinder_pass_status option \<Rightarrow> wf_status option" where
  "grinderPassStatusToWfStatus (Some GpInProgress) = Some WfRunning"
| "grinderPassStatusToWfStatus (Some GpCompleted) = Some WfCompleted"
| "grinderPassStatusToWfStatus (Some GpFailed) = Some WfFault"
| "grinderPassStatusToWfStatus (Some GpPending) = None"
| "grinderPassStatusToWfStatus None = None"

fun grinderEventToWfStatus :: "grinder_event_type \<Rightarrow> wf_status option" where
  "grinderEventToWfStatus GeStarted = Some WfRunning"
| "grinderEventToWfStatus GeResumed = Some WfRunning"
| "grinderEventToWfStatus GeCompleted = Some WfCompleted"
| "grinderEventToWfStatus GeFailed = Some WfFault"
| "grinderEventToWfStatus GeAbandoned = Some WfFault"
| "grinderEventToWfStatus GeDeferred = Some WfStalled"
| "grinderEventToWfStatus GePaused = None"

definition autopilotToTone :: "string \<Rightarrow> rail_tone" where
  "autopilotToTone s =
     (if s = ''running'' then ToneInfo
      else if s = ''completed'' then ToneSuccess
      else if s = ''failed'' then ToneError
      else if s = ''stopped'' then ToneMuted
      else ToneInfo)"

fun task_type_text :: "task_type \<Rightarrow> string" where
  "task_type_text TtDevelopment = ''development''"
| "task_type_text TtDocumentation = ''documentation''"
| "task_type_text TtResearch = ''research''"
| "task_type_text TtSetup = ''setup''"
| "task_type_text TtReview = ''review''"
| "task_type_text TtRefactor = ''refactor''"
| "task_type_text TtTesting = ''testing''"
| "task_type_text TtOther = ''other''"

definition task_type_labels :: "(string, string) omap" where
  "task_type_labels =
     [(''development'', ''Development''), (''documentation'', ''Documentation''), (''research'', ''Research''),
      (''setup'', ''Setup''), (''review'', ''Review''), (''refactor'', ''Refactor''), (''testing'', ''Testing''),
      (''other'', ''Other'')]"

definition taskTypeLabel :: "string option \<Rightarrow> string" where
  "taskTypeLabel ty =
     (if \<not> truthy ty then ''Development'' else om_get_or (the ty) task_type_labels (the ty))"

definition task_type_icons :: "(string, string) omap" where
  "task_type_icons =
     [(''development'', ''Build''), (''documentation'', ''DescriptionOutlined''), (''research'', ''Search''),
      (''setup'', ''Settings''), (''review'', ''RateReview''), (''refactor'', ''AutoFixHigh''),
      (''testing'', ''Science''), (''other'', ''MoreHoriz'')]"

definition taskTypeIcon :: "string option \<Rightarrow> string" where
  "taskTypeIcon ty = (if \<not> truthy ty then ''Build'' else om_get_or ''Build'' task_type_icons (the ty))"

definition taskTypeToWfPhase :: "string option \<Rightarrow> wf_phase_type option" where
  "taskTypeToWfPhase ty =
     (if ty = Some ''development'' then Some PtDevelopment
      else if ty = Some ''documentation'' then Some PtDocumentation
      else if ty = Some ''setup'' then Some PtSetup
      else if ty = Some ''review'' then Some PtReview
      else if ty = Some ''refactor'' then Some PtRefactor
      else if ty = Some ''research'' then Some PtReview
      else if ty = Some ''testing'' then Some PtGate
      else None)"

definition taskToWfPhase :: "task \<Rightarrow> wf_phase_type option" where
  "taskToWfPhase t =
     (if t_autopilot t = Some True then Some PtAutopilot
      else taskTypeToWfPhase (map_option task_type_text (t_task_type t)))"

datatype execution_mode = EmAutopilot | EmManual

definition isManualTask :: "task \<Rightarrow> bool" where
  "isManualTask t \<longleftrightarrow> t_autopilot t \<noteq> Some True"

definition taskExecutionMode :: "task \<Rightarrow> execution_mode" where
  "taskExecutionMode t = (if t_autopilot t = Some True then EmAutopilot else EmManual)"

section \<open>Counts\<close>

lemma status_text_inj [simp]: "task_status_text a = task_status_text b \<longleftrightarrow> a = b"
  by (cases a; cases b) simp_all

lemma status_text_total [simp]: "task_status_text s \<noteq> ''total''"
  by (cases s) simp_all

lemma fold_count_task:
  "om_get_or 0 (fold count_task ts m) (task_status_text s)
     = om_get_or 0 m (task_status_text s) + length (filter (\<lambda>t. t_status t = s) ts)
   \<and> om_get_or 0 (fold count_task ts m) ''total'' = om_get_or 0 m ''total''"
proof (induction ts arbitrary: m)
  case (Cons t ts)
  have ne: "''total'' \<noteq> task_status_text (t_status t)"
    using status_text_total [of "t_status t"] by (metis)
  show ?case
    using Cons.IH [of "count_task t m"] ne by (simp add: count_task_def Let_def)
qed simp

lemma counts_status:
  "om_get_or 0 (computeTaskCounts p) (task_status_text s) = length (filter (\<lambda>t. t_status t = s) (flattenTasks p))"
  using fold_count_task [of "flattenTasks p" _ s]
  by (cases s) (simp_all add: computeTaskCounts_def Let_def om_get_or_def)

lemma counts_total: "om_get_or 0 (computeTaskCounts p) ''total'' = length (flattenTasks p)"
  using fold_count_task [of "flattenTasks p"]
  by (simp add: computeTaskCounts_def Let_def om_get_or_def)

lemma pct_bounds:
  assumes "0 \<le> x" "x \<le> of_nat n" "0 < n"
  shows "0 \<le> js_round (x / of_nat n * 100) \<and> js_round (x / of_nat n * 100) \<le> 100"
proof -
  have "0 \<le> x / of_nat n * 100" using assms by simp
  moreover have "x / of_nat n * 100 \<le> 100" using assms by (simp add: divide_le_eq)
  ultimately show ?thesis using js_round_bounds [of 0 "x / of_nat n * 100" 100] by simp
qed

section \<open>Overlay\<close>

lemma done_count_le: "done_count ts \<le> length ts"
  by (simp add: done_count_def)

lemma share_bounds: "0 \<le> overlay_share ov t \<and> overlay_share ov t \<le> (if t_status t = TDone then 0 else 1)"
  by (auto simp: overlay_share_def clamp01_def split: option.splits)

lemma fold_share: "fold (\<lambda>t acc. acc + overlay_share ov t) ts a = a + (\<Sum>t\<leftarrow>ts. overlay_share ov t)"
  by (induction ts arbitrary: a) (simp_all add: algebra_simps)

lemma share_sum_bounds:
  "0 \<le> (\<Sum>t\<leftarrow>ts. overlay_share ov t) \<and>
   of_nat (done_count ts) + (\<Sum>t\<leftarrow>ts. overlay_share ov t) \<le> of_nat (length ts)"
proof (induction ts)
  case (Cons t ts)
  with share_bounds [of ov t] show ?case by (auto simp: done_count_def split: if_splits)
qed (simp add: done_count_def)

lemma share_untouched:
  "(\<And>t. t \<in> set ts \<Longrightarrow> om_get ov (t_id t) = None) \<Longrightarrow> (\<Sum>t\<leftarrow>ts. overlay_share ov t) = 0"
  by (induction ts) (auto simp: overlay_share_def)

lemma status_untouched:
  "(\<And>t. t \<in> set (ph_tasks p) \<Longrightarrow> om_get ov (t_id t) = None) \<Longrightarrow> phaseStatusWithOverlay p ov = phaseStatus p"
  by (cases "ph_tasks p")
    (auto simp: phaseStatusWithOverlay_def phaseStatus_def Let_def list_ex_iff list_all_iff om_has_def)

section \<open>Synthesised phases\<close>

definition reached :: "feature \<Rightarrow> nat" where
  "reached f =
     (let n = length (featureToPhases f)
      in if f_status f = FDone \<or> f_phase_index f \<ge> f_total_phases f then n else min n (nat (f_phase_index f)))"

lemma reached_le: "reached f \<le> length (featureToPhases f)"
  by (simp add: reached_def Let_def)

lemma phase_nth:
  "i < length (featureToPhases f) \<Longrightarrow>
     ap_status (featureToPhases f ! i) =
       (if i < reached f then ACompleted else if int i = f_phase_index f then ARunning else APending)"
  by (auto simp: reached_def Let_def featureToPhases_def slug_phase_def nth_enumerate_eq)

lemma phase_statuses:
  "map ap_status (featureToPhases f) =
     (let n = length (featureToPhases f); c = reached f
      in replicate c ACompleted @
         (if c < n \<and> 0 \<le> f_phase_index f then ARunning # replicate (n - Suc c) APending else replicate (n - c) APending))"
proof (rule nth_equalityI, goal_cases)
  case 1
  show ?case using reached_le [of f] by (auto simp: Let_def)
next
  case (2 i)
  then have i: "i < length (featureToPhases f)" by simp
  have idx: "reached f < length (featureToPhases f) \<Longrightarrow> 0 \<le> f_phase_index f \<Longrightarrow> int (reached f) = f_phase_index f"
    and neg: "reached f < length (featureToPhases f) \<Longrightarrow> f_phase_index f < 0 \<Longrightarrow> reached f = 0"
    by (auto simp: reached_def Let_def split: if_splits)
  show ?case
  proof (cases "reached f < length (featureToPhases f)")
    case True
    then show ?thesis
      using i idx neg by (auto simp: phase_nth Let_def nth_append nth_Cons')
  next
    case False
    with i show ?thesis by (simp add: phase_nth Let_def nth_append)
  qed
qed

lemma completed_by_status: "completed_phases ps = length (filter (\<lambda>s. s = ACompleted) (map ap_status ps))"
  by (simp add: completed_phases_def filter_map comp_def)

lemma completed_reached: "completed_phases (featureToPhases f) = reached f"
  unfolding completed_by_status phase_statuses by (simp add: Let_def)

lemma find_nth_first:
  "i < length xs \<Longrightarrow> P (xs ! i) \<Longrightarrow> (\<And>j. j < i \<Longrightarrow> \<not> P (xs ! j)) \<Longrightarrow> find P xs = Some (xs ! i)"
  by (auto simp: find_Some_iff)

lemma current_reached:
  assumes "featureToPhases f \<noteq> []"
  shows "current_phase (featureToPhases f) = ap_name (featureToPhases f ! min (reached f) (length (featureToPhases f) - 1))"
proof -
  let ?ps = "featureToPhases f"
  have n: "0 < length ?ps" using assms by simp
  show ?thesis
  proof (cases "reached f < length ?ps \<and> 0 \<le> f_phase_index f")
    case True
    then have "ap_status (?ps ! reached f) = ARunning"
      using phase_nth [of "reached f" f] by (auto simp: reached_def Let_def split: if_splits)
    moreover have "\<And>j. j < reached f \<Longrightarrow> ap_status (?ps ! j) \<noteq> ARunning"
      using True by (simp add: phase_nth)
    ultimately have "find (\<lambda>p. ap_status p = ARunning) ?ps = Some (?ps ! reached f)"
      using True by (intro find_nth_first) auto
    with True show ?thesis by (simp add: current_phase_def Let_def min_def) linarith
  next
    case False
    have "ap_status (?ps ! j) \<noteq> ARunning" if "j < length ?ps" for j
      using False that by (auto simp: phase_nth reached_def Let_def split: if_splits)
    then have "find (\<lambda>p. ap_status p = ARunning) ?ps = None"
      by (auto simp: find_None_iff in_set_conv_nth)
    then show ?thesis
      using n reached_le [of f] by (auto simp: current_phase_def completed_reached Let_def min_def)
  qed
qed

section \<open>Properties\<close>

text \<open>
  The counts of a plan are the numbers of its tasks in each status, and its progress is the rounded
  share of tasks done, between 0 and 100.
\<close>
theorem plan_counts_correct:
  "om_get_or 0 (computeTaskCounts p) ''total'' = length (flattenTasks p) \<and>
   om_get_or 0 (computeTaskCounts p) (task_status_text s) = length (filter (\<lambda>t. t_status t = s) (flattenTasks p)) \<and>
   (\<Sum>s\<leftarrow>[TPending, TWip, TDone, TFailed, TSkipped, TBlocked]. om_get_or 0 (computeTaskCounts p) (task_status_text s))
     = om_get_or 0 (computeTaskCounts p) ''total'' \<and>
   computeProgressPct p =
     (if flattenTasks p = [] then 0
      else js_round (of_nat (om_get_or 0 (computeTaskCounts p) ''done'')
                       / of_nat (om_get_or 0 (computeTaskCounts p) ''total'') * 100)) \<and>
   0 \<le> computeProgressPct p \<and> computeProgressPct p \<le> 100"
proof (intro conjI)
  have d: "om_get_or 0 (computeTaskCounts p) ''done'' = length (filter (\<lambda>t. t_status t = TDone) (flattenTasks p))"
    using counts_status [of p TDone] by simp
  have all: "(\<Sum>s\<leftarrow>[TPending, TWip, TDone, TFailed, TSkipped, TBlocked]. length (filter (\<lambda>t. t_status t = s) ts)) = length ts" for ts
  proof (induction ts)
    case (Cons t ts)
    then show ?case by (cases "t_status t") simp_all
  qed simp
  show "(\<Sum>s\<leftarrow>[TPending, TWip, TDone, TFailed, TSkipped, TBlocked]. om_get_or 0 (computeTaskCounts p) (task_status_text s))
     = om_get_or 0 (computeTaskCounts p) ''total''"
    unfolding counts_status counts_total by (rule all)
  show "computeProgressPct p =
     (if flattenTasks p = [] then 0
      else js_round (of_nat (om_get_or 0 (computeTaskCounts p) ''done'')
                       / of_nat (om_get_or 0 (computeTaskCounts p) ''total'') * 100))"
    by (simp add: computeProgressPct_def d counts_total Let_def)
  show "0 \<le> computeProgressPct p" "computeProgressPct p \<le> 100"
    using pct_bounds [of "of_nat (length (filter (\<lambda>t. t_status t = TDone) (flattenTasks p)))" "length (flattenTasks p)"]
    by (auto simp: computeProgressPct_def Let_def)
qed (rule counts_total, rule counts_status)

text \<open>
  Live progress never takes anything back: it keeps the counts, lies between the plain percentage and
  100, turns a phase's status only from pending to in progress, and equals the plain figures when no task
  of the phase is running.
\<close>
theorem overlay_progress:
  "pr_done (phaseProgressWithOverlay p ov) = pr_done (phaseProgress p) \<and>
   pr_total (phaseProgressWithOverlay p ov) = pr_total (phaseProgress p) \<and>
   0 \<le> pr_pct (phaseProgress p) \<and>
   pr_pct (phaseProgress p) \<le> pr_pct (phaseProgressWithOverlay p ov) \<and>
   pr_pct (phaseProgressWithOverlay p ov) \<le> 100 \<and>
   (phaseStatusWithOverlay p ov = phaseStatus p \<or>
    phaseStatus p = TPending \<and> phaseStatusWithOverlay p ov = TWip) \<and>
   ((\<forall>t\<in>set (ph_tasks p). om_get ov (t_id t) = None) \<longrightarrow>
      phaseProgressWithOverlay p ov = phaseProgress p \<and> phaseStatusWithOverlay p ov = phaseStatus p)"
proof (cases "ph_tasks p = []")
  case True
  then show ?thesis
    by (simp add: phaseProgressWithOverlay_def phaseProgress_def phaseStatusWithOverlay_def phaseStatus_def done_count_def)
next
  case False
  let ?ts = "ph_tasks p" and ?n = "length (ph_tasks p)"
  let ?d = "of_nat (done_count ?ts) :: rat" and ?s = "\<Sum>t\<leftarrow>?ts. overlay_share ov t"
  have n: "0 < ?n" using False by simp
  have live: "phaseProgressWithOverlay p ov = \<lparr>pr_done = done_count ?ts, pr_total = ?n, pr_pct = js_round ((?d + ?s) / of_nat ?n * 100)\<rparr>"
    and plain: "phaseProgress p = \<lparr>pr_done = done_count ?ts, pr_total = ?n, pr_pct = js_round (?d / of_nat ?n * 100)\<rparr>"
    using False by (simp_all add: phaseProgressWithOverlay_def phaseProgress_def Let_def fold_share)
  have b: "0 \<le> ?s" "?d + ?s \<le> of_nat ?n" using share_sum_bounds [of ov ?ts] by simp_all
  have le: "js_round (?d / of_nat ?n * 100) \<le> js_round ((?d + ?s) / of_nat ?n * 100)"
    using b(1) n by (intro js_round_mono) (simp add: divide_right_mono)
  have st: "phaseStatusWithOverlay p ov = phaseStatus p \<or> phaseStatus p = TPending \<and> phaseStatusWithOverlay p ov = TWip"
    using False by (cases ?ts) (auto simp: phaseStatusWithOverlay_def phaseStatus_def Let_def list_ex_iff list_all_iff)
  have same: "phaseProgressWithOverlay p ov = phaseProgress p \<and> phaseStatusWithOverlay p ov = phaseStatus p"
    if free: "\<forall>t\<in>set ?ts. om_get ov (t_id t) = None"
    using free share_untouched [of ?ts ov] status_untouched [of p ov] by (simp add: live plain)
  have lo: "0 \<le> js_round (?d / of_nat ?n * 100)"
    using pct_bounds [of ?d ?n] done_count_le [of ?ts] n by simp
  have hi: "js_round ((?d + ?s) / of_nat ?n * 100) \<le> 100"
    using pct_bounds [of "?d + ?s" ?n] b n by simp
  show ?thesis using lo le hi st same by (simp add: live plain)
qed

text \<open>
  The phases made up for a feature are a completed prefix, the phase it is in, and pending ones; read
  back through the live-progress helper they give the feature's own position.
\<close>
theorem feature_phases_roundtrip:
  assumes "featureToPhases f \<noteq> []" and "as_phases a = featureToPhases f"
  shows "map ap_status (featureToPhases f) =
      (let n = length (featureToPhases f); c = reached f
       in replicate c ACompleted @
          (if c < n \<and> 0 \<le> f_phase_index f then ARunning # replicate (n - Suc c) APending else replicate (n - c) APending)) \<and>
    effectivePhaseProgress t sess (Some a) =
      Some \<lparr>ep_phase = ap_name (featureToPhases f ! min (reached f) (length (featureToPhases f) - 1)),
            ep_completed = int (reached f),
            ep_total = (if as_status a = ASRunning then 9 else int (length (featureToPhases f))),
            ep_isActive = (as_status a = ASRunning)\<rparr> \<and>
    (f_status f = FActive \<and> 0 \<le> f_phase_index f \<and> f_phase_index f < int (length (featureToPhases f)) \<and>
     int (length (featureToPhases f)) = f_total_phases f \<longrightarrow> int (reached f) = f_phase_index f)"
proof -
  have le9: "length (featureToPhases f) \<le> 9"
    by (auto simp: featureToPhases_def slice0_def full_slugs_def light_slugs_def Let_def)
  have "(if as_status a = ASRunning then 9 else int (length (featureToPhases f))) = int (phase_total a)"
    using le9 assms(2) by (simp add: phase_total_def canonical_pipeline_phases_def)
  moreover have "effectivePhaseProgress t sess (Some a) =
      Some \<lparr>ep_phase = current_phase (featureToPhases f), ep_completed = int (reached f),
            ep_total = int (phase_total a), ep_isActive = (as_status a = ASRunning)\<rparr>"
    using assms by (simp add: effectivePhaseProgress_def completed_reached)
  ultimately show ?thesis
    using phase_statuses [of f] current_reached [OF assms(1)]
    by (auto simp: reached_def Let_def split: if_splits)
qed

section \<open>Witnesses\<close>

definition demo_feature :: feature where
  "demo_feature =
     \<lparr>f_name = ''a'', f_project = ''p'', f_project_root = ''/p'', f_phase = ''plan'', f_phase_index = 1,
      f_total_phases = 3, f_pipeline_type = PipelineFull, f_artifacts = [], f_sessions = [], f_status = FPaused,
      f_stuck_info = None, f_last_activity = None, f_is_autopilot = False, f_lifecycle = None, f_done_at = None,
      f_plan_dir = None, f_plan_task_id = None, f_plan_task_name = None, f_plan_task_estimate_hours = None\<rparr>"

definition demo_session :: "autopilot_phase list \<Rightarrow> autopilot_session" where
  "demo_session ps =
     \<lparr>as_task = ''a'', as_project = None, as_branch = None, as_status = ASRunning, as_phases = ps,
      as_elapsed_s = 0, as_cost = None, as_log_path = None, as_stream_path = None\<rparr>"

lemma demo_phases: "map ap_name (featureToPhases demo_feature) = [''BA'', ''Plan'', ''Team Review'']"
  by code_simp

lemma demo_reached: "reached demo_feature = 1"
  by code_simp

lemma overlay_progress_witness:
  "phaseProgressWithOverlay (mk_phase ''p'' ''P'' [mk_task ''a'' ''A'' TPending]) [(''b'', 1 / 2)]
     = phaseProgress (mk_phase ''p'' ''P'' [mk_task ''a'' ''A'' TPending])"
  using overlay_progress [of "mk_phase ''p'' ''P'' [mk_task ''a'' ''A'' TPending]" "[(''b'', 1 / 2)]"]
  by (simp add: mk_phase_def mk_task_def)

lemma feature_phases_roundtrip_witness:
  "effectivePhaseProgress (mk_task ''a'' ''A'' TPending) None (Some (demo_session (featureToPhases demo_feature)))
     = Some \<lparr>ep_phase = ''Plan'', ep_completed = 1, ep_total = 9, ep_isActive = True\<rparr>"
proof -
  have len: "length (featureToPhases demo_feature) = 3"
    using demo_phases by (metis length_map list.size(3) list.size(4) numeral_3_eq_3 One_nat_def Suc_eq_plus1)
  then have ne: "featureToPhases demo_feature \<noteq> []" by auto
  have "ap_name (featureToPhases demo_feature ! 1) = map ap_name (featureToPhases demo_feature) ! 1"
    using len by simp
  then have nm: "ap_name (featureToPhases demo_feature ! 1) = ''Plan''"
    by (simp add: demo_phases)
  show ?thesis
    using feature_phases_roundtrip [OF ne, of "demo_session (featureToPhases demo_feature)"
        "mk_task ''a'' ''A'' TPending" None] nm
    by (simp add: demo_session_def demo_reached len)
qed

end
