(* ===== verification/PathUtils.thy ===== *)
theory PathUtils
  imports UriCodec Types
begin

text \<open>
  The helpers of \<open>utils/\<close> that turn paths, references and times into texts: \<open>chainId.ts\<close>, \<open>focusUri.ts\<close>,
  \<open>artifactRefs.ts\<close>, \<open>whereSummary.ts\<close> and \<open>time.ts\<close>.
\<close>

section \<open>Chain identifiers\<close>

definition plan_prefix :: string where "plan_prefix = ''INPROGRESS_Plan_''"

definition strip_slashes :: "string \<Rightarrow> string" where
  "strip_slashes s = rev (dropWhile (\<lambda>c. c = CHR ''/'') (rev s))"

definition planDirToChainId :: "string \<Rightarrow> string" where
  "planDirToChainId planDir =
     (let trimmed = strip_slashes planDir; base = last (split_on (CHR ''/'') trimmed)
      in if starts_with base plan_prefix then drop (length plan_prefix) base else base)"

section \<open>Focus and launch\<close>

definition buildFocusUri :: "string \<Rightarrow> string option" where
  "buildFocusUri p =
     (if p = [] then None
      else if str_includes p ''..'' then None
      else if \<not> starts_with p ''/'' then None
      else Some (''vscode://file'' @ p))"

definition buildLaunchCommand :: "string \<Rightarrow> string \<Rightarrow> string option \<Rightarrow> string option" where
  "buildLaunchCommand projectPath taskId pipeline =
     (if projectPath = [] \<or> taskId = [] then None
      else if str_includes projectPath ''..'' \<or> \<not> starts_with projectPath ''/'' then None
      else (let pipelineFlag = (if pipeline = Some ''light'' then '' --pipeline light'' else '''')
            in Some (''cd '' @ [CHR 0x22] @ projectPath @ [CHR 0x22] @
                     '' && bash ~/.claude/tools/autopilot.sh --full'' @ pipelineFlag @ '' '' @ taskId)))"

section \<open>Artifact references\<close>

datatype resolution = Resolved string | Unresolved string

definition joinPath :: "string \<Rightarrow> string \<Rightarrow> string" where
  "joinPath base rel =
     (if starts_with rel ''/'' then rel
      else if base = [] then rel
      else strip_slashes base @ ''/'' @ rel)"

definition project_root :: "string option \<Rightarrow> string \<Rightarrow> string" where
  "project_root planDir path = (if truthy planDir then joinPath (the planDir) path else path)"

definition squote :: "string \<Rightarrow> string" where
  "squote s = [CHR 0x27] @ s @ [CHR 0x27]"

definition resolveArtifactRef :: "string \<Rightarrow> plan \<Rightarrow> string option \<Rightarrow> string \<Rightarrow> resolution" where
  "resolveArtifactRef v p planDir taskId =
     (if v = [] then Unresolved ''Empty artifact reference''
      else (case index_of (CHR '':'') v of
          Some (Suc i) \<Rightarrow>
            (let projectId = take (Suc i) v; relPath = drop (Suc (Suc i)) v
             in case find (\<lambda>t. tt_id t = projectId) (case pl_test_targets p of Some ts \<Rightarrow> ts | None \<Rightarrow> []) of
                  None \<Rightarrow> Unresolved (''Unknown project '' @ squote projectId)
                | Some target \<Rightarrow>
                    (let root = project_root planDir (tt_path target)
                     in if list_ex (\<lambda>seg. seg = ''..'') (split_on (CHR ''/'') root)
                        then Unresolved ''Unsafe project path in test_targets''
                        else Resolved (''/api/plan/artifact?cwd='' @ encodeURIComponent root @
                               ''&task='' @ encodeURIComponent taskId @ ''&file='' @ encodeURIComponent relPath)))
        | _ \<Rightarrow>
            if \<not> truthy planDir then Unresolved ''No plan directory available''
            else Resolved (''/api/plan/artifact?plan_dir='' @ encodeURIComponent (the planDir) @
                   ''&file='' @ encodeURIComponent v)))"

definition whereSummary :: "where_block option \<Rightarrow> string option" where
  "whereSummary w =
     (case w of
        None \<Rightarrow> None
      | Some b \<Rightarrow>
          (let len = (\<lambda>xs. case xs of Some l \<Rightarrow> length l | None \<Rightarrow> 0);
               m = len (w_modify b); c = len (w_create b); d = len (w_delete b)
           in if m = 0 \<and> c = 0 \<and> d = 0 then None
              else Some (join_with ('' '' @ mdot @ '' '')
                ((if m > 0 then [''modify '' @ string_of_nat m] else []) @
                 (if c > 0 then [''create '' @ string_of_nat c] else []) @
                 (if d > 0 then [''delete '' @ string_of_nat d] else [])))))"

section \<open>Times\<close>

definition duration_text :: "rat \<Rightarrow> string" where
  "duration_text s =
     (if s < 60 then ''< 1 min''
      else if s < 3600 then string_of_int (js_round (s / 60)) @ '' min''
      else (let h = \<lfloor>s / 3600\<rfloor>; m = js_round ((s - of_int h * 3600) / 60)
            in if m > 0 then string_of_int h @ ''h '' @ string_of_int m @ ''m'' else string_of_int h @ ''h''))"

definition formatBlockedDuration :: "rat \<Rightarrow> string" where
  "formatBlockedDuration s =
     (if s < 60 then string_of_rat s @ ''s''
      else if s < 3600 then ''~'' @ string_of_int (js_round (s / 60)) @ '' min''
      else ''~'' @ to_fixed 1 (s / 3600) @ '' hr'')"

text \<open>
  \<open>parse_date\<close> is \<open>new Date(s).getTime()\<close>, \<open>None\<close> for NaN; every comparison with NaN is false.
\<close>

definition relativeTime :: "(string \<Rightarrow> int option) \<Rightarrow> int \<Rightarrow> string \<Rightarrow> string" where
  "relativeTime parse_date now isoDate =
     (if isoDate = [] then ''''
      else (case parse_date isoDate of
          None \<Rightarrow> ''NaNd ago''
        | Some date \<Rightarrow>
            (let diffMs = now - date
             in if diffMs < 0 then ''just now''
                else (let seconds = diffMs div 1000; minutes = seconds div 60;
                          hours = minutes div 60; days = hours div 24
                      in if seconds < 60 then string_of_int seconds @ ''s ago''
                         else if minutes < 60 then string_of_int minutes @ ''m ago''
                         else if hours < 24 then string_of_int hours @ ''h ago''
                         else string_of_int days @ ''d ago''))))"

section \<open>Facts about paths\<close>

lemma strip_slashes_replicate [simp]: "strip_slashes (s @ replicate k (CHR ''/'')) = strip_slashes s"
proof -
  have "dropWhile (\<lambda>c. c = CHR ''/'') (replicate k (CHR ''/'') @ xs) = dropWhile (\<lambda>c. c = CHR ''/'') xs" for xs
    by (induction k) simp_all
  then show ?thesis by (simp add: strip_slashes_def)
qed

lemma strip_slashes_id: "s = [] \<or> last s \<noteq> CHR ''/'' \<Longrightarrow> strip_slashes s = s"
proof (cases s rule: rev_cases)
  case (snoc t c)
  moreover assume "s = [] \<or> last s \<noteq> CHR ''/''"
  ultimately show ?thesis by (simp add: strip_slashes_def)
qed (simp add: strip_slashes_def)

lemma strip_slashes_suffix: "\<exists>k. s = strip_slashes s @ replicate k (CHR ''/'')"
proof -
  have "takeWhile (\<lambda>c. c = CHR ''/'') (rev s) = replicate (length (takeWhile (\<lambda>c. c = CHR ''/'') (rev s))) (CHR ''/'')"
    by (metis (full_types) replicate_length_same set_takeWhileD)
  then have "rev (takeWhile (\<lambda>c. c = CHR ''/'') (rev s)) = replicate (length (takeWhile (\<lambda>c. c = CHR ''/'') (rev s))) (CHR ''/'')"
    by (metis rev_replicate)
  moreover have "s = rev (dropWhile (\<lambda>c. c = CHR ''/'') (rev s)) @ rev (takeWhile (\<lambda>c. c = CHR ''/'') (rev s))"
    by (metis rev_append rev_rev_ident takeWhile_dropWhile_id)
  ultimately show ?thesis unfolding strip_slashes_def by metis
qed

lemma utf8_codes_append: "utf8_codes xs \<Longrightarrow> utf8_codes (xs @ ys) \<longleftrightarrow> utf8_codes ys"
  by (induction xs rule: utf8_codes.induct) (auto split: if_splits list.splits)

lemma utf8_append [simp]: "utf8_valid xs \<Longrightarrow> utf8_valid (xs @ ys) \<longleftrightarrow> utf8_valid ys"
  by (simp add: utf8_valid_def utf8_codes_append)

lemma utf8_codes_ascii: "n < 128 \<Longrightarrow> utf8_codes (xs @ [n]) \<longleftrightarrow> utf8_codes xs"
  by (induction xs rule: utf8_codes.induct) (auto simp: cont_byte_def split: if_splits list.splits)

lemma utf8_replicate: "utf8_valid (s @ replicate k (CHR ''/'')) \<longleftrightarrow> utf8_valid s"
proof (induction k)
  case (Suc k)
  have "s @ replicate (Suc k) (CHR ''/'') = (s @ replicate k (CHR ''/'')) @ [CHR ''/'']"
    by (simp add: replicate_append_same)
  then have "utf8_valid (s @ replicate (Suc k) (CHR ''/'')) \<longleftrightarrow> utf8_valid (s @ replicate k (CHR ''/''))"
    using utf8_codes_ascii [of 47 "map of_char (s @ replicate k (CHR ''/''))"] by (simp add: utf8_valid_def)
  with Suc show ?case by simp
qed simp

lemma utf8_strip: "utf8_valid (strip_slashes s) \<longleftrightarrow> utf8_valid s"
  using strip_slashes_suffix [of s] utf8_replicate by metis

lemma utf8_slash [simp]: "utf8_valid (CHR ''/'' # s) \<longleftrightarrow> utf8_valid s"
  by (simp add: utf8_valid_def)

lemma utf8_root: "utf8_valid path \<Longrightarrow> (\<And>d. planDir = Some d \<Longrightarrow> utf8_valid d) \<Longrightarrow> utf8_valid (project_root planDir path)"
  by (cases planDir) (auto simp: project_root_def joinPath_def truthy_def utf8_strip)

lemma last_split: "c \<notin> set ys \<Longrightarrow> last (split_on c (xs @ c # ys)) = ys"
  by (simp add: split_on_append)

lemma js_round_near: "\<bar>of_int (js_round x) - x\<bar> \<le> 1 / 2"
proof -
  have "of_int (js_round x) \<le> x + 1 / 2" "x + 1 / 2 < of_int (js_round x) + 1"
    using floor_correct [of "x + 1 / 2"] by (simp_all add: js_round_def)
  then show ?thesis by linarith
qed

section \<open>Properties\<close>

text \<open>
  The identifier sent for a chain is what the server appended to the prefix, for a bare, relative or
  absolute plan directory, with or without trailing slashes.
\<close>
theorem chain_id_roundtrip:
  assumes "i \<noteq> []" and "CHR ''/'' \<notin> set i"
  shows "planDirToChainId (plan_prefix @ i @ replicate k (CHR ''/'')) = i \<and>
    planDirToChainId (dir @ CHR ''/'' # plan_prefix @ i @ replicate k (CHR ''/'')) = i"
proof -
  have ends: "last (xs @ plan_prefix @ i) \<noteq> CHR ''/''" for xs
    using assms last_in_set [OF assms(1)] by (metis append_is_Nil_conv last_appendR)
  have strip: "strip_slashes (xs @ plan_prefix @ i @ replicate k (CHR ''/'')) = xs @ plan_prefix @ i" for xs
    using strip_slashes_replicate [of "xs @ plan_prefix @ i" k] strip_slashes_id [of "xs @ plan_prefix @ i"] ends
    by simp
  have no: "CHR ''/'' \<notin> set (plan_prefix @ i)" using assms by (simp add: plan_prefix_def)
  have a: "planDirToChainId (plan_prefix @ i @ replicate k (CHR ''/'')) = i"
    using strip [of "[]"] no by (simp add: planDirToChainId_def split_on_not_in Let_def)
  have "last (split_on (CHR ''/'') ((dir @ [CHR ''/'']) @ plan_prefix @ i)) = plan_prefix @ i"
    using last_split [OF no, of dir] by simp
  with strip [of "dir @ [CHR ''/'']"] have "planDirToChainId (dir @ CHR ''/'' # plan_prefix @ i @ replicate k (CHR ''/'')) = i"
    by (simp add: planDirToChainId_def Let_def)
  with a show ?thesis ..
qed

text \<open>
  A reference into a test project resolves only to a project of the plan, and the request carries
  exactly that project's root, without any parent-directory segment, the task and the rest of the reference.
\<close>
theorem artifact_ref_safe:
  assumes "resolveArtifactRef v p planDir taskId = Resolved url"
    and "index_of (CHR '':'') v = Some (Suc i)"
    and "utf8_valid taskId" and "utf8_valid (drop (Suc (Suc i)) v)"
    and "\<And>d. planDir = Some d \<Longrightarrow> utf8_valid d"
    and "\<And>ts t. pl_test_targets p = Some ts \<Longrightarrow> t \<in> set ts \<Longrightarrow> utf8_valid (tt_path t)"
  shows "\<exists>ts t. pl_test_targets p = Some ts \<and> t \<in> set ts \<and> tt_id t @ CHR '':'' # drop (Suc (Suc i)) v = v \<and>
     ''..'' \<notin> set (split_on (CHR ''/'') (project_root planDir (tt_path t))) \<and>
     query_of url = [Some (''cwd'', project_root planDir (tt_path t)), Some (''task'', taskId),
                     Some (''file'', drop (Suc (Suc i)) v)]"
proof -
  let ?ts = "case pl_test_targets p of Some ts \<Rightarrow> ts | None \<Rightarrow> []"
  have "v \<noteq> []" using assms(2) by auto
  then obtain t where f: "find (\<lambda>t. tt_id t = take (Suc i) v) ?ts = Some t"
    and safe: "\<not> list_ex (\<lambda>seg. seg = ''..'') (split_on (CHR ''/'') (project_root planDir (tt_path t)))"
    and url: "url = ''/api/plan/artifact?cwd='' @ encodeURIComponent (project_root planDir (tt_path t)) @
        ''&task='' @ encodeURIComponent taskId @ ''&file='' @ encodeURIComponent (drop (Suc (Suc i)) v)"
    using assms(1,2) by (auto simp: resolveArtifactRef_def Let_def split: option.splits if_splits)
  from f have tin: "t \<in> set ?ts" and tid: "tt_id t = take (Suc i) v"
    unfolding find_Some_iff by (metis nth_mem, metis)
  then obtain ts where ts: "pl_test_targets p = Some ts" "t \<in> set ts" by (cases "pl_test_targets p") auto
  have "v ! Suc i = CHR '':''" "Suc i < length v"
    using assms(2) by (auto dest: index_of_Some)
  then have v: "tt_id t @ CHR '':'' # drop (Suc (Suc i)) v = v"
    using tid by (metis Cons_nth_drop_Suc append_take_drop_id)
  have "query_of (''/api/plan/artifact'' @ CHR ''?'' # query_text
      [(''cwd'', project_root planDir (tt_path t)), (''task'', taskId), (''file'', drop (Suc (Suc i)) v)])
    = map Some [(''cwd'', project_root planDir (tt_path t)), (''task'', taskId), (''file'', drop (Suc (Suc i)) v)]"
    by (rule query_of_build) (use assms utf8_root [of "tt_path t" planDir] ts in auto)
  with url have "query_of url = [Some (''cwd'', project_root planDir (tt_path t)), Some (''task'', taskId),
                     Some (''file'', drop (Suc (Suc i)) v)]"
    by (simp add: query_text_def)
  with ts v safe show ?thesis by (auto simp: list_ex_iff)
qed

text \<open>
  A duration of a minute or more is shown in hours and minutes at most thirty seconds off, but the
  minutes reach 60 when the rest of the last hour rounds up.
\<close>
theorem duration_text_near:
  assumes "60 \<le> s"
  shows "\<exists>h m. h = \<lfloor>s / 3600\<rfloor> \<and> 0 \<le> m \<and> m \<le> 60 \<and> \<bar>of_int (h * 60 + m) * 60 - s\<bar> \<le> 30 \<and>
    (m = 60 \<longleftrightarrow> of_int h * 3600 + 3570 \<le> s) \<and>
    duration_text s =
      (if s < 3600 then string_of_int m @ '' min''
       else if m > 0 then string_of_int h @ ''h '' @ string_of_int m @ ''m'' else string_of_int h @ ''h'')"
proof -
  define h where "h = \<lfloor>s / 3600\<rfloor>"
  define r where "r = s - of_int h * 3600"
  define m where "m = js_round (r / 60)"
  have h: "of_int h \<le> s / 3600" "s / 3600 < of_int h + 1"
    using floor_correct [of "s / 3600"] by (simp_all add: h_def)
  then have r: "0 \<le> r" "r < 3600" by (simp_all add: r_def field_simps)

  have small: "s < 3600 \<Longrightarrow> h = 0" using assms h by (simp add: h_def floor_eq_iff)
  have near: "\<bar>of_int m - r / 60\<bar> \<le> 1 / 2" unfolding m_def by (rule js_round_near)
  have m0: "0 \<le> m \<and> m \<le> 60" unfolding m_def by (rule js_round_bounds) (use r in auto)
  have "m = 60 \<longleftrightarrow> 60 \<le> m" using m0 by auto
  also have "\<dots> \<longleftrightarrow> 60 \<le> r / 60 + 1 / 2" by (simp add: m_def js_round_def le_floor_iff)
  also have "\<dots> \<longleftrightarrow> 3570 \<le> r" by linarith
  also have "\<dots> \<longleftrightarrow> of_int h * 3600 + 3570 \<le> s" unfolding r_def by linarith
  finally have sixty: "m = 60 \<longleftrightarrow> of_int h * 3600 + 3570 \<le> s" .
  have "\<bar>of_int (h * 60 + m) * 60 - s\<bar> \<le> 30" using near by (simp add: r_def abs_le_iff field_simps)
  moreover have "duration_text s =
      (if s < 3600 then string_of_int m @ '' min''
       else if m > 0 then string_of_int h @ ''h '' @ string_of_int m @ ''m'' else string_of_int h @ ''h'')"
    using assms small by (simp add: duration_text_def m_def r_def h_def Let_def)
  ultimately show ?thesis using h_def m0 sixty by blast
qed

section \<open>Witnesses\<close>

lemma chain_id_roundtrip_witness: "planDirToChainId ''/x/docs/INPROGRESS_Plan_ui//'' = ''ui''"
  using chain_id_roundtrip [of "''ui''" 2 "''/x/docs''"] by (simp add: plan_prefix_def numeral_2_eq_2)

definition demo_plan :: plan where
  "demo_plan =
     \<lparr>pl_schema_version = Some ''2.0'', pl_name = ''P'', pl_phases = [],
      pl_test_targets = Some [\<lparr>tt_id = ''web'', tt_path = ''app'', tt_description = None, tt_test_command = None,
        tt_symlink_allowlist = None\<rparr>], pl_deferred = None, pl_rest = JNull\<rparr>"

definition demo_url :: string where
  "demo_url = ''/api/plan/artifact?cwd=%2Fp%2Fapp&task=t1&file=a%20b.md''"

lemma artifact_ref_safe_witness:
  "query_of demo_url = [Some (''cwd'', ''/p/app''), Some (''task'', ''t1''), Some (''file'', ''a b.md'')]"
proof -
  have r: "resolveArtifactRef ''web:a b.md'' demo_plan (Some ''/p/'') ''t1'' = Resolved demo_url" by code_simp
  have i: "index_of (CHR '':'') ''web:a b.md'' = Some (Suc 2)" by simp
  have "utf8_valid ''t1''" "utf8_valid (drop (Suc (Suc 2)) ''web:a b.md'')" by code_simp+
  moreover have "\<And>d. Some ''/p/'' = Some d \<Longrightarrow> utf8_valid d" by (auto simp: utf8_valid_def)
  moreover have "\<And>ts t. pl_test_targets demo_plan = Some ts \<Longrightarrow> t \<in> set ts \<Longrightarrow> utf8_valid (tt_path t)"
    by (auto simp: demo_plan_def utf8_valid_def)
  ultimately obtain ts t where "pl_test_targets demo_plan = Some ts" "t \<in> set ts"
    and "query_of demo_url = [Some (''cwd'', project_root (Some ''/p/'') (tt_path t)), Some (''task'', ''t1''),
                     Some (''file'', drop (Suc (Suc 2)) ''web:a b.md'')]"
    using artifact_ref_safe [OF r i] by blast
  moreover from this have "tt_path t = ''app''" by (auto simp: demo_plan_def)
  moreover have "project_root (Some ''/p/'') ''app'' = ''/p/app''" by code_simp
  ultimately show ?thesis by (simp add: numeral_eq_Suc)
qed

lemma duration_text_near_witness: "duration_text 7199 = ''1h 60m''"
proof -
  obtain h m where hm: "h = \<lfloor>(7199::rat) / 3600\<rfloor>" "m = 60 \<longleftrightarrow> of_int h * 3600 + 3570 \<le> (7199::rat)"
    and t: "duration_text 7199 = (if (7199::rat) < 3600 then string_of_int m @ '' min''
       else if m > 0 then string_of_int h @ ''h '' @ string_of_int m @ ''m'' else string_of_int h @ ''h'')"
    using duration_text_near [of 7199] by auto
  have "h = 1" unfolding hm(1) by (simp add: floor_eq_iff)
  with hm(2) have "m = 60" by simp
  moreover have "string_of_int 1 @ ''h '' @ string_of_int 60 @ ''m'' = ''1h 60m''" by code_simp
  ultimately show ?thesis using t \<open>h = 1\<close> by simp
qed

end
