(* ===== verification/ListViews.thy ===== *)
theory ListViews
  imports PlanUtils FilterState
begin

text \<open>
  The two filtered and sorted lists: the plans of \<open>DashboardShell.tsx\<close> and the features of
  \<open>features/FeatureList.tsx\<close>. \<open>localeCompare\<close> depends on the host's locale data: \<open>loc\<close> and \<open>locb\<close>
  stand for it with the default and with the \<open>base\<close> sensitivity, and properties assume of them the
  comparator laws. Other comparators are shown to obey these laws by interpretations of
  \<open>js_comparator\<close>. Sets of chips are lists, as in \<open>FilterState\<close>.
\<close>

section \<open>Lifecycle chips of plans\<close>

fun plan_group_rank :: "lifecycle_chip \<Rightarrow> nat" where
  "plan_group_rank LcActive = 0"
| "plan_group_rank LcOpen = 1"
| "plan_group_rank LcDone = 2"
| "plan_group_rank LcPending = 3"

fun chip_text :: "lifecycle_chip \<Rightarrow> string" where
  "chip_text LcActive = ''active''"
| "chip_text LcOpen = ''open''"
| "chip_text LcDone = ''done''"
| "chip_text LcPending = ''pending''"

fun plan_chip_label :: "lifecycle_chip \<Rightarrow> string" where
  "plan_chip_label LcActive = ''Active''"
| "plan_chip_label LcOpen = ''Open''"
| "plan_chip_label LcDone = ''Done''"
| "plan_chip_label LcPending = ''Pending''"

definition plan_chip_order :: "lifecycle_chip list" where
  "plan_chip_order = [LcActive, LcOpen, LcDone, LcPending]"

text \<open>Chips are ordered as their groups are.\<close>

lemma rank_inj: "plan_group_rank a = plan_group_rank b \<longleftrightarrow> a = b"
  by (cases a; cases b) simp_all

instantiation lifecycle_chip :: linorder
begin

definition less_eq_lifecycle_chip :: "lifecycle_chip \<Rightarrow> lifecycle_chip \<Rightarrow> bool" where
  "less_eq_lifecycle_chip a b \<longleftrightarrow> plan_group_rank a \<le> plan_group_rank b"

definition less_lifecycle_chip :: "lifecycle_chip \<Rightarrow> lifecycle_chip \<Rightarrow> bool" where
  "less_lifecycle_chip a b \<longleftrightarrow> plan_group_rank a < plan_group_rank b"

instance
  by standard (auto simp: less_eq_lifecycle_chip_def less_lifecycle_chip_def rank_inj)

end

section \<open>Plans\<close>

definition path_segments :: "string \<Rightarrow> string list" where
  "path_segments path = filter (\<lambda>s. s \<noteq> []) (split_on (CHR ''/'') path)"

definition projectBasename :: "project_summary \<Rightarrow> string" where
  "projectBasename p = (let segments = path_segments (ps_path p) in if segments = [] then '''' else last segments)"

definition plan_project_chips :: "(string \<Rightarrow> string \<Rightarrow> int) \<Rightarrow> project_summary list \<Rightarrow> string list" where
  "plan_project_chips loc projects =
     js_sort (\<lambda>a b. loc (to_lower a) (to_lower b))
       (fold (\<lambda>p acc. let b = projectBasename p in if b \<noteq> [] then oset_add b acc else acc) projects [])"


definition plan_projectMatches :: "project_summary \<Rightarrow> string list \<Rightarrow> bool" where
  "plan_projectMatches p projectSet \<longleftrightarrow> length projectSet = 0 \<or> projectBasename p \<in> set projectSet"


text \<open>Newest first, missing last.\<close>

definition recency :: "string option \<Rightarrow> string option \<Rightarrow> rat" where
  "recency a b =
     (if a = None \<and> b = None then 0
      else if a = None then 1
      else if b = None then - 1
      else if str_cmp (the a) (the b) > 0 then - 1
      else if str_cmp (the a) (the b) < 0 then 1
      else 0)"




definition chips_subtitle :: "string \<Rightarrow> ('c \<Rightarrow> string) \<Rightarrow> ('c \<Rightarrow> string) \<Rightarrow> 'c list \<Rightarrow> string list \<Rightarrow> string" where
  "chips_subtitle none text label order chosen =
     (if length chosen = 0 then none
      else (let active = map label (filter (\<lambda>v. text v \<in> set chosen) order);
                missing = map label (filter (\<lambda>v. text v \<notin> set chosen) order);
                head = join_with ''+'' active
            in if length missing = 0 then head @ '' '' @ emdash @ '' try clearing the search''
               else head @ '' '' @ emdash @ '' try adding '' @ join_with '' or '' missing))"

definition plan_empty_subtitle :: "string list \<Rightarrow> string" where
  "plan_empty_subtitle =
     chips_subtitle (''No lifecycle chips selected '' @ emdash @ '' pick at least one'') chip_text plan_chip_label plan_chip_order"

section \<open>Features\<close>

definition max_safe_rank :: int where "max_safe_rank = 9007199254740991"

fun status_rank :: "feature_status \<Rightarrow> int" where
  "status_rank FStuck = 0"
| "status_rank FWaiting = 1"
| "status_rank FActive = 2"
| "status_rank FPaused = 3"
| "status_rank FDone = 4"
| "status_rank (FUnknown s) = max_safe_rank"

definition feature_chip_order :: "string list" where
  "feature_chip_order = [''active'', ''paused'', ''pending'', ''done'']"

definition feature_chip_label :: "string \<Rightarrow> string" where
  "feature_chip_label v =
     om_get_or v [(''active'', ''Active''), (''paused'', ''Paused''), (''pending'', ''Pending''), (''done'', ''Done'')] v"

definition sort_chip_label :: "(string, string) omap" where
  "sort_chip_label =
     [(''urgency-then-completion'', ''Urgency''),
      (''name-asc'', ''Name A'' @ [CHR 0xE2, CHR 0x86, CHR 0x92] @ ''Z''),
      (''last-activity-desc'', ''Recent'')]"

definition feature_lifecycleMatches :: "feature \<Rightarrow> string list \<Rightarrow> bool" where
  "feature_lifecycleMatches f lifecycleSet =
     (let lifecycle = (case f_lifecycle f of Some l \<Rightarrow> l | None \<Rightarrow> ''inprogress'')
      in if lifecycle = ''pending'' then ''pending'' \<in> set lifecycleSet
         else if lifecycle \<noteq> ''inprogress'' then False
         else if f_status f = FPaused then ''paused'' \<in> set lifecycleSet
         else if f_status f = FDone then False
         else ''active'' \<in> set lifecycleSet)"

definition isDoneFeature :: "feature \<Rightarrow> bool" where
  "isDoneFeature f \<longleftrightarrow> f_lifecycle f = Some ''done''"

definition feature_projectMatches :: "feature \<Rightarrow> string list \<Rightarrow> bool" where
  "feature_projectMatches f projectSet \<longleftrightarrow> length projectSet = 0 \<or> f_project f \<in> set projectSet"

definition feature_searchMatches :: "feature \<Rightarrow> string \<Rightarrow> bool" where
  "feature_searchMatches f search \<longleftrightarrow>
     search = '''' \<or>
     str_includes (to_lower (f_name f)) (to_lower search) \<or>
     str_includes (to_lower (f_project f)) (to_lower search)"

definition compareInprogress :: "(string \<Rightarrow> string \<Rightarrow> int) \<Rightarrow> string \<Rightarrow> feature \<Rightarrow> feature \<Rightarrow> rat" where
  "compareInprogress locb sortMode a b =
     (if sortMode = ''name-asc'' then of_int (locb (f_name a) (f_name b))
      else if sortMode = ''last-activity-desc'' then recency (f_last_activity a) (f_last_activity b)
      else of_int (status_rank (f_status a) - status_rank (f_status b)))"

definition non_empty :: "string option \<Rightarrow> string option" where
  "non_empty s = (if s = Some '''' then None else s)"

definition compareDoneByDoneAt :: "feature \<Rightarrow> feature \<Rightarrow> rat" where
  "compareDoneByDoneAt a b = recency (non_empty (f_done_at a)) (non_empty (f_done_at b))"

definition feature_project_chips :: "(string \<Rightarrow> string \<Rightarrow> int) \<Rightarrow> feature list \<Rightarrow> string list" where
  "feature_project_chips loc features =
     js_sort (\<lambda>a b. loc (to_lower a) (to_lower b))
       (fold (\<lambda>f acc. if f_project f \<noteq> [] then oset_add (f_project f) acc else acc) features [])"

definition feature_empty_subtitle :: "string list \<Rightarrow> string" where
  "feature_empty_subtitle = chips_subtitle '''' (\<lambda>v. v) feature_chip_label feature_chip_order"

record feature_layers =
  fl_inprogress :: "feature list"
  fl_done :: "feature list"

definition feature_layers_of ::
    "(string \<Rightarrow> string \<Rightarrow> int) \<Rightarrow> feature list option \<Rightarrow> string list \<Rightarrow> string list \<Rightarrow> string \<Rightarrow> string \<Rightarrow> feature_layers" where
  "feature_layers_of locb features lifecycle project search srt =
     (let source = (case features of Some fs \<Rightarrow> fs | None \<Rightarrow> []);
          filtered = filter (\<lambda>f. feature_searchMatches f search \<and> feature_projectMatches f project) source
      in \<lparr>fl_inprogress = js_sort (compareInprogress locb srt)
            (filter (\<lambda>f. \<not> isDoneFeature f \<and> feature_lifecycleMatches f lifecycle) filtered),
          fl_done = (if ''done'' \<in> set lifecycle
                     then js_sort compareDoneByDoneAt (filter isDoneFeature filtered) else [])\<rparr>)"

text \<open>A click on a lifecycle chip.\<close>

definition click_chip :: "string \<Rightarrow> string list \<Rightarrow> string list" where
  "click_chip v lifecycle = oset_toggle v lifecycle"

section \<open>The comparators are comparators\<close>

lemma js_comparator_map:
  assumes "js_comparator c" shows "js_comparator (\<lambda>a b. of_int (c (f a) (f b)) :: rat)"
proof
  fix a b d
  show "0 < (of_int (c (f a) (f b)) :: rat) \<longleftrightarrow> of_int (c (f b) (f a)) < (0 :: rat)"
    by (simp add: js_comparator.cmp_flip [OF assms, of "f a"])
  show "of_int (c (f a) (f b)) \<le> (0 :: rat) \<Longrightarrow> of_int (c (f b) (f d)) \<le> (0 :: rat) \<Longrightarrow> of_int (c (f a) (f d)) \<le> (0 :: rat)"
    using js_comparator.cmp_trans [OF assms, of "f a" "f b" "f d"] by simp
qed

lemma js_comparator_on: "js_comparator c \<Longrightarrow> js_comparator (\<lambda>a b. c (f a) (f b))"
  by (unfold_locales; rule js_comparator.cmp_flip js_comparator.cmp_trans)

lemma js_comparator_swap:
  assumes "js_comparator c" shows "js_comparator (\<lambda>a b. c b a)"
proof
  fix a b d
  show "0 < c b a \<longleftrightarrow> c a b < 0" by (rule js_comparator.cmp_flip [OF assms])
  show "c b a \<le> 0 \<Longrightarrow> c d b \<le> 0 \<Longrightarrow> c d a \<le> 0" using js_comparator.cmp_trans [OF assms, of d b a] by blast
qed


lemma recency_flip: "0 < recency a b \<longleftrightarrow> recency b a < 0"
  using str_cmp_flip [of "the a" "the b"] by (auto simp: recency_def)

lemma recency_le: "recency a b \<le> 0 \<longleftrightarrow> (case b of None \<Rightarrow> True | Some y \<Rightarrow> a \<noteq> None \<and> str_cmp y (the a) \<le> 0)"
  using str_cmp_flip [of "the a" "the b"] by (cases a; cases b) (auto simp: recency_def)

interpretation newest_first: js_comparator recency
proof
  fix a b c :: "string option"
  show "0 < recency a b \<longleftrightarrow> recency b a < 0" by (rule recency_flip)
  assume "recency a b \<le> 0" "recency b c \<le> 0"
  then show "recency a c \<le> 0"
    using str_cmp_trans by (auto simp: recency_le split: option.splits)
qed

lemma js_comparator_recency: "js_comparator (\<lambda>a b. recency (f a) (f b))"
  by unfold_locales (auto simp: recency_flip intro: newest_first.cmp_trans)


lemma js_comparator_features:
  assumes "js_comparator locb" shows "js_comparator (compareInprogress locb srt)"
proof -
  have "js_comparator (\<lambda>a b. of_int (status_rank (f_status a) - status_rank (f_status b)) :: rat)"
    by unfold_locales auto
  moreover have "compareInprogress locb srt =
      (if srt = ''name-asc'' then (\<lambda>a b. of_int (locb (f_name a) (f_name b)))
       else if srt = ''last-activity-desc'' then (\<lambda>a b. recency (f_last_activity a) (f_last_activity b))
       else (\<lambda>a b. of_int (status_rank (f_status a) - status_rank (f_status b))))"
    by (simp add: compareInprogress_def fun_eq_iff)
  ultimately show ?thesis
    by (simp only: js_comparator_map [OF assms] js_comparator_recency split: if_split) blast
qed

interpretation done_first: js_comparator compareDoneByDoneAt
  unfolding compareDoneByDoneAt_def by (rule js_comparator_recency)

definition ordered_by :: "('a \<Rightarrow> 'a \<Rightarrow> 'n::linordered_idom) \<Rightarrow> 'a list \<Rightarrow> bool" where
  "ordered_by cmp xs = sorted_wrt (\<lambda>a b. cmp a b \<le> 0) xs"


section \<open>Chips\<close>

lemma fold_chips:
  "set (fold (\<lambda>p acc. let b = f p in if b \<noteq> [] then oset_add b acc else acc) ps acc) = (f ` set ps - {[]}) \<union> set acc
   \<and> (distinct acc \<longrightarrow> distinct (fold (\<lambda>p acc. let b = f p in if b \<noteq> [] then oset_add b acc else acc) ps acc))"
proof (induction ps arbitrary: acc)
  case (Cons p ps)
  show ?case
    using Cons.IH [of acc] Cons.IH [of "oset_add (f p) acc"] by (cases "f p = []") (auto simp: Let_def)
qed simp

lemma basename_nonempty: "projectBasename p \<noteq> [] \<longleftrightarrow> path_segments (ps_path p) \<noteq> []"
  using last_in_set [of "path_segments (ps_path p)"] by (auto simp: projectBasename_def path_segments_def Let_def)

section \<open>Properties\<close>


text \<open>
  The project chips are the non-empty base names of the plans, each once, in collation order; every
  chip shows at least one plan, and choosing only names without a chip shows none.
\<close>
theorem plan_chips_correct:
  assumes "js_comparator loc"
  shows "distinct (plan_project_chips loc ps) \<and>
    ordered_by (\<lambda>a b. loc (to_lower a) (to_lower b)) (plan_project_chips loc ps) \<and>
    set (plan_project_chips loc ps) = projectBasename ` set ps - {[]} \<and>
    (\<forall>c\<in>set (plan_project_chips loc ps). \<exists>p\<in>set ps. plan_projectMatches p [c]) \<and>
    (\<forall>sel. sel \<noteq> [] \<and> [] \<notin> set sel \<and> set sel \<inter> set (plan_project_chips loc ps) = {} \<longrightarrow>
       (\<forall>p\<in>set ps. \<not> plan_projectMatches p sel))"
proof -
  let ?cmp = "\<lambda>a b. loc (to_lower a) (to_lower b)"
  have cmp: "js_comparator ?cmp"
    using js_comparator.cmp_flip [OF assms] js_comparator.cmp_trans [OF assms] by unfold_locales blast+
  have set: "set (plan_project_chips loc ps) = projectBasename ` set ps - {[]}"
    and dist: "distinct (plan_project_chips loc ps)"
    using fold_chips [of projectBasename ps "[]"] by (simp_all add: plan_project_chips_def)
  have "ordered_by ?cmp (plan_project_chips loc ps)"
    unfolding plan_project_chips_def ordered_by_def by (rule js_comparator.sorted_js_sort [OF cmp])
  moreover have "\<forall>p\<in>set ps. \<not> plan_projectMatches p sel"
    if "sel \<noteq> []" "[] \<notin> set sel" "set sel \<inter> set (plan_project_chips loc ps) = {}" for sel
    using that set by (auto simp: plan_projectMatches_def)
  moreover have "\<forall>c\<in>set (plan_project_chips loc ps). \<exists>p\<in>set ps. plan_projectMatches p [c]"
    using set by (auto simp: plan_projectMatches_def)
  ultimately show ?thesis using set dist by blast
qed

text \<open>
  The feature list shows every feature in at most one of its two layers: done features, newest first,
  only when the done chip is on, and the others by the lifecycle chips in the order of the chosen
  comparator, under which a status this client does not know comes last. With every chip on and no other
  filter, only features of an unknown lifecycle or in progress with status done are hidden.
\<close>
theorem feature_layers_correct:
  assumes "js_comparator locb" and "distinct fs"
  shows "distinct (fl_inprogress (feature_layers_of locb (Some fs) lc pr q srt) @ fl_done (feature_layers_of locb (Some fs) lc pr q srt)) \<and>
    set (fl_inprogress (feature_layers_of locb (Some fs) lc pr q srt)) = {f \<in> set fs. feature_searchMatches f q \<and> feature_projectMatches f pr \<and>
        \<not> isDoneFeature f \<and> feature_lifecycleMatches f lc} \<and>
    set (fl_done (feature_layers_of locb (Some fs) lc pr q srt)) = (if ''done'' \<in> set lc
       then {f \<in> set fs. feature_searchMatches f q \<and> feature_projectMatches f pr \<and> isDoneFeature f} else {}) \<and>
    ordered_by (compareInprogress locb srt) (fl_inprogress (feature_layers_of locb (Some fs) lc pr q srt)) \<and>
    ordered_by compareDoneByDoneAt (fl_done (feature_layers_of locb (Some fs) lc pr q srt)) \<and>
    (srt = ''urgency-then-completion'' \<longrightarrow>
      sorted_wrt (\<lambda>a b. status_rank (f_status a) \<le> status_rank (f_status b)) (fl_inprogress (feature_layers_of locb (Some fs) lc pr q srt))) \<and>
    (set lc = set feature_chip_order \<and> pr = [] \<and> q = '''' \<longrightarrow>
      (\<forall>f\<in>set fs. f \<notin> set (fl_inprogress (feature_layers_of locb (Some fs) lc pr q srt) @ fl_done (feature_layers_of locb (Some fs) lc pr q srt)) \<longleftrightarrow>
         f_lifecycle f \<notin> {None, Some ''inprogress'', Some ''pending'', Some ''done''} \<or>
         f_lifecycle f \<in> {None, Some ''inprogress''} \<and> f_status f = FDone))"
proof -
  let ?out = "feature_layers_of locb (Some fs) lc pr q srt"
  note cmp = js_comparator_features [OF assms(1), of srt]
  have sI: "set (fl_inprogress ?out) = {f \<in> set fs. feature_searchMatches f q \<and> feature_projectMatches f pr \<and>
        \<not> isDoneFeature f \<and> feature_lifecycleMatches f lc}"
    and sD: "set (fl_done ?out) = (if ''done'' \<in> set lc
       then {f \<in> set fs. feature_searchMatches f q \<and> feature_projectMatches f pr \<and> isDoneFeature f} else {})"
    by (auto simp: feature_layers_of_def Let_def)
  have d: "distinct (fl_inprogress ?out @ fl_done ?out)"
    using assms(2) sI sD by (auto simp: feature_layers_of_def Let_def)
  have oI: "ordered_by (compareInprogress locb srt) (fl_inprogress ?out)"
    using js_comparator.sorted_js_sort [OF cmp] by (simp add: ordered_by_def feature_layers_of_def Let_def)
  have oD: "ordered_by compareDoneByDoneAt (fl_done ?out)"
    using done_first.sorted_js_sort by (simp add: ordered_by_def feature_layers_of_def Let_def)
  have urg: "srt = ''urgency-then-completion'' \<longrightarrow>
      sorted_wrt (\<lambda>a b. status_rank (f_status a) \<le> status_rank (f_status b)) (fl_inprogress ?out)"
    using oI by (auto simp: ordered_by_def compareInprogress_def elim: sorted_wrt_mono_rel [rotated])
  have hid: "\<forall>f\<in>set fs. f \<notin> set (fl_inprogress ?out @ fl_done ?out) \<longleftrightarrow>
         f_lifecycle f \<notin> {None, Some ''inprogress'', Some ''pending'', Some ''done''} \<or>
         f_lifecycle f \<in> {None, Some ''inprogress''} \<and> f_status f = FDone"
    if "set lc = set feature_chip_order" "pr = []" "q = ''''"
    using that unfolding set_append sI sD
    by (auto simp: feature_searchMatches_def feature_projectMatches_def isDoneFeature_def
        feature_lifecycleMatches_def feature_chip_order_def Let_def split: option.splits if_splits)
  show ?thesis using d sI sD oI oD urg hid by blast
qed

section \<open>Witnesses\<close>

definition demo_collate :: "string \<Rightarrow> string \<Rightarrow> int" where
  "demo_collate a b = str_cmp (to_lower a) (to_lower b)"

lemma demo_comparator: "js_comparator demo_collate"
  unfolding demo_collate_def using str_order.cmp_flip str_order.cmp_trans by unfold_locales blast+

definition demo_summary :: "string \<Rightarrow> string \<Rightarrow> string \<Rightarrow> project_summary" where
  "demo_summary n path lc =
     \<lparr>ps_project = n, ps_path = path, ps_phases = 1, ps_progress = 50, ps_has_plan = True, ps_lifecycle = Some lc,
      ps_plan_dir = None, ps_schema_version = None, ps_active_session_count = Some 1, ps_last_activity = None\<rparr>"

definition demo_plans :: "project_summary list" where
  "demo_plans = [demo_summary ''B'' ''/r/Web/'' ''done'', demo_summary ''A'' ''/r/api'' ''inprogress'']"


lemma plan_chips_correct_witness:
  "set (plan_project_chips demo_collate demo_plans) = {''Web'', ''api''}"
  using plan_chips_correct [OF demo_comparator, of demo_plans]
  by (simp add: demo_plans_def demo_summary_def projectBasename_def path_segments_def Let_def)

lemma feature_layers_correct_witness:
  "set (fl_inprogress (feature_layers_of demo_collate (Some [demo_feature]) [''paused''] [] '''' ''name-asc'')) = {demo_feature}"
proof -
  have "set (fl_inprogress (feature_layers_of demo_collate (Some [demo_feature]) [''paused''] [] [] ''name-asc''))
      = {f \<in> set [demo_feature]. feature_searchMatches f [] \<and> feature_projectMatches f [] \<and>
          \<not> isDoneFeature f \<and> feature_lifecycleMatches f [''paused'']}"
    using feature_layers_correct [OF demo_comparator, of "[demo_feature]" "[''paused'']" "[]" "[]" "''name-asc''"]
    by (metis (no_types, lifting) distinct_singleton)
  moreover have "feature_searchMatches demo_feature []" "feature_projectMatches demo_feature []"
    "\<not> isDoneFeature demo_feature" "feature_lifecycleMatches demo_feature [''paused'']" by code_simp+
  ultimately show ?thesis by auto
qed

end
