(* ===== verification/Tabs.thy ===== *)
theory Tabs
  imports Types
begin

text \<open>
  The tabs of \<open>components/DashboardShell.tsx\<close>: their identifiers and labels, how they are restored from
  and written to \<open>localStorage\<close>, and how they are opened, focused and closed. A tab identifier is the
  string the code uses; the stored texts are the arguments of the restoring functions.
\<close>

section \<open>Identifiers\<close>

definition feature_tab_prefix :: string where "feature_tab_prefix = ''feature:''"
definition project_tab_prefix :: string where "project_tab_prefix = ''project:''"

definition isFeatureTab :: "string \<Rightarrow> bool" where
  "isFeatureTab i = starts_with i feature_tab_prefix"

definition featureKeyFromTab :: "string \<Rightarrow> string" where
  "featureKeyFromTab i = drop (length feature_tab_prefix) i"

definition isProjectSubviewTab :: "string \<Rightarrow> bool" where
  "isProjectSubviewTab i = starts_with i project_tab_prefix"

definition project_subview_keys :: "(string, string) omap" where
  "project_subview_keys =
     [(''Vision'', ''vision''), (''Pipeline'', ''pipeline''), (''Deferred Audit'', ''deferred''), (''Deviations'', ''deviations'')]"

definition subviews :: "string list" where
  "subviews = [''vision'', ''pipeline'', ''deferred'', ''deviations'']"

definition parseProjectSubviewTab :: "string \<Rightarrow> (string \<times> string) option" where
  "parseProjectSubviewTab i =
     (if \<not> isProjectSubviewTab i then None
      else (let rest = drop (length project_tab_prefix) i
            in case last_index_of (CHR ''/'') rest of
                 None \<Rightarrow> None
               | Some slash \<Rightarrow>
                   (let projectId = take slash rest; sub = drop (Suc slash) rest
                    in if sub \<notin> set subviews then None else Some (projectId, sub))))"

definition project_tab :: "string \<Rightarrow> string \<Rightarrow> string" where
  "project_tab project sub = ''project:'' @ project @ ''/'' @ sub"

definition view_options :: "(string, string) omap" where
  "view_options =
     [(''overview'', ''Overview''), (''plan'', ''Plans''), (''metrics'', ''Metrics''),
      (''features'', ''Features''), (''grinder'', ''Grinder'')]"

definition subview_label :: "string \<Rightarrow> string" where
  "subview_label sub =
     (if sub = ''vision'' then ''Vision''
      else if sub = ''pipeline'' then ''Pipeline''
      else if sub = ''deferred'' then ''Deferred''
      else ''Deviations'')"

definition labelForTab :: "string \<Rightarrow> string" where
  "labelForTab i =
     (if isFeatureTab i
      then (let key = featureKeyFromTab i
            in case index_of (CHR ''/'') key of Some k \<Rightarrow> drop (Suc k) key | None \<Rightarrow> key)
      else (case parseProjectSubviewTab i of
              Some (projectId, sub) \<Rightarrow>
                (let segs = filter (\<lambda>s. s \<noteq> []) (split_on (CHR ''/'') projectId);
                     tail = (if segs = [] then projectId else last segs)
                 in tail @ '' '' @ mdot @ '' '' @ subview_label sub)
            | None \<Rightarrow> om_get_or i view_options i))"

section \<open>Restoring\<close>

definition migrateLegacyView :: "string option \<Rightarrow> string" where
  "migrateLegacyView saved =
     (if saved = Some ''overview'' then ''overview''
      else if saved = Some ''plan'' then ''plan''
      else if saved = Some ''metrics'' then ''metrics''
      else if saved = Some ''grinder'' then ''grinder''
      else if saved = Some ''features'' \<or> saved = Some ''autopilot'' then ''features''
      else ''overview'')"

definition isValidTabId :: "json \<Rightarrow> bool" where
  "isValidTabId v =
     (case v of
        JStr s \<Rightarrow> s \<in> set (om_keys view_options) \<or> isFeatureTab s \<or> isProjectSubviewTab s
      | _ \<Rightarrow> False)"

fun tab_text :: "json \<Rightarrow> string" where
  "tab_text (JStr s) = s"
| "tab_text _ = ''''"

definition initial_tabs :: "string option \<Rightarrow> string option \<Rightarrow> string list" where
  "initial_tabs stored legacy =
     (if truthy stored
      then (case json_parse (the stored) of
              Some (JArr xs) \<Rightarrow> if length xs > 0 then map tab_text (filter isValidTabId xs) else [migrateLegacyView legacy]
            | _ \<Rightarrow> [migrateLegacyView legacy])
      else [migrateLegacyView legacy])"

definition initial_active :: "string option \<Rightarrow> string option \<Rightarrow> string" where
  "initial_active stored legacy =
     (if truthy stored \<and> isValidTabId (JStr (the stored)) then the stored else migrateLegacyView legacy)"

section \<open>The tab strip\<close>

text \<open>\<open>ts_storedOpen\<close> and \<open>ts_storedActive\<close> are what the two effects wrote last.\<close>

record tab_strip =
  ts_open :: "string list"
  ts_active :: string
  ts_storedOpen :: "string option"
  ts_storedActive :: "string option"
  ts_plansExpanded :: bool
  ts_expanded :: "string list"

definition ts_mount :: "string option \<Rightarrow> string option \<Rightarrow> string option \<Rightarrow> tab_strip" where
  "ts_mount storedOpen storedActive legacy =
     \<lparr>ts_open = initial_tabs storedOpen legacy, ts_active = initial_active storedActive legacy,
      ts_storedOpen = storedOpen, ts_storedActive = storedActive, ts_plansExpanded = False, ts_expanded = []\<rparr>"

definition persist_tabs :: "tab_strip \<Rightarrow> tab_strip" where
  "persist_tabs s =
     s\<lparr>ts_storedOpen := Some (stringify (JArr (map JStr (ts_open s)))), ts_storedActive := Some (ts_active s)\<rparr>"

definition openOrFocusTab :: "string \<Rightarrow> tab_strip \<Rightarrow> tab_strip" where
  "openOrFocusTab next_tab s =
     s\<lparr>ts_open := (if next_tab \<in> set (ts_open s) then ts_open s else ts_open s @ [next_tab]), ts_active := next_tab\<rparr>"

definition handleNavigateToPlan :: "tab_strip \<Rightarrow> tab_strip" where
  "handleNavigateToPlan s =
     s\<lparr>ts_open := (if ''plan'' \<in> set (ts_open s) then ts_open s else ts_open s @ [''plan'']), ts_active := ''plan''\<rparr>"

definition closeTab :: "string \<Rightarrow> tab_strip \<Rightarrow> tab_strip" where
  "closeTab target s =
     (let remaining = filter (\<lambda>t. t \<noteq> target) (ts_open s)
      in if length remaining = 0 then s\<lparr>ts_open := [''overview''], ts_active := ''overview''\<rparr>
         else if target = ts_active s then s\<lparr>ts_open := remaining, ts_active := last remaining\<rparr>
         else s\<lparr>ts_open := remaining\<rparr>)"

definition toggleProject :: "string \<Rightarrow> tab_strip \<Rightarrow> tab_strip" where
  "toggleProject key s = s\<lparr>ts_expanded := oset_toggle key (ts_expanded s)\<rparr>"

definition handleViewSelectChange :: "string \<Rightarrow> tab_strip \<Rightarrow> tab_strip" where
  "handleViewSelectChange newView s =
     (let s1 = openOrFocusTab newView s
      in if newView = ''plan'' then s1\<lparr>ts_plansExpanded := \<not> ts_plansExpanded s1\<rparr> else s1)"

datatype tab_action = TabOpen string | TabPlan | TabClose string | TabToggle string | TabView string

fun tab_step :: "tab_action \<Rightarrow> tab_strip \<Rightarrow> tab_strip" where
  "tab_step (TabOpen i) s = persist_tabs (openOrFocusTab i s)"
| "tab_step TabPlan s = persist_tabs (handleNavigateToPlan s)"
| "tab_step (TabClose i) s = persist_tabs (closeTab i s)"
| "tab_step (TabToggle k) s = persist_tabs (toggleProject k s)"
| "tab_step (TabView v) s = persist_tabs (handleViewSelectChange v s)"

text \<open>What the sidebar and the views pass to the handlers: identifiers of tabs.\<close>

fun action_ok :: "tab_action \<Rightarrow> bool" where
  "action_ok (TabOpen i) = isValidTabId (JStr i)"
| "action_ok (TabView v) = isValidTabId (JStr v)"
| "action_ok _ = True"

section \<open>Invariant\<close>

definition strip_ok :: "tab_strip \<Rightarrow> bool" where
  "strip_ok s \<longleftrightarrow>
     ts_open s \<noteq> [] \<and> distinct (ts_open s) \<and> ts_active s \<in> set (ts_open s) \<and>
     (\<forall>t\<in>set (ts_open s). isValidTabId (JStr t))"

lemma valid_view [simp]: "isValidTabId (JStr ''overview'')" "isValidTabId (JStr ''plan'')"
  by (simp_all add: isValidTabId_def view_options_def)

lemma valid_legacy: "isValidTabId (JStr (migrateLegacyView l))"
  by (simp add: migrateLegacyView_def isValidTabId_def view_options_def)

lemma strip_ok_persist [simp]: "strip_ok (persist_tabs s) = strip_ok s"
  by (simp add: strip_ok_def persist_tabs_def)

lemma strip_ok_open: "strip_ok s \<Longrightarrow> isValidTabId (JStr i) \<Longrightarrow> strip_ok (openOrFocusTab i s)"
  by (auto simp: strip_ok_def openOrFocusTab_def)

lemma strip_ok_close: "strip_ok s \<Longrightarrow> strip_ok (closeTab i s)"
proof -
  assume s: "strip_ok s"
  let ?r = "filter (\<lambda>t. t \<noteq> i) (ts_open s)"
  have "?r \<noteq> [] \<Longrightarrow> last ?r \<in> set ?r" by (rule last_in_set)
  then have "?r \<noteq> [] \<Longrightarrow> last ?r \<in> set (ts_open s) \<and> last ?r \<noteq> i" by auto
  with s show ?thesis by (auto simp: strip_ok_def closeTab_def Let_def filter_empty_conv)
qed

lemma strip_ok_toggle: "strip_ok (toggleProject k s) = strip_ok s"
  by (simp add: strip_ok_def toggleProject_def)

lemma strip_ok_step: "strip_ok s \<Longrightarrow> action_ok a \<Longrightarrow> strip_ok (tab_step a s)"
proof (cases a)
  case TabPlan
  assume "strip_ok s"
  moreover have "handleNavigateToPlan s = openOrFocusTab ''plan'' s"
    by (simp add: handleNavigateToPlan_def openOrFocusTab_def)
  ultimately show ?thesis using TabPlan strip_ok_open [of s "''plan''"] by simp
next
  case (TabView v)
  assume "strip_ok s" "action_ok a"
  with TabView have "strip_ok (openOrFocusTab v s)" by (simp add: strip_ok_open)
  moreover have "strip_ok (s1\<lparr>ts_plansExpanded := b\<rparr>) = strip_ok s1" for s1 b by (simp add: strip_ok_def)
  ultimately have "strip_ok (handleViewSelectChange v s)"
    unfolding handleViewSelectChange_def Let_def by (cases "v = ''plan''") simp_all
  with TabView show ?thesis by simp
qed (simp_all add: strip_ok_open strip_ok_close strip_ok_toggle)

lemma stored_step: "ts_storedOpen (tab_step a s) = Some (stringify (JArr (map JStr (ts_open (tab_step a s)))))
    \<and> ts_storedActive (tab_step a s) = Some (ts_active (tab_step a s))"
  by (cases a) (simp_all add: persist_tabs_def)

lemma num_free_strings: "num_free (JArr (map JStr xs))"
  by (induction xs) simp_all

lemma restore_open:
  assumes "strip_ok s"
  shows "initial_tabs (Some (stringify (JArr (map JStr (ts_open s))))) legacy = ts_open s"
proof -
  have "json_parse (stringify (JArr (map JStr (ts_open s)))) = Some (JArr (map JStr (ts_open s)))"
    by (rule json_parse_stringify [OF num_free_strings])
  moreover have "filter isValidTabId (map JStr (ts_open s)) = map JStr (ts_open s)"
    using assms by (simp add: strip_ok_def)
  moreover have "map (tab_text \<circ> JStr) (ts_open s) = ts_open s" by (simp add: map_idI)
  moreover have "truthy (Some (stringify (JArr (map JStr (ts_open s)))))" by (simp add: truthy_def)
  ultimately show ?thesis using assms by (simp add: initial_tabs_def strip_ok_def)
qed

lemma valid_nonempty: "isValidTabId (JStr i) \<Longrightarrow> i \<noteq> []"
  by (auto simp: isValidTabId_def isFeatureTab_def isProjectSubviewTab_def
      feature_tab_prefix_def project_tab_prefix_def view_options_def starts_with_def)

lemma restore_active:
  assumes "strip_ok s"
  shows "initial_active (Some (ts_active s)) legacy = ts_active s"
proof -
  have "isValidTabId (JStr (ts_active s))" using assms by (auto simp: strip_ok_def)
  then show ?thesis using valid_nonempty by (simp add: initial_active_def truthy_def)
qed

section \<open>Properties\<close>

text \<open>
  C17. From any sound strip, whatever the operator opens, focuses, toggles or closes, the strip stays
  sound: it is never empty, no tab is open twice, the active tab is one of the open ones, and all are
  tabs the shell can render. A page started without stored tabs is sound.
\<close>
theorem tab_strip_sound:
  "(\<forall>legacy. strip_ok (ts_mount None None legacy)) \<and>
   (\<forall>s acts. strip_ok s \<and> list_all action_ok acts \<longrightarrow> strip_ok (fold tab_step acts s))"
proof (intro conjI allI impI)
  fix legacy
  show "strip_ok (ts_mount None None legacy)"
    using valid_legacy by (simp add: ts_mount_def strip_ok_def initial_tabs_def initial_active_def truthy_def)
next
  fix s acts
  assume "strip_ok s \<and> list_all action_ok acts"
  then show "strip_ok (fold tab_step acts s)"
    by (induction acts arbitrary: s) (simp_all add: strip_ok_step)
qed

text \<open>
  After any action on a sound strip, reloading the page brings back the same tabs in the same order
  with the same one active.
\<close>
theorem tabs_survive_reload:
  assumes "strip_ok s" and "action_ok a"
  shows "ts_open (ts_mount (ts_storedOpen (tab_step a s)) (ts_storedActive (tab_step a s)) legacy) = ts_open (tab_step a s) \<and>
    ts_active (ts_mount (ts_storedOpen (tab_step a s)) (ts_storedActive (tab_step a s)) legacy) = ts_active (tab_step a s)"
  using stored_step [of a s] restore_open [OF strip_ok_step [OF assms]] restore_active [OF strip_ok_step [OF assms]]
  by (simp add: ts_mount_def del: stringify.simps)

text \<open>
  If none of the stored tabs exists any more, the strip is restored empty although a tab is shown.
\<close>
theorem retired_tabs_leave_empty_strip:
  assumes "json_parse stored = Some (JArr xs)" and "xs \<noteq> []" and "stored \<noteq> []"
    and "\<forall>x\<in>set xs. \<not> isValidTabId x"
  shows "ts_open (ts_mount (Some stored) active legacy) = [] \<and>
    \<not> strip_ok (ts_mount (Some stored) active legacy) \<and>
    isValidTabId (JStr (ts_active (ts_mount (Some stored) active legacy)))"
proof -
  have "filter isValidTabId xs = []" using assms(4) by (simp add: filter_empty_conv)
  then have "ts_open (ts_mount (Some stored) active legacy) = []"
    using assms(1-3) by (simp add: ts_mount_def initial_tabs_def truthy_def)
  moreover have "isValidTabId (JStr (initial_active active legacy))"
    using valid_legacy by (simp add: initial_active_def)
  ultimately show ?thesis by (simp add: strip_ok_def ts_mount_def)
qed

text \<open>
  The identifier of a project sub-view names exactly its project and sub-view, also when the project
  is a path with slashes, and is never mistaken for a feature tab or a built-in view.
\<close>
theorem project_tab_roundtrip:
  assumes "sub \<in> set subviews"
  shows "parseProjectSubviewTab (project_tab project sub) = Some (project, sub) \<and>
    isValidTabId (JStr (project_tab project sub)) \<and> \<not> isFeatureTab (project_tab project sub) \<and>
    project_tab project sub \<notin> set (om_keys view_options)"
proof -
  have slash: "CHR ''/'' \<notin> set sub" using assms by (auto simp: subviews_def)
  have "index_of (CHR ''/'') (rev (project @ ''/'' @ sub)) = Some (length sub)"
    using index_of_append [of "CHR ''/''" "rev sub" "rev project"] slash by simp
  then have last: "last_index_of (CHR ''/'') (project @ ''/'' @ sub) = Some (length project)"
    by (simp add: last_index_of_def)
  have pre: "isProjectSubviewTab (project_tab project sub)"
    by (simp add: isProjectSubviewTab_def project_tab_def project_tab_prefix_def starts_with_def)
  have "drop (length project_tab_prefix) (project_tab project sub) = project @ ''/'' @ sub"
    by (simp add: project_tab_def project_tab_prefix_def)
  then have "parseProjectSubviewTab (project_tab project sub) = Some (project, sub)"
    using last pre assms by (simp add: parseProjectSubviewTab_def Let_def)
  then show ?thesis
    using pre by (simp add: isValidTabId_def isFeatureTab_def project_tab_def feature_tab_prefix_def starts_with_def
        view_options_def)
qed

section \<open>Witnesses\<close>

definition demo_strip :: tab_strip where
  "demo_strip = ts_mount None None (Some ''plan'')"

lemma tab_strip_sound_witness:
  "strip_ok (fold tab_step [TabOpen ''features'', TabClose ''plan'', TabClose ''features''] demo_strip)"
proof -
  have "list_all action_ok [TabOpen ''features'', TabClose ''plan'', TabClose ''features'']" by code_simp
  then show ?thesis using tab_strip_sound unfolding demo_strip_def by blast
qed

lemma tabs_survive_reload_witness:
  "ts_open (ts_mount (ts_storedOpen (tab_step (TabOpen ''grinder'') demo_strip))
     (ts_storedActive (tab_step (TabOpen ''grinder'') demo_strip)) None) = [''plan'', ''grinder'']"
proof -
  have ok: "strip_ok demo_strip" "action_ok (TabOpen ''grinder'')"
    and o: "ts_open (tab_step (TabOpen ''grinder'') demo_strip) = [''plan'', ''grinder'']" by code_simp+
  from tabs_survive_reload [OF ok, of None] o show ?thesis by simp
qed

definition retired_store :: string where
  "retired_store = CHR ''['' # quote_str ''deferred'' @ '']''"

lemma retired_tabs_leave_empty_strip_witness: "ts_open (ts_mount (Some retired_store) None None) = []"
proof -
  have "json_parse retired_store = Some (JArr [JStr ''deferred''])" by code_simp
  moreover have "\<not> isValidTabId (JStr ''deferred'')" by code_simp
  moreover have "retired_store \<noteq> []" by (simp add: retired_store_def)
  ultimately show ?thesis using retired_tabs_leave_empty_strip [of retired_store "[JStr ''deferred'']" None None] by simp
qed

lemma project_tab_roundtrip_witness:
  "parseProjectSubviewTab ''project:/Users/foo/OIH/vision'' = Some (''/Users/foo/OIH'', ''vision'')"
  using project_tab_roundtrip [of "''vision''" "''/Users/foo/OIH''"] by (simp add: subviews_def project_tab_def)

end
