(* ===== verification/Connectors.thy ===== *)
theory Connectors
  imports DagLayoutCorrect
begin

text \<open>
  The lines of the phase graph: \<open>utils/connectorRouting.ts\<close> and the geometry in \<open>components/Pipeline.tsx\<close>
  (\<open>PhaseTree\<close>, \<open>TreeConnectors\<close>, the entry, gate and exit paths). A path is the list of its SVG
  commands; \<open>path_text\<close> prints it. Coordinates are exact rationals. The rectangles measured in the
  browser are an argument of \<open>tree_lines\<close>; \<open>cell_rect\<close> is the rectangle the page asks for.
\<close>

section \<open>Routing\<close>

record node_rect =
  nr_id :: string
  nr_left :: rat
  nr_right :: rat
  nr_top :: rat
  nr_bottom :: rat

fun segmentCrossesAnyBox :: "rat \<Rightarrow> rat \<Rightarrow> rat \<Rightarrow> node_rect list \<Rightarrow> string list \<Rightarrow> bool" where
  "segmentCrossesAnyBox xA xB y [] exclude = False"
| "segmentCrossesAnyBox xA xB y (r # rects) exclude =
     (if nr_id r \<in> set exclude then segmentCrossesAnyBox xA xB y rects exclude
      else if y < nr_top r \<or> y > nr_bottom r then segmentCrossesAnyBox xA xB y rects exclude
      else if nr_right r < min xA xB \<or> nr_left r > max xA xB then segmentCrossesAnyBox xA xB y rects exclude
      else True)"

datatype path_cmd = MoveTo rat rat | HTo rat | VTo rat | QTo rat rat rat rat

fun cmd_text :: "path_cmd \<Rightarrow> string" where
  "cmd_text (MoveTo x y) = ''M '' @ string_of_rat x @ '' '' @ string_of_rat y"
| "cmd_text (HTo x) = ''H '' @ string_of_rat x"
| "cmd_text (VTo y) = ''V '' @ string_of_rat y"
| "cmd_text (QTo cx cy x y) =
     ''Q '' @ string_of_rat cx @ '' '' @ string_of_rat cy @ '', '' @ string_of_rat x @ '' '' @ string_of_rat y"

definition path_text :: "path_cmd list \<Rightarrow> string" where
  "path_text cmds = join_with '' '' (map cmd_text cmds)"

definition routePath ::
    "rat \<Rightarrow> rat \<Rightarrow> rat \<Rightarrow> rat \<Rightarrow> rat option \<Rightarrow> node_rect list \<Rightarrow> string list \<Rightarrow> rat \<Rightarrow> rat \<Rightarrow> path_cmd list" where
  "routePath x1 y1 x2 y2 viaX rects exclude nodeH gapY =
     (let sameRow = \<bar>y2 - y1\<bar> < 1
      in if sameRow then
           (if \<not> segmentCrossesAnyBox x1 x2 y1 rects exclude then [MoveTo x1 y1, HTo x2]
            else (let detourY = y1 + nodeH / 2 + gapY / 2
                  in [MoveTo x1 y1, VTo detourY, HTo x2, VTo y2]))
         else
           (let mx = (case viaX of Some v \<Rightarrow> v | None \<Rightarrow> (x1 + x2) / 2);
                seg1Crosses = segmentCrossesAnyBox x1 mx y1 rects exclude;
                seg2Crosses = segmentCrossesAnyBox mx x2 y2 rects exclude
            in if \<not> seg1Crosses \<and> \<not> seg2Crosses then [MoveTo x1 y1, HTo mx, VTo y2, HTo x2]
               else (let detourY = (y1 + y2) / 2
                     in [MoveTo x1 y1, VTo detourY, HTo x2, VTo y2])))"

definition orthogonalPath :: "rat \<Rightarrow> rat \<Rightarrow> rat \<Rightarrow> rat \<Rightarrow> rat \<Rightarrow> rat option \<Rightarrow> path_cmd list" where
  "orthogonalPath x1 y1 x2 y2 r viaX =
     (let dy = y2 - y1
      in if \<bar>dy\<bar> < 1 then [MoveTo x1 y1, HTo x2]
         else (let mx = (case viaX of Some v \<Rightarrow> v | None \<Rightarrow> (x1 + x2) / 2);
                   cr = min (min r (\<bar>dy\<bar> / 2)) (min \<bar>mx - x1\<bar> \<bar>x2 - mx\<bar>)
               in if cr < 1 / 2 then [MoveTo x1 y1, HTo mx, VTo y2, HTo x2]
                  else (let sign = (if dy > 0 then 1 else - 1)
                        in [MoveTo x1 y1, HTo (mx - cr), QTo mx y1 mx (y1 + sign * cr),
                            VTo (y2 - sign * cr), QTo mx y2 (mx + cr) y2, HTo x2])))"

section \<open>Geometry of a phase tree\<close>

definition MARKER_W :: rat where "MARKER_W = 140"

definition col_pitch :: rat where "col_pitch = of_int (NODE_W + GAP_X)"
definition row_pitch :: rat where "row_pitch = of_int (NODE_H + GAP_Y)"
definition entry_w :: rat where "entry_w = MARKER_W + of_int GAP_X"

definition node_left :: "nat \<Rightarrow> rat" where
  "node_left col = entry_w + of_nat col * col_pitch"

definition node_top :: "nat \<Rightarrow> rat" where
  "node_top row = of_nat row * row_pitch"

definition rowYOf :: "nat \<Rightarrow> rat" where
  "rowYOf row = node_top row + of_int NODE_H / 2"

definition cell_rect :: "string \<Rightarrow> nat \<Rightarrow> nat \<Rightarrow> node_rect" where
  "cell_rect i col row =
     \<lparr>nr_id = i, nr_left = node_left col, nr_right = node_left col + of_int NODE_W,
      nr_top = node_top row, nr_bottom = node_top row + of_int NODE_H\<rparr>"

type_synonym node_map = "(string, tree_node) omap"

definition child_set :: "node_map \<Rightarrow> string list" where
  "child_set nodes = oset_of (concat (map (\<lambda>e. tn_children (snd e)) nodes))"

definition root_ids :: "node_map \<Rightarrow> string list" where
  "root_ids nodes = filter (\<lambda>i. i \<notin> set (child_set nodes)) (om_keys nodes)"

definition leaf_ids :: "node_map \<Rightarrow> string list" where
  "leaf_ids nodes = map fst (filter (\<lambda>e. length (tn_children (snd e)) = 0) nodes)"

definition isolatedIds :: "node_map \<Rightarrow> string list" where
  "isolatedIds nodes = oset_of (filter (\<lambda>i. i \<in> set (leaf_ids nodes)) (root_ids nodes))"

definition row_of :: "node_map \<Rightarrow> string \<Rightarrow> nat" where
  "row_of nodes i = (case om_get nodes i of Some n \<Rightarrow> tn_row n | None \<Rightarrow> 0)"

record tree_geometry =
  tg_treeW :: rat
  tg_treeH :: rat
  tg_totalW :: rat
  tg_midY :: rat
  tg_entryY :: rat
  tg_exitY :: rat
  tg_gateX :: rat
  tg_gateY :: rat
  tg_exitConvergenceX :: rat

definition anchor_y :: "node_map \<Rightarrow> rat \<Rightarrow> string list \<Rightarrow> rat" where
  "anchor_y nodes midY ids =
     (let rowSet = oset_of (map (row_of nodes) ids)
      in if length rowSet = 1 then rowYOf (hd rowSet) else midY)"

definition phase_tree_geometry :: "layout_result \<Rightarrow> bool \<Rightarrow> tree_geometry" where
  "phase_tree_geometry L hasGate =
     (let nodes = lr_nodes L;
          lastCol = (if hasGate then lr_maxCol L + 1 else lr_maxCol L);
          treeW = of_nat (lastCol + 1) * col_pitch - of_int GAP_X;
          treeH = of_nat (lr_maxRow L + 1) * row_pitch - of_int GAP_Y;
          midY = treeH / 2;
          entryY = anchor_y nodes midY (root_ids nodes);
          exitY = anchor_y nodes midY (leaf_ids nodes);
          gateX = (if hasGate then node_left (lr_maxCol L + 1) else 0);
          exitTargetX = (if hasGate then gateX else entry_w + treeW + of_int GAP_X)
      in \<lparr>tg_treeW = treeW, tg_treeH = treeH, tg_totalW = entry_w + treeW + (of_int GAP_X + MARKER_W), tg_midY = midY,
          tg_entryY = entryY, tg_exitY = exitY, tg_gateX = gateX, tg_gateY = exitY - of_int NODE_H / 2,
          tg_exitConvergenceX = exitTargetX - of_int GAP_X / 2\<rparr>)"

text \<open>The paths between the side markers, the tasks and the gate, in drawing order.\<close>

definition isolated_paths :: "tree_geometry \<Rightarrow> bool \<Rightarrow> tree_node \<Rightarrow> path_cmd list list" where
  "isolated_paths g hasGate n =
     (let ny = rowYOf (tn_row n); taskLeft = node_left (tn_col n); taskRight = taskLeft + of_int NODE_W;
          exitX = (if hasGate then tg_gateX g else entry_w + tg_treeW g + of_int GAP_X)
      in [orthogonalPath MARKER_W (tg_entryY g) taskLeft ny 0 None,
          orthogonalPath taskRight ny exitX (tg_exitY g) 0 (Some (exitX - of_int GAP_X / 2))])"

definition leaf_to_gate_path :: "tree_geometry \<Rightarrow> tree_node \<Rightarrow> path_cmd list" where
  "leaf_to_gate_path g n =
     orthogonalPath (node_left (tn_col n) + of_int NODE_W) (rowYOf (tn_row n)) (tg_gateX g) (tg_exitY g) 0
       (Some (tg_exitConvergenceX g))"

definition leaf_to_exit_path :: "tree_geometry \<Rightarrow> tree_node \<Rightarrow> path_cmd list" where
  "leaf_to_exit_path g n =
     orthogonalPath (node_left (tn_col n) + of_int NODE_W) (rowYOf (tn_row n))
       (entry_w + tg_treeW g + of_int GAP_X) (tg_exitY g) 0 None"

definition phase_paths :: "layout_result \<Rightarrow> bool \<Rightarrow> path_cmd list list" where
  "phase_paths L hasGate =
     (let nodes = lr_nodes L; g = phase_tree_geometry L hasGate; iso = isolatedIds nodes;
          look = (\<lambda>is. List.map_filter (om_get nodes) is);
          rootsN = look (filter (\<lambda>i. i \<notin> set iso) (root_ids nodes));
          leavesN = look (filter (\<lambda>i. i \<notin> set iso) (leaf_ids nodes))
      in map (\<lambda>n. orthogonalPath MARKER_W (tg_entryY g) (node_left (tn_col n)) (rowYOf (tn_row n)) 0 None) rootsN
       @ concat (map (isolated_paths g hasGate) (look iso))
       @ (if hasGate
          then map (leaf_to_gate_path g) leavesN
             @ [orthogonalPath (tg_gateX g + of_int NODE_W) (tg_exitY g) (entry_w + tg_treeW g + of_int GAP_X) (tg_exitY g) 0 None]
          else map (leaf_to_exit_path g) leavesN))"

section \<open>Lines between tasks\<close>

record raw_line =
  rl_src :: string
  rl_tgt :: string
  rl_x1 :: rat
  rl_y1 :: rat
  rl_x2 :: rat
  rl_y2 :: rat
  rl_status :: task_status

definition measure_line :: "(string \<Rightarrow> node_rect option) \<Rightarrow> tree_node \<Rightarrow> string \<Rightarrow> raw_line option" where
  "measure_line rect n childId =
     (case (rect (t_id (tn_task n)), rect childId) of
        (Some p, Some c) \<Rightarrow>
          Some \<lparr>rl_src = t_id (tn_task n), rl_tgt = childId, rl_x1 = nr_right p,
                rl_y1 = nr_top p + (nr_bottom p - nr_top p) / 2, rl_x2 = nr_left c,
                rl_y2 = nr_top c + (nr_bottom c - nr_top c) / 2, rl_status = t_status (tn_task n)\<rparr>
      | _ \<Rightarrow> None)"

definition all_lines :: "(string \<Rightarrow> node_rect option) \<Rightarrow> node_map \<Rightarrow> raw_line list" where
  "all_lines rect nodes = concat (map (\<lambda>e. List.map_filter (measure_line rect (snd e)) (tn_children (snd e))) nodes)"

definition linesByChild :: "(string \<Rightarrow> node_rect option) \<Rightarrow> node_map \<Rightarrow> (string, raw_line list) omap" where
  "linesByChild rect nodes = om_group rl_tgt (all_lines rect nodes)"

definition group_via :: "raw_line list \<Rightarrow> rat option" where
  "group_via grp = (if length grp > 1 then Some (rl_x2 (hd grp) - of_int GAP_X / 2) else None)"

definition all_rects :: "(string \<Rightarrow> node_rect option) \<Rightarrow> node_map \<Rightarrow> node_rect list" where
  "all_rects rect nodes = List.map_filter (\<lambda>e. rect (t_id (tn_task (snd e)))) nodes"

definition route_line :: "node_rect list \<Rightarrow> rat option \<Rightarrow> raw_line \<Rightarrow> raw_line \<times> path_cmd list" where
  "route_line rects via l =
     (l, routePath (rl_x1 l) (rl_y1 l) (rl_x2 l) (rl_y2 l) via rects [rl_src l, rl_tgt l] (of_int NODE_H) (of_int GAP_Y))"

definition tree_lines :: "(string \<Rightarrow> node_rect option) \<Rightarrow> node_map \<Rightarrow> (raw_line \<times> path_cmd list) list" where
  "tree_lines rect nodes =
     concat (map (\<lambda>(c, grp). map (route_line (all_rects rect nodes) (group_via grp)) grp) (linesByChild rect nodes))"

text \<open>The page: every node has the rectangle of its cell.\<close>

definition page_rect :: "node_map \<Rightarrow> string \<Rightarrow> node_rect option" where
  "page_rect nodes i = map_option (\<lambda>n. cell_rect i (tn_col n) (tn_row n)) (om_get nodes i)"

section \<open>What a path covers\<close>

text \<open>\<open>h_strokes\<close> are the horizontal strokes of a path, \<open>pen\<close> is where it ends.\<close>

fun h_strokes :: "rat \<times> rat \<Rightarrow> path_cmd list \<Rightarrow> (rat \<times> rat \<times> rat) list" where
  "h_strokes p [] = []"
| "h_strokes p (MoveTo x y # cs) = h_strokes (x, y) cs"
| "h_strokes (px, py) (HTo x # cs) = (px, x, py) # h_strokes (x, py) cs"
| "h_strokes (px, py) (VTo y # cs) = h_strokes (px, y) cs"
| "h_strokes p (QTo cx cy x y # cs) = h_strokes (x, y) cs"

fun pen :: "rat \<times> rat \<Rightarrow> path_cmd list \<Rightarrow> rat \<times> rat" where
  "pen p [] = p"
| "pen p (MoveTo x y # cs) = pen (x, y) cs"
| "pen (px, py) (HTo x # cs) = pen (x, py) cs"
| "pen (px, py) (VTo y # cs) = pen (px, y) cs"
| "pen p (QTo cx cy x y # cs) = pen (x, y) cs"

definition meets_box :: "node_rect \<Rightarrow> rat \<times> rat \<times> rat \<Rightarrow> bool" where
  "meets_box r = (\<lambda>(xa, xb, y). nr_top r \<le> y \<and> y \<le> nr_bottom r \<and>
     (\<exists>x. min xa xb \<le> x \<and> x \<le> max xa xb \<and> nr_left r \<le> x \<and> x \<le> nr_right r))"

lemma overlap_iff:
  fixes a b c d :: "'a::linorder"
  assumes "a \<le> b" and "c \<le> d"
  shows "(\<exists>x. a \<le> x \<and> x \<le> b \<and> c \<le> x \<and> x \<le> d) \<longleftrightarrow> c \<le> b \<and> a \<le> d"
proof
  assume "c \<le> b \<and> a \<le> d"
  then show "\<exists>x. a \<le> x \<and> x \<le> b \<and> c \<le> x \<and> x \<le> d"
    using assms by (intro exI [of _ "max a c"]) auto
qed (use order.trans in blast)

text \<open>
  The collision test answers exactly whether the closed segment meets a closed box that is not excluded.
\<close>
theorem crossing_test_exact:
  assumes "\<forall>r\<in>set rects. nr_left r \<le> nr_right r"
  shows "segmentCrossesAnyBox xA xB y rects exclude \<longleftrightarrow>
    (\<exists>r\<in>set rects. nr_id r \<notin> set exclude \<and> meets_box r (xA, xB, y))"
  using assms
proof (induction rects)
  case (Cons r rects)
  have "meets_box r (xA, xB, y) \<longleftrightarrow>
      nr_top r \<le> y \<and> y \<le> nr_bottom r \<and> nr_left r \<le> max xA xB \<and> min xA xB \<le> nr_right r"
    using Cons.prems overlap_iff [of "min xA xB" "max xA xB" "nr_left r" "nr_right r"]
    by (auto simp: meets_box_def)
  with Cons show ?case by (auto simp: not_less)
qed simp

lemma no_cross_no_meet:
  assumes "\<not> segmentCrossesAnyBox xA xB y rects exclude" and "r \<in> set rects" and "nr_id r \<notin> set exclude"
  shows "\<not> meets_box r (xA, xB, y)"
  using assms
  by (induction rects) (auto simp: meets_box_def split: if_splits)

section \<open>Routing on the grid\<close>

lemma pitch_values: "row_pitch = 96" "col_pitch = 268" "of_int NODE_H = (72::rat)" "of_int GAP_Y = (24::rat)"
  "of_int NODE_W = (240::rat)" "of_int GAP_X = (28::rat)" "entry_w = 168" "MARKER_W = 140"
  by (simp_all add: row_pitch_def col_pitch_def entry_w_def MARKER_W_def NODE_H_def GAP_Y_def NODE_W_def GAP_X_def)

lemma rowYOf_val: "rowYOf r = of_nat r * 96 + 36"
  by (simp add: rowYOf_def node_top_def pitch_values)

lemma gap_misses_rows: "\<not> (of_nat r * 96 \<le> of_nat k * 96 + (84::rat) \<and> of_nat k * 96 + 84 \<le> of_nat r * 96 + (72::rat))"
proof
  assume *: "of_nat r * 96 \<le> of_nat k * 96 + (84::rat) \<and> of_nat k * 96 + 84 \<le> of_nat r * 96 + (72::rat)"
  then have "of_nat (r * 96) \<le> (of_nat (k * 96 + 84) :: rat)" "(of_nat (k * 96 + 84) :: rat) \<le> of_nat (r * 96 + 72)"
    by simp_all
  then have "r * 96 \<le> k * 96 + 84" "k * 96 + 84 \<le> r * 96 + 72"
    unfolding of_nat_le_iff by simp_all
  then have "r \<le> k" "k < r" by linarith+
  then show False by simp
qed

lemma gap_clear: "y = of_nat k * 96 + 84 \<Longrightarrow> \<not> meets_box (cell_rect i c r) (xa, xb, y)"
  using gap_misses_rows [of r k] by (auto simp: meets_box_def cell_rect_def node_top_def pitch_values)

lemma same_row_iff: "\<bar>rowYOf b - rowYOf a\<bar> < 1 \<longleftrightarrow> a = b"
proof (cases a b rule: linorder_cases)
  case less
  then have "(of_nat a + 1 :: rat) \<le> of_nat b" by (metis Suc_eq_plus1 Suc_leI of_nat_1 of_nat_add of_nat_le_iff)
  with less show ?thesis by (simp add: rowYOf_val)
next
  case greater
  then have "(of_nat b + 1 :: rat) \<le> of_nat a" by (metis Suc_eq_plus1 Suc_leI of_nat_1 of_nat_add of_nat_le_iff)
  with greater show ?thesis by (simp add: rowYOf_val)
qed simp

lemma middle_gap:
  assumes "odd (a + b)"
  obtains k where "(rowYOf a + rowYOf b) / 2 = of_nat k * 96 + 84"
proof -
  obtain k where "a + b = 2 * k + 1" using oddE [OF assms] by blast
  then have "(of_nat a + of_nat b :: rat) = 2 * of_nat k + 1"
    by (metis of_nat_1 of_nat_add of_nat_mult of_nat_numeral)
  then show ?thesis by (intro that [of k]) (simp add: rowYOf_val field_simps)
qed

lemma route_ends:
  "\<exists>cs. routePath x1 y1 x2 y2 viaX rects ex h g = MoveTo x1 y1 # cs
     \<and> fst (pen (x1, y1) cs) = x2 \<and> \<bar>snd (pen (x1, y1) cs) - y2\<bar> < 1"
  by (auto simp: routePath_def Let_def)

lemma route_misses:
  assumes "a = b \<or> odd (a + b)" and "cell_rect i c r \<in> set rects" and "i \<notin> set ex"
    and "s \<in> set (h_strokes (0, 0) (routePath x1 (rowYOf a) x2 (rowYOf b) viaX rects ex (of_int NODE_H) (of_int GAP_Y)))"
  shows "\<not> meets_box (cell_rect i c r) s"
proof -
  note miss = no_cross_no_meet [OF _ assms(2), of _ _ _ ex]
  have id: "nr_id (cell_rect i c r) \<notin> set ex" using assms(3) by (simp add: cell_rect_def)
  show ?thesis
  proof (cases "a = b")
    case True
    have "rowYOf a + of_int NODE_H / 2 + of_int GAP_Y / 2 = of_nat a * 96 + 84"
      by (simp add: rowYOf_val pitch_values)
    then show ?thesis
      using assms(4) True miss [OF _ id] gap_clear [of _ a i c r]
      by (auto simp: routePath_def Let_def split: if_splits)
  next
    case False
    then have "odd (a + b)" using assms(1) by simp
    then obtain k where k: "(rowYOf a + rowYOf b) / 2 = of_nat k * 96 + 84" by (rule middle_gap)
    show ?thesis
      using assms(4) False same_row_iff [of b a] miss [OF _ id] gap_clear [OF k]
      by (auto simp: routePath_def Let_def split: if_splits)
  qed
qed
section \<open>The lines of a phase\<close>

lemma linesByChild_get:
  "(c, grp) \<in> set (linesByChild rect nodes) \<Longrightarrow> grp = filter (\<lambda>l. rl_tgt l = c) (all_lines rect nodes)"
  unfolding linesByChild_def by (rule om_group_mem)

lemma linesByChild_has:
  "l \<in> set (all_lines rect nodes) \<Longrightarrow> \<exists>grp. (rl_tgt l, grp) \<in> set (linesByChild rect nodes) \<and> l \<in> set grp"
  unfolding linesByChild_def by (rule om_group_has)

lemma tree_lines_iff:
  "(l, p) \<in> set (tree_lines rect nodes) \<longleftrightarrow> l \<in> set (all_lines rect nodes)
     \<and> p = snd (route_line (all_rects rect nodes)
             (group_via (filter (\<lambda>l'. rl_tgt l' = rl_tgt l) (all_lines rect nodes))) l)"
  (is "?L \<longleftrightarrow> ?R")
proof
  assume ?L
  then obtain c grp where "(c, grp) \<in> set (linesByChild rect nodes)" "l \<in> set grp"
    "p = snd (route_line (all_rects rect nodes) (group_via grp) l)"
    by (auto simp: tree_lines_def route_line_def)
  then show ?R using linesByChild_get [of c grp rect nodes] by auto
next
  assume R: ?R
  then obtain grp where "(rl_tgt l, grp) \<in> set (linesByChild rect nodes)" "l \<in> set grp"
    using linesByChild_has by blast
  then show ?L
    using R linesByChild_get [of "rl_tgt l" grp rect nodes]
    by (auto simp: tree_lines_def route_line_def intro!: bexI [of _ "(rl_tgt l, grp)"])
qed

lemma page_measure:
  "measure_line (page_rect nodes) n c = Some l \<longleftrightarrow>
     (\<exists>s m. om_get nodes (t_id (tn_task n)) = Some s \<and> om_get nodes c = Some m
        \<and> l = \<lparr>rl_src = t_id (tn_task n), rl_tgt = c, rl_x1 = node_left (tn_col s) + of_int NODE_W,
               rl_y1 = rowYOf (tn_row s), rl_x2 = node_left (tn_col m), rl_y2 = rowYOf (tn_row m),
               rl_status = t_status (tn_task n)\<rparr>)"
  by (auto simp: measure_line_def page_rect_def cell_rect_def rowYOf_def split: option.splits)

lemma all_lines_iff:
  "l \<in> set (all_lines rect nodes) \<longleftrightarrow>
     (\<exists>e\<in>set nodes. \<exists>c\<in>set (tn_children (snd e)). measure_line rect (snd e) c = Some l)"
  by (force simp: all_lines_def List.map_filter_def)
lemma fold_keys_distinct:
  assumes "\<And>x p. distinct (om_keys (k p)) \<Longrightarrow> distinct (om_keys (k (f x p)))"
  shows "distinct (om_keys (k p)) \<Longrightarrow> distinct (om_keys (k (fold f xs p)))"
  by (induction xs arbitrary: p) (auto intro: assms simp del: distinct_map list.map)

lemma layout_keys_distinct:
  assumes "buildTreeLayout tasks = Some L"
  shows "distinct (om_keys (lr_nodes L))"
proof -
  have con: "distinct (om_keys (fst p)) \<Longrightarrow> distinct (om_keys (fst (place_connected b ch c x p)))" for b ch c x p
    by (cases p; cases x) (simp add: place_connected_def)
  have grp: "distinct (om_keys (fst p)) \<Longrightarrow> distinct (om_keys (fst (place_group b ch g p)))" for b ch g p
    by (cases g) (auto simp: place_group_def intro!: fold_keys_distinct con simp del: distinct_map)
  have iso: "distinct (om_keys (fst (fst p))) \<Longrightarrow> distinct (om_keys (fst (fst (place_isolated b i p))))" for b i p
    by (cases p) (auto simp: place_isolated_def split: prod.splits)
  have "distinct (om_keys (fst (place_all b ch is gs)))" for b ch "is" gs
    unfolding place_all_def Let_def
    by (auto intro!: fold_keys_distinct [where k = fst] fold_keys_distinct [where k = "\<lambda>p. fst (fst p)"]
        grp iso simp del: distinct_map)
  then show ?thesis
    using assms by (auto simp: buildTreeLayout_def Let_def split: if_splits option.splits prod.splits) (metis fst_conv)
qed
lemma page_lines:
  assumes "distinct (map t_id tasks)" and "buildTreeLayout tasks = Some L"
  shows "l \<in> set (all_lines (page_rect (lr_nodes L)) (lr_nodes L)) \<longleftrightarrow>
    (\<exists>n m. (rl_src l, rl_tgt l) \<in> dep_rel tasks
       \<and> om_get (lr_nodes L) (rl_src l) = Some n \<and> om_get (lr_nodes L) (rl_tgt l) = Some m
       \<and> l = \<lparr>rl_src = t_id (tn_task n), rl_tgt = rl_tgt l, rl_x1 = node_left (tn_col n) + of_int NODE_W,
               rl_y1 = rowYOf (tn_row n), rl_x2 = node_left (tn_col m), rl_y2 = rowYOf (tn_row m),
               rl_status = t_status (tn_task n)\<rparr>)"
    (is "?L \<longleftrightarrow> ?R")
proof -
  note keys = layout_keys_distinct [OF assms(2)]
  have node: "t_id (tn_task n) = i \<and> set (tn_children n) = {c. (i, c) \<in> dep_rel tasks}"
    if "om_get (lr_nodes L) i = Some n" for i n
  proof -
    have "om_has (lr_nodes L) i" using that by (simp add: om_has_def)
    then obtain t where "t \<in> set tasks" "t_id t = i" using layout_nodes_ok [OF assms] by auto
    then show ?thesis using layout_nodes_ok [OF assms] that by auto
  qed
  show ?thesis
  proof
    assume ?L
    then obtain i n c where e: "(i, n) \<in> set (lr_nodes L)" "c \<in> set (tn_children n)"
      "measure_line (page_rect (lr_nodes L)) n c = Some l"
      unfolding all_lines_iff by auto
    then have get: "om_get (lr_nodes L) i = Some n" using keys by simp
    from e(3) node [OF get] get e(2) show ?R by (auto simp: page_measure)
  next
    assume ?R
    then obtain n m where r: "(rl_src l, rl_tgt l) \<in> dep_rel tasks"
      "om_get (lr_nodes L) (rl_src l) = Some n" "om_get (lr_nodes L) (rl_tgt l) = Some m"
      "l = \<lparr>rl_src = t_id (tn_task n), rl_tgt = rl_tgt l, rl_x1 = node_left (tn_col n) + of_int NODE_W,
          rl_y1 = rowYOf (tn_row n), rl_x2 = node_left (tn_col m), rl_y2 = rowYOf (tn_row m),
          rl_status = t_status (tn_task n)\<rparr>" by blast
    have "measure_line (page_rect (lr_nodes L)) n (rl_tgt l) = Some l"
      using r node [OF r(2)] unfolding page_measure by auto
    moreover have "rl_tgt l \<in> set (tn_children n)" using node [OF r(2)] r(1) by simp
    ultimately show ?L
      unfolding all_lines_iff using map_of_SomeD [OF r(2)] by (intro bexI [of _ "(rl_src l, n)"]) auto
  qed
qed

lemma page_rects:
  assumes "distinct (map t_id tasks)" and "buildTreeLayout tasks = Some L" and "om_get (lr_nodes L) i = Some n"
  shows "cell_rect i (tn_col n) (tn_row n) \<in> set (all_rects (page_rect (lr_nodes L)) (lr_nodes L))"
proof -
  have "om_has (lr_nodes L) i" using assms(3) by (simp add: om_has_def)
  then have "t_id (tn_task n) = i" using layout_nodes_ok [OF assms(1,2)] assms(3) by auto
  then show ?thesis
    using map_of_SomeD [OF assms(3)] assms(3)
    by (force simp: all_rects_def List.map_filter_def page_rect_def)
qed

lemma node_left_right: "a < b \<Longrightarrow> node_left a + of_int NODE_W + of_int GAP_X \<le> node_left b"
proof -
  assume "a < b"
  then have "(of_nat a + 1 :: rat) \<le> of_nat b" by (metis Suc_eq_plus1 Suc_leI of_nat_1 of_nat_add of_nat_le_iff)
  then show ?thesis by (simp add: node_left_def pitch_values)
qed

section \<open>Properties\<close>

text \<open>
  C19. In a phase without dependency cycles the page draws a line for exactly the dependencies of the
  phase, each from the right edge of the task depended on to the left edge of the dependent, over at
  least one column gap to the right; the path begins and ends there.
\<close>
theorem dependency_lines_complete:
  assumes "distinct (map t_id tasks)" and "acyclic (dep_rel tasks)" and "buildTreeLayout tasks = Some L"
  shows "{(rl_src l, rl_tgt l) | l p. (l, p) \<in> set (tree_lines (page_rect (lr_nodes L)) (lr_nodes L))} = dep_rel tasks
    \<and> (\<forall>(l, p)\<in>set (tree_lines (page_rect (lr_nodes L)) (lr_nodes L)).
         rl_x1 l + of_int GAP_X \<le> rl_x2 l
         \<and> (\<exists>cs. p = MoveTo (rl_x1 l) (rl_y1 l) # cs
              \<and> fst (pen (rl_x1 l, rl_y1 l) cs) = rl_x2 l \<and> \<bar>snd (pen (rl_x1 l, rl_y1 l) cs) - rl_y2 l\<bar> < 1))"
proof (intro conjI subset_antisym subrelI ballI)
  let ?N = "lr_nodes L"
  note page = page_lines [OF assms(1,3)]
  show "(a, b) \<in> dep_rel tasks"
    if "(a, b) \<in> {(rl_src l, rl_tgt l) | l p. (l, p) \<in> set (tree_lines (page_rect ?N) ?N)}" for a b
    using that unfolding tree_lines_iff page by blast
  show "(a, b) \<in> {(rl_src l, rl_tgt l) | l p. (l, p) \<in> set (tree_lines (page_rect ?N) ?N)}"
    if "(a, b) \<in> dep_rel tasks" for a b
  proof -
    have "om_has ?N a" "om_has ?N b"
      using dep_rel_ids [OF that] layout_nodes_ok [OF assms(1,3)] by auto
    then obtain n m where nm: "om_get ?N a = Some n" "om_get ?N b = Some m" by (auto simp: om_has_def)
    have "t_id (tn_task n) = a"
      using dep_rel_ids [OF that] layout_nodes_ok [OF assms(1,3)] nm by auto
    then have "\<exists>l. rl_src l = a \<and> rl_tgt l = b \<and> l \<in> set (all_lines (page_rect ?N) ?N)"
      unfolding page using nm that
      by (intro exI [of _ "\<lparr>rl_src = a, rl_tgt = b, rl_x1 = node_left (tn_col n) + of_int NODE_W,
          rl_y1 = rowYOf (tn_row n), rl_x2 = node_left (tn_col m), rl_y2 = rowYOf (tn_row m),
          rl_status = t_status (tn_task n)\<rparr>"]) simp
    then show ?thesis unfolding tree_lines_iff by blast
  qed
  show "case e of (l, p) \<Rightarrow> rl_x1 l + of_int GAP_X \<le> rl_x2 l
      \<and> (\<exists>cs. p = MoveTo (rl_x1 l) (rl_y1 l) # cs
           \<and> fst (pen (rl_x1 l, rl_y1 l) cs) = rl_x2 l \<and> \<bar>snd (pen (rl_x1 l, rl_y1 l) cs) - rl_y2 l\<bar> < 1)"
    if "e \<in> set (tree_lines (page_rect ?N) ?N)" for e
  proof -
    obtain l p where e: "e = (l, p)" by (cases e)
    from that e obtain n m where nm: "(rl_src l, rl_tgt l) \<in> dep_rel tasks"
      "om_get ?N (rl_src l) = Some n" "om_get ?N (rl_tgt l) = Some m"
      and l: "rl_x1 l = node_left (tn_col n) + of_int NODE_W" "rl_x2 l = node_left (tn_col m)"
      unfolding e tree_lines_iff page by (metis raw_line.select_convs(3,5))
    have "rl_x1 l + of_int GAP_X \<le> rl_x2 l"
      unfolding l by (rule node_left_right [OF layout_edges_right [OF assms nm]])
    with that show ?thesis unfolding e tree_lines_iff by (simp add: route_line_def route_ends)
  qed
qed

text \<open>
  A line between tasks of the same row, or of rows an odd distance apart, meets the box of no
  third task with any of its horizontal strokes.
\<close>
theorem dependency_line_clear:
  assumes "distinct (map t_id tasks)" and "buildTreeLayout tasks = Some L"
    and "(l, p) \<in> set (tree_lines (page_rect (lr_nodes L)) (lr_nodes L))"
    and "om_get (lr_nodes L) (rl_src l) = Some n" and "om_get (lr_nodes L) (rl_tgt l) = Some m"
    and "tn_row n = tn_row m \<or> odd (tn_row n + tn_row m)"
    and "om_get (lr_nodes L) k = Some b" and "k \<noteq> rl_src l" and "k \<noteq> rl_tgt l"
    and "s \<in> set (h_strokes (0, 0) p)"
  shows "\<not> meets_box (cell_rect k (tn_col b) (tn_row b)) s"
proof -
  have "l \<in> set (all_lines (page_rect (lr_nodes L)) (lr_nodes L))"
    using assms(3) unfolding tree_lines_iff by simp
  then have y: "rl_y1 l = rowYOf (tn_row n)" "rl_y2 l = rowYOf (tn_row m)"
    using assms(4,5) unfolding page_lines [OF assms(1,2)]
    by (metis option.inject raw_line.select_convs(4), metis option.inject raw_line.select_convs(6))
  show ?thesis
    using assms(3,8,9,10) unfolding tree_lines_iff route_line_def y snd_conv
    by (intro route_misses [OF assms(6) page_rects [OF assms(1,2,7)], of "[rl_src l, rl_tgt l]"]) auto
qed
text \<open>
  A gated phase keeps its gate in a column of its own: every task box, and the gap after it, ends left of
  the gate; gate and tasks lie between the two side markers and inside the page's height.
\<close>
theorem phase_page_fits:
  assumes "distinct (map t_id tasks)" and "buildTreeLayout tasks = Some L" and "om_get (lr_nodes L) i = Some n"
    and "g = phase_tree_geometry L hasGate"
  shows "MARKER_W + of_int GAP_X \<le> nr_left (cell_rect i (tn_col n) (tn_row n))
    \<and> nr_right (cell_rect i (tn_col n) (tn_row n)) + of_int GAP_X
        \<le> (if hasGate then tg_gateX g else tg_totalW g - MARKER_W)
    \<and> (hasGate \<longrightarrow> tg_gateX g + of_int NODE_W + of_int GAP_X = tg_totalW g - MARKER_W)
    \<and> 0 \<le> nr_top (cell_rect i (tn_col n) (tn_row n)) \<and> nr_bottom (cell_rect i (tn_col n) (tn_row n)) \<le> tg_treeH g"
proof -
  have "om_has (lr_nodes L) i" using assms(3) by (simp add: om_has_def)
  then have "tn_col n \<le> lr_maxCol L" "tn_row n \<le> lr_maxRow L"
    using layout_nodes_ok [OF assms(1,2)] assms(3) by auto
  then have "(of_nat (tn_col n) :: rat) \<le> of_nat (lr_maxCol L)" "(of_nat (tn_row n) :: rat) \<le> of_nat (lr_maxRow L)"
    unfolding of_nat_le_iff .
  then show ?thesis
    by (simp add: assms(4) phase_tree_geometry_def Let_def cell_rect_def node_left_def node_top_def pitch_values)
qed

text \<open>
  Rows an even distance apart are not protected: the detour runs at the mean of the two row centres, which is
  the centre of the row in between, so it goes straight through the boxes of that row.
\<close>

definition crossing_tasks :: "task list" where
  "crossing_tasks = [dep_task ''A'' [], dep_task ''B0'' [''A''], dep_task ''B1'' [''A''],
     dep_task ''T0'' [''A'', ''B0''], dep_task ''T1'' [''A'', ''B0''], dep_task ''T2'' [''A'', ''B0'']]"

definition page_lines_of :: "task list \<Rightarrow> (raw_line \<times> path_cmd list) list" where
  "page_lines_of tasks = (case buildTreeLayout tasks of None \<Rightarrow> []
     | Some L \<Rightarrow> tree_lines (page_rect (lr_nodes L)) (lr_nodes L))"

definition page_box :: "task list \<Rightarrow> string \<Rightarrow> node_rect option" where
  "page_box tasks i = (case buildTreeLayout tasks of None \<Rightarrow> None | Some L \<Rightarrow> page_rect (lr_nodes L) i)"

lemma crossing_lines:
  "map (\<lambda>(l, p). (rl_src l, rl_tgt l, h_strokes (0, 0) p))
     (filter (\<lambda>(l, p). rl_src l = ''A'' \<and> rl_tgt l = ''T2'') (page_lines_of crossing_tasks)) =
   [(''A'', ''T2'', [(408, 704, 132)])]"
  by code_simp

lemma crossing_box:
  "map_option (\<lambda>r. (nr_left r, nr_right r, nr_top r, nr_bottom r)) (page_box crossing_tasks ''B1'') =
     Some (436, 676, 96, 168)"
  by code_simp

lemma line_of_row:
  "(a, b, s) \<in> set (map (\<lambda>(l, p). (rl_src l, rl_tgt l, h_strokes (0, 0) p)) (filter P xs)) \<Longrightarrow>
     \<exists>l p. (l, p) \<in> set xs \<and> rl_src l = a \<and> rl_tgt l = b \<and> h_strokes (0, 0) p = s"
  by force

text \<open>
  The line from A to T2, two rows below it, crosses the box of B1 although it was rerouted to avoid boxes.
\<close>
theorem detour_through_box:
  "\<exists>l p r s. (l, p) \<in> set (page_lines_of crossing_tasks) \<and> rl_src l = ''A'' \<and> rl_tgt l = ''T2''
     \<and> page_box crossing_tasks ''B1'' = Some r \<and> s \<in> set (h_strokes (0, 0) p) \<and> meets_box r s"
proof -
  from crossing_lines have "(''A'', ''T2'', [(408, 704, 132)]) \<in>
      set (map (\<lambda>(l, p). (rl_src l, rl_tgt l, h_strokes (0, 0) p))
        (filter (\<lambda>(l, p). rl_src l = ''A'' \<and> rl_tgt l = ''T2'') (page_lines_of crossing_tasks)))" by simp
  from line_of_row [OF this]
  obtain l p where l: "(l, p) \<in> set (page_lines_of crossing_tasks)" "rl_src l = ''A''" "rl_tgt l = ''T2''"
    and s: "h_strokes (0, 0) p = [(408, 704, 132)]" by blast
  obtain r where r: "page_box crossing_tasks ''B1'' = Some r" and box: "nr_left r = 436" "nr_right r = 676"
    "nr_top r = 96" "nr_bottom r = 168" using crossing_box by auto
  have "meets_box r (408, 704, 132)"
    by (auto simp: meets_box_def box intro!: exI [of _ 500])
  with l r s show ?thesis by fastforce
qed

section \<open>Witnesses\<close>

lemma crossing_test_exact_witness:
  "segmentCrossesAnyBox 0 10 5 [cell_rect ''k'' 0 0] [] = (\<exists>r\<in>set [cell_rect ''k'' 0 0].
     nr_id r \<notin> set [] \<and> meets_box r (0, 10, 5)) \<and> nr_id (cell_rect ''k'' 0 0) = ''k''"
  using crossing_test_exact [of "[cell_rect ''k'' 0 0]" 0 10 5 "[]"]
  by (simp add: cell_rect_def pitch_values)

lemma dependency_lines_complete_witness:
  "{(rl_src l, rl_tgt l) | l p. (l, p) \<in> set (tree_lines (page_rect (lr_nodes good_layout)) (lr_nodes good_layout))} =
     {(''a'', ''b''), (''a'', ''c''), (''b'', ''c'')}"
  using dependency_lines_complete [OF good_distinct good_acyclic good_layout] unfolding good_rel by (rule conjunct1)

lemma good_line:
  "map (\<lambda>(l, p). (rl_src l, rl_tgt l, h_strokes (0, 0) p))
     (tree_lines (page_rect (lr_nodes good_layout)) (lr_nodes good_layout)) =
   [(''a'', ''b'', [(408, 436, 36)]), (''a'', ''c'', [(408, 704, 84)]), (''b'', ''c'', [(676, 704, 36)])]"
proof -
  have "map (\<lambda>(l, p). (rl_src l, rl_tgt l, h_strokes (0, 0) p)) (page_lines_of good_tasks) =
     [(''a'', ''b'', [(408, 436, 36)]), (''a'', ''c'', [(408, 704, 84)]), (''b'', ''c'', [(676, 704, 36)])]"
    by code_simp
  then show ?thesis by (simp add: page_lines_of_def good_layout)
qed

lemma dependency_line_clear_witness:
  "\<not> meets_box (cell_rect ''b'' 1 0) (408, 704, 84)"
proof -
  from good_line have "(''a'', ''c'', [(408, 704, 84)]) \<in> set (map (\<lambda>(l, p). (rl_src l, rl_tgt l, h_strokes (0, 0) p))
     (filter (\<lambda>_. True) (tree_lines (page_rect (lr_nodes good_layout)) (lr_nodes good_layout))))" by simp
  from line_of_row [OF this]
  obtain l p where l: "(l, p) \<in> set (tree_lines (page_rect (lr_nodes good_layout)) (lr_nodes good_layout))"
    "rl_src l = ''a''" "rl_tgt l = ''c''" and s: "h_strokes (0, 0) p = [(408, 704, 84)]" by blast
  obtain a b c where n: "om_get (lr_nodes good_layout) ''a'' = Some a" "tn_row a = 0"
    "om_get (lr_nodes good_layout) ''b'' = Some b" "tn_col b = 1" "tn_row b = 0"
    "om_get (lr_nodes good_layout) ''c'' = Some c" "tn_row c = 0" using good_layout_cols by auto
  show ?thesis
    using dependency_line_clear [OF good_distinct good_layout l(1), of a c "''b''" b "(408, 704, 84)"] l n s by simp
qed

lemma phase_page_fits_witness:
  "(28::rat) + 140 \<le> nr_left (cell_rect ''a'' 0 0)
   \<and> nr_right (cell_rect ''a'' 0 0) + 28 \<le> tg_gateX (phase_tree_geometry good_layout True)"
proof -
  obtain a where "om_get (lr_nodes good_layout) ''a'' = Some a" "tn_row a = 0" "tn_col a = 0"
    using good_layout_cols by auto
  then show ?thesis
    using phase_page_fits [OF good_distinct good_layout, of "''a''" a _ True, OF _ refl] by (simp add: pitch_values)
qed
end
