(* ===== verification/PipelineView.thy ===== *)
theory PipelineView
  imports PlanUtils Connectors
begin

text \<open>
  The plan pipeline, \<open>components/Pipeline.tsx\<close>: the task and gate cards with their bars, chips and icons,
  the gate prompt, the phase rail, and the component's state (expanded phase, selected task) with its
  stored copy. Colours are the CSS texts of \<open>utils/cssVars.ts\<close>. The geometry is in \<open>Connectors\<close>.
\<close>

section \<open>Colours\<close>

definition pv :: "string \<Rightarrow> string" where
  "pv path = ''var(--mui-palette-'' @ path @ '')''"

definition pva :: "string \<Rightarrow> rat \<Rightarrow> string" where
  "pva path opacity =
     ''color-mix(in srgb, var(--mui-palette-'' @ path @ '') '' @ string_of_int (js_round (opacity * 100)) @ ''%, transparent)''"

definition status_path :: "task_status \<Rightarrow> string" where
  "status_path s = ''status-'' @ task_status_text s"

definition taskNodeBorderColor :: "bool \<Rightarrow> task_status \<Rightarrow> string \<Rightarrow> string" where
  "taskNodeBorderColor linked s path =
     (if linked then pv ''primary-main'' else if s = TWip then pva path (1 / 2) else pv ''outlineVariant'')"

definition taskNodeBoxShadow :: "bool \<Rightarrow> task_status \<Rightarrow> string \<Rightarrow> string" where
  "taskNodeBoxShadow linked s path =
     (if linked then ''0 0 0 2px '' @ pva ''primary-main'' (3 / 10) @ '', 0 4px 12px '' @ pva ''primary-main'' (15 / 100)
      else if s = TWip then ''0 0 0 1px '' @ pva path (15 / 100) @ '', 0 2px 8px '' @ pva path (12 / 100)
      else ''0 1px 2px '' @ pva ''text-primary'' (4 / 100))"

definition phaseEntryColor :: "task_status option \<Rightarrow> string \<Rightarrow> string" where
  "phaseEntryColor s fallback = (if s = Some TDone \<or> s = Some TWip then pv ''wf-signal'' else fallback)"

definition phaseStatusColor :: "task_status \<Rightarrow> string" where
  "phaseStatusColor s = phaseEntryColor (Some s) (pva ''text-secondary'' (3 / 10))"

definition line_color :: "task_status \<Rightarrow> string" where
  "line_color s = phaseEntryColor (Some s) (pva ''text-primary'' (35 / 100))"

definition entry_color :: "node_map \<Rightarrow> task_status option \<Rightarrow> string" where
  "entry_color nodes prev =
     (let someRootActive = list_ex (\<lambda>i. case om_get nodes i of None \<Rightarrow> False
            | Some n \<Rightarrow> t_status (tn_task n) = TDone \<or> t_status (tn_task n) = TWip) (root_ids nodes)
      in case prev of
           Some s \<Rightarrow> phaseEntryColor (Some s) (pva ''text-secondary'' (3 / 10))
         | None \<Rightarrow> (if someRootActive then pv ''wf-signal'' else pva ''text-secondary'' (3 / 10)))"

definition gate_exit_color :: "gate \<Rightarrow> string" where
  "gate_exit_color g = (if g_passed g then pv ''wf-signal'' else pva ''text-secondary'' (3 / 10))"

text \<open>The dot of a status: which icon is drawn.\<close>

fun status_dot :: "task_status \<Rightarrow> string" where
  "status_dot TDone = ''CheckCircleIcon''"
| "status_dot TFailed = ''ErrorIcon''"
| "status_dot TSkipped = ''RemoveCircleOutlineIcon''"
| "status_dot TWip = ''FiberManualRecordIcon''"
| "status_dot TPending = ''RadioButtonUncheckedIcon''"
| "status_dot TBlocked = ''RadioButtonUncheckedIcon''"

section \<open>Gates\<close>

fun checklistItemText :: "checklist_item \<Rightarrow> string" where
  "checklistItemText (PlainItem s) = s"
| "checklistItemText (CheckedItem s c) = s"

datatype gate_icon = GiPassed | GiHuman | GiFailed | GiPending | GiUnchecked

definition gateItemIcon :: "enriched_checklist_item \<Rightarrow> bool \<Rightarrow> gate_icon" where
  "gateItemIcon i gatePassed =
     (if gatePassed then GiPassed
      else if ei_kind i = KHuman then GiHuman
      else if ei_lastResult i = Some RPassed then GiPassed
      else if ei_lastResult i = Some RFailed \<or> ei_lastResult i = Some RTimeout then GiFailed
      else GiPending)"

definition shouldShowGatePrompt :: "gate \<Rightarrow> bool" where
  "shouldShowGatePrompt g =
     (case g_enrichedChecklist g of
        None \<Rightarrow> True
      | Some es \<Rightarrow>
          if length es = 0 then False
          else \<not> list_all (\<lambda>i. ei_kind i = KShell \<and> ei_lastResult i = Some RPassed) es)"

definition gate_total :: "gate \<Rightarrow> nat" where
  "gate_total g = (case g_enrichedChecklist g of Some es \<Rightarrow> length es | None \<Rightarrow> length (g_checklist g))"

definition passed_items :: "enriched_checklist_item list \<Rightarrow> nat" where
  "passed_items es = length (filter (\<lambda>i. ei_lastResult i = Some RPassed) es)"

definition gateNodeSummary :: "gate \<Rightarrow> string" where
  "gateNodeSummary g =
     (let total = string_of_nat (gate_total g)
      in if g_passed g then total @ ''/'' @ total @ '' checks''
         else case g_enrichedChecklist g of
           None \<Rightarrow> ''0/'' @ total @ '' checks''
         | Some es \<Rightarrow>
             (let passed = passed_items es;
                  hasHumanRemaining = list_ex (\<lambda>i. ei_kind i = KHuman \<and> ei_lastResult i \<noteq> Some RPassed) es
              in if passed > 0 \<and> hasHumanRemaining then string_of_nat passed @ ''/'' @ total @ '' auto-passed''
                 else string_of_nat passed @ ''/'' @ total @ '' checks''))"

definition GateProgressBar :: "gate \<Rightarrow> int \<times> wf_status" where
  "GateProgressBar g =
     (if g_passed g then (100, WfCompleted)
      else (let total = gate_total g;
                d = (case g_enrichedChecklist g of Some es \<Rightarrow> passed_items es | None \<Rightarrow> 0)
            in (if total > 0 then js_round (of_nat d / of_nat total * 100) else 0, WfRunning)))"

definition GatePopoverChecklist :: "gate \<Rightarrow> (gate_icon \<times> string) list" where
  "GatePopoverChecklist g =
     (case g_enrichedChecklist g of
        Some es \<Rightarrow> map (\<lambda>i. (gateItemIcon i (g_passed g), ei_item i)) es
      | None \<Rightarrow> map (\<lambda>i. (if g_passed g then GiPassed else GiUnchecked, checklistItemText i)) (g_checklist g))"

definition buildGatePrompt :: "phase \<Rightarrow> string option \<Rightarrow> string" where
  "buildGatePrompt p planName =
     (case ph_gate p of
        None \<Rightarrow> ''''
      | Some g \<Rightarrow>
          (let nl = [CHR 0x0A]; dq = [CHR 0x22]; sq = [CHR 0x27];
               command = (case g_command g of Some c \<Rightarrow> c | None \<Rightarrow> '''');
               checklist = join_with nl (map (\<lambda>(i, item). string_of_nat (i + 1) @ ''. '' @ checklistItemText item)
                             (enumerate 0 (g_checklist g)));
               cmdLine = (if command = '''' then '''' else nl @ ''Verification command: '' @ command);
               lines = [''We are closing phase '' @ dq @ ph_name p @ dq @ '' from execution plan '' @ dq
                          @ (case planName of Some n \<Rightarrow> n | None \<Rightarrow> ''unknown'') @ dq @ ''.'',
                        ''Verify the '' @ dq @ g_name g @ dq @ '' gate checks:'',
                        '''', checklist, cmdLine, '''',
                        ''Run the verification'' @ (if command = '''' then '''' else '' command'')
                          @ '', confirm all checks pass, then update the execution plan YAML to set this gate'' @ sq
                          @ ''s passed: true.'']
           in join_with nl (filter (\<lambda>l. l \<noteq> '''') lines)))"

section \<open>Task cards\<close>

definition branch_feature :: "string \<Rightarrow> string" where
  "branch_feature b = last (split_on (CHR ''/'') b)"

definition active_session :: "session_status \<Rightarrow> bool" where
  "active_session s \<longleftrightarrow> s \<in> {SWorking, SNeedsInput, SIdle}"

definition findSessionForTask :: "string \<Rightarrow> session list \<Rightarrow> task_status option \<Rightarrow> session option" where
  "findSessionForTask taskId sessions status =
     find (\<lambda>s. if branch_feature (s_branch s) \<noteq> taskId then False
               else if status = Some TPending \<and> \<not> active_session (s_status s) then False
               else True) sessions"

definition linked_highlight :: "string option \<Rightarrow> task \<Rightarrow> bool" where
  "linked_highlight hovered t =
     (let f = (case hovered of Some b \<Rightarrow> branch_feature b | None \<Rightarrow> '''') in f \<noteq> '''' \<and> f = t_id t)"

record task_chip =
  tc_label :: string
  tc_status :: "wf_status option"
  tc_pulse :: bool

definition buildTaskChips :: "task \<Rightarrow> session option \<Rightarrow> autopilot_session option \<Rightarrow> task_chip list" where
  "buildTaskChips t sess auto =
     (let chips = (if t_status t = TFailed
                   then [\<lparr>tc_label = ''fix'', tc_status = Some WfFault, tc_pulse = False\<rparr>] else []);
          suppress = (case auto of Some a \<Rightarrow> as_status a = ASRunning | None \<Rightarrow> False)
      in case sess of
           Some s \<Rightarrow>
             if t_status t = TWip \<and> \<not> suppress then
               (if s_status s = SNeedsInput
                then chips @ [\<lparr>tc_label = ''needs input'', tc_status = Some WfFault, tc_pulse = True\<rparr>]
                else if s_status s = SStopped \<or> s_status s = SStale
                then chips @ [\<lparr>tc_label = ''paused'', tc_status = None, tc_pulse = False\<rparr>]
                else chips)
             else chips
         | None \<Rightarrow> chips)"

definition flow_labels :: "(string, string) omap" where
  "flow_labels =
     [(''started'', ''Started''), (''ba'', ''BA''), (''design'', ''Design''), (''plan'', ''Plan''),
      (''team-review'', ''T-Rev''), (''review'', ''Review''), (''implement'', ''Impl''),
      (''static-analysis'', ''SA''), (''manualtest'', ''Test''), (''team-qa'', ''T-QA''),
      (''commit'', ''Commit''), (''done'', ''Done'')]"

definition task_phase_label :: "task \<Rightarrow> session option \<Rightarrow> autopilot_session option \<Rightarrow> string option" where
  "task_phase_label t sess auto =
     (case effectivePhaseProgress t sess auto of
        None \<Rightarrow> None
      | Some live \<Rightarrow>
          if ep_phase live = '''' \<or> t_status t = TDone \<or> t_status t = TFailed then None
          else Some (om_get_or (ep_phase live) flow_labels (ep_phase live)))"

text \<open>
  \<open>TaskProgressBar\<close>: \<open>None\<close> draws nothing. A flow with no phases divides by zero: \<open>None\<close> as the percentage
  is the infinite value JavaScript prints.
\<close>

record task_bar =
  tb_status :: wf_status
  tb_pct :: "int option"
  tb_steel :: bool

definition is_stuck :: "task \<Rightarrow> session option \<Rightarrow> bool" where
  "is_stuck t sess \<longleftrightarrow> (case sess of Some s \<Rightarrow> s_status s = SNeedsInput | None \<Rightarrow> False)
     \<and> t_status t \<noteq> TDone \<and> t_status t \<noteq> TFailed"

definition live_pct :: "effective_progress option \<Rightarrow> int option" where
  "live_pct live =
     (case live of
        None \<Rightarrow> Some 50
      | Some l \<Rightarrow> if ep_total l = 0 then None
                  else Some (js_round ((of_int (ep_completed l) + 1 / 2) / of_int (ep_total l) * 100)))"

definition TaskProgressBar :: "task \<Rightarrow> session option \<Rightarrow> autopilot_session option \<Rightarrow> task_bar option" where
  "TaskProgressBar t sess auto =
     (let live = effectivePhaseProgress t sess auto;
          wfStatus = taskStatusToWfStatus (t_status t);
          renderActive = (case live of Some l \<Rightarrow> ep_isActive l | None \<Rightarrow> False);
          isStuck = is_stuck t sess
      in if \<not> renderActive \<and> \<not> isStuck \<and> wfStatus = None then None
         else (let visual = (if t_status t = TDone then WfCompleted
                             else if t_status t = TFailed then WfFault
                             else if isStuck then WfFault
                             else if renderActive then WfRunning
                             else (case wfStatus of Some w \<Rightarrow> w | None \<Rightarrow> WfQueued));
                   pct = (if visual = WfRunning \<or> isStuck then live_pct live else Some 100)
               in Some \<lparr>tb_status = visual, tb_pct = pct, tb_steel = (visual = WfRunning \<or> isStuck)\<rparr>))"

definition autopilotIconOpacity :: "task_status \<Rightarrow> autopilot_session option \<Rightarrow> rat" where
  "autopilotIconOpacity s auto = (if s = TDone \<and> auto = None then 1 / 2 else 85 / 100)"

fun autopilot_status_text :: "autopilot_session_status \<Rightarrow> string" where
  "autopilot_status_text ASRunning = ''running''"
| "autopilot_status_text ASCompleted = ''completed''"
| "autopilot_status_text ASFailed = ''failed''"

definition autopilotTooltipTitle :: "autopilot_session option \<Rightarrow> string" where
  "autopilotTooltipTitle auto =
     (case auto of Some a \<Rightarrow> ''Autopilot '' @ autopilot_status_text (as_status a) | None \<Rightarrow> ''Autopilot eligible'')"

text \<open>
  A task card as it is read: dot, id, the name shown on hovering, the mode mark with its tooltip (a radar mark
  that sweeps while the autopilot runs, or the manual icon), chips, the kind of work, phase label and bar.
\<close>

datatype mode_mark = RadarMark bool bool | ManualIcon

definition mode_mark_of :: "task \<Rightarrow> autopilot_session option \<Rightarrow> string \<times> mode_mark" where
  "mode_mark_of t auto =
     (if taskExecutionMode t = EmAutopilot then
        (let full = (t_pipeline t = Some ''full'')
         in (autopilotTooltipTitle auto @ '' '' @ mdot @ '' ''
               @ (if full then ''full'' else ''light'') @ '' pipeline'',
             RadarMark (case auto of Some a \<Rightarrow> as_status a = ASRunning | None \<Rightarrow> False) full))
      else (''Manual task'', ManualIcon))"

definition TaskNodeExtrasV2 :: "task \<Rightarrow> (wf_phase_type option \<times> bool \<times> string) option" where
  "TaskNodeExtrasV2 t =
     map_option (\<lambda>ty. (taskTypeToWfPhase (Some (task_type_text ty)), t_status t = TWip,
        taskTypeLabel (Some (task_type_text ty)))) (t_task_type t)"

record task_card =
  tk_dot :: string
  tk_title :: string
  tk_hover :: string
  tk_emphasis :: bool
  tk_linked :: bool
  tk_border :: string
  tk_shadow :: string
  tk_mode :: "string \<times> mode_mark"
  tk_mode_opacity :: rat
  tk_chips :: "task_chip list"
  tk_kind :: "(wf_phase_type option \<times> bool \<times> string) option"
  tk_phase :: "string option"
  tk_bar :: "task_bar option"

definition TaskNodeCard ::
    "string option \<Rightarrow> bool \<Rightarrow> task \<Rightarrow> session option \<Rightarrow> autopilot_session option \<Rightarrow> task_card" where
  "TaskNodeCard hovered isV2 t sess auto =
     (let linked = linked_highlight hovered t
      in \<lparr>tk_dot = status_dot (t_status t), tk_title = t_id t, tk_hover = t_name t,
          tk_emphasis = (t_status t = TWip), tk_linked = linked,
          tk_border = taskNodeBorderColor linked (t_status t) (status_path (t_status t)),
          tk_shadow = taskNodeBoxShadow linked (t_status t) (status_path (t_status t)),
          tk_mode = mode_mark_of t auto, tk_mode_opacity = autopilotIconOpacity (t_status t) auto,
          tk_chips = buildTaskChips t sess auto, tk_kind = (if isV2 then TaskNodeExtrasV2 t else None),
          tk_phase = task_phase_label t sess auto, tk_bar = TaskProgressBar t sess auto\<rparr>)"

text \<open>The cards of an expanded phase, each with its cell, in the order of the layout.\<close>

definition phase_cards ::
    "layout_result \<Rightarrow> string option \<Rightarrow> bool \<Rightarrow> session list \<Rightarrow> autopilot_session list \<Rightarrow> (rat \<times> rat \<times> task_card) list" where
  "phase_cards L hovered isV2 sessions autos =
     map (\<lambda>e. let n = snd e; t = tn_task n
              in (node_left (tn_col n), node_top (tn_row n),
                  TaskNodeCard hovered isV2 t (findSessionForTask (t_id t) sessions (Some (t_status t)))
                    (find (\<lambda>a. as_task a = t_id t) autos)))
       (lr_nodes L)"

text \<open>The gate's card and the popover behind it.\<close>

record gate_card =
  gc_dashed :: bool
  gc_lock :: string
  gc_name :: string
  gc_summary :: string
  gc_bar :: "int \<times> wf_status"
  gc_rows :: "(gate_icon \<times> string) list"
  gc_prompt :: "string option"

definition GateColumn :: "phase \<Rightarrow> string option \<Rightarrow> gate_card option" where
  "GateColumn p planName =
     map_option (\<lambda>g. \<lparr>gc_dashed = (\<not> g_passed g), gc_lock = (if g_passed g then ''LockOpenIcon'' else ''LockIcon''),
        gc_name = g_name g, gc_summary = gateNodeSummary g, gc_bar = GateProgressBar g,
        gc_rows = GatePopoverChecklist g,
        gc_prompt = (if shouldShowGatePrompt g then Some (buildGatePrompt p planName) else None)\<rparr>) (ph_gate p)"

section \<open>The pipeline's state\<close>

definition allTasks :: "plan \<Rightarrow> (string, task) omap" where
  "allTasks pl = fold (\<lambda>p m. fold (\<lambda>t. om_set (t_id t) t) (ph_tasks p) m) (pl_phases pl) []"

definition add_running :: "autopilot_session \<Rightarrow> (string, rat) omap \<Rightarrow> (string, rat) omap" where
  "add_running a m =
     (if as_status a \<noteq> ASRunning \<or> as_task a = '''' then m
      else (case autopilotPhaseFraction (Some a) of
              None \<Rightarrow> m
            | Some ratio \<Rightarrow> om_set (as_task a) ratio m))"

definition runningTaskProgress :: "autopilot_session list option \<Rightarrow> (string, rat) omap" where
  "runningTaskProgress autos = fold add_running (case autos of Some as \<Rightarrow> as | None \<Rightarrow> []) []"

definition getStorageKey :: "string \<Rightarrow> string" where
  "getStorageKey name = ''pipeline-expanded-'' @ name"

definition loadExpandedPhase :: "string option \<Rightarrow> phase list \<Rightarrow> string option" where
  "loadExpandedPhase raw ps =
     (case raw of
        None \<Rightarrow> None
      | Some r \<Rightarrow>
          if r = '''' then None
          else (case json_parse r of
                  Some (JStr i) \<Rightarrow> (if list_ex (\<lambda>p. ph_id p = i) ps then Some i else None)
                | _ \<Rightarrow> None))"

definition saveExpandedPhase :: "bool \<Rightarrow> string option \<Rightarrow> string option \<Rightarrow> string option" where
  "saveExpandedPhase fails phaseId store =
     (if fails then store else Some (stringify (case phaseId of Some i \<Rightarrow> JStr i | None \<Rightarrow> JNull)))"

definition initial_expanded :: "string option \<Rightarrow> phase list \<Rightarrow> string option" where
  "initial_expanded raw ps =
     (case loadExpandedPhase raw ps of
        Some i \<Rightarrow> if i = '''' then map_option ph_id (find (\<lambda>p. phaseStatus p \<in> {TWip, TFailed}) ps) else Some i
      | None \<Rightarrow> map_option ph_id (find (\<lambda>p. phaseStatus p \<in> {TWip, TFailed}) ps))"

text \<open>
  When the component is mounted the rail scrolls so that the card of the expanded phase is in its middle; the widths
  and the card's offset are measured. The browser keeps the position between zero and a limit.
\<close>

definition rail_target :: "rat \<Rightarrow> rat \<Rightarrow> rat \<Rightarrow> rat" where
  "rail_target offsetLeft offsetWidth clientWidth = max 0 (offsetLeft + offsetWidth / 2 - clientWidth / 2)"

definition rail_effect :: "rat option \<Rightarrow> (rat \<times> rat) option \<Rightarrow> rat \<Rightarrow> rat" where
  "rail_effect rail activeCard scrollLeft =
     (case (rail, activeCard) of
        (Some clientWidth, Some (offsetLeft, offsetWidth)) \<Rightarrow> rail_target offsetLeft offsetWidth clientWidth
      | _ \<Rightarrow> scrollLeft)"

lemma rail_shows_active_card:
  assumes "0 \<le> x" and "w \<le> client" and "x + w \<le> limit + client"
    and "pos = min limit (rail_effect (Some client) (Some (x, w)) old)"
  shows "pos \<le> x \<and> x + w \<le> pos + client"
  using assms by (auto simp: rail_effect_def rail_target_def min_def max_def)

record pipeline_state =
  pp_expanded :: "string option"
  pp_selected :: "task option"
  pp_store :: "string option"

definition pipeline_mount :: "string option \<Rightarrow> plan \<Rightarrow> pipeline_state" where
  "pipeline_mount store pl =
     \<lparr>pp_expanded = initial_expanded store (pl_phases pl), pp_selected = None, pp_store = store\<rparr>"

definition togglePhase :: "bool \<Rightarrow> string \<Rightarrow> pipeline_state \<Rightarrow> pipeline_state" where
  "togglePhase fails i st =
     (let nxt = (if pp_expanded st = Some i then None else Some i)
      in st\<lparr>pp_expanded := nxt, pp_store := saveExpandedPhase fails nxt (pp_store st)\<rparr>)"

definition handleTaskClick :: "task \<Rightarrow> pipeline_state \<Rightarrow> pipeline_state" where
  "handleTaskClick t st = st\<lparr>pp_selected := Some t\<rparr>"

definition select_task :: "plan \<Rightarrow> string \<Rightarrow> pipeline_state \<Rightarrow> pipeline_state" where
  "select_task pl i st = (case om_get (allTasks pl) i of Some t \<Rightarrow> st\<lparr>pp_selected := Some t\<rparr> | None \<Rightarrow> st)"

definition close_task :: "pipeline_state \<Rightarrow> pipeline_state" where
  "close_task st = st\<lparr>pp_selected := None\<rparr>"

definition selectedAutopilot :: "autopilot_session list option \<Rightarrow> pipeline_state \<Rightarrow> autopilot_session option" where
  "selectedAutopilot autos st =
     (case pp_selected st of
        None \<Rightarrow> None
      | Some t \<Rightarrow> (case autos of Some as \<Rightarrow> find (\<lambda>a. as_task a = t_id t) as | None \<Rightarrow> None))"

text \<open>The first phase after the first one that holds the task decides.\<close>

fun previous_gate :: "string \<Rightarrow> phase list \<Rightarrow> (string \<times> bool) option" where
  "previous_gate i (p # q # ps) =
     (if list_ex (\<lambda>t. t_id t = i) (ph_tasks q)
      then map_option (\<lambda>g. (g_name g, g_passed g)) (ph_gate p)
      else previous_gate i (q # ps))"
| "previous_gate i ps = None"

definition selectedPreviousGate :: "plan \<Rightarrow> pipeline_state \<Rightarrow> (string \<times> bool) option" where
  "selectedPreviousGate pl st =
     (case pp_selected st of None \<Rightarrow> None | Some t \<Rightarrow> previous_gate (t_id t) (pl_phases pl))"

definition expandedPhase :: "plan \<Rightarrow> pipeline_state \<Rightarrow> phase option" where
  "expandedPhase pl st = find (\<lambda>p. Some (ph_id p) = pp_expanded st) (pl_phases pl)"

definition expandedPhaseIdx :: "plan \<Rightarrow> pipeline_state \<Rightarrow> int" where
  "expandedPhaseIdx pl st =
     (case pp_expanded st of
        None \<Rightarrow> - 1
      | Some i \<Rightarrow> (case index_of i (map ph_id (pl_phases pl)) of Some n \<Rightarrow> int n | None \<Rightarrow> - 1))"

record phase_marker =
  pm_id :: string
  pm_name :: string
  pm_status :: task_status
  pm_progress :: progress

definition phase_marker_of :: "(string, rat) omap \<Rightarrow> phase \<Rightarrow> phase_marker" where
  "phase_marker_of ov p =
     \<lparr>pm_id = ph_id p, pm_name = ph_name p, pm_status = phaseStatusWithOverlay p ov,
      pm_progress = phaseProgressWithOverlay p ov\<rparr>"

definition prevPhase :: "plan \<Rightarrow> (string, rat) omap \<Rightarrow> pipeline_state \<Rightarrow> phase_marker option" where
  "prevPhase pl ov st =
     (let i = expandedPhaseIdx pl st
      in if i \<le> 0 then None else Some (phase_marker_of ov (pl_phases pl ! nat (i - 1))))"

definition nextPhase :: "plan \<Rightarrow> (string, rat) omap \<Rightarrow> pipeline_state \<Rightarrow> phase_marker option" where
  "nextPhase pl ov st =
     (let i = expandedPhaseIdx pl st
      in if i < 0 \<or> i \<ge> int (length (pl_phases pl)) - 1 then None
         else Some (phase_marker_of ov (pl_phases pl ! nat (i + 1))))"

text \<open>The rail: a card per phase; the connector before a card flows when the phase before is under way or done.\<close>

record phase_card =
  pc_label :: string
  pc_active :: bool
  pc_status :: task_status
  pc_progress :: progress

definition CompactPhaseCard :: "(string, rat) omap \<Rightarrow> pipeline_state \<Rightarrow> phase \<Rightarrow> phase_card" where
  "CompactPhaseCard ov st p =
     (let pr = phaseProgressWithOverlay p ov
      in \<lparr>pc_label = ph_name p @ '', '' @ string_of_int (pr_pct pr) @ ''% complete, '' @ string_of_nat (pr_done pr)
            @ '' of '' @ string_of_nat (pr_total pr) @ '' tasks done'',
          pc_active = (pp_expanded st = Some (ph_id p)), pc_status = phaseStatusWithOverlay p ov, pc_progress = pr\<rparr>)"

definition connector_flow :: "task_status \<Rightarrow> bool" where
  "connector_flow s \<longleftrightarrow> s = TDone \<or> s = TWip"

definition rail :: "plan \<Rightarrow> (string, rat) omap \<Rightarrow> pipeline_state \<Rightarrow> (bool option \<times> phase_card) list" where
  "rail pl ov st =
     map (\<lambda>(i, p). (if i > 0 then Some (connector_flow (phaseStatusWithOverlay (pl_phases pl ! (i - 1)) ov)) else None,
                    CompactPhaseCard ov st p))
       (enumerate 0 (pl_phases pl))"

definition phase_panel :: "plan \<Rightarrow> pipeline_state \<Rightarrow> (string \<times> task list option) option" where
  "phase_panel pl st =
     (case expandedPhase pl st of
        None \<Rightarrow> None
      | Some p \<Rightarrow> Some (''TASKS '' @ mdot @ '' '' @ ph_name p,
                        if length (ph_tasks p) = 0 then None else Some (ph_tasks p)))"

section \<open>Lookups\<close>

lemma fold_tasks_get:
  "om_get (fold (\<lambda>t. om_set (t_id t) t) ts m) i = Some t \<Longrightarrow> om_get m i \<noteq> Some t \<Longrightarrow> t \<in> set ts \<and> t_id t = i"
  by (induction ts arbitrary: m) (force split: if_splits)+

lemma allTasks_sound: "om_get (allTasks pl) i = Some t \<Longrightarrow> t_id t = i \<and> (\<exists>p\<in>set (pl_phases pl). t \<in> set (ph_tasks p))"
proof -
  have "om_get (fold (\<lambda>p m. fold (\<lambda>t. om_set (t_id t) t) (ph_tasks p) m) ps m) i = Some t \<Longrightarrow>
      om_get m i \<noteq> Some t \<Longrightarrow> t_id t = i \<and> (\<exists>p\<in>set ps. t \<in> set (ph_tasks p))" for ps m
  proof (induction ps arbitrary: m)
    case (Cons p ps)
    show ?case
    proof (cases "om_get (fold (\<lambda>t. om_set (t_id t) t) (ph_tasks p) m) i = Some t")
      case True
      then show ?thesis using fold_tasks_get [of "ph_tasks p" m i t] Cons.prems by auto
    next
      case False
      then show ?thesis using Cons.IH Cons.prems(1) by auto
    qed
  qed simp
  from this [of "pl_phases pl" "[]"]
  show "om_get (allTasks pl) i = Some t \<Longrightarrow> t_id t = i \<and> (\<exists>p\<in>set (pl_phases pl). t \<in> set (ph_tasks p))"
    by (simp add: allTasks_def)
qed

lemma findSession_sound:
  "findSessionForTask i ss st = Some s \<Longrightarrow>
     s \<in> set ss \<and> branch_feature (s_branch s) = i \<and> (st = Some TPending \<longrightarrow> active_session (s_status s))"
  by (auto simp: findSessionForTask_def find_Some_iff split: if_splits)

lemma running_fold_keeps: "om_has m i \<Longrightarrow> om_has (fold add_running as m) i"
  by (induction "as" arbitrary: m) (simp_all add: add_running_def om_has_def split: option.splits)

lemma running_in_overlay:
  assumes "a \<in> set as" and "as_status a = ASRunning" and "as_task a \<noteq> ''''" and "as_phases a \<noteq> []"
  shows "om_has (runningTaskProgress (Some as)) (as_task a)"
proof -
  obtain r where r: "autopilotPhaseFraction (Some a) = Some r"
    using assms(4) by (simp add: autopilotPhaseFraction_def)
  obtain xs ys where "as = xs @ a # ys" using assms(1) by (meson split_list)
  then have "runningTaskProgress (Some as) = fold add_running ys (om_set (as_task a) r (fold add_running xs []))"
    by (simp add: runningTaskProgress_def add_running_def [of a] assms r)
  then show ?thesis by (simp add: running_fold_keeps om_has_def [of "om_set _ _ _"])
qed

lemma json_string_text: "json_parse (quote_str i) = Some (JStr i)"
  using json_parse_stringify [of "JStr i"] by simp

lemma stored_phase_null: "loadExpandedPhase (Some (stringify JNull)) ps = None"
  using json_parse_stringify [of JNull] by (simp add: loadExpandedPhase_def)

lemma stored_phase: "i \<in> set (map ph_id ps) \<Longrightarrow> loadExpandedPhase (Some (stringify (JStr i))) ps = Some i"
  by (auto simp: loadExpandedPhase_def json_string_text list_ex_iff) (simp add: quote_str_def)

section \<open>Properties\<close>

text \<open>
  An expanded phase is found again when the pipeline is mounted anew; a deliberate collapse is not: the
  stored null counts as nothing stored, and the first running or failed phase opens again.
\<close>
theorem expanded_phase_reload:
  assumes "i \<in> set (map ph_id (pl_phases pl))" and "i \<noteq> ''''" and "st' = togglePhase False i st"
  shows "pp_expanded (pipeline_mount (pp_store st') pl) =
    (if pp_expanded st' = None then map_option ph_id (find (\<lambda>p. phaseStatus p \<in> {TWip, TFailed}) (pl_phases pl))
     else pp_expanded st')"
  using assms(2) stored_phase_null [of "pl_phases pl"] stored_phase [OF assms(1)]
  by (simp add: assms(3) togglePhase_def Let_def pipeline_mount_def initial_expanded_def saveExpandedPhase_def
      del: stringify.simps)

lemma next_index:
  assumes "nextPhase pl ov st = Some m"
  obtains n where "expandedPhaseIdx pl st = int n" and "Suc n < length (pl_phases pl)"
    and "m = phase_marker_of ov (pl_phases pl ! Suc n)"
proof -
  let ?i = "expandedPhaseIdx pl st"
  have i: "0 \<le> ?i" "?i < int (length (pl_phases pl)) - 1" and m: "m = phase_marker_of ov (pl_phases pl ! nat (?i + 1))"
    using assms by (auto simp: nextPhase_def Let_def split: if_splits)
  then show ?thesis by (intro that [of "nat ?i"]) (auto simp: nat_add_distrib)
qed

lemma index_of_nth: "distinct xs \<Longrightarrow> n < length xs \<Longrightarrow> index_of (xs ! n) xs = Some n"
  by (metis (no_types, lifting) index_of_None index_of_Some nth_eq_iff_index_eq nth_mem option.exhaust)

text \<open>
  Following the marker of the next phase always expands that phase, and from there the marker of the previous
  phase is the phase one came from.
\<close>
theorem phase_navigation_returns:
  assumes "distinct (map ph_id (pl_phases pl))" and "nextPhase pl ov st = Some m"
  shows "pp_expanded (togglePhase fails (pm_id m) st) = Some (pm_id m)
    \<and> map_option pm_id (prevPhase pl ov (togglePhase fails (pm_id m) st)) = pp_expanded st
    \<and> map_option (phase_marker_of ov) (expandedPhase pl st) = prevPhase pl ov (togglePhase fails (pm_id m) st)"
proof (rule next_index [OF assms(2)])
  fix n
  assume idx: "expandedPhaseIdx pl st = int n" and n: "Suc n < length (pl_phases pl)"
    and m: "m = phase_marker_of ov (pl_phases pl ! Suc n)"
  let ?ids = "map ph_id (pl_phases pl)" and ?p = "pl_phases pl ! n"
  obtain i where i: "pp_expanded st = Some i" "index_of i ?ids = Some n"
    using idx by (auto simp: expandedPhaseIdx_def split: option.splits)
  then have id: "i = ph_id ?p" using index_of_Some [of i ?ids n] n by simp
  have ne: "pm_id m \<noteq> i"
    using assms(1) n by (simp add: m id phase_marker_of_def distinct_conv_nth)
  have "index_of (pm_id m) ?ids = Some (Suc n)"
    using index_of_nth [OF assms(1), of "Suc n"] n by (simp add: m phase_marker_of_def)
  then have idx': "expandedPhaseIdx pl (togglePhase fails (pm_id m) st) = int (Suc n)"
    using ne i by (simp add: expandedPhaseIdx_def togglePhase_def Let_def)
  then have prev: "prevPhase pl ov (togglePhase fails (pm_id m) st) = Some (phase_marker_of ov ?p)"
    by (simp add: prevPhase_def)
  have "expandedPhase pl st = Some ?p"
  proof -
    have "j < n \<Longrightarrow> ph_id (pl_phases pl ! j) \<noteq> i" for j
      using assms(1) n id by (simp add: distinct_conv_nth)
    then show ?thesis
      unfolding expandedPhase_def find_Some_iff using n i(1) id by (auto intro!: exI [of _ n])
  qed
  with prev ne i id show ?thesis by (simp add: togglePhase_def Let_def phase_marker_of_def)
qed
text \<open>
  The bar of a running or stuck task whose autopilot reports phases stays within its declared maximum of 100
  exactly as long as a phase is left (or there are more than a hundred); with all phases finished it exceeds it.
\<close>
theorem live_bar_bounds:
  assumes "TaskProgressBar t sess (Some a) = Some b" and "tb_steel b" and "as_phases a \<noteq> []"
  shows "\<exists>p. tb_pct b = Some p \<and> 0 \<le> p \<and>
    (p \<le> 100 \<longleftrightarrow> completed_phases (as_phases a) < phase_total a \<or> 100 < phase_total a)"
proof -
  let ?c = "completed_phases (as_phases a)" and ?n = "phase_total a"
  have n: "0 < ?n" "?c \<le> ?n"
    using assms(3) by (auto simp: phase_total_def completed_phases_def canonical_pipeline_phases_def Let_def
        intro: order.trans [OF length_filter_le] simp: le_max_iff_disj)
  have p: "tb_pct b = Some (js_round ((of_nat ?c + 1 / 2) / of_nat ?n * 100))"
    using assms n
    by (auto simp: TaskProgressBar_def Let_def live_pct_def effectivePhaseProgress_def split: if_splits)
  have frac: "(of_nat ?c + 1 / 2) / of_nat ?n * 100 + 1 / 2 < (101::rat) \<longleftrightarrow> ?c < ?n \<or> 100 < ?n"
  proof -
    have "(of_nat ?c + 1 / 2) / of_nat ?n * 100 + 1 / 2 < (101::rat) \<longleftrightarrow>
        (of_nat ?c * 2 + 1) * 100 < 201 * (of_nat ?n :: rat)"
      using n(1) by (simp add: field_simps)
    also have "\<dots> \<longleftrightarrow> (of_nat ((?c * 2 + 1) * 100) :: rat) < of_nat (201 * ?n)" by (simp add: algebra_simps)
    also have "\<dots> \<longleftrightarrow> (?c * 2 + 1) * 100 < 201 * ?n" unfolding of_nat_less_iff ..
    also have "\<dots> \<longleftrightarrow> ?c < ?n \<or> 100 < ?n"
    proof (cases "?c < ?n")
      case True
      then have "?c * 2 + 1 < 2 * ?n" by linarith
      then show ?thesis using True by simp
    next
      case False
      then have "?c = ?n" using n(2) by simp
      then show ?thesis by simp
    qed
    finally show ?thesis .
  qed
  have "0 \<le> (of_nat ?c + 1 / 2) / of_nat ?n * 100 + (1 / 2 :: rat)" by simp
  then have "0 \<le> js_round ((of_nat ?c + 1 / 2) / of_nat ?n * 100)" unfolding js_round_def zero_le_floor .
  moreover have "js_round ((of_nat ?c + 1 / 2) / of_nat ?n * 100) \<le> 100 \<longleftrightarrow> ?c < ?n \<or> 100 < ?n"
    unfolding js_round_def floor_le_iff using frac by simp
  ultimately show ?thesis unfolding p by blast
qed

lemma passed_items_all: "passed_items es = length es \<longleftrightarrow> (\<forall>i\<in>set es. ei_lastResult i = Some RPassed)"
proof
  assume all: "passed_items es = length es"
  show "\<forall>i\<in>set es. ei_lastResult i = Some RPassed"
  proof (rule ccontr)
    assume "\<not> (\<forall>i\<in>set es. ei_lastResult i = Some RPassed)"
    then obtain i where "i \<in> set es" "ei_lastResult i \<noteq> Some RPassed" by blast
    from length_filter_less [where P = "\<lambda>i. ei_lastResult i = Some RPassed", OF this] all
    show False by (simp add: passed_items_def)
  qed
qed (simp add: passed_items_def)

lemma share_full:
  assumes "d \<le> n" and "0 < n" and "n < 200"
  shows "js_round (of_nat d / of_nat n * 100) < 100 \<longleftrightarrow> d < n"
proof -
  have "of_nat d / of_nat n * 100 + 1 / 2 < (100::rat) \<longleftrightarrow> (of_nat (d * 200) :: rat) < of_nat (199 * n)"
    using assms(2) by (simp add: field_simps)
  also have "\<dots> \<longleftrightarrow> d * 200 < 199 * n" unfolding of_nat_less_iff ..
  also have "\<dots> \<longleftrightarrow> d < n" using assms by linarith
  finally show ?thesis by (simp add: js_round_def floor_less_iff)
qed

text \<open>
  For a gate whose checks are all automatic the three displays agree: while the gate is not passed, the prompt
  is offered exactly as long as the gauge is below 100 and some check is not ticked off.
\<close>
theorem gate_displays_agree:
  assumes "g_enrichedChecklist g = Some es" and "es \<noteq> []" and "length es < 200"
    and "\<forall>i\<in>set es. ei_kind i = KShell" and "\<not> g_passed g"
  shows "(shouldShowGatePrompt g \<longleftrightarrow> fst (GateProgressBar g) < 100)
    \<and> (shouldShowGatePrompt g \<longleftrightarrow> (\<exists>row\<in>set (GatePopoverChecklist g). fst row \<noteq> GiPassed))"
proof (intro conjI)
  have le: "passed_items es \<le> length es" by (simp add: passed_items_def)
  have prompt: "shouldShowGatePrompt g \<longleftrightarrow> passed_items es < length es"
    using assms passed_items_all [of es] le
    by (auto simp: shouldShowGatePrompt_def list_all_iff le_less)
  show "shouldShowGatePrompt g \<longleftrightarrow> fst (GateProgressBar g) < 100"
    using share_full [OF le _ assms(3)] assms prompt
    by (simp add: GateProgressBar_def gate_total_def)
  show "shouldShowGatePrompt g \<longleftrightarrow> (\<exists>row\<in>set (GatePopoverChecklist g). fst row \<noteq> GiPassed)"
    using prompt passed_items_all [of es] le assms(1,4,5)
    by (auto simp: GatePopoverChecklist_def gateItemIcon_def le_less split: if_splits)
qed

lemma find_distinct:
  "a \<in> set as \<Longrightarrow> distinct (map k as) \<Longrightarrow> find (\<lambda>x. k x = k a) as = Some a"
  by (induction "as") force+

text \<open>
  A running autopilot is seen everywhere at once: when each task has one session, a task that is neither
  done nor failed in the plan but has a running autopilot with phases shows a moving bar (in fault colour if
  its session waits for input), its phase counts as in progress on the rail unless a task of it has failed,
  and the connector after that phase is lit.
\<close>
theorem running_task_seen:
  assumes "a \<in> set as" and "distinct (map as_task as)" and "as_status a = ASRunning" and "as_phases a \<noteq> []"
    and "as_task a = t_id t" and "t_id t \<noteq> ''''" and "t \<in> set (ph_tasks p)" and "t_status t \<notin> {TDone, TFailed}"
    and "\<forall>u\<in>set (ph_tasks p). t_status u \<noteq> TFailed"
  shows "phaseStatusWithOverlay p (runningTaskProgress (Some as)) = TWip
    \<and> connector_flow (phaseStatusWithOverlay p (runningTaskProgress (Some as)))
    \<and> (\<exists>b. TaskProgressBar t sess (find (\<lambda>a. as_task a = t_id t) as) = Some b \<and> tb_steel b
           \<and> tb_status b = (if is_stuck t sess then WfFault else WfRunning))"
proof (intro conjI)
  let ?ov = "runningTaskProgress (Some as)"
  have ov: "om_has ?ov (t_id t)" using running_in_overlay [of a "as"] assms by simp
  then have "?ov \<noteq> []" by (auto simp: om_has_def)
  then show wip: "phaseStatusWithOverlay p ?ov = TWip"
    using assms(7,8,9) ov by (auto simp: phaseStatusWithOverlay_def Let_def list_ex_iff list_all_iff)
  show "connector_flow (phaseStatusWithOverlay p ?ov)" by (simp add: wip connector_flow_def)
  have "find (\<lambda>a. as_task a = t_id t) as = Some a"
    using find_distinct [OF assms(1,2)] by (simp add: assms(5))
  moreover have "effectivePhaseProgress t sess (Some a) = Some e \<Longrightarrow> ep_isActive e" for e
    using assms(3,4) by (auto simp: effectivePhaseProgress_def)
  moreover have "effectivePhaseProgress t sess (Some a) \<noteq> None"
    using assms(4) by (simp add: effectivePhaseProgress_def)
  ultimately show "\<exists>b. TaskProgressBar t sess (find (\<lambda>a. as_task a = t_id t) as) = Some b \<and> tb_steel b
           \<and> tb_status b = (if is_stuck t sess then WfFault else WfRunning)"
    using assms(8) by (auto simp: TaskProgressBar_def Let_def split: if_splits)
qed

section \<open>Witnesses\<close>

definition run_session :: "string \<Rightarrow> autopilot_session" where
  "run_session i = (demo_session [])\<lparr>as_task := i, as_status := ASRunning, as_phases := [slug_phase demo_feature (0, ''ba'')]\<rparr>"

definition stuck_session :: session where
  "stuck_session = \<lparr>s_sid = ''1'', s_cwd = '''', s_worktree = '''', s_branch = ''feature/a'', s_event = '''', s_type = '''',
     s_msg = '''', s_ts = '''', s_status = SNeedsInput, s_flow = None\<rparr>"

definition done_phase :: autopilot_phase where
  "done_phase = (slug_phase demo_feature (0, ''ba''))\<lparr>ap_status := ACompleted\<rparr>"

definition two_phases :: plan where
  "two_phases =
     \<lparr>pl_schema_version = None, pl_name = ''N'', pl_phases = [mk_phase ''p'' ''P'' [mk_task ''a'' ''A'' TPending],
        mk_phase ''q'' ''Q'' [mk_task ''b'' ''B'' TWip]], pl_test_targets = None, pl_deferred = None, pl_rest = JNull\<rparr>"

lemma two_ids: "map ph_id (pl_phases two_phases) = [''p'', ''q'']"
  by code_simp

lemma two_find: "map_option ph_id (find (\<lambda>p. phaseStatus p \<in> {TWip, TFailed}) (pl_phases two_phases)) = Some ''q''"
  by code_simp

definition at_phase :: "string option \<Rightarrow> pipeline_state" where
  "at_phase e = \<lparr>pp_expanded = e, pp_selected = None, pp_store = None\<rparr>"

lemma expanded_phase_reload_witness:
  "pp_expanded (pipeline_mount (pp_store (togglePhase False ''p'' (at_phase None))) two_phases) = Some ''p''
   \<and> pp_expanded (pipeline_mount (pp_store (togglePhase False ''p'' (at_phase (Some ''p'')))) two_phases) = Some ''q''"
  using expanded_phase_reload [of "''p''" two_phases, OF _ _ refl, of "at_phase None"]
    expanded_phase_reload [of "''p''" two_phases, OF _ _ refl, of "at_phase (Some ''p'')"]
  unfolding two_ids two_find by (simp add: togglePhase_def at_phase_def Let_def)

lemma phase_navigation_returns_witness:
  "map_option pm_id (prevPhase two_phases [] (togglePhase False ''q'' (at_phase (Some ''p'')))) = Some ''p''"
proof -
  have "map_option pm_id (nextPhase two_phases [] (at_phase (Some ''p''))) = Some ''q''" by code_simp
  then obtain m where m: "nextPhase two_phases [] (at_phase (Some ''p'')) = Some m" "pm_id m = ''q''" by auto
  have "distinct (map ph_id (pl_phases two_phases))" unfolding two_ids by simp
  from phase_navigation_returns [OF this m(1), of False] show ?thesis by (simp add: m(2) at_phase_def)
qed

definition ended_session :: autopilot_session where
  "ended_session = (demo_session [done_phase])\<lparr>as_status := ASCompleted\<rparr>"

lemma live_bar_bounds_witness:
  "\<exists>b p. TaskProgressBar (mk_task ''a'' ''A'' TWip) (Some stuck_session) (Some ended_session) = Some b
     \<and> tb_pct b = Some p \<and> 100 < p"
proof -
  have "map_option tb_steel (TaskProgressBar (mk_task ''a'' ''A'' TWip) (Some stuck_session) (Some ended_session)) = Some True"
    by code_simp
  then obtain b where b: "TaskProgressBar (mk_task ''a'' ''A'' TWip) (Some stuck_session) (Some ended_session) = Some b"
    "tb_steel b" by auto
  have "as_phases ended_session \<noteq> []" "completed_phases (as_phases ended_session) = 1" "phase_total ended_session = 1"
    by code_simp+
  with live_bar_bounds [OF b] b(1) show ?thesis by auto
qed

definition demo_gate :: gate where
  "demo_gate = \<lparr>g_name = ''G'', g_checklist = [], g_enrichedChecklist = Some
     [\<lparr>ei_item = ''x'', ei_kind = KShell, ei_lastResult = Some RPassed, ei_check = None\<rparr>,
      \<lparr>ei_item = ''y'', ei_kind = KShell, ei_lastResult = None, ei_check = None\<rparr>],
     g_passed = False, g_command = None\<rparr>"

lemma demo_checks: "g_enrichedChecklist demo_gate = Some (the (g_enrichedChecklist demo_gate))"
  by (simp add: demo_gate_def)

lemma gate_displays_agree_witness:
  "shouldShowGatePrompt demo_gate = (fst (GateProgressBar demo_gate) < 100) \<and> GatePopoverChecklist demo_gate \<noteq> []"
proof
  show "shouldShowGatePrompt demo_gate = (fst (GateProgressBar demo_gate) < 100)"
    by (rule conjunct1 [OF gate_displays_agree [OF demo_checks]]) (simp_all add: demo_gate_def)
qed (simp add: demo_gate_def GatePopoverChecklist_def)

lemma running_task_seen_witness:
  "phaseStatusWithOverlay (mk_phase ''p'' ''P'' [mk_task ''a'' ''A'' TPending])
     (runningTaskProgress (Some [run_session ''a''])) = TWip"
  using running_task_seen [of "run_session ''a''" "[run_session ''a'']" "mk_task ''a'' ''A'' TPending"
      "mk_phase ''p'' ''P'' [mk_task ''a'' ''A'' TPending]" None]
  by (simp add: run_session_def demo_session_def mk_task_def mk_phase_def)
end
