(* ===== verification/RunEconomy.thy ===== *)
theory RunEconomy
  imports ListViews
begin

text \<open>
  The aggregates of the run-economy table, \<open>components/metrics/RunEconomy.tsx\<close>: totals and averages of tokens, cost, time and
  turns over all autopilot runs. \<open>parse_date\<close> stands for \<open>new Date(s).getTime()\<close> (\<open>None\<close> is NaN), \<open>loc\<close> for
  \<open>localeCompare\<close>. Numbers are exact rationals, where the code adds doubles. What the theory
  shows and guarantees is in \<open>RunEconomyView\<close>.
\<close>

section \<open>Runs and features\<close>

record feature_aggregate =
  fa_task :: string
  fa_project :: "string option"
  fa_upstream :: int
  fa_output :: int
  fa_newTokens :: int
  fa_cacheRate :: "rat option"
  fa_cost :: rat
  fa_duration_s :: rat
  fa_turns :: int
  fa_wallClockSec :: "int option"
  fa_idleSec :: "rat option"
  fa_estimateHours :: "rat option"
  fa_planDir :: "string option"
  fa_planName :: "string option"

definition strip_lifecycle :: "string \<Rightarrow> string" where
  "strip_lifecycle base =
     (case find (starts_with base) [''INPROGRESS_Plan_'', ''DONE_Plan_'', ''PENDING_Plan_''] of
        Some p \<Rightarrow> drop (length p) base | None \<Rightarrow> base)"

definition planNameFromDir :: "string option \<Rightarrow> string option" where
  "planNameFromDir planDir =
     (case planDir of
        None \<Rightarrow> None
      | Some d \<Rightarrow>
          (let segs = path_segments d;
               base = (if segs = [] then '''' else last segs);
               name = strip_lifecycle base
           in if name = '''' then None else Some name))"

record plan_link =
  lk_estimateHours :: "rat option"
  lk_planDir :: "string option"

type_synonym link_lookup = "(string, plan_link) omap"

definition orz :: "'a::zero option \<Rightarrow> 'a" where
  "orz x = (case x of Some v \<Rightarrow> v | None \<Rightarrow> 0)"

definition fresh_in :: "autopilot_phase \<Rightarrow> int" where
  "fresh_in p = orz (ap_input_tokens p) + orz (ap_cache_creation_tokens p)"

definition all_in :: "autopilot_phase \<Rightarrow> int" where
  "all_in p = fresh_in p + orz (ap_cache_read_tokens p)"

definition timestamp :: "(string \<Rightarrow> int option) \<Rightarrow> string option \<Rightarrow> int option" where
  "timestamp parse_date s = (case s of None \<Rightarrow> None | Some x \<Rightarrow> if x = '''' then None else parse_date x)"

record session_acc =
  sa_upstream :: int
  sa_output :: int
  sa_cacheRead :: int
  sa_newTokens :: int
  sa_cost :: rat
  sa_duration :: rat
  sa_turns :: int
  sa_earliest :: "int option"
  sa_latest :: "int option"

definition earlier :: "int option \<Rightarrow> int option \<Rightarrow> int option" where
  "earlier t acc = (case t of None \<Rightarrow> acc | Some x \<Rightarrow> (case acc of None \<Rightarrow> Some x | Some y \<Rightarrow> if x < y then Some x else acc))"

definition later :: "int option \<Rightarrow> int option \<Rightarrow> int option" where
  "later t acc = (case t of None \<Rightarrow> acc | Some x \<Rightarrow> (case acc of None \<Rightarrow> Some x | Some y \<Rightarrow> if x > y then Some x else acc))"

definition add_phase :: "(string \<Rightarrow> int option) \<Rightarrow> autopilot_phase \<Rightarrow> session_acc \<Rightarrow> session_acc" where
  "add_phase parse_date p a =
     \<lparr>sa_upstream = sa_upstream a + all_in p, sa_output = sa_output a + orz (ap_output_tokens p),
      sa_cacheRead = sa_cacheRead a + orz (ap_cache_read_tokens p), sa_newTokens = sa_newTokens a + fresh_in p,
      sa_cost = sa_cost a + orz (ap_cost p), sa_duration = sa_duration a + orz (ap_duration_s p),
      sa_turns = sa_turns a + orz (ap_num_turns p),
      sa_earliest = earlier (timestamp parse_date (ap_started_at p)) (sa_earliest a),
      sa_latest = later (timestamp parse_date (ap_ended_at p)) (sa_latest a)\<rparr>"

definition acc_zero :: session_acc where
  "acc_zero = \<lparr>sa_upstream = 0, sa_output = 0, sa_cacheRead = 0, sa_newTokens = 0, sa_cost = 0, sa_duration = 0,
     sa_turns = 0, sa_earliest = None, sa_latest = None\<rparr>"

definition aggregateSession ::
    "(string \<Rightarrow> int option) \<Rightarrow> link_lookup \<Rightarrow> autopilot_session \<Rightarrow> feature_aggregate" where
  "aggregateSession parse_date links s =
     (let a = fold (add_phase parse_date) (as_phases s) acc_zero;
          allEnded = list_all (\<lambda>p. ap_ended_at p \<noteq> None) (as_phases s);
          wall = (case (sa_earliest a, sa_latest a) of
                    (Some e, Some l) \<Rightarrow> if allEnded then Some ((l - e) div 1000) else None
                  | _ \<Rightarrow> None);
          idle = (case wall of Some w \<Rightarrow> if sa_duration a > 0 then Some (max 0 (of_int w - sa_duration a)) else None
                  | None \<Rightarrow> None);
          link = (case om_get links (as_task s) of Some k \<Rightarrow> k
                  | None \<Rightarrow> \<lparr>lk_estimateHours = None, lk_planDir = None\<rparr>)
      in \<lparr>fa_task = as_task s, fa_project = as_project s, fa_upstream = sa_upstream a, fa_output = sa_output a,
          fa_newTokens = sa_newTokens a,
          fa_cacheRate = (if sa_upstream a > 0 then Some (of_int (sa_cacheRead a) / of_int (sa_upstream a)) else None),
          fa_cost = sa_cost a, fa_duration_s = sa_duration a, fa_turns = sa_turns a, fa_wallClockSec = wall,
          fa_idleSec = idle, fa_estimateHours = lk_estimateHours link, fa_planDir = lk_planDir link,
          fa_planName = planNameFromDir (lk_planDir link)\<rparr>)"

definition cache_read_of :: "feature_aggregate \<Rightarrow> rat" where
  "cache_read_of p = (case fa_cacheRate p of Some r \<Rightarrow> of_int (fa_upstream p) * r | None \<Rightarrow> 0)"

definition total_of :: "('a \<Rightarrow> 'b::monoid_add) \<Rightarrow> 'a list \<Rightarrow> 'b" where
  "total_of f xs = foldl (\<lambda>acc x. acc + f x) 0 xs"

definition sum_known :: "('a \<Rightarrow> 'b::monoid_add option) \<Rightarrow> 'a list \<Rightarrow> 'b option" where
  "sum_known f xs = (let known = List.map_filter f xs in if length known > 0 then Some (total_of id known) else None)"

definition combineFeatureAggregates :: "feature_aggregate list \<Rightarrow> feature_aggregate" where
  "combineFeatureAggregates parts =
     (if length parts = 1 then hd parts
      else (let first = hd parts; upstream = total_of fa_upstream parts
            in \<lparr>fa_task = fa_task first, fa_project = fa_project first, fa_upstream = upstream,
                fa_output = total_of fa_output parts, fa_newTokens = total_of fa_newTokens parts,
                fa_cacheRate = (if upstream > 0 then Some (total_of cache_read_of parts / of_int upstream) else None),
                fa_cost = total_of fa_cost parts, fa_duration_s = total_of fa_duration_s parts,
                fa_turns = total_of fa_turns parts, fa_wallClockSec = sum_known fa_wallClockSec parts,
                fa_idleSec = sum_known fa_idleSec parts, fa_estimateHours = fa_estimateHours first,
                fa_planDir = fa_planDir first, fa_planName = fa_planName first\<rparr>))"

section \<open>Phases\<close>

record bucket =
  bk_cost :: rat
  bk_costN :: nat
  bk_duration :: rat
  bk_durationN :: nat
  bk_turns :: int
  bk_turnsN :: nat
  bk_upstream :: int
  bk_upstreamN :: nat
  bk_output :: int
  bk_outputN :: nat
  bk_newTokens :: int
  bk_newTokensN :: nat
  bk_cacheRead :: int
  bk_cacheUpstream :: int
  bk_features :: "string list"

definition fresh_bucket :: bucket where
  "fresh_bucket = \<lparr>bk_cost = 0, bk_costN = 0, bk_duration = 0, bk_durationN = 0, bk_turns = 0, bk_turnsN = 0,
     bk_upstream = 0, bk_upstreamN = 0, bk_output = 0, bk_outputN = 0, bk_newTokens = 0, bk_newTokensN = 0,
     bk_cacheRead = 0, bk_cacheUpstream = 0, bk_features = []\<rparr>"

definition has_usage :: "autopilot_phase \<Rightarrow> bool" where
  "has_usage p \<longleftrightarrow> ap_input_tokens p \<noteq> None \<or> ap_cache_creation_tokens p \<noteq> None \<or> ap_cache_read_tokens p \<noteq> None"

definition known_one :: "'a option \<Rightarrow> nat" where
  "known_one x = (if x = None then 0 else 1)"

definition add_sample :: "string \<Rightarrow> autopilot_phase \<Rightarrow> bucket \<Rightarrow> bucket" where
  "add_sample task p b =
     (let usage = has_usage p; u = (if usage then all_in p else 0); n = (if usage then 1 else 0)
      in \<lparr>bk_cost = bk_cost b + orz (ap_cost p), bk_costN = bk_costN b + known_one (ap_cost p),
          bk_duration = bk_duration b + orz (ap_duration_s p), bk_durationN = bk_durationN b + known_one (ap_duration_s p),
          bk_turns = bk_turns b + orz (ap_num_turns p), bk_turnsN = bk_turnsN b + known_one (ap_num_turns p),
          bk_upstream = bk_upstream b + u, bk_upstreamN = bk_upstreamN b + n,
          bk_output = bk_output b + orz (ap_output_tokens p), bk_outputN = bk_outputN b + known_one (ap_output_tokens p),
          bk_newTokens = bk_newTokens b + (if usage then fresh_in p else 0), bk_newTokensN = bk_newTokensN b + n,
          bk_cacheRead = bk_cacheRead b + (if usage then orz (ap_cache_read_tokens p) else 0),
          bk_cacheUpstream = bk_cacheUpstream b + u, bk_features = oset_add task (bk_features b)\<rparr>)"

definition phase_samples :: "autopilot_session list \<Rightarrow> (string \<times> autopilot_phase) list" where
  "phase_samples sessions = concat (map (\<lambda>s. map (\<lambda>p. (as_task s, p)) (as_phases s)) sessions)"

definition phase_buckets :: "autopilot_session list \<Rightarrow> (string, bucket) omap" where
  "phase_buckets sessions =
     fold (\<lambda>(task, p) m. om_set (ap_name p) (add_sample task p (om_get_or fresh_bucket m (ap_name p))) m)
       (phase_samples sessions) []"

record phase_aggregate =
  pa_name :: string
  pa_featureCount :: nat
  pa_avgCost :: rat
  pa_avgDurationSec :: rat
  pa_avgTurns :: rat
  pa_avgUpstream :: rat
  pa_avgOutput :: rat
  pa_avgNewTokens :: rat
  pa_avgCacheRate :: "rat option"

definition average :: "rat \<Rightarrow> nat \<Rightarrow> rat" where
  "average v n = (if n > 0 then v / of_nat n else 0)"

definition phase_average :: "string \<times> bucket \<Rightarrow> phase_aggregate" where
  "phase_average e =
     (case e of (name, b) \<Rightarrow>
        \<lparr>pa_name = name, pa_featureCount = length (bk_features b), pa_avgCost = average (bk_cost b) (bk_costN b),
         pa_avgDurationSec = average (bk_duration b) (bk_durationN b),
         pa_avgTurns = average (of_int (bk_turns b)) (bk_turnsN b),
         pa_avgUpstream = average (of_int (bk_upstream b)) (bk_upstreamN b),
         pa_avgOutput = average (of_int (bk_output b)) (bk_outputN b),
         pa_avgNewTokens = average (of_int (bk_newTokens b)) (bk_newTokensN b),
         pa_avgCacheRate = (if bk_cacheUpstream b > 0
           then Some (of_int (bk_cacheRead b) / of_int (bk_cacheUpstream b)) else None)\<rparr>)"

definition aggregateByPhase :: "autopilot_session list \<Rightarrow> phase_aggregate list" where
  "aggregateByPhase sessions = map phase_average (phase_buckets sessions)"

section \<open>The whole table\<close>

record run_economy =
  re_featureCount :: nat
  re_totalUpstream :: int
  re_totalOutput :: int
  re_totalNewTokens :: int
  re_totalCacheRate :: "rat option"
  re_totalCost :: rat
  re_totalDuration :: rat
  re_totalTurns :: int
  re_totalIdleSec :: "rat option"
  re_idleFeatureCount :: nat
  re_byFeature :: "feature_aggregate list"
  re_byPhase :: "phase_aggregate list"

definition by_feature ::
    "(string \<Rightarrow> int option) \<Rightarrow> link_lookup \<Rightarrow> autopilot_session list \<Rightarrow> feature_aggregate list" where
  "by_feature parse_date links sessions =
     map (\<lambda>e. combineFeatureAggregates (snd e)) (om_group fa_task (map (aggregateSession parse_date links) sessions))"

definition aggregate :: "(string \<Rightarrow> int option) \<Rightarrow> link_lookup \<Rightarrow> autopilot_session list \<Rightarrow> run_economy" where
  "aggregate parse_date links sessions =
     (let byFeature = by_feature parse_date links sessions;
          totalUpstream = total_of fa_upstream byFeature;
          idleFeatures = filter (\<lambda>f. fa_idleSec f \<noteq> None) byFeature
      in \<lparr>re_featureCount = length byFeature, re_totalUpstream = totalUpstream,
          re_totalOutput = total_of fa_output byFeature, re_totalNewTokens = total_of fa_newTokens byFeature,
          re_totalCacheRate = (if totalUpstream > 0
             then Some (total_of (\<lambda>f. of_int (fa_upstream f) * orz (fa_cacheRate f)) byFeature / of_int totalUpstream)
             else None),
          re_totalCost = total_of fa_cost byFeature, re_totalDuration = total_of fa_duration_s byFeature,
          re_totalTurns = total_of fa_turns byFeature,
          re_totalIdleSec = (if length idleFeatures > 0 then Some (total_of (\<lambda>f. orz (fa_idleSec f)) idleFeatures) else None),
          re_idleFeatureCount = length idleFeatures, re_byFeature = byFeature,
          re_byPhase = aggregateByPhase sessions\<rparr>)"

end
