(* ===== verification/RunEconomyView.thy ===== *)
theory RunEconomyView
  imports RunEconomy
begin

text \<open>
  The run-economy table as shown, \<open>components/metrics/RunEconomy.tsx\<close>: formats, tiers, sorting, filters, the
  component's state and the rows; then what the totals and the view guarantee.
\<close>

section \<open>Formats and tiers\<close>

definition formatTokens :: "rat \<Rightarrow> string" where
  "formatTokens n =
     (if n < 1000 then string_of_rat n
      else if n < 1000000 then to_fixed 1 (n / 1000) @ ''k''
      else to_fixed 1 (n / 1000000) @ ''M'')"

text \<open>\<open>x % 3600\<close> takes the sign of \<open>x\<close>.\<close>

definition js_trunc :: "rat \<Rightarrow> int" where
  "js_trunc x = (if x \<ge> 0 then \<lfloor>x\<rfloor> else \<lceil>x\<rceil>)"

definition formatRunDuration :: "rat \<Rightarrow> string" where
  "formatRunDuration seconds =
     (if seconds = 0 then emdash
      else (let h = \<lfloor>seconds / 3600\<rfloor>; m = \<lfloor>(seconds - 3600 * of_int (js_trunc (seconds / 3600))) / 60\<rfloor>
            in if h > 0 then string_of_int h @ ''h '' @ string_of_int m @ ''m'' else string_of_int m @ ''m''))"

definition formatCost :: "rat \<Rightarrow> string" where
  "formatCost c = ''$'' @ to_fixed 2 c"

datatype cache_tier = CtGood | CtNeutral | CtBad

definition cacheTier :: "rat option \<Rightarrow> cache_tier option" where
  "cacheTier rate =
     (case rate of None \<Rightarrow> None
      | Some r \<Rightarrow> Some (if r \<ge> 95 / 100 then CtGood else if r < 90 / 100 then CtBad else CtNeutral))"

fun cache_tier_color :: "cache_tier \<Rightarrow> string" where
  "cache_tier_color CtGood = ''var(--mui-palette-status-done)''"
| "cache_tier_color CtNeutral = ''var(--mui-palette-wf-fog)''"
| "cache_tier_color CtBad = ''var(--mui-palette-status-stalled)''"

datatype estimate_tier = EtUnder | EtOn | EtDrift | EtOver

definition estimate_delta :: "rat \<Rightarrow> rat \<Rightarrow> rat" where
  "estimate_delta actual hours = (actual - hours * 3600) / (hours * 3600)"

definition estimateTier :: "rat \<Rightarrow> rat option \<Rightarrow> estimate_tier option" where
  "estimateTier actual hours =
     (case hours of
        None \<Rightarrow> None
      | Some h \<Rightarrow>
          if h \<le> 0 then None
          else Some (let delta = estimate_delta actual h
                     in if delta \<le> - 5 / 100 then EtUnder
                        else if delta > 20 / 100 then EtOver
                        else if delta > 5 / 100 then EtDrift
                        else EtOn))"

fun estimate_tier_color :: "estimate_tier \<Rightarrow> string" where
  "estimate_tier_color EtUnder = ''var(--mui-palette-status-done)''"
| "estimate_tier_color EtOn = ''var(--mui-palette-wf-bone)''"
| "estimate_tier_color EtDrift = ''var(--mui-palette-status-stalled)''"
| "estimate_tier_color EtOver = ''var(--mui-palette-status-failed)''"

section \<open>Sorting\<close>

datatype sort_column = ScName | ScCost | ScDuration | ScTurns | ScUpstream | ScOutput | ScIdle | ScEstimate

datatype phase_sort_column = PcName | PcCount | PcCost | PcDuration | PcTurns | PcUpstream | PcOutput

datatype sort_dir = SdAsc | SdDesc

datatype sort_key = KeyText string | KeyNum rat

definition directed :: "sort_dir \<Rightarrow> ('a \<Rightarrow> 'a \<Rightarrow> rat) \<Rightarrow> 'a \<Rightarrow> 'a \<Rightarrow> rat" where
  "directed dir cmp a b = (if dir = SdAsc then cmp a b else cmp b a)"

fun key_cmp :: "(string \<Rightarrow> string \<Rightarrow> int) \<Rightarrow> sort_key \<Rightarrow> sort_key \<Rightarrow> rat" where
  "key_cmp loc (KeyText a) (KeyText b) = of_int (loc a b)"
| "key_cmp loc (KeyNum a) (KeyNum b) = a - b"
| "key_cmp loc _ _ = 0"

fun phase_key :: "phase_sort_column \<Rightarrow> phase_aggregate \<Rightarrow> sort_key" where
  "phase_key PcName p = KeyText (to_lower (pa_name p))"
| "phase_key PcCount p = KeyNum (of_nat (pa_featureCount p))"
| "phase_key PcCost p = KeyNum (pa_avgCost p)"
| "phase_key PcDuration p = KeyNum (pa_avgDurationSec p)"
| "phase_key PcTurns p = KeyNum (pa_avgTurns p)"
| "phase_key PcUpstream p = KeyNum (pa_avgUpstream p)"
| "phase_key PcOutput p = KeyNum (pa_avgOutput p)"

definition sortPhases ::
    "(string \<Rightarrow> string \<Rightarrow> int) \<Rightarrow> phase_aggregate list \<Rightarrow> phase_sort_column \<Rightarrow> sort_dir \<Rightarrow> phase_aggregate list" where
  "sortPhases loc ps col dir = js_sort (\<lambda>a b. directed dir (key_cmp loc) (phase_key col a) (phase_key col b)) ps"

text \<open>\<open>None\<close> is a missing value.\<close>

fun feature_key :: "sort_column \<Rightarrow> feature_aggregate \<Rightarrow> sort_key option" where
  "feature_key ScName f = Some (KeyText (to_lower (fa_task f)))"
| "feature_key ScCost f = Some (KeyNum (fa_cost f))"
| "feature_key ScDuration f = Some (KeyNum (fa_duration_s f))"
| "feature_key ScTurns f = Some (KeyNum (of_int (fa_turns f)))"
| "feature_key ScUpstream f = Some (KeyNum (of_int (fa_upstream f)))"
| "feature_key ScOutput f = Some (KeyNum (of_int (fa_output f)))"
| "feature_key ScIdle f = map_option KeyNum (fa_idleSec f)"
| "feature_key ScEstimate f =
     (case fa_estimateHours f of
        None \<Rightarrow> None
      | Some h \<Rightarrow> if h \<le> 0 then None else Some (KeyNum (estimate_delta (fa_duration_s f) h)))"

definition feature_cmp ::
    "(string \<Rightarrow> string \<Rightarrow> int) \<Rightarrow> sort_column \<Rightarrow> sort_dir \<Rightarrow> feature_aggregate \<Rightarrow> feature_aggregate \<Rightarrow> rat" where
  "feature_cmp loc col dir a b =
     (case (feature_key col a, feature_key col b) of
        (None, Some _) \<Rightarrow> 1
      | (Some _, None) \<Rightarrow> - 1
      | (None, None) \<Rightarrow> 0
      | (Some ka, Some kb) \<Rightarrow> directed dir (key_cmp loc) ka kb)"

definition sortFeatures ::
    "(string \<Rightarrow> string \<Rightarrow> int) \<Rightarrow> feature_aggregate list \<Rightarrow> sort_column \<Rightarrow> sort_dir \<Rightarrow> feature_aggregate list" where
  "sortFeatures loc fs col dir = js_sort (feature_cmp loc col dir) fs"

section \<open>Filters\<close>

datatype period = P24h | P7d | P30d | PAll

fun period_hours :: "period \<Rightarrow> int" where
  "period_hours P24h = 24"
| "period_hours P7d = 24 * 7"
| "period_hours P30d = 24 * 30"
| "period_hours PAll = 0"

definition sessionStartMs :: "(string \<Rightarrow> int option) \<Rightarrow> autopilot_session \<Rightarrow> int option" where
  "sessionStartMs parse_date s = fold (\<lambda>p acc. earlier (timestamp parse_date (ap_started_at p)) acc) (as_phases s) None"

definition streamSessions :: "autopilot_session list option \<Rightarrow> autopilot_session list" where
  "streamSessions ss = filter (\<lambda>s. as_stream_path s \<noteq> None) (case ss of Some xs \<Rightarrow> xs | None \<Rightarrow> [])"

definition planLinkLookup :: "feature list option \<Rightarrow> link_lookup" where
  "planLinkLookup fs =
     fold (\<lambda>f m.
        let est = (case f_plan_task_estimate_hours f of Some h \<Rightarrow> if h > 0 then Some h else None | None \<Rightarrow> None);
            dir = f_plan_dir f
        in if est \<noteq> None \<or> dir \<noteq> None then om_set (f_name f) \<lparr>lk_estimateHours = est, lk_planDir = dir\<rparr> m else m)
       (case fs of Some xs \<Rightarrow> xs | None \<Rightarrow> []) []"

definition plan_dir_of :: "link_lookup \<Rightarrow> autopilot_session \<Rightarrow> string option" where
  "plan_dir_of links s = (case om_get links (as_task s) of Some k \<Rightarrow> lk_planDir k | None \<Rightarrow> None)"

definition truthy_str :: "string option \<Rightarrow> bool" where
  "truthy_str s \<longleftrightarrow> (case s of Some x \<Rightarrow> x \<noteq> '''' | None \<Rightarrow> False)"

definition planOptions ::
    "(string \<Rightarrow> string \<Rightarrow> int) \<Rightarrow> link_lookup \<Rightarrow> autopilot_session list \<Rightarrow> (string \<times> string) list \<times> bool" where
  "planOptions loc links pool =
     (js_sort (\<lambda>a b. loc (snd a) (snd b))
        (fold (\<lambda>s m. case plan_dir_of links s of
                 Some d \<Rightarrow> if d = '''' then m
                           else om_set d (case planNameFromDir (Some d) of Some n \<Rightarrow> n | None \<Rightarrow> d) m
               | None \<Rightarrow> m) pool []),
      list_ex (\<lambda>s. \<not> truthy_str (plan_dir_of links s)) pool)"

definition standalone :: string where "standalone = ''__standalone__''"

definition filteredSessions ::
    "(string \<Rightarrow> int option) \<Rightarrow> int \<Rightarrow> link_lookup \<Rightarrow> string \<Rightarrow> period \<Rightarrow> autopilot_session list \<Rightarrow> autopilot_session list" where
  "filteredSessions parse_date now links planFilter period pool =
     (let pool1 = (if planFilter = ''all'' then pool
                   else if planFilter = standalone then filter (\<lambda>s. plan_dir_of links s = None) pool
                   else filter (\<lambda>s. plan_dir_of links s = Some planFilter) pool)
      in if period = PAll then pool1
         else (let cutoff = now - period_hours period * 3600000
               in filter (\<lambda>s. case sessionStartMs parse_date s of Some t \<Rightarrow> t \<ge> cutoff | None \<Rightarrow> False) pool1))"

section \<open>Groups\<close>

record plan_group =
  gr_key :: string
  gr_planName :: string
  gr_features :: "feature_aggregate list"
  gr_totalCost :: rat
  gr_totalDuration :: rat
  gr_totalEstimateHours :: "rat option"

definition plan_key :: "feature_aggregate \<Rightarrow> string" where
  "plan_key f = (case fa_planDir f of Some d \<Rightarrow> d | None \<Rightarrow> standalone)"

definition plan_group_of :: "string \<times> feature_aggregate list \<Rightarrow> plan_group" where
  "plan_group_of e =
     (case e of (key, fs) \<Rightarrow>
        \<lparr>gr_key = key,
         gr_planName = (if key = standalone then ''Standalone''
                        else (case fa_planName (hd fs) of Some n \<Rightarrow> n | None \<Rightarrow> ''Unknown'')),
         gr_features = fs, gr_totalCost = total_of fa_cost fs, gr_totalDuration = total_of fa_duration_s fs,
         gr_totalEstimateHours = sum_known fa_estimateHours fs\<rparr>)"

definition group_cmp :: "plan_group \<Rightarrow> plan_group \<Rightarrow> rat" where
  "group_cmp a b =
     (if gr_key a = standalone then 1
      else if gr_key b = standalone then - 1
      else gr_totalCost b - gr_totalCost a)"

definition groupByPlan :: "feature_aggregate list \<Rightarrow> plan_group list" where
  "groupByPlan fs = js_sort group_cmp (map plan_group_of (om_group plan_key fs))"

section \<open>State and view\<close>

datatype group_mode = GmFlat | GmPlan

record economy_state =
  ec_planFilter :: string
  ec_period :: period
  ec_groupMode :: group_mode
  ec_sortCol :: sort_column
  ec_sortDir :: sort_dir
  ec_phaseSortCol :: phase_sort_column
  ec_phaseSortDir :: sort_dir

definition economy_init :: economy_state where
  "economy_init = \<lparr>ec_planFilter = ''all'', ec_period = PAll, ec_groupMode = GmFlat, ec_sortCol = ScCost,
     ec_sortDir = SdDesc, ec_phaseSortCol = PcCost, ec_phaseSortDir = SdDesc\<rparr>"

definition flip :: "sort_dir \<Rightarrow> sort_dir" where
  "flip d = (if d = SdDesc then SdAsc else SdDesc)"

definition handleHeaderClick :: "sort_column \<Rightarrow> economy_state \<Rightarrow> economy_state" where
  "handleHeaderClick col st =
     (if col = ec_sortCol st then st\<lparr>ec_sortDir := flip (ec_sortDir st)\<rparr>
      else st\<lparr>ec_sortCol := col, ec_sortDir := SdDesc\<rparr>)"

definition handlePhaseHeaderClick :: "phase_sort_column \<Rightarrow> economy_state \<Rightarrow> economy_state" where
  "handlePhaseHeaderClick col st =
     (if col = ec_phaseSortCol st then st\<lparr>ec_phaseSortDir := flip (ec_phaseSortDir st)\<rparr>
      else st\<lparr>ec_phaseSortCol := col, ec_phaseSortDir := SdDesc\<rparr>)"

text \<open>A click on the pressed period or group button sends null and changes nothing.\<close>

definition choose_period :: "period option \<Rightarrow> economy_state \<Rightarrow> economy_state" where
  "choose_period v st = (case v of Some p \<Rightarrow> st\<lparr>ec_period := p\<rparr> | None \<Rightarrow> st)"

definition choose_group :: "group_mode option \<Rightarrow> economy_state \<Rightarrow> economy_state" where
  "choose_group v st = (case v of Some g \<Rightarrow> st\<lparr>ec_groupMode := g\<rparr> | None \<Rightarrow> st)"

definition choose_plan :: "string \<Rightarrow> economy_state \<Rightarrow> economy_state" where
  "choose_plan v st = st\<lparr>ec_planFilter := v\<rparr>"

definition header_mark :: "'c \<Rightarrow> 'c \<Rightarrow> sort_dir \<Rightarrow> string" where
  "header_mark col activeCol dir =
     (if col = activeCol then (if dir = SdAsc then ''ascending'' else ''descending'') else ''none'')"

section \<open>Cells\<close>

definition arrow :: string where "arrow = [CHR 0xE2, CHR 0x86, CHR 0x92]"
definition up_arrow :: string where "up_arrow = [CHR 0xE2, CHR 0x86, CHR 0x91]"
definition down_arrow :: string where "down_arrow = [CHR 0xE2, CHR 0x86, CHR 0x93]"

definition plural :: "nat \<Rightarrow> string \<Rightarrow> string" where
  "plural n w = (if n = 1 then w else w @ ''s'')"

definition cache_text :: "rat option \<Rightarrow> string option" where
  "cache_text r = map_option (\<lambda>x. string_of_int (js_round (x * 100)) @ ''% cache'') r"

definition token_line :: "rat \<Rightarrow> rat \<Rightarrow> string" where
  "token_line up down = up_arrow @ '' '' @ formatTokens up @ ''  '' @ down_arrow @ '' '' @ formatTokens down"

definition cache_line :: "rat option \<Rightarrow> rat \<Rightarrow> string" where
  "cache_line r new =
     join_with '', '' ((case cache_text r of Some c \<Rightarrow> [c] | None \<Rightarrow> []) @ [formatTokens new @ '' new''])"

definition idle_text :: "rat option \<Rightarrow> string option" where
  "idle_text i = (case i of Some x \<Rightarrow> if x > 0 then Some (formatRunDuration x @ '' idle'') else None | None \<Rightarrow> None)"

record kpi_cell =
  kp_label :: string
  kp_primary :: string
  kp_secondary :: "string option"

definition kpi :: "string \<Rightarrow> string \<Rightarrow> string option \<Rightarrow> kpi_cell" where
  "kpi l p s = \<lparr>kp_label = l, kp_primary = p, kp_secondary = s\<rparr>"

definition kpi_strip :: "run_economy \<Rightarrow> kpi_cell list" where
  "kpi_strip g =
     (let n = of_nat (re_featureCount g) :: rat; feats = string_of_nat (re_featureCount g) @ '' features'';
          per = (\<lambda>x. x / n);
          avgIdle = (case re_totalIdleSec g of
                       Some t \<Rightarrow> if re_idleFeatureCount g > 0 then Some (t / of_nat (re_idleFeatureCount g)) else None
                     | None \<Rightarrow> None);
          avg = ''Avg / Feature''
      in [kpi ''Tokens'' (token_line (of_int (re_totalUpstream g)) (of_int (re_totalOutput g)))
            (Some (cache_line (re_totalCacheRate g) (of_int (re_totalNewTokens g)))),
          kpi ''Cost'' (formatCost (re_totalCost g)) None,
          kpi ''Run Time'' (formatRunDuration (re_totalDuration g))
            (Some (case idle_text (re_totalIdleSec g) of Some t \<Rightarrow> t | None \<Rightarrow> feats)),
          kpi ''Turns'' (string_of_int (re_totalTurns g)) (Some feats),
          kpi avg (token_line (per (of_int (re_totalUpstream g))) (per (of_int (re_totalOutput g))))
            (Some (cache_line (re_totalCacheRate g) (per (of_int (re_totalNewTokens g))))),
          kpi avg (formatCost (per (re_totalCost g))) None,
          kpi avg (formatRunDuration (per (re_totalDuration g))) (idle_text avgIdle),
          kpi avg (string_of_int (js_round (per (of_int (re_totalTurns g))))) None])"

definition estimate_cell :: "feature_aggregate \<Rightarrow> (string \<times> string \<times> estimate_tier) option" where
  "estimate_cell f =
     (case (fa_estimateHours f, estimateTier (fa_duration_s f) (fa_estimateHours f)) of
        (Some h, Some tier) \<Rightarrow>
          (let delta = estimate_delta (fa_duration_s f) h;
               pct = string_of_int (js_round (\<bar>delta\<bar> * 100))
           in Some (string_of_rat h @ ''h '' @ arrow @ '' '' @ formatRunDuration (fa_duration_s f),
                    if delta < 0 then pct @ ''% under'' else if delta > 0 then pct @ ''% over'' else ''on target'', tier))
      | _ \<Rightarrow> None)"

record economy_row =
  er_name :: string
  er_cells :: "string list"
  er_cache :: "(string \<times> cache_tier) option"
  er_estimate :: "(string \<times> string \<times> estimate_tier) option"

definition cache_cell :: "rat option \<Rightarrow> (string \<times> cache_tier) option" where
  "cache_cell r = (case (cache_text r, cacheTier r) of (Some t, Some tier) \<Rightarrow> Some (t, tier) | _ \<Rightarrow> None)"

definition FeatureRow :: "feature_aggregate \<Rightarrow> economy_row" where
  "FeatureRow f =
     \<lparr>er_name = fa_task f,
      er_cells = [formatCost (fa_cost f), formatRunDuration (fa_duration_s f), string_of_int (fa_turns f),
        formatTokens (of_int (fa_upstream f)), formatTokens (of_int (fa_output f)),
        (case fa_idleSec f of Some i \<Rightarrow> if i > 0 then formatRunDuration i else emdash | None \<Rightarrow> emdash)],
      er_cache = cache_cell (fa_cacheRate f), er_estimate = estimate_cell f\<rparr>"

definition PhaseRow :: "phase_aggregate \<Rightarrow> economy_row" where
  "PhaseRow p =
     \<lparr>er_name = pa_name p,
      er_cells = [string_of_nat (pa_featureCount p), formatCost (pa_avgCost p), formatRunDuration (pa_avgDurationSec p),
        string_of_int (js_round (pa_avgTurns p)), formatTokens (pa_avgUpstream p), formatTokens (pa_avgOutput p)],
      er_cache = cache_cell (pa_avgCacheRate p), er_estimate = None\<rparr>"

definition PlanGroup :: "plan_group \<Rightarrow> string list \<times> economy_row list" where
  "PlanGroup g =
     ([gr_planName g, string_of_nat (length (gr_features g)) @ '' '' @ plural (length (gr_features g)) ''feature'']
        @ (case gr_totalEstimateHours g of
             Some h \<Rightarrow> [string_of_rat h @ ''h '' @ arrow @ '' '' @ formatRunDuration (gr_totalDuration g)]
           | None \<Rightarrow> [])
        @ [formatCost (gr_totalCost g)],
      map FeatureRow (gr_features g))"

record economy_table =
  et_plans :: "(string \<times> string) list \<times> bool"
  et_notice :: "string option"
  et_kpis :: "kpi_cell list"
  et_phases :: "economy_row list"
  et_features :: "(string list \<times> economy_row list) list"

datatype economy_view = EvLoading | EvEmpty string | EvTable economy_table

definition empty_text :: "nat \<Rightarrow> string" where
  "empty_text n =
     (if n = 0 then ''No autopilot runs yet '' @ emdash
        @ '' kick off an autopilot.sh task and the aggregates will populate here.''
      else ''No autopilot runs with stream files yet ('' @ string_of_nat n @ '' log-only '' @ plural n ''run''
        @ '' skipped '' @ emdash @ '' token + turn data needs the NDJSON stream).'')"

definition RunEconomy ::
    "(string \<Rightarrow> int option) \<Rightarrow> (string \<Rightarrow> string \<Rightarrow> int) \<Rightarrow> int \<Rightarrow> autopilot_session list option \<Rightarrow> feature list option \<Rightarrow>
     economy_state \<Rightarrow> economy_view" where
  "RunEconomy parse_date loc now ss fs st =
     (let pool = streamSessions ss; links = planLinkLookup fs;
          agg = aggregate parse_date links (filteredSessions parse_date now links (ec_planFilter st) (ec_period st) pool);
          sortedFeatures = sortFeatures loc (re_byFeature agg) (ec_sortCol st) (ec_sortDir st);
          sortedPhases = sortPhases loc (re_byPhase agg) (ec_phaseSortCol st) (ec_phaseSortDir st)
      in case ss of
           None \<Rightarrow> EvLoading
         | Some all \<Rightarrow>
             if re_featureCount agg = 0 then EvEmpty (empty_text (length all))
             else (let skipped = length all - length pool
                   in EvTable \<lparr>et_plans = planOptions loc links pool,
                        et_notice = (if skipped > 0
                          then Some (''Showing '' @ string_of_nat (re_featureCount agg) @ '' stream-backed ''
                            @ plural (re_featureCount agg) ''feature'' @ '' '' @ mdot @ '' ''
                            @ string_of_nat skipped @ '' log-only '' @ plural skipped ''run''
                            @ '' skipped (token + turn data needs the NDJSON stream)'')
                          else None),
                        et_kpis = kpi_strip agg, et_phases = map PhaseRow sortedPhases,
                        et_features = (if ec_groupMode st = GmFlat then [([], map FeatureRow sortedFeatures)]
                          else map PlanGroup (groupByPlan sortedFeatures))\<rparr>))"
text \<open>What the user can do in a view: the controls stand in the table only.\<close>

datatype economy_action =
  EaPlan string | EaPeriod "period option" | EaGroup "group_mode option" | EaHeader sort_column | EaPhaseHeader phase_sort_column

fun economy_apply :: "economy_action \<Rightarrow> economy_state \<Rightarrow> economy_state" where
  "economy_apply (EaPlan v) st = choose_plan v st"
| "economy_apply (EaPeriod v) st = choose_period v st"
| "economy_apply (EaGroup v) st = choose_group v st"
| "economy_apply (EaHeader c) st = handleHeaderClick c st"
| "economy_apply (EaPhaseHeader c) st = handlePhaseHeaderClick c st"

definition plan_choices :: "(string \<times> string) list \<times> bool \<Rightarrow> string list" where
  "plan_choices opts = ''all'' # map fst (fst opts) @ (if snd opts then [standalone] else [])"

definition economy_offers :: "economy_view \<Rightarrow> economy_action \<Rightarrow> bool" where
  "economy_offers v a =
     (case v of
        EvTable t \<Rightarrow> (case a of EaPlan p \<Rightarrow> p \<in> set (plan_choices (et_plans t)) | _ \<Rightarrow> True)
      | _ \<Rightarrow> False)"

inductive economy_step :: "(economy_state \<Rightarrow> economy_view) \<Rightarrow> economy_state \<Rightarrow> economy_state \<Rightarrow> bool" where
  act: "economy_offers (view st) a \<Longrightarrow> economy_step view st (economy_apply a st)"

inductive_cases economy_stepE: "economy_step view st st'"

section \<open>Totals\<close>

lemma total_of_sum: "total_of (f :: 'a \<Rightarrow> 'b::comm_monoid_add) xs = sum_list (map f xs)"
proof -
  have "foldl (\<lambda>acc x. acc + f x) a xs = a + sum_list (map f xs)" for a
    by (induction xs arbitrary: a) (simp_all add: add.assoc)
  then show ?thesis by (simp add: total_of_def)
qed

lemma session_fold:
  "sa_upstream (fold (add_phase pd) ps a) = sa_upstream a + sum_list (map all_in ps)"
  "sa_output (fold (add_phase pd) ps a) = sa_output a + sum_list (map (\<lambda>p. orz (ap_output_tokens p)) ps)"
  "sa_cacheRead (fold (add_phase pd) ps a) = sa_cacheRead a + sum_list (map (\<lambda>p. orz (ap_cache_read_tokens p)) ps)"
  "sa_newTokens (fold (add_phase pd) ps a) = sa_newTokens a + sum_list (map fresh_in ps)"
  "sa_cost (fold (add_phase pd) ps a) = sa_cost a + sum_list (map (\<lambda>p. orz (ap_cost p)) ps)"
  "sa_duration (fold (add_phase pd) ps a) = sa_duration a + sum_list (map (\<lambda>p. orz (ap_duration_s p)) ps)"
  "sa_turns (fold (add_phase pd) ps a) = sa_turns a + sum_list (map (\<lambda>p. orz (ap_num_turns p)) ps)"
  by (induction ps arbitrary: a) (simp_all add: add_phase_def)

lemma combine_sums:
  assumes "parts \<noteq> []"
  shows "fa_upstream (combineFeatureAggregates parts) = sum_list (map fa_upstream parts)"
    and "fa_output (combineFeatureAggregates parts) = sum_list (map fa_output parts)"
    and "fa_newTokens (combineFeatureAggregates parts) = sum_list (map fa_newTokens parts)"
    and "fa_cost (combineFeatureAggregates parts) = sum_list (map fa_cost parts)"
    and "fa_duration_s (combineFeatureAggregates parts) = sum_list (map fa_duration_s parts)"
    and "fa_turns (combineFeatureAggregates parts) = sum_list (map fa_turns parts)"
  using assms by (cases parts; simp add: combineFeatureAggregates_def Let_def total_of_sum)+

lemma sum_concat: "sum_list (map (\<lambda>e. sum_list (map f (snd e))) m) = sum_list (map f (concat (map snd m)))"
  by (induction m) simp_all

text \<open>Regrouping does not change a sum that \<open>combineFeatureAggregates\<close> preserves.\<close>

lemma sum_over_groups:
  fixes f :: "'a \<Rightarrow> 'b::comm_monoid_add"
  assumes "\<And>parts. parts \<noteq> [] \<Longrightarrow> set parts \<subseteq> set xs \<Longrightarrow> f (comb parts) = sum_list (map f parts)"
  shows "sum_list (map f (map (\<lambda>e. comb (snd e)) (om_group k xs))) = sum_list (map f xs)"
proof -
  have sub: "set (snd e) \<subseteq> set xs \<and> snd e \<noteq> []" if "e \<in> set (om_group k xs)" for e
  proof -
    have e: "(fst e, snd e) \<in> set (om_group k xs)" using that by simp
    have "snd e = filter (\<lambda>x. k x = fst e) xs" by (rule om_group_mem [OF e])
    then have "set (snd e) \<subseteq> set xs" by simp
    then show ?thesis using om_group_nonempty [OF e] by simp
  qed
  have "sum_list (map f (map (\<lambda>e. comb (snd e)) (om_group k xs))) =
      sum_list (map (\<lambda>e. sum_list (map f (snd e))) (om_group k xs))"
    unfolding map_map by (rule arg_cong [where f = sum_list], rule map_cong) (use sub assms in auto)
  also have "\<dots> = sum_list (map f (concat (map snd (om_group k xs))))"
    by (rule sum_concat)
  also have "\<dots> = sum_mset (image_mset f (mset (concat (map snd (om_group k xs)))))"
    by (simp only: mset_map [symmetric] sum_mset_sum_list)
  also have "\<dots> = sum_list (map f xs)"
    unfolding mset_om_group by (simp only: mset_map [symmetric] sum_mset_sum_list)
  finally show ?thesis .
qed

lemma by_feature_sum:
  fixes f :: "feature_aggregate \<Rightarrow> 'b::comm_monoid_add"
  assumes "\<And>parts. parts \<noteq> [] \<Longrightarrow> set parts \<subseteq> set (map (aggregateSession pd links) ss) \<Longrightarrow>
      f (combineFeatureAggregates parts) = sum_list (map f parts)"
  shows "sum_list (map f (by_feature pd links ss)) = sum_list (map (\<lambda>s. f (aggregateSession pd links s)) ss)"
  using sum_over_groups [where f = f and comb = combineFeatureAggregates and k = fa_task
      and xs = "map (aggregateSession pd links) ss", OF assms] by (simp add: by_feature_def comp_def)
lemma session_sums:
  "fa_upstream (aggregateSession pd links s) = sum_list (map all_in (as_phases s))"
  "fa_output (aggregateSession pd links s) = sum_list (map (\<lambda>p. orz (ap_output_tokens p)) (as_phases s))"
  "fa_newTokens (aggregateSession pd links s) = sum_list (map fresh_in (as_phases s))"
  "fa_cost (aggregateSession pd links s) = sum_list (map (\<lambda>p. orz (ap_cost p)) (as_phases s))"
  "fa_duration_s (aggregateSession pd links s) = sum_list (map (\<lambda>p. orz (ap_duration_s p)) (as_phases s))"
  "fa_turns (aggregateSession pd links s) = sum_list (map (\<lambda>p. orz (ap_num_turns p)) (as_phases s))"
  by (simp_all add: aggregateSession_def Let_def session_fold acc_zero_def)

definition tokens_ok :: "autopilot_phase \<Rightarrow> bool" where
  "tokens_ok p \<longleftrightarrow> 0 \<le> fresh_in p \<and> 0 \<le> orz (ap_cache_read_tokens p)"

definition rate_ok :: "feature_aggregate \<Rightarrow> bool" where
  "rate_ok f \<longleftrightarrow> 0 \<le> fa_upstream f \<and> (fa_cacheRate f = None \<longleftrightarrow> fa_upstream f = 0)"

lemma session_rate:
  assumes "\<forall>p\<in>set (as_phases s). tokens_ok p"
  shows "rate_ok (aggregateSession pd links s)"
    and "cache_read_of (aggregateSession pd links s) =
      of_int (sum_list (map (\<lambda>p. orz (ap_cache_read_tokens p)) (as_phases s)))"
proof -
  let ?r = "sum_list (map (\<lambda>p. orz (ap_cache_read_tokens p)) (as_phases s))" and ?u = "sum_list (map all_in (as_phases s))"
  have r: "0 \<le> ?r" "?r \<le> ?u"
    using assms by (auto simp: tokens_ok_def all_in_def intro!: sum_list_nonneg sum_list_mono)
  have c: "fa_cacheRate (aggregateSession pd links s) = (if ?u > 0 then Some (of_int ?r / of_int ?u) else None)"
    by (simp add: aggregateSession_def Let_def session_fold acc_zero_def)
  show "rate_ok (aggregateSession pd links s)"
    using r by (auto simp: rate_ok_def session_sums c)
  show "cache_read_of (aggregateSession pd links s) = of_int ?r"
    using r by (auto simp: cache_read_of_def session_sums c)
qed

lemma combine_rate:
  assumes "parts \<noteq> []" and "\<forall>p\<in>set parts. rate_ok p"
  shows "rate_ok (combineFeatureAggregates parts)"
    and "cache_read_of (combineFeatureAggregates parts) = sum_list (map cache_read_of parts)"
proof -
  let ?u = "sum_list (map fa_upstream parts)"
  have u: "0 \<le> ?u" using assms(2) by (auto simp: rate_ok_def intro!: sum_list_nonneg)
  have zero: "cache_read_of p = 0" if "?u = 0" "p \<in> set parts" for p
  proof -
    have "\<forall>x\<in>set (map fa_upstream parts). 0 \<le> x" using assms(2) by (auto simp: rate_ok_def)
    then have "fa_upstream p = 0" using that sum_list_nonneg_eq_0_iff [of "map fa_upstream parts"] by auto
    then show ?thesis by (simp add: cache_read_of_def split: option.splits)
  qed
  then have zeros: "?u = 0 \<Longrightarrow> sum_list (map cache_read_of parts) = 0"
    by (metis (no_types, lifting) map_eq_conv sum_list_0)
  show "rate_ok (combineFeatureAggregates parts)"
    using assms u by (cases "length parts = 1")
      (auto simp: rate_ok_def combineFeatureAggregates_def Let_def total_of_sum length_Suc_conv)
  show "cache_read_of (combineFeatureAggregates parts) = sum_list (map cache_read_of parts)"
  proof (cases "length parts = 1")
    case True
    then show ?thesis by (auto simp: combineFeatureAggregates_def length_Suc_conv)
  next
    case False
    then show ?thesis
      using u zeros by (auto simp: cache_read_of_def combineFeatureAggregates_def Let_def total_of_sum [where f = cache_read_of]
          total_of_sum [where f = fa_upstream])
  qed
qed
lemma all_rates:
  assumes "\<forall>s\<in>set ss. \<forall>p\<in>set (as_phases s). tokens_ok p" and "parts \<noteq> []"
    and "set parts \<subseteq> set (map (aggregateSession pd links) ss)"
  shows "rate_ok (combineFeatureAggregates parts)"
    and "cache_read_of (combineFeatureAggregates parts) = sum_list (map cache_read_of parts)"
proof -
  have "\<forall>p\<in>set parts. rate_ok p" using assms(1,3) session_rate(1) by fastforce
  then show "rate_ok (combineFeatureAggregates parts)"
    "cache_read_of (combineFeatureAggregates parts) = sum_list (map cache_read_of parts)"
    using combine_rate [OF assms(2)] by blast+
qed

lemma cache_read_orz: "of_int (fa_upstream f) * orz (fa_cacheRate f) = cache_read_of f"
  by (simp add: cache_read_of_def orz_def split: option.splits)

lemma by_feature_count: "length (by_feature pd links ss) = card (set (map as_task ss))"
proof -
  have "length (by_feature pd links ss) = card (set (om_keys (om_group fa_task (map (aggregateSession pd links) ss))))"
    using distinct_card [OF om_group_distinct [of fa_task "map (aggregateSession pd links) ss"]]
    by (simp add: by_feature_def)
  also have "\<dots> = card (fa_task ` set (map (aggregateSession pd links) ss))" unfolding om_group_keys ..
  also have "fa_task ` set (map (aggregateSession pd links) ss) = set (map as_task ss)"
    by (force simp: aggregateSession_def Let_def)
  finally show ?thesis .
qed

section \<open>Properties\<close>

text \<open>
  C20. The totals do not depend on how runs are grouped into features: each is the sum over every phase of every
  run, the cache rate is the share of all cache reads in all input tokens, and each task counts once.
\<close>
theorem economy_totals_exact:
  assumes "\<forall>s\<in>set ss. \<forall>p\<in>set (as_phases s). tokens_ok p" and "g = aggregate pd links ss"
  shows "re_totalCost g = (\<Sum>s\<leftarrow>ss. \<Sum>p\<leftarrow>as_phases s. orz (ap_cost p))
    \<and> re_totalDuration g = (\<Sum>s\<leftarrow>ss. \<Sum>p\<leftarrow>as_phases s. orz (ap_duration_s p))
    \<and> re_totalTurns g = (\<Sum>s\<leftarrow>ss. \<Sum>p\<leftarrow>as_phases s. orz (ap_num_turns p))
    \<and> re_totalOutput g = (\<Sum>s\<leftarrow>ss. \<Sum>p\<leftarrow>as_phases s. orz (ap_output_tokens p))
    \<and> re_totalNewTokens g = (\<Sum>s\<leftarrow>ss. \<Sum>p\<leftarrow>as_phases s. fresh_in p)
    \<and> re_totalUpstream g = (\<Sum>s\<leftarrow>ss. \<Sum>p\<leftarrow>as_phases s. all_in p)
    \<and> re_totalCacheRate g = (if re_totalUpstream g > 0
         then Some (of_int (\<Sum>s\<leftarrow>ss. \<Sum>p\<leftarrow>as_phases s. orz (ap_cache_read_tokens p)) / of_int (re_totalUpstream g))
         else None)
    \<and> re_featureCount g = card (set (map as_task ss))"
proof -
  note sums = by_feature_sum [where pd = pd and links = links and ss = ss]
  have reads: "sum_list (map cache_read_of (by_feature pd links ss)) =
      of_int (\<Sum>s\<leftarrow>ss. \<Sum>p\<leftarrow>as_phases s. orz (ap_cache_read_tokens p))"
  proof -
    have "sum_list (map cache_read_of (by_feature pd links ss)) =
        (\<Sum>s\<leftarrow>ss. cache_read_of (aggregateSession pd links s))"
      by (rule sums [of cache_read_of, OF all_rates(2) [OF assms(1)]])
    also have "\<dots> = (\<Sum>s\<leftarrow>ss. of_int (\<Sum>p\<leftarrow>as_phases s. orz (ap_cache_read_tokens p)))"
      using assms(1) session_rate(2) by (intro arg_cong [where f = sum_list] map_cong) auto
    also have "\<dots> = of_int (\<Sum>s\<leftarrow>ss. \<Sum>p\<leftarrow>as_phases s. orz (ap_cache_read_tokens p))"
      by (induction ss) simp_all
    finally show ?thesis .
  qed
  show ?thesis
    by (simp add: assms(2) aggregate_def Let_def total_of_sum cache_read_orz reads by_feature_count
        sums [of fa_cost, OF combine_sums(4)] sums [of fa_duration_s, OF combine_sums(5)]
        sums [of fa_turns, OF combine_sums(6)] sums [of fa_output, OF combine_sums(2)]
        sums [of fa_newTokens, OF combine_sums(3)] sums [of fa_upstream, OF combine_sums(1)] session_sums)
qed
lemma bucket_fold:
  "om_get_or fresh_bucket
     (fold (\<lambda>(task, p) m. om_set (ap_name p) (add_sample task p (om_get_or fresh_bucket m (ap_name p))) m) xs m) n =
   fold (\<lambda>(task, p). add_sample task p) (filter (\<lambda>(task, p). ap_name p = n) xs) (om_get_or fresh_bucket m n)"
  by (induction xs arbitrary: m) auto

lemma bucket_keys:
  "distinct (om_keys m) \<Longrightarrow> distinct (om_keys (fold (\<lambda>(task, p) m.
     om_set (ap_name p) (add_sample task p (om_get_or fresh_bucket m (ap_name p))) m) xs m))"
  "set (om_keys (fold (\<lambda>(task, p) m. om_set (ap_name p) (add_sample task p (om_get_or fresh_bucket m (ap_name p))) m) xs m))
     = (\<lambda>x. ap_name (snd x)) ` set xs \<union> set (om_keys m)"
  by (induction xs arbitrary: m) (auto simp: om_keys_set simp del: distinct_map set_map list.set_map)

text \<open>The samples of one phase, and the values among them that are known.\<close>

definition samples_of :: "string \<Rightarrow> autopilot_session list \<Rightarrow> (string \<times> autopilot_phase) list" where
  "samples_of n ss = filter (\<lambda>(task, p). ap_name p = n) (phase_samples ss)"

definition known :: "('a \<Rightarrow> 'b option) \<Rightarrow> (string \<times> 'a) list \<Rightarrow> 'b list" where
  "known f xs = List.map_filter (\<lambda>x. f (snd x)) xs"

definition mean :: "rat list \<Rightarrow> rat" where
  "mean xs = (if xs = [] then 0 else sum_list xs / of_nat (length xs))"

lemma known_Cons: "known f ((t, p) # xs) = (case f p of Some v \<Rightarrow> v # known f xs | None \<Rightarrow> known f xs)"
  by (simp add: known_def List.map_filter_simps split: option.splits)

lemma bucket_sums:
  "bk_cost (fold (\<lambda>(task, p). add_sample task p) xs b) = bk_cost b + sum_list (known ap_cost xs)"
  "bk_costN (fold (\<lambda>(task, p). add_sample task p) xs b) = bk_costN b + length (known ap_cost xs)"
  "bk_duration (fold (\<lambda>(task, p). add_sample task p) xs b) = bk_duration b + sum_list (known ap_duration_s xs)"
  "bk_durationN (fold (\<lambda>(task, p). add_sample task p) xs b) = bk_durationN b + length (known ap_duration_s xs)"
  "bk_turns (fold (\<lambda>(task, p). add_sample task p) xs b) = bk_turns b + sum_list (known ap_num_turns xs)"
  "bk_turnsN (fold (\<lambda>(task, p). add_sample task p) xs b) = bk_turnsN b + length (known ap_num_turns xs)"
  "set (bk_features (fold (\<lambda>(task, p). add_sample task p) xs b)) = set (bk_features b) \<union> fst ` set xs"
  "distinct (bk_features b) \<Longrightarrow> distinct (bk_features (fold (\<lambda>(task, p). add_sample task p) xs b))"
  by (induction xs arbitrary: b)
    (auto simp: add_sample_def Let_def known_Cons orz_def known_one_def known_def split: option.splits prod.splits)

lemma mean_int: "average (of_int (sum_list xs)) (length xs) = mean (map of_int xs)"
proof -
  have "of_int (sum_list xs) = sum_list (map of_int xs :: rat list)" by (induction xs) simp_all
  then show ?thesis by (simp add: average_def mean_def)
qed

lemma mean_rat: "average (sum_list xs) (length xs) = mean xs"
  by (simp add: average_def mean_def)

text \<open>
  The by-phase table has one row for every phase name that occurs; its averages are the means over the runs
  that report the value, and its count is the number of tasks that ran the phase.
\<close>
theorem phase_averages_exact:
  "distinct (map pa_name (aggregateByPhase ss))
   \<and> set (map pa_name (aggregateByPhase ss)) = (\<lambda>x. ap_name (snd x)) ` set (phase_samples ss)
   \<and> (\<forall>pa\<in>set (aggregateByPhase ss).
        pa_avgCost pa = mean (known ap_cost (samples_of (pa_name pa) ss))
        \<and> pa_avgDurationSec pa = mean (known ap_duration_s (samples_of (pa_name pa) ss))
        \<and> pa_avgTurns pa = mean (map of_int (known ap_num_turns (samples_of (pa_name pa) ss)))
        \<and> pa_featureCount pa = card (fst ` set (samples_of (pa_name pa) ss)))"
proof -
  have names: "map pa_name (aggregateByPhase ss) = om_keys (phase_buckets ss)"
    by (simp add: aggregateByPhase_def phase_average_def split_beta comp_def)
  have dist: "distinct (om_keys (phase_buckets ss))"
    unfolding phase_buckets_def by (rule bucket_keys(1)) simp
  have rows: "pa_avgCost pa = mean (known ap_cost (samples_of (pa_name pa) ss))
        \<and> pa_avgDurationSec pa = mean (known ap_duration_s (samples_of (pa_name pa) ss))
        \<and> pa_avgTurns pa = mean (map of_int (known ap_num_turns (samples_of (pa_name pa) ss)))
        \<and> pa_featureCount pa = card (fst ` set (samples_of (pa_name pa) ss))"
    if "pa \<in> set (aggregateByPhase ss)" for pa
  proof -
    have "pa \<in> phase_average ` set (phase_buckets ss)" using that by (simp add: aggregateByPhase_def)
    then obtain e where e: "e \<in> set (phase_buckets ss)" "pa = phase_average e" by (elim imageE)
    define n b where "n = fst e" and "b = snd e"
    have nb: "(n, b) \<in> set (phase_buckets ss)" "pa = phase_average (n, b)" using e by (simp_all add: n_def b_def)
    have "om_get_or fresh_bucket (phase_buckets ss) n = b" using nb(1) dist by (simp add: om_get_or_def)
    then have b: "b = fold (\<lambda>(task, p). add_sample task p) (samples_of n ss) fresh_bucket"
      unfolding phase_buckets_def bucket_fold samples_of_def by (simp add: om_get_or_def)
    have "length (bk_features b) = card (fst ` set (samples_of n ss))"
      using distinct_card [of "bk_features b"] bucket_sums(7,8) [where b = fresh_bucket and xs = "samples_of n ss"]
      by (simp add: b fresh_bucket_def)
    then show ?thesis
      by (simp add: nb(2) phase_average_def b bucket_sums fresh_bucket_def mean_rat mean_int)
  qed
  have "set (om_keys (phase_buckets ss)) = (\<lambda>x. ap_name (snd x)) ` set (phase_samples ss)"
    unfolding phase_buckets_def bucket_keys(2) by simp
  with names dist rows show ?thesis by metis
qed
section \<open>Sorting\<close>

lemma directed_comparator:
  assumes "js_comparator c" shows "js_comparator (directed dir c)"
proof (cases dir)
  case SdAsc
  then show ?thesis using assms by (simp add: directed_def [abs_def])
next
  case SdDesc
  then show ?thesis using js_comparator_swap [OF assms] by (simp add: directed_def [abs_def])
qed

definition missing_last :: "('a \<Rightarrow> 'k option) \<Rightarrow> ('k \<Rightarrow> 'k \<Rightarrow> rat) \<Rightarrow> 'a \<Rightarrow> 'a \<Rightarrow> rat" where
  "missing_last k c a b =
     (case (k a, k b) of (None, Some _) \<Rightarrow> 1 | (Some _, None) \<Rightarrow> - 1 | (None, None) \<Rightarrow> 0 | (Some x, Some y) \<Rightarrow> c x y)"

lemma missing_last_comparator:
  assumes "js_comparator c" shows "js_comparator (missing_last k c)"
proof
  fix a b d
  show "0 < missing_last k c a b \<longleftrightarrow> missing_last k c b a < 0"
    by (cases "k a"; cases "k b") (simp_all add: missing_last_def js_comparator.cmp_flip [OF assms])
  show "missing_last k c a b \<le> 0 \<Longrightarrow> missing_last k c b d \<le> 0 \<Longrightarrow> missing_last k c a d \<le> 0"
    by (cases "k a"; cases "k b"; cases "k d") (auto simp: missing_last_def intro: js_comparator.cmp_trans [OF assms])
qed

definition num_key :: "sort_column \<Rightarrow> feature_aggregate \<Rightarrow> rat option" where
  "num_key col f = (case feature_key col f of Some (KeyNum x) \<Rightarrow> Some x | _ \<Rightarrow> None)"

lemma feature_cmp_num:
  "col \<noteq> ScName \<Longrightarrow> feature_cmp loc col dir = missing_last (num_key col) (directed dir (\<lambda>x y. x - y))"
  by (intro ext; cases col; cases dir)
    (auto simp: feature_cmp_def missing_last_def num_key_def directed_def split: option.splits)

lemma feature_cmp_name:
  "feature_cmp loc ScName dir =
     missing_last (\<lambda>f. Some (to_lower (fa_task f))) (directed dir (\<lambda>x y. of_int (loc x y)))"
  by (intro ext; cases dir) (auto simp: feature_cmp_def missing_last_def directed_def)

lemma feature_comparator:
  assumes "js_comparator loc" shows "js_comparator (feature_cmp loc col dir)"
proof (cases "col = ScName")
  case True
  show ?thesis
    unfolding True feature_cmp_name
    by (intro missing_last_comparator directed_comparator js_comparator_map [OF assms, of "\<lambda>x. x"])
next
  case False
  show ?thesis
    unfolding feature_cmp_num [OF False]
    by (intro missing_last_comparator directed_comparator js_comparator_key [of "\<lambda>x. x"])
qed

lemma sorted_missing_suffix:
  assumes "sorted_wrt (\<lambda>a b. c a b \<le> 0) xs" and "\<And>a b. k a = None \<Longrightarrow> k b \<noteq> None \<Longrightarrow> 0 < (c a b :: rat)"
  shows "xs = filter (\<lambda>x. k x \<noteq> None) xs @ filter (\<lambda>x. k x = None) xs"
  using assms(1)
proof (induction xs)
  case (Cons x xs)
  show ?case
  proof (cases "k x = None")
    case True
    have "filter (\<lambda>x. k x \<noteq> None) xs = []"
      using Cons.prems assms(2) [OF True] by (auto simp: filter_empty_conv) force
    with True Cons show ?thesis by simp
  next
    case False
    then show ?thesis using Cons by (simp del: not_None_eq)
  qed
qed simp

text \<open>
  Whatever column and direction are chosen, the feature rows are the features in comparator order, and those
  without a value for the column come last, in the order the server sent them.
\<close>
theorem feature_sort_missing_last:
  assumes "js_comparator loc" and "out = sortFeatures loc fs col dir"
  shows "mset out = mset fs \<and> sorted_wrt (\<lambda>a b. feature_cmp loc col dir a b \<le> 0) out
    \<and> (\<exists>shown. out = shown @ filter (\<lambda>f. feature_key col f = None) fs \<and> (\<forall>f\<in>set shown. feature_key col f \<noteq> None))"
proof (intro conjI)
  note cmp = feature_comparator [OF assms(1), of col dir]
  show "mset out = mset fs" by (simp add: assms(2) sortFeatures_def)
  show srt: "sorted_wrt (\<lambda>a b. feature_cmp loc col dir a b \<le> 0) out"
    unfolding assms(2) sortFeatures_def by (rule js_comparator.sorted_js_sort [OF cmp])
  let ?none = "\<lambda>f. feature_key col f = None"
  have split: "out = filter (\<lambda>f. \<not> ?none f) out @ filter ?none out"
    by (rule sorted_missing_suffix [OF srt]) (auto simp: feature_cmp_def)
  have "filter ?none out = filter ?none fs"
  proof (cases "\<exists>k\<in>set fs. ?none k")
    case True
    then obtain k where k: "?none k" by blast
    have "feature_cmp loc col dir k y = 0 \<longleftrightarrow> ?none y" for y using k by (simp add: feature_cmp_def split: option.splits)
    then show ?thesis
      using js_comparator.stable_js_sort [OF cmp, of k fs] by (simp add: assms(2) sortFeatures_def)
  next
    case False
    then have "filter ?none fs = []" by (simp add: filter_empty_conv)
    moreover have "filter ?none out = []" using False by (simp add: filter_empty_conv assms(2) sortFeatures_def)
    ultimately show ?thesis by simp
  qed
  with split show "\<exists>shown. out = shown @ filter ?none fs \<and> (\<forall>f\<in>set shown. feature_key col f \<noteq> None)"
    by (intro exI [of _ "filter (\<lambda>f. \<not> ?none f) out"]) auto
qed
section \<open>Groups\<close>

lemma js_insert_cong:
  "\<forall>y\<in>set ys. cmp x y \<le> 0 \<longleftrightarrow> cmp' x y \<le> 0 \<Longrightarrow> js_insert cmp x ys = js_insert cmp' x ys"
  by (induction ys) auto

text \<open>Only comparisons of an earlier with a later element matter.\<close>

lemma js_sort_cong:
  "sorted_wrt (\<lambda>a b. cmp a b \<le> 0 \<longleftrightarrow> cmp' a b \<le> 0) xs \<Longrightarrow> js_sort cmp xs = js_sort cmp' xs"
  by (induction xs) (auto intro!: js_insert_cong)

definition group_order :: "plan_group \<Rightarrow> plan_group \<Rightarrow> rat" where
  "group_order = missing_last (\<lambda>g. if gr_key g = standalone then None else Some (gr_totalCost g)) (\<lambda>x y. y - x)"

interpretation group_order: js_comparator group_order
  unfolding group_order_def by (rule missing_last_comparator) (unfold_locales, auto)

lemma group_key: "gr_key (plan_group_of e) = fst e"
  by (simp add: plan_group_of_def split: prod.splits)

lemma group_sort: "groupByPlan fs = js_sort group_order (map plan_group_of (om_group plan_key fs))"
  unfolding groupByPlan_def
proof (rule js_sort_cong)
  let ?gs = "map plan_group_of (om_group plan_key fs)"
  have "distinct (map gr_key ?gs)" using om_group_distinct [of plan_key fs] by (simp add: comp_def group_key)
  then have "sorted_wrt (\<lambda>a b. gr_key a \<noteq> gr_key b) ?gs"
    unfolding distinct_conv_nth sorted_wrt_iff_nth_less by simp
  then show "sorted_wrt (\<lambda>a b. group_cmp a b \<le> 0 \<longleftrightarrow> group_order a b \<le> 0) ?gs"
    by (rule sorted_wrt_mono_rel [rotated]) (auto simp: group_cmp_def group_order_def missing_last_def)
qed

lemma sum_by_mset:
  fixes f :: "'a \<Rightarrow> 'b::comm_monoid_add"
  shows "mset xs = mset ys \<Longrightarrow> sum_list (map f xs) = sum_list (map f ys)"
  by (metis mset_map sum_mset_sum_list)

text \<open>
  Grouping by plan loses and duplicates nothing: the groups' features are the listed features, every group
  holds one plan's features in the list's order, group costs add up to the total, dearer plans come first and
  features without a plan stand in one last group.
\<close>
theorem plan_groups_partition:
  assumes "out = groupByPlan fs"
  shows "mset (concat (map gr_features out)) = mset fs
    \<and> (\<forall>g\<in>set out. gr_features g = filter (\<lambda>f. plan_key f = gr_key g) fs \<and> gr_features g \<noteq> [])
    \<and> (\<Sum>g\<leftarrow>out. gr_totalCost g) = (\<Sum>f\<leftarrow>fs. fa_cost f)
    \<and> sorted_wrt (\<lambda>a b. gr_key a \<noteq> standalone \<and> (gr_key b = standalone \<or> gr_totalCost b \<le> gr_totalCost a)) out"
proof (intro conjI)
  let ?gs = "map plan_group_of (om_group plan_key fs)"
  have m: "mset out = mset ?gs" by (simp add: assms group_sort)
  have feats: "map gr_features ?gs = map snd (om_group plan_key fs)"
    by (simp add: plan_group_of_def split_beta comp_def)
  have "mset (concat (map gr_features out)) = mset (concat (map gr_features ?gs))"
    using sum_by_mset [OF m, of "\<lambda>g. mset (gr_features g)"] by (simp only: mset_concat map_map comp_def)
  then show "mset (concat (map gr_features out)) = mset fs" unfolding feats mset_om_group .
  show "\<forall>g\<in>set out. gr_features g = filter (\<lambda>f. plan_key f = gr_key g) fs \<and> gr_features g \<noteq> []"
  proof
    fix g assume "g \<in> set out"
    then have "g \<in> plan_group_of ` set (om_group plan_key fs)" by (simp add: assms group_sort)
    then obtain k xs where e: "(k, xs) \<in> set (om_group plan_key fs)" "g = plan_group_of (k, xs)"
      by (elim imageE) (metis surj_pair)
    then show "gr_features g = filter (\<lambda>f. plan_key f = gr_key g) fs \<and> gr_features g \<noteq> []"
      using om_group_mem [OF e(1)] om_group_nonempty [OF e(1)] by (simp add: plan_group_of_def)
  qed
  have "(\<Sum>g\<leftarrow>out. gr_totalCost g) = (\<Sum>g\<leftarrow>?gs. gr_totalCost g)" by (rule sum_by_mset [OF m])
  also have "\<dots> = (\<Sum>e\<leftarrow>om_group plan_key fs. sum_list (map fa_cost (snd e)))"
    by (simp add: plan_group_of_def split_beta comp_def total_of_sum)
  also have "\<dots> = (\<Sum>f\<leftarrow>fs. fa_cost f)"
    unfolding sum_concat by (rule sum_by_mset) (rule mset_om_group)
  finally show "(\<Sum>g\<leftarrow>out. gr_totalCost g) = (\<Sum>f\<leftarrow>fs. fa_cost f)" .
  have "distinct (map gr_key ?gs)" using om_group_distinct [of plan_key fs] by (simp add: comp_def group_key)
  then have "distinct (map gr_key out)"
    using m by (metis mset_eq_imp_distinct_iff mset_map)
  then have keys: "sorted_wrt (\<lambda>a b. gr_key a \<noteq> gr_key b) out"
    unfolding distinct_conv_nth sorted_wrt_iff_nth_less by simp
  have "sorted_wrt (\<lambda>a b. group_order a b \<le> 0) out"
    unfolding assms group_sort by (rule group_order.sorted_js_sort)
  with keys show "sorted_wrt (\<lambda>a b. gr_key a \<noteq> standalone \<and> (gr_key b = standalone \<or> gr_totalCost b \<le> gr_totalCost a)) out"
    unfolding sorted_wrt_iff_nth_less
    by (auto simp: group_order_def missing_last_def split: if_splits) metis
qed
section \<open>Empty filters\<close>

lemma feature_count: "re_featureCount (aggregate pd links ss) = card (set (map as_task ss))"
  by (simp add: aggregate_def Let_def by_feature_count)

lemma empty_no_step: "view st = EvEmpty t \<Longrightarrow> \<not> economy_step view st st'"
  by (auto elim!: economy_stepE simp: economy_offers_def)

text \<open>
  The filters can lock the page: when every run is older than a day, choosing the 24-hour period replaces the
  table by the text for runs without stream files, and with the table go the filter controls, so no step leads
  back although the data have not changed.
\<close>
theorem empty_filter_locks_page:
  assumes "streamSessions (Some ss) \<noteq> []"
    and "\<forall>s\<in>set (streamSessions (Some ss)). \<forall>t. sessionStartMs pd s = Some t \<longrightarrow> t < now - 86400000"
    and "view = RunEconomy pd loc now (Some ss) fs"
  shows "(\<exists>t. view economy_init = EvTable t)
    \<and> (\<exists>st. economy_step view economy_init st \<and> view st = EvEmpty (empty_text (length ss))
           \<and> (\<forall>st'. \<not> economy_step view st st'))"
proof -
  let ?pool = "streamSessions (Some ss)" and ?links = "planLinkLookup fs"
  let ?st = "economy_apply (EaPeriod (Some P24h)) economy_init"
  have "filteredSessions pd now ?links ''all'' PAll ?pool = ?pool" by (simp add: filteredSessions_def)
  then obtain t where table: "view economy_init = EvTable t"
    using assms(1) by (simp add: assms(3) RunEconomy_def economy_init_def Let_def feature_count)
  have "filteredSessions pd now ?links ''all'' P24h ?pool = []"
    using assms(2) by (auto simp: filteredSessions_def filter_empty_conv split: option.splits)
  then have empty: "view ?st = EvEmpty (empty_text (length ss))"
    by (simp add: assms(3) RunEconomy_def economy_init_def choose_period_def Let_def feature_count)
  have "economy_step view economy_init ?st"
    by (rule economy_step.act) (simp add: economy_offers_def table)
  with table empty empty_no_step [of view ?st, OF empty] show ?thesis by blast
qed

section \<open>Witnesses\<close>

definition run_of :: "string \<Rightarrow> rat \<Rightarrow> string \<Rightarrow> autopilot_session" where
  "run_of i c start = (demo_session [(slug_phase demo_feature (0, ''ba''))\<lparr>ap_cost := Some c, ap_started_at := Some start,
     ap_input_tokens := Some 10, ap_cache_read_tokens := Some 30\<rparr>])\<lparr>as_task := i, as_stream_path := Some ''s''\<rparr>"

definition runs :: "autopilot_session list" where
  "runs = [run_of ''a'' 1 ''d'', run_of ''b'' 2 ''d'', run_of ''a'' 3 ''d'']"

definition day_zero :: "string \<Rightarrow> int option" where "day_zero s = Some 0"

lemma runs_tokens: "\<forall>s\<in>set runs. \<forall>p\<in>set (as_phases s). tokens_ok p"
proof -
  have "list_all (\<lambda>s. list_all tokens_ok (as_phases s)) runs" by code_simp
  then show ?thesis by (simp add: list_all_iff)
qed

lemma economy_totals_exact_witness:
  "re_totalCost (aggregate day_zero [] runs) = 6 \<and> re_totalUpstream (aggregate day_zero [] runs) = 120
   \<and> re_totalCacheRate (aggregate day_zero [] runs) = Some (3 / 4)"
proof -
  have "(\<Sum>s\<leftarrow>runs. \<Sum>p\<leftarrow>as_phases s. orz (ap_cost p)) = 6" "(\<Sum>s\<leftarrow>runs. \<Sum>p\<leftarrow>as_phases s. all_in p) = 120"
    "(\<Sum>s\<leftarrow>runs. \<Sum>p\<leftarrow>as_phases s. orz (ap_cache_read_tokens p)) = 90" by code_simp+
  then show ?thesis using economy_totals_exact [OF runs_tokens refl, of day_zero "[]"] by simp
qed

lemma phase_averages_exact_witness:
  "pa_avgCost (hd (aggregateByPhase runs)) = 2 \<and> pa_featureCount (hd (aggregateByPhase runs)) = 2"
proof -
  have h: "hd (aggregateByPhase runs) \<in> set (aggregateByPhase runs)" "pa_name (hd (aggregateByPhase runs)) = ''BA''"
    "mean (known ap_cost (samples_of ''BA'' runs)) = 2" "card (fst ` set (samples_of ''BA'' runs)) = 2"
    by code_simp+
  then show ?thesis using phase_averages_exact [of runs] by metis
qed

definition two_features :: "feature_aggregate list" where
  "two_features = map (\<lambda>s. (aggregateSession day_zero [] s)\<lparr>fa_idleSec := (if as_task s = ''a'' then None else Some 1)\<rparr>)
     [run_of ''a'' 1 ''d'', run_of ''b'' 2 ''d'']"

lemma feature_sort_missing_last_witness:
  "\<exists>shown. sortFeatures demo_collate two_features ScIdle SdAsc
     = shown @ filter (\<lambda>f. feature_key ScIdle f = None) two_features"
  using feature_sort_missing_last [OF demo_comparator refl, of two_features ScIdle SdAsc] by blast

lemma plan_groups_partition_witness:
  "(\<Sum>g\<leftarrow>groupByPlan two_features. gr_totalCost g) = 3"
proof -
  have "(\<Sum>f\<leftarrow>two_features. fa_cost f) = 3" by code_simp
  then show ?thesis using plan_groups_partition [OF refl, of two_features] by simp
qed

lemma empty_filter_locks_page_witness:
  "\<exists>st. RunEconomy day_zero demo_collate 86400001 (Some runs) None st = EvEmpty (empty_text 3)"
proof -
  have a: "streamSessions (Some runs) \<noteq> []" by code_simp
  have "list_all (\<lambda>s. sessionStartMs day_zero s = Some 0) (streamSessions (Some runs))" by code_simp
  then have b: "\<forall>s\<in>set (streamSessions (Some runs)). \<forall>t. sessionStartMs day_zero s = Some t \<longrightarrow> t < 86400001 - 86400000"
    by (auto simp: list_all_iff)
  have "length runs = 3" by code_simp
  with empty_filter_locks_page [OF a b refl, of demo_collate None] show ?thesis by auto
qed
end
