(* ===== verification/PhaseStepper.thy ===== *)
theory PhaseStepper
  imports RunEconomyView
begin

text \<open>
  The phase list of a run, \<open>components/autopilot/PhaseStepper.tsx\<close>: the rows with their times, costs and
  tokens, and the totals under them. \<open>clock\<close> stands for \<open>toLocaleTimeString\<close> in the user's time zone (\<open>None\<close>
  for an unreadable timestamp), \<open>parse_date\<close> for \<open>getTime\<close>. The totals are compared with those
  of \<open>RunEconomy\<close>, which computes the same figures independently.
\<close>

section \<open>Texts\<close>

definition js_rem60 :: "rat \<Rightarrow> rat" where
  "js_rem60 x = x - 60 * of_int (js_trunc (x / 60))"

definition step_duration :: "rat option \<Rightarrow> string" where
  "step_duration seconds =
     (case seconds of
        None \<Rightarrow> ''''
      | Some x \<Rightarrow>
          if x = 0 then ''''
          else (let m = \<lfloor>x / 60\<rfloor>; s = js_rem60 x
                in if m > 0 then string_of_int m @ ''m '' @ string_of_rat s @ ''s'' else string_of_rat s @ ''s''))"

definition step_cost :: "rat option \<Rightarrow> string" where
  "step_cost cost = (case cost of None \<Rightarrow> emdash | Some c \<Rightarrow> ''$'' @ to_fixed 2 c)"

definition step_tokens :: "int option \<Rightarrow> string" where
  "step_tokens n = (case n of None \<Rightarrow> emdash | Some k \<Rightarrow> formatTokens (of_int k))"

definition dot_sep :: string where "dot_sep = '' '' @ mdot @ '' ''"

fun phase_status_text :: "autopilot_phase_status \<Rightarrow> string" where
  "phase_status_text ACompleted = ''completed''"
| "phase_status_text ARunning = ''running''"
| "phase_status_text APending = ''pending''"
| "phase_status_text AFailed = ''failed''"

text \<open>Check mark, filled and hollow circle, ballot cross.\<close>

fun status_prefix :: "autopilot_phase_status \<Rightarrow> string" where
  "status_prefix ACompleted = [CHR 0xE2, CHR 0x9C, CHR 0x93]"
| "status_prefix ARunning = [CHR 0xE2, CHR 0x97, CHR 0x8F]"
| "status_prefix APending = [CHR 0xE2, CHR 0x97, CHR 0x8B]"
| "status_prefix AFailed = [CHR 0xE2, CHR 0x9C, CHR 0x97]"

definition low_cache_threshold :: rat where "low_cache_threshold = 85 / 100"

record token_summary =
  ts_upstream :: "int option"
  ts_output :: "int option"
  ts_cacheRate :: "rat option"
  ts_newTokens :: "int option"

definition summarizePhaseTokens :: "autopilot_phase \<Rightarrow> token_summary" where
  "summarizePhaseTokens p =
     (if \<not> has_usage p
      then \<lparr>ts_upstream = None, ts_output = ap_output_tokens p, ts_cacheRate = None, ts_newTokens = None\<rparr>
      else \<lparr>ts_upstream = Some (all_in p), ts_output = ap_output_tokens p,
            ts_cacheRate = (if all_in p > 0
              then Some (of_int (orz (ap_cache_read_tokens p)) / of_int (all_in p)) else None),
            ts_newTokens = Some (fresh_in p)\<rparr>)"

definition low_cache :: "rat option \<Rightarrow> bool" where
  "low_cache r = (case r of Some x \<Rightarrow> x < low_cache_threshold | None \<Rightarrow> False)"

text \<open>The line of the tokens sent, with the cache share and whether it is painted as low.\<close>

definition upstream_line :: "int option \<Rightarrow> rat option \<Rightarrow> int option \<Rightarrow> (string \<times> bool) option" where
  "upstream_line upstream rate new =
     map_option (\<lambda>u.
       (up_arrow @ '' '' @ step_tokens (Some u)
          @ (case cache_text rate of
               Some c \<Rightarrow> '' ('' @ c @ (case new of Some n \<Rightarrow> '', '' @ step_tokens (Some n) @ '' new'' | None \<Rightarrow> '''') @ '')''
             | None \<Rightarrow> ''''),
        low_cache rate)) upstream"

definition downstream_line :: "int option \<Rightarrow> string option" where
  "downstream_line out = map_option (\<lambda>k. down_arrow @ '' '' @ step_tokens (Some k)) out"

definition aria_text :: "autopilot_phase \<Rightarrow> string" where
  "aria_text p =
     ap_name p @ '' '' @ emdash @ '' '' @ phase_status_text (ap_status p)
       @ (case ap_duration_s p of Some d \<Rightarrow> if d \<noteq> 0 then '' in '' @ step_duration (Some d) else '''' | None \<Rightarrow> '''')"

definition CompactStepper :: "autopilot_phase list \<Rightarrow> (string \<times> string) list" where
  "CompactStepper ps = map (\<lambda>p. (aria_text p, status_prefix (ap_status p) @ '' '' @ ap_name p)) ps"

section \<open>Rows\<close>

definition elapsed_sec :: "(string \<Rightarrow> int option) \<Rightarrow> string option \<Rightarrow> string option \<Rightarrow> int option" where
  "elapsed_sec parse_date from till =
     (case (from, till) of
        (Some a, Some b) \<Rightarrow>
          (case (parse_date a, parse_date b) of (Some x, Some y) \<Rightarrow> Some ((y - x) div 1000) | _ \<Rightarrow> None)
      | _ \<Rightarrow> None)"

definition time_line :: "string option \<Rightarrow> bool \<Rightarrow> string option \<Rightarrow> int option \<Rightarrow> string option" where
  "time_line start live till elapsed =
     map_option (\<lambda>c. c @ '' '' @ arrow @ '' '' @ (if live then ''live'' else case till of Some e \<Rightarrow> e | None \<Rightarrow> emdash)
       @ (case elapsed of Some s \<Rightarrow> if s > 0 then dot_sep @ step_duration (Some (of_int s)) else '''' | None \<Rightarrow> '''')) start"

record step_row =
  sr_aria :: string
  sr_name :: string
  sr_status :: autopilot_phase_status
  sr_times :: "string option"
  sr_meta :: "(string \<times> string) option"
  sr_up :: "(string \<times> bool) option"
  sr_down :: "string option"

definition nonempty_join :: "string list \<Rightarrow> string" where
  "nonempty_join xs = join_with dot_sep (filter (\<lambda>x. x \<noteq> '''') xs)"

definition bind_str :: "(string \<Rightarrow> 'b option) \<Rightarrow> string option \<Rightarrow> 'b option" where
  "bind_str f x = (case x of Some s \<Rightarrow> f s | None \<Rightarrow> None)"

definition turns_text :: "int option \<Rightarrow> string" where
  "turns_text n = (case n of Some k \<Rightarrow> string_of_int k @ '' turns'' | None \<Rightarrow> '''')"

definition phase_row :: "(string \<Rightarrow> string option) \<Rightarrow> (string \<Rightarrow> int option) \<Rightarrow> autopilot_phase \<Rightarrow> step_row" where
  "phase_row clock parse_date p =
     (let isActive = (ap_status p = ARunning);
          leftMeta = nonempty_join [step_duration (ap_duration_s p), turns_text (ap_num_turns p)];
          costLabel = (case ap_cost p of Some c \<Rightarrow> step_cost (Some c) | None \<Rightarrow> '''');
          elapsed = (if isActive then None else elapsed_sec parse_date (ap_started_at p) (ap_ended_at p));
          usage = summarizePhaseTokens p
      in \<lparr>sr_aria = aria_text p, sr_name = ap_name p, sr_status = ap_status p,
          sr_times = time_line (bind_str clock (ap_started_at p)) isActive (bind_str clock (ap_ended_at p)) elapsed,
          sr_meta = (if leftMeta \<noteq> '''' \<or> costLabel \<noteq> '''' then Some (leftMeta, costLabel) else None),
          sr_up = upstream_line (ts_upstream usage) (ts_cacheRate usage) (ts_newTokens usage),
          sr_down = downstream_line (ts_output usage)\<rparr>)"

section \<open>Totals\<close>

record step_totals =
  st_duration :: rat
  st_cost :: "rat option"
  st_turns :: "int option"
  st_upstream :: "int option"
  st_newTokens :: "int option"
  st_output :: "int option"
  st_cacheRate :: "rat option"
  st_estimateHours :: "rat option"
  st_estimateDelta :: "rat option"
  st_start :: "string option"
  st_end :: "string option"
  st_anyRunning :: bool
  st_wallClockSec :: "int option"
  st_idleSec :: "rat option"

definition total_known :: "('a \<Rightarrow> bool) \<Rightarrow> ('a \<Rightarrow> 'b::monoid_add) \<Rightarrow> 'a list \<Rightarrow> 'b option" where
  "total_known keep f xs = (let ys = filter keep xs in if length ys > 0 then Some (total_of f ys) else None)"

definition step_totals_of ::
    "(string \<Rightarrow> int option) \<Rightarrow> autopilot_phase list \<Rightarrow> task_estimate option \<Rightarrow> step_totals" where
  "step_totals_of parse_date ps estimate =
     (let dur = total_of (\<lambda>p. orz (ap_duration_s p)) ps;
          upstream = total_known has_usage all_in ps;
          cacheRead = (case total_known has_usage (\<lambda>p. orz (ap_cache_read_tokens p)) ps of Some r \<Rightarrow> r | None \<Rightarrow> 0);
          hours = (case estimate of Some e \<Rightarrow> te_duration_hours e | None \<Rightarrow> None);
          begun = filter (\<lambda>p. ap_started_at p \<noteq> None) ps;
          running = list_ex (\<lambda>p. ap_status p = ARunning) ps;
          start = (if length begun > 0 then Some (hd (js_sort str_cmp (map (\<lambda>p. the (ap_started_at p)) begun))) else None);
          ended = (length begun > 0 \<and> list_all (\<lambda>p. ap_ended_at p \<noteq> None) begun);
          end = (if ended \<and> \<not> running
                 then Some (last (js_sort str_cmp (map (\<lambda>p. the (ap_ended_at p)) begun))) else None);
          wall = (if start \<noteq> None \<and> end \<noteq> None \<and> \<not> running then elapsed_sec parse_date start end else None)
      in \<lparr>st_duration = dur,
          st_cost = total_known (\<lambda>p. ap_cost p \<noteq> None) (\<lambda>p. orz (ap_cost p)) ps,
          st_turns = total_known (\<lambda>p. ap_num_turns p \<noteq> None) (\<lambda>p. orz (ap_num_turns p)) ps,
          st_upstream = upstream, st_newTokens = total_known has_usage fresh_in ps,
          st_output = (if list_ex (\<lambda>p. ap_output_tokens p \<noteq> None) ps
                       then Some (total_of (\<lambda>p. orz (ap_output_tokens p)) ps) else None),
          st_cacheRate = (case upstream of Some u \<Rightarrow> if u > 0 then Some (of_int cacheRead / of_int u) else None | None \<Rightarrow> None),
          st_estimateHours = hours,
          st_estimateDelta = (case hours of Some h \<Rightarrow> if h > 0 \<and> dur > 0 then Some (estimate_delta dur h) else None | None \<Rightarrow> None),
          st_start = start, st_end = end, st_anyRunning = running, st_wallClockSec = wall,
          st_idleSec = (case wall of Some w \<Rightarrow> if dur > 0 then Some (of_int w - dur) else None | None \<Rightarrow> None)\<rparr>)"

datatype delta_tone = DtFog | DtDone | DtFailed | DtBone

definition delta_tone_of :: "rat option \<Rightarrow> delta_tone" where
  "delta_tone_of d =
     (case d of None \<Rightarrow> DtFog
      | Some x \<Rightarrow> if x < - 5 / 100 then DtDone else if x > 2 / 10 then DtFailed else DtBone)"

definition estimate_text :: "rat \<Rightarrow> rat option \<Rightarrow> string" where
  "estimate_text hours delta =
     ''est. '' @ string_of_rat hours @ ''h''
       @ (case delta of
            None \<Rightarrow> ''''
          | Some d \<Rightarrow> dot_sep @ (if d < 0 then string_of_int \<bar>js_round (d * 100)\<bar> @ ''% under''
                               else if d > 0 then string_of_int (js_round (d * 100)) @ ''% over''
                               else ''on target''))"

record step_footer =
  sf_times :: "string option"
  sf_meta :: string
  sf_idle :: "string option"
  sf_cost :: string
  sf_up :: "(string \<times> bool) option"
  sf_down :: "string option"
  sf_estimate :: "(string \<times> delta_tone) option"

definition footer :: "(string \<Rightarrow> string option) \<Rightarrow> step_totals \<Rightarrow> step_footer" where
  "footer clock t =
     \<lparr>sf_times = time_line (bind_str clock (st_start t)) (st_anyRunning t) (bind_str clock (st_end t)) (st_wallClockSec t),
      sf_meta = nonempty_join [step_duration (Some (st_duration t)), turns_text (st_turns t)],
      sf_idle = (case st_idleSec t of
          Some i \<Rightarrow> if i \<ge> 1 then Some (mdot @ '' '' @ step_duration (Some i) @ '' idle'') else None
        | None \<Rightarrow> None),
      sf_cost = step_cost (st_cost t),
      sf_up = upstream_line (st_upstream t) (st_cacheRate t) (st_newTokens t),
      sf_down = downstream_line (st_output t),
      sf_estimate = map_option (\<lambda>h. (estimate_text h (st_estimateDelta t), delta_tone_of (st_estimateDelta t))) (st_estimateHours t)\<rparr>"

definition FullStepper ::
    "(string \<Rightarrow> string option) \<Rightarrow> (string \<Rightarrow> int option) \<Rightarrow> autopilot_phase list \<Rightarrow> task_estimate option \<Rightarrow>
     step_row list \<times> step_footer" where
  "FullStepper clock parse_date ps estimate =
     (map (phase_row clock parse_date) ps, footer clock (step_totals_of parse_date ps estimate))"

section \<open>The same figures in two places\<close>
















section \<open>Witnesses\<close>







end
