(* ===== verification/ChainCollapse.thy ===== *)
theory ChainCollapse
  imports Connectors
begin

text \<open>
  \<open>collapseCompletedChains\<close> of \<open>utils/dagLayout.ts\<close>: runs of at least three finished tasks that follow one
  another are replaced by a summary node, and the columns are computed again. The walk along a chain
  has no bound, so it is a \<open>partial_function\<close> like the queue loop; \<open>None\<close> means that the code does not return.
\<close>

section \<open>Chains\<close>

record collapsed_chain =
  cc_summaryId :: string
  cc_names :: "string list"
  cc_count :: nat

definition collapsed_prefix :: string where "collapsed_prefix = ''__collapsed_''"

definition summary_id :: "string list \<Rightarrow> string" where
  "summary_id chain = collapsed_prefix @ hd chain"

definition parent_of :: "node_map \<Rightarrow> (string, string) omap" where
  "parent_of nodes = fold (\<lambda>(i, n). fold (\<lambda>c. om_set c i) (tn_children n)) nodes []"

definition is_done :: "node_map \<Rightarrow> string \<Rightarrow> bool" where
  "is_done nodes i \<longleftrightarrow> (case om_get nodes i of Some n \<Rightarrow> t_status (tn_task n) = TDone | None \<Rightarrow> False)"

text \<open>The successor in the chain: the only child, when that is done and its last recorded parent is the current node.\<close>

definition chain_next :: "node_map \<Rightarrow> (string, string) omap \<Rightarrow> string \<Rightarrow> string option" where
  "chain_next nodes parentOf current =
     (case om_get nodes current of
        None \<Rightarrow> None
      | Some curNode \<Rightarrow>
          if length (tn_children curNode) \<noteq> 1 then None
          else (let nxt = hd (tn_children curNode)
                in if \<not> is_done nodes nxt then None
                   else if om_get parentOf nxt \<noteq> Some current then None
                   else Some nxt))"

partial_function (option) follow_chain ::
    "node_map \<Rightarrow> (string, string) omap \<Rightarrow> string \<Rightarrow> string list \<Rightarrow> string list option" where
  "follow_chain nodes parentOf current chain =
     (case chain_next nodes parentOf current of
        None \<Rightarrow> Some chain
      | Some nxt \<Rightarrow> follow_chain nodes parentOf nxt (chain @ [nxt]))"

declare follow_chain.simps [code]

fun collect_chains ::
    "node_map \<Rightarrow> (string, string) omap \<Rightarrow> node_map \<Rightarrow> string list \<Rightarrow> string list list \<Rightarrow> string list list option" where
  "collect_chains nodes parentOf [] visited cset = Some cset"
| "collect_chains nodes parentOf ((i, n) # rest) visited cset =
     (if i \<in> set visited \<or> t_status (tn_task n) \<noteq> TDone \<or> length (tn_children n) \<noteq> 1
      then collect_chains nodes parentOf rest visited cset
      else (case follow_chain nodes parentOf i [i] of
              None \<Rightarrow> None
            | Some chain \<Rightarrow>
                if length chain \<ge> 3
                then collect_chains nodes parentOf rest (fold oset_add chain visited) (cset @ [chain])
                else collect_chains nodes parentOf rest visited cset))"

section \<open>The new nodes\<close>

text \<open>
  A node of the result. The last loop spreads whatever the map holds for an id, so an id without a node
  becomes an object that has a place but neither task nor children.
\<close>

record placed_node =
  pn_task :: "task option"
  pn_children :: "string list option"
  pn_col :: nat
  pn_row :: nat

definition placed :: "tree_node \<Rightarrow> placed_node" where
  "placed n = \<lparr>pn_task = Some (tn_task n), pn_children = Some (tn_children n), pn_col = tn_col n, pn_row = tn_row n\<rparr>"

record collapsed_result =
  cl_nodes :: "(string, placed_node) omap"
  cl_maxCol :: nat
  cl_maxRow :: nat
  cl_chains :: "(string, collapsed_chain) omap"

definition task_name_of :: "node_map \<Rightarrow> string \<Rightarrow> string" where
  "task_name_of nodes i = (case om_get nodes i of Some n \<Rightarrow> t_name (tn_task n) | None \<Rightarrow> '''')"

definition chain_summary :: "node_map \<Rightarrow> string list \<Rightarrow> collapsed_chain" where
  "chain_summary nodes chain =
     \<lparr>cc_summaryId = summary_id chain, cc_names = map (task_name_of nodes) chain, cc_count = length chain\<rparr>"

definition summary_node :: "node_map \<Rightarrow> string list \<Rightarrow> string list \<Rightarrow> tree_node" where
  "summary_node nodes removed chain =
     (let firstNode = the (om_get nodes (hd chain)); lastNode = the (om_get nodes (last chain))
      in \<lparr>tn_task = mk_task (summary_id chain) (string_of_nat (length chain) @ '' completed steps'') TDone,
          tn_col = tn_col firstNode, tn_row = tn_row firstNode,
          tn_children = filter (\<lambda>c. c \<notin> set removed) (tn_children lastNode)\<rparr>)"

definition add_summary :: "node_map \<Rightarrow> string list \<Rightarrow> node_map \<times> string list \<Rightarrow> node_map \<times> string list" where
  "add_summary nodes chain = (\<lambda>(newNodes, removed).
     let removed' = fold oset_add chain removed
     in (om_set (summary_id chain) (summary_node nodes removed' chain) newNodes, removed'))"

definition heads_summary :: "string list list \<Rightarrow> string list \<Rightarrow> string \<Rightarrow> string" where
  "heads_summary cset removed cid =
     (if cid \<in> set removed
      then (case find (\<lambda>chain. hd chain = cid) cset of Some chain \<Rightarrow> summary_id chain | None \<Rightarrow> cid)
      else cid)"

definition members_summary :: "string list list \<Rightarrow> string list \<Rightarrow> string \<Rightarrow> string" where
  "members_summary cset removed cid =
     (if cid \<in> set removed
      then (case find (\<lambda>chain. cid \<in> set chain) cset of Some chain \<Rightarrow> summary_id chain | None \<Rightarrow> cid)
      else cid)"

definition keep_node ::
    "string list list \<Rightarrow> string list \<Rightarrow> string \<times> tree_node \<Rightarrow> node_map \<Rightarrow> node_map" where
  "keep_node cset removed = (\<lambda>(i, n) newNodes.
     if i \<in> set removed then newNodes
     else om_set i (n\<lparr>tn_children := filter (\<lambda>c. c \<notin> set removed \<or> starts_with c collapsed_prefix)
                       (map (heads_summary cset removed) (tn_children n))\<rparr>) newNodes)"

definition fix_node :: "string list list \<Rightarrow> string list \<Rightarrow> string \<times> tree_node \<Rightarrow> string \<times> tree_node" where
  "fix_node cset removed = (\<lambda>(i, n).
     if starts_with i collapsed_prefix then (i, n)
     else (i, n\<lparr>tn_children := oset_of (map (members_summary cset removed) (tn_children n))\<rparr>))"

definition new_nodes :: "node_map \<Rightarrow> string list list \<Rightarrow> node_map" where
  "new_nodes nodes cset =
     (case fold (add_summary nodes) cset ([], []) of
        (summaries, removed) \<Rightarrow>
          map (fix_node cset removed) (fold (keep_node cset removed) nodes summaries))"

section \<open>Columns and rows again\<close>

definition root_ids_of :: "node_map \<Rightarrow> string list" where
  "root_ids_of nodes =
     (let allChildren = oset_of (concat (map (\<lambda>e. tn_children (snd e)) nodes));
          roots = filter (\<lambda>i. i \<notin> set allChildren) (om_keys nodes)
      in if roots = [] \<and> nodes \<noteq> [] then [fst (hd nodes)] else roots)"

definition child_lists :: "node_map \<Rightarrow> child_map" where
  "child_lists nodes = map (\<lambda>(i, n). (i, tn_children n)) nodes"

type_synonym replacement = "(string, placed_node) omap \<times> nat \<times> nat"

definition replace_node :: "nat \<Rightarrow> nat \<times> string \<Rightarrow> replacement \<Rightarrow> replacement" where
  "replace_node col = (\<lambda>(rowIdx, i) (nodes, maxCol, maxRow).
     (om_set i
        (case om_get nodes i of
           Some n \<Rightarrow> n\<lparr>pn_col := col, pn_row := rowIdx\<rparr>
         | None \<Rightarrow> \<lparr>pn_task = None, pn_children = None, pn_col = col, pn_row = rowIdx\<rparr>) nodes,
      if col > maxCol then col else maxCol,
      if rowIdx > maxRow then rowIdx else maxRow))"

definition collapseCompletedChains :: "node_map \<Rightarrow> nat \<Rightarrow> collapsed_result option" where
  "collapseCompletedChains nodes maxCol =
     (case collect_chains nodes (parent_of nodes) nodes [] [] of
        None \<Rightarrow> None
      | Some cset \<Rightarrow>
          if length cset = 0
          then Some \<lparr>cl_nodes = map (\<lambda>(i, n). (i, placed n)) nodes, cl_maxCol = maxCol,
                     cl_maxRow = fold (\<lambda>e m. if tn_row (snd e) > m then tn_row (snd e) else m) nodes 0,
                     cl_chains = []\<rparr>
          else
            (let newNodes = new_nodes nodes cset
             in case bfs_cols (child_lists newNodes) (map (\<lambda>i. (i, 0)) (root_ids_of newNodes)) [] of
                  None \<Rightarrow> None
                | Some colOf \<Rightarrow>
                    (case fold (\<lambda>(col, ids). fold (replace_node col) (enumerate 0 ids)) (col_groups [] colOf)
                            (map (\<lambda>(i, n). (i, placed n)) newNodes, 0, 0) of
                       (nodes', maxCol', maxRow') \<Rightarrow>
                         Some \<lparr>cl_nodes = nodes', cl_maxCol = maxCol', cl_maxRow = maxRow',
                               cl_chains = fold (\<lambda>c. om_set (summary_id c) (chain_summary nodes c)) cset []\<rparr>)))"


section \<open>Chains are paths of finished tasks\<close>

definition node_edges :: "node_map \<Rightarrow> (string \<times> string) set" where
  "node_edges nodes = {(p, c). \<exists>n. om_get nodes p = Some n \<and> c \<in> set (tn_children n)}"

lemma edges_child_lists: "edges (child_lists nodes) = node_edges nodes"
proof -
  have "c \<in> set (om_get_or [] (child_lists nodes) p) \<longleftrightarrow> (\<exists>n. om_get nodes p = Some n \<and> c \<in> set (tn_children n))" for p c
    by (cases "om_get nodes p") (simp_all add: child_lists_def om_get_or_def map_of_map comp_def)
  then show ?thesis by (simp add: edges_def node_edges_def)
qed

lemma finite_node_edges: "finite (node_edges nodes)"
proof (rule finite_subset)
  show "node_edges nodes \<subseteq> (\<Union>e\<in>set nodes. Pair (fst e) ` set (tn_children (snd e)))"
    by (force simp: node_edges_def dest: map_of_SomeD)
qed simp

lemma node_edges_wf: "acyclic (node_edges nodes) \<Longrightarrow> wf ((node_edges nodes)\<inverse>)"
  by (rule finite_acyclic_wf_converse [OF finite_node_edges])

lemma chain_next_edge:
  assumes "chain_next nodes P i = Some j"
  shows "(i, j) \<in> node_edges nodes" and "is_done nodes j"
proof -
  obtain n where n: "om_get nodes i = Some n" "length (tn_children n) = 1" "j = hd (tn_children n)" "is_done nodes j"
    using assms by (auto simp: chain_next_def Let_def split: option.splits if_splits)
  then show "is_done nodes j" by simp
  have "j \<in> set (tn_children n)" using n(2,3) by (cases "tn_children n") auto
  with n(1) show "(i, j) \<in> node_edges nodes" by (auto simp: node_edges_def)
qed

lemma follow_chain_ok:
  assumes "wf ((node_edges nodes)\<inverse>)"
  shows "\<exists>tl. follow_chain nodes P i ch = Some (ch @ tl) \<and> (\<forall>x\<in>set tl. is_done nodes x)
    \<and> (\<forall>x\<in>set (i # tl). (x, last (i # tl)) \<in> (node_edges nodes)\<^sup>*)"
proof (induction i arbitrary: ch rule: wf_induct_rule [OF assms])
  case (1 i)
  show ?case
  proof (cases "chain_next nodes P i")
    case None
    then show ?thesis by (subst follow_chain.simps) (auto intro: exI [of _ "[]"])
  next
    case (Some j)
    note e = chain_next_edge [OF Some]
    from e(1) have "(j, i) \<in> (node_edges nodes)\<inverse>" by simp
    from 1 [OF this, of "ch @ [j]"] obtain tl where tl: "follow_chain nodes P j (ch @ [j]) = Some ((ch @ [j]) @ tl)"
      "\<forall>x\<in>set tl. is_done nodes x" "\<forall>x\<in>set (j # tl). (x, last (j # tl)) \<in> (node_edges nodes)\<^sup>*" by blast
    have "follow_chain nodes P i ch = Some (ch @ j # tl)" by (subst follow_chain.simps) (simp add: Some tl(1))
    moreover have "(i, last (j # tl)) \<in> (node_edges nodes)\<^sup>*"
      using e(1) tl(3) by (meson converse_rtrancl_into_rtrancl list.set_intros(1))
    ultimately show ?thesis using tl(2,3) e(2) by (intro exI [of _ "j # tl"]) simp
  qed
qed

definition chain_ok :: "node_map \<Rightarrow> string list \<Rightarrow> bool" where
  "chain_ok nodes chain \<longleftrightarrow>
     3 \<le> length chain \<and> follow_chain nodes (parent_of nodes) (hd chain) [hd chain] = Some chain
     \<and> (\<forall>x\<in>set chain. is_done nodes x \<and> (x, last chain) \<in> (node_edges nodes)\<^sup>*)"

lemma chain_ok_hd: "chain_ok nodes c \<Longrightarrow> chain_ok nodes c' \<Longrightarrow> summary_id c = summary_id c' \<Longrightarrow> c = c'"
proof -
  assume ok: "chain_ok nodes c" "chain_ok nodes c'" and "summary_id c = summary_id c'"
  then have "hd c = hd c'" by (simp add: summary_id_def)
  then have "Some c = Some c'" using ok unfolding chain_ok_def by metis
  then show "c = c'" by simp
qed

lemma collect_chains_ok:
  assumes "wf ((node_edges nodes)\<inverse>)"
  shows "(\<forall>(i, n)\<in>set rest. om_get nodes i = Some n) \<Longrightarrow> (\<forall>c\<in>set cs0. chain_ok nodes c) \<Longrightarrow>
    \<exists>cs. collect_chains nodes (parent_of nodes) rest visited cs0 = Some cs \<and> (\<forall>c\<in>set cs. chain_ok nodes c)"
proof (induction rest arbitrary: visited cs0)
  case (Cons e rest)
  obtain i n where e: "e = (i, n)" by (cases e)
  then have n: "om_get nodes i = Some n" using Cons.prems(1) by simp
  show ?case
  proof (cases "i \<in> set visited \<or> t_status (tn_task n) \<noteq> TDone \<or> length (tn_children n) \<noteq> 1")
    case True
    then show ?thesis using Cons.IH [of cs0 visited] Cons.prems by (simp add: e)
  next
    case False
    obtain tl where tl: "follow_chain nodes (parent_of nodes) i [i] = Some ([i] @ tl)" "\<forall>x\<in>set tl. is_done nodes x"
      "\<forall>x\<in>set (i # tl). (x, last (i # tl)) \<in> (node_edges nodes)\<^sup>*" using follow_chain_ok [OF assms] by blast
    have "is_done nodes i" using False by (simp add: is_done_def n)
    then have "chain_ok nodes (i # tl)" if "3 \<le> length (i # tl)" using tl that by (simp add: chain_ok_def)
    then show ?thesis
      using False Cons.IH [of cs0 visited] Cons.IH [of "cs0 @ [i # tl]" "fold oset_add (i # tl) visited"] Cons.prems
      by (auto simp: e tl(1))
  qed
qed simp

section \<open>The new nodes have no cycle\<close>

lemma om_set_entries: "(j, w) \<in> set (om_set k v m) \<Longrightarrow> j = k \<and> w = v \<or> (j, w) \<in> set m"
  by (induction m) (auto split: if_splits)

lemma add_summary_fold:
  assumes "fold (add_summary nodes) cs (m, r) = (m', r')"
  shows "set r' = set r \<union> \<Union> (set ` set cs)"
    and "(k, n) \<in> set m' \<Longrightarrow> (k, n) \<in> set m \<or> (\<exists>c\<in>set cs. k = summary_id c
           \<and> set (tn_children n) \<subseteq> set (tn_children (the (om_get nodes (last c)))))"
  using assms
proof (induction cs arbitrary: m r)
  case (Cons c cs)
  { case 1
    then show ?case using Cons.IH(1) by (force simp: add_summary_def Let_def fold_oset_add)
  next
    case 2
    let ?r = "fold oset_add c r"
    have "(k, n) \<in> set (om_set (summary_id c) (summary_node nodes ?r c) m) \<or> (\<exists>c\<in>set cs. k = summary_id c
           \<and> set (tn_children n) \<subseteq> set (tn_children (the (om_get nodes (last c)))))"
      using Cons.IH(2) 2 by (simp add: add_summary_def Let_def)
    then show ?case
      by (auto simp: summary_node_def Let_def dest!: om_set_entries) }
qed auto

lemma keep_node_entries:
  "(k, n) \<in> set (fold (keep_node cs removed) xs m) \<Longrightarrow> (k, n) \<in> set m \<or>
     (\<exists>n0. (k, n0) \<in> set xs \<and> set (tn_children n) \<subseteq> heads_summary cs removed ` set (tn_children n0))"
proof (induction xs arbitrary: m)
  case (Cons x xs)
  obtain i n1 where x: "x = (i, n1)" by (cases x)
  have "(k, n) \<in> set (keep_node cs removed x m) \<or>
     (\<exists>n0. (k, n0) \<in> set xs \<and> set (tn_children n) \<subseteq> heads_summary cs removed ` set (tn_children n0))"
    using Cons by simp
  moreover have "(k, n) \<in> set m \<or> k = i \<and> set (tn_children n) \<subseteq> heads_summary cs removed ` set (tn_children n1)"
    if "(k, n) \<in> set (keep_node cs removed x m)"
    using that by (auto simp: x keep_node_def split: if_splits dest!: om_set_entries)
  ultimately show ?case by (auto simp: x)
qed simp


lemma map_of_map_keyed: "map_of (map (\<lambda>(i, n). (i, g i n)) m) k = map_option (g k) (map_of m k)"
  by (induction m) auto

lemma find_Some_mem: "find P xs = Some y \<Longrightarrow> y \<in> set xs \<and> P y"
  by (auto simp: find_Some_iff)

text \<open>\<open>stands_for\<close>: an id of the result stands for itself or, as a summary, for a member of its chain.\<close>

definition stands_for :: "string list list \<Rightarrow> string \<Rightarrow> string \<Rightarrow> bool" where
  "stands_for cs y x \<longleftrightarrow> y = x \<or> (\<exists>c\<in>set cs. y = summary_id c \<and> x \<in> set c)"

lemma heads_stands: "[] \<notin> set cs \<Longrightarrow> stands_for cs (heads_summary cs removed x) x"
  by (auto simp: stands_for_def heads_summary_def split: option.splits dest!: find_Some_mem)
    (metis hd_in_set)

lemma members_stands:
  assumes "stands_for cs y x" and "\<And>c. c \<in> set cs \<Longrightarrow> summary_id c \<notin> set removed"
  shows "stands_for cs (members_summary cs removed y) x"
  using assms by (auto simp: stands_for_def members_summary_def split: option.splits dest!: find_Some_mem)

lemma new_nodes_edges:
  assumes ok: "\<forall>c\<in>set cs. chain_ok nodes c" and clean: "\<forall>i\<in>set (om_keys nodes). \<not> starts_with i collapsed_prefix"
    and e: "(k, y) \<in> node_edges (new_nodes nodes cs)" and d: "distinct (om_keys nodes)"
  shows "\<exists>p x. (p, x) \<in> node_edges nodes \<and> stands_for cs y x
    \<and> (k = p \<and> k \<in> set (om_keys nodes) \<or> (\<exists>c\<in>set cs. k = summary_id c \<and> p = last c))"
proof -
  obtain m r where f: "fold (add_summary nodes) cs ([], []) = (m, r)" by fastforce
  have ne: "[] \<notin> set cs" using ok by (auto simp: chain_ok_def)
  have keys: "x \<in> set (om_keys nodes)" if "c \<in> set cs" "x \<in> set c" for c x
    using ok that by (force simp: chain_ok_def is_done_def split: option.splits dest: om_get_in)
  have r: "x \<in> set (om_keys nodes)" if "x \<in> set r" for x
    using add_summary_fold(1) [OF f] that keys by auto
  obtain n where n: "(k, n) \<in> set (new_nodes nodes cs)" "y \<in> set (tn_children n)"
    using e by (auto simp: node_edges_def dest: map_of_SomeD)
  then obtain n1 where n1: "(k, n1) \<in> set (fold (keep_node cs r) nodes m)"
    "tn_children n = tn_children n1 \<or> tn_children n = oset_of (map (members_summary cs r) (tn_children n1)) \<and> \<not> starts_with k collapsed_prefix"
    by (auto simp: new_nodes_def f fix_node_def split: if_splits)
  have sum: "starts_with (summary_id c) collapsed_prefix" for c by (simp add: summary_id_def)
  consider (summary) "(k, n1) \<in> set m"
    | (kept) n0 where "(k, n0) \<in> set nodes" "set (tn_children n1) \<subseteq> heads_summary cs r ` set (tn_children n0)"
    using keep_node_entries [OF n1(1)] by blast
  then show ?thesis
  proof cases
    case summary
    then obtain c where c: "c \<in> set cs" "k = summary_id c"
      "set (tn_children n1) \<subseteq> set (tn_children (the (om_get nodes (last c))))"
      using add_summary_fold(2) [OF f] by force
    have "y \<in> set (tn_children n1)" using n1(2) n(2) sum [of c] c(2) by auto
    moreover have "last c \<in> set c" using c(1) ne by (metis last_in_set)
    then obtain l where "om_get nodes (last c) = Some l"
      using keys [OF c(1)] by (metis om_has_def om_has_iff option.exhaust)
    ultimately have "(last c, y) \<in> node_edges nodes" using c(3) by (auto simp: node_edges_def)
    then show ?thesis using c(1,2) by (auto simp: stands_for_def)
  next
    case kept
    have get: "om_get nodes k = Some n0" using kept(1) d by simp
    then have k: "k \<in> set (om_keys nodes)" by (rule om_get_in)
    have "\<exists>x\<in>set (tn_children n0). stands_for cs y x"
    proof (cases "tn_children n = tn_children n1")
      case True
      then show ?thesis using kept(2) n(2) heads_stands [OF ne, of r] unfolding True by blast
    next
      case False
      then obtain y1 where "y1 \<in> set (tn_children n1)" "y = members_summary cs r y1" using n1(2) n(2) by auto
      moreover have "summary_id c \<notin> set r" for c using r clean sum [of c] by blast
      ultimately show ?thesis using kept(2) heads_stands [OF ne] members_stands by blast
    qed
    then show ?thesis using get k by (auto simp: node_edges_def)
  qed
qed


lemma summary_no_key:
  "\<forall>i\<in>set (om_keys nodes). \<not> starts_with i collapsed_prefix \<Longrightarrow> summary_id c \<notin> set (om_keys nodes)"
  using starts_with_append unfolding summary_id_def by blast

lemma new_nodes_wf:
  assumes ok: "\<forall>c\<in>set cs. chain_ok nodes c" and clean: "\<forall>i\<in>set (om_keys nodes). \<not> starts_with i collapsed_prefix"
    and d: "distinct (om_keys nodes)" and closed: "snd ` node_edges nodes \<subseteq> set (om_keys nodes)"
    and wf: "wf ((node_edges nodes)\<inverse>)"
  shows "wf ((node_edges (new_nodes nodes cs))\<inverse>)"
proof -
  define f where "f y = (case find (\<lambda>c. summary_id c = y) cs of Some c \<Rightarrow> last c | None \<Rightarrow> y)" for y
  have key: "f y = y" if "y \<in> set (om_keys nodes)" for y
  proof -
    have "summary_id c \<noteq> y" for c using summary_no_key [OF clean, of c] that by blast
    then have "find (\<lambda>c. summary_id c = y) cs = None" by (simp add: find_None_iff)
    then show ?thesis by (simp add: f_def)
  qed
  have sum: "f (summary_id c) = last c" if c: "c \<in> set cs" for c
  proof (cases "find (\<lambda>c'. summary_id c' = summary_id c) cs")
    case None
    then show ?thesis using c by (auto simp: find_None_iff)
  next
    case (Some c')
    then have "c' = c" using find_Some_mem [OF Some] ok c chain_ok_hd by blast
    with Some show ?thesis by (simp add: f_def)
  qed
  have "(node_edges (new_nodes nodes cs))\<inverse> \<subseteq> inv_image (((node_edges nodes)\<inverse>)\<^sup>+) f"
  proof (rule subrelI)
    fix y k assume "(y, k) \<in> (node_edges (new_nodes nodes cs))\<inverse>"
    then have "(k, y) \<in> node_edges (new_nodes nodes cs)" by simp
    from new_nodes_edges [OF ok clean this d] obtain p x where px: "(p, x) \<in> node_edges nodes" "stands_for cs y x"
      "k = p \<and> k \<in> set (om_keys nodes) \<or> (\<exists>c\<in>set cs. k = summary_id c \<and> p = last c)" by blast
    have "f k = p" using px(3) key sum by auto
    moreover have "f x = x" using px(1) closed by (intro key) force
    then have "(x, f y) \<in> (node_edges nodes)\<^sup>*"
      using px(2) ok sum by (auto simp: stands_for_def chain_ok_def)
    ultimately have "(f k, f y) \<in> (node_edges nodes)\<^sup>+" using px(1) by (simp add: rtrancl_into_trancl2)
    then show "(y, k) \<in> inv_image (((node_edges nodes)\<inverse>)\<^sup>+) f" by (simp add: trancl_converse)
  qed
  then show ?thesis by (rule wf_subset [OF wf_inv_image [OF wf_trancl [OF wf]]])
qed

section \<open>Nothing is lost\<close>

definition summary_task :: "string list \<Rightarrow> task" where
  "summary_task c = mk_task (summary_id c) (string_of_nat (length c) @ '' completed steps'') TDone"

lemma add_summary_get:
  assumes "\<forall>c\<in>set cs. chain_ok nodes c" and "chain_ok nodes c"
    and "c \<in> set cs \<or> (\<exists>n. om_get m (summary_id c) = Some n \<and> tn_task n = summary_task c)"
  shows "\<exists>n. om_get (fst (fold (add_summary nodes) cs (m, r))) (summary_id c) = Some n \<and> tn_task n = summary_task c"
  using assms
proof (induction cs arbitrary: m r)
  case (Cons c' cs)
  have "c' = c \<or> summary_id c \<noteq> summary_id c'" using chain_ok_hd [of nodes c' c] Cons.prems(1,2) by auto
  moreover obtain m' r' where step: "add_summary nodes c' (m, r) = (m', r')" by fastforce
  ultimately have "c \<in> set cs \<or> (\<exists>n. om_get m' (summary_id c) = Some n \<and> tn_task n = summary_task c)"
    using Cons.prems(3) by (auto simp: add_summary_def Let_def summary_node_def summary_task_def)
  then show ?case using Cons.IH Cons.prems(1,2) by (simp add: step)
qed simp

lemma keep_node_other:
  "i \<notin> set (om_keys xs) \<Longrightarrow> om_get (fold (keep_node cs removed) xs m) i = om_get m i"
  by (induction xs arbitrary: m) (auto simp: keep_node_def)

lemma keep_node_get:
  "distinct (om_keys xs) \<Longrightarrow> om_get xs i = Some n \<Longrightarrow> i \<notin> set removed \<Longrightarrow>
     \<exists>n'. om_get (fold (keep_node cs removed) xs m) i = Some n' \<and> tn_task n' = tn_task n"
proof (induction xs arbitrary: m)
  case (Cons x xs)
  obtain j n0 where x: "x = (j, n0)" by (cases x)
  show ?case
  proof (cases "j = i")
    case True
    then have "keep_node cs removed x m = om_set i (n0\<lparr>tn_children := filter (\<lambda>c. c \<notin> set removed \<or> starts_with c collapsed_prefix)
        (map (heads_summary cs removed) (tn_children n0))\<rparr>) m" using Cons.prems(3) by (simp add: x keep_node_def)
    then show ?thesis using Cons.prems True by (simp add: x keep_node_other)
  next
    case False
    then show ?thesis using Cons by (simp add: x)
  qed
qed simp

lemma fix_node_get:
  "\<exists>g. (\<forall>i n. tn_task (g i n) = tn_task n) \<and> map (fix_node cs removed) m = map (\<lambda>(i, n). (i, g i n)) m"
  by (rule exI [of _ "\<lambda>i n. snd (fix_node cs removed (i, n))"]) (auto simp: fix_node_def)

lemma new_nodes_tasks:
  assumes "\<forall>c\<in>set cs. chain_ok nodes c" and "distinct (om_keys nodes)"
    and clean: "\<forall>i\<in>set (om_keys nodes). \<not> starts_with i collapsed_prefix"
  shows "om_get nodes i = Some n \<Longrightarrow> \<forall>c\<in>set cs. i \<notin> set c \<Longrightarrow>
      \<exists>n'. om_get (new_nodes nodes cs) i = Some n' \<and> tn_task n' = tn_task n"
    and "c \<in> set cs \<Longrightarrow> \<exists>n'. om_get (new_nodes nodes cs) (summary_id c) = Some n' \<and> tn_task n' = summary_task c"
proof -
  obtain m r where f: "fold (add_summary nodes) cs ([], []) = (m, r)" by fastforce
  obtain g where g: "\<And>i n. tn_task (g i n) = tn_task n"
    "new_nodes nodes cs = map (\<lambda>(i, n). (i, g i n)) (fold (keep_node cs r) nodes m)"
    using fix_node_get [of cs r "fold (keep_node cs r) nodes m"] by (auto simp: new_nodes_def f)
  have get: "om_get (new_nodes nodes cs) k = map_option (g k) (om_get (fold (keep_node cs r) nodes m) k)" for k
    by (simp add: g(2) map_of_map_keyed)
  show "\<exists>n'. om_get (new_nodes nodes cs) i = Some n' \<and> tn_task n' = tn_task n"
    if "om_get nodes i = Some n" "\<forall>c\<in>set cs. i \<notin> set c"
  proof -
    have "i \<notin> set r" using that(2) add_summary_fold(1) [OF f] by simp
    from keep_node_get [OF assms(2) that(1) this, of cs m] show ?thesis by (auto simp: get g(1))
  qed
  show "\<exists>n'. om_get (new_nodes nodes cs) (summary_id c) = Some n' \<and> tn_task n' = summary_task c" if c: "c \<in> set cs"
  proof -
    have "summary_id c \<notin> set (om_keys nodes)" by (rule summary_no_key [OF clean])
    then show ?thesis
      using add_summary_get [of cs nodes c "[]" "[]"] assms(1) c by (auto simp: get g(1) keep_node_other f)
  qed
qed


lemma fold_keeps: "(\<And>x p. P p \<Longrightarrow> P (g x p)) \<Longrightarrow> P p \<Longrightarrow> P (fold g xs p)"
  by (induction xs arbitrary: p) auto

lemma replace_keeps:
  assumes "\<exists>m. om_get nodes i = Some m \<and> pn_task m = t"
  shows "\<exists>m. om_get (fst (fold (\<lambda>(col, ids). fold (replace_node col) (enumerate 0 ids)) groups (nodes, a, b))) i = Some m \<and> pn_task m = t"
proof -
  define P where "P p \<longleftrightarrow> (\<exists>m. om_get (fst p) i = Some m \<and> pn_task m = t)"
    for p :: "(string, placed_node) omap \<times> nat \<times> nat"
  have step: "P p \<Longrightarrow> P (replace_node col x p)" for col x p
    by (auto simp: P_def replace_node_def split: prod.splits)
  have "P p \<Longrightarrow> P (fold (replace_node col) xs p)" for col xs p
    by (rule fold_keeps [of P]) (rule step)
  then have group: "P p \<Longrightarrow> P ((\<lambda>(col, ids). fold (replace_node col) (enumerate 0 ids)) x p)" for x p
    by (simp add: split_beta)
  have start: "P (nodes, a, b)" using assms by (simp add: P_def)
  have "P (fold (\<lambda>(col, ids). fold (replace_node col) (enumerate 0 ids)) groups (nodes, a, b))"
    by (rule fold_keeps [of P, OF _ start]) (rule group)
  then show ?thesis by (simp add: P_def)
qed

lemma summaries_get:
  assumes "\<forall>c\<in>set cs. chain_ok nodes c" and "chain_ok nodes c"
    and "c \<in> set cs \<or> om_get m (summary_id c) = Some (chain_summary nodes c)"
  shows "om_get (fold (\<lambda>c. om_set (summary_id c) (chain_summary nodes c)) cs m) (summary_id c) = Some (chain_summary nodes c)"
  using assms
proof (induction cs arbitrary: m)
  case (Cons c' cs)
  have "c' = c \<or> summary_id c \<noteq> summary_id c'" using chain_ok_hd [of nodes c' c] Cons.prems(1,2) by auto
  then have "c \<in> set cs \<or> om_get (om_set (summary_id c') (chain_summary nodes c') m) (summary_id c) = Some (chain_summary nodes c)"
    using Cons.prems(3) by auto
  then show ?case using Cons.IH Cons.prems(1,2) by simp
qed simp

text \<open>A task is shown as itself, or it is done and named by the summary of a chain that the result contains.\<close>

definition shown_in :: "collapsed_result \<Rightarrow> task \<Rightarrow> bool" where
  "shown_in R t \<longleftrightarrow> (\<exists>m. om_get (cl_nodes R) (t_id t) = Some m \<and> pn_task m = Some t)"

definition summed_up_in :: "collapsed_result \<Rightarrow> task \<Rightarrow> bool" where
  "summed_up_in R t \<longleftrightarrow>
     (\<exists>k c m. om_get (cl_chains R) k = Some c \<and> t_name t \<in> set (cc_names c) \<and> length (cc_names c) = cc_count c
        \<and> 3 \<le> cc_count c \<and> om_get (cl_nodes R) k = Some m
        \<and> pn_task m = Some (mk_task k (string_of_nat (cc_count c) @ '' completed steps'') TDone))"

lemma collapse_total:
  assumes d: "distinct (om_keys nodes)" and clean: "\<forall>i\<in>set (om_keys nodes). \<not> starts_with i collapsed_prefix"
    and closed: "snd ` node_edges nodes \<subseteq> set (om_keys nodes)" and ac: "acyclic (node_edges nodes)"
  obtains R where "collapseCompletedChains nodes maxCol = Some R"
    and "\<And>i n. om_get nodes i = Some n \<Longrightarrow> t_id (tn_task n) = i \<Longrightarrow>
      shown_in R (tn_task n) \<or> t_status (tn_task n) = TDone \<and> summed_up_in R (tn_task n)"
proof -
  note wf = node_edges_wf [OF ac]
  have entries: "\<forall>(i, n)\<in>set nodes. om_get nodes i = Some n" using d by auto
  have none: "\<forall>c\<in>set []. chain_ok nodes c" by simp
  from collect_chains_ok [OF wf entries none, of "[]"]
  obtain cs where cs: "collect_chains nodes (parent_of nodes) nodes [] [] = Some cs" "\<forall>c\<in>set cs. chain_ok nodes c" by blast
  show thesis
  proof (cases "cs = []")
    case True
    then show thesis
      by (intro that [OF _ disjI1]) (auto simp: collapseCompletedChains_def cs(1) shown_in_def map_of_map_keyed placed_def)
  next
    case False
    let ?N = "new_nodes nodes cs"
    obtain colOf where col: "bfs_cols (child_lists ?N) (map (\<lambda>i. (i, 0)) (root_ids_of ?N)) [] = Some colOf"
      using bfs_terminates [OF new_nodes_wf [OF cs(2) clean d closed wf, folded edges_child_lists]] by blast
    let ?F = "fold (\<lambda>(col, ids). fold (replace_node col) (enumerate 0 ids)) (col_groups [] colOf) (map (\<lambda>(i, n). (i, placed n)) ?N, 0, 0)"
    define R where "R = \<lparr>cl_nodes = fst ?F, cl_maxCol = fst (snd ?F), cl_maxRow = snd (snd ?F),
      cl_chains = fold (\<lambda>c. om_set (summary_id c) (chain_summary nodes c)) cs []\<rparr>"
    have R: "collapseCompletedChains nodes maxCol = Some R"
      using False by (simp add: collapseCompletedChains_def cs(1) col R_def Let_def split_beta)
    have keep: "\<exists>m. om_get (cl_nodes R) k = Some m \<and> pn_task m = Some t"
      if "\<exists>n. om_get ?N k = Some n \<and> tn_task n = t" for k t
      unfolding R_def collapsed_result.simps
      by (rule replace_keeps) (use that in \<open>auto simp: map_of_map_keyed placed_def\<close>)
    show thesis
    proof (rule that [OF R])
      fix i n assume n: "om_get nodes i = Some n" "t_id (tn_task n) = i"
      show "shown_in R (tn_task n) \<or> t_status (tn_task n) = TDone \<and> summed_up_in R (tn_task n)"
      proof (cases "\<forall>c\<in>set cs. i \<notin> set c")
        case True
        then show ?thesis using keep [OF new_nodes_tasks(1) [OF cs(2) d clean n(1)]] by (simp add: shown_in_def n(2))
      next
        case False
        then obtain c where c: "c \<in> set cs" "i \<in> set c" by blast
        then have ok: "chain_ok nodes c" using cs(2) by simp
        have chain: "om_get (cl_chains R) (summary_id c) = Some (chain_summary nodes c)"
          unfolding R_def using summaries_get [OF cs(2) ok] c(1) by simp
        have "t_status (tn_task n) = TDone" using ok c(2) n(1) by (auto simp: chain_ok_def is_done_def)
        moreover have "t_name (tn_task n) \<in> set (cc_names (chain_summary nodes c))"
          using c(2) n(1) by (force simp: chain_summary_def task_name_of_def image_iff)
        moreover have "length (cc_names (chain_summary nodes c)) = cc_count (chain_summary nodes c)"
          "3 \<le> cc_count (chain_summary nodes c)"
          using ok by (simp_all add: chain_summary_def chain_ok_def)
        moreover have "\<exists>m. om_get (cl_nodes R) (summary_id c) = Some m \<and> pn_task m = Some (summary_task c)"
          using keep new_nodes_tasks(2) [OF cs(2) d clean c(1)] by blast
        ultimately show ?thesis
          using chain by (auto simp: summed_up_in_def summary_task_def chain_summary_def intro!: exI [of _ "summary_id c"])
      qed
    qed
  qed
qed


section \<open>Properties\<close>

text \<open>
  C23. For every phase whose dependencies have no cycle the layout and the folding of its finished chains
  both return, and no task is lost: each one is either shown as itself or finished and named by the
  summary, of three tasks or more, of a chain it belongs to, and that summary is on the page.
\<close>
theorem collapsed_layout_total:
  assumes "distinct (map t_id tasks)" and "acyclic (dep_rel tasks)"
    and "\<forall>t\<in>set tasks. \<not> starts_with (t_id t) collapsed_prefix"
  shows "\<exists>L R. buildTreeLayout tasks = Some L \<and> collapseCompletedChains (lr_nodes L) (lr_maxCol L) = Some R
    \<and> (\<forall>t\<in>set tasks. shown_in R t \<or> t_status t = TDone \<and> summed_up_in R t)"
proof -
  obtain L where L: "buildTreeLayout tasks = Some L" using layout_returns [OF assms(2)] by blast
  note ok = layout_nodes_ok [OF assms(1) L]
  have keys: "set (om_keys (lr_nodes L)) = t_id ` set tasks"
    using conjunct1 [OF ok] unfolding om_has_iff set_eq_iff .
  have edges: "node_edges (lr_nodes L) \<subseteq> dep_rel tasks"
  proof (rule subrelI)
    fix p c assume "(p, c) \<in> node_edges (lr_nodes L)"
    then obtain n where n: "om_get (lr_nodes L) p = Some n" "c \<in> set (tn_children n)" by (auto simp: node_edges_def)
    then have "p \<in> t_id ` set tasks" unfolding keys [symmetric] by (auto dest: om_get_in)
    then obtain t where "t \<in> set tasks" "p = t_id t" by blast
    then show "(p, c) \<in> dep_rel tasks" using conjunct2 [OF ok] n by fastforce
  qed
  have "\<forall>i\<in>set (om_keys (lr_nodes L)). \<not> starts_with i collapsed_prefix" unfolding keys using assms(3) by blast
  moreover have "snd ` node_edges (lr_nodes L) \<subseteq> set (om_keys (lr_nodes L))"
    unfolding keys using edges dep_rel_ids by fastforce
  moreover have "acyclic (node_edges (lr_nodes L))" using acyclic_subset [OF assms(2) edges] .
  ultimately obtain R where R: "collapseCompletedChains (lr_nodes L) (lr_maxCol L) = Some R"
    and all: "\<And>i n. om_get (lr_nodes L) i = Some n \<Longrightarrow> t_id (tn_task n) = i \<Longrightarrow>
      shown_in R (tn_task n) \<or> t_status (tn_task n) = TDone \<and> summed_up_in R (tn_task n)"
    by (rule collapse_total [OF layout_keys_distinct [OF L]]) blast
  have "shown_in R t \<or> t_status t = TDone \<and> summed_up_in R t" if "t \<in> set tasks" for t
  proof -
    obtain n where "om_get (lr_nodes L) (t_id t) = Some n" "tn_task n = t" using conjunct2 [OF ok] \<open>t \<in> set tasks\<close> by blast
    then show ?thesis using all [of "t_id t" n] by simp
  qed
  then show ?thesis using L R by blast
qed

definition finished :: "string \<Rightarrow> string list \<Rightarrow> task" where
  "finished i ds = (dep_task i ds)\<lparr>t_status := TDone\<rparr>"

definition meeting_tasks :: "task list" where
  "meeting_tasks = [finished ''a1'' [], finished ''x1'' [], finished ''a2'' [''a1''], finished ''x2'' [''x1''],
     finished ''a3'' [''a2''], finished ''x3'' [''x2''], finished ''h'' [''a3'', ''x3'']]"

definition folded :: "task list \<Rightarrow> collapsed_result option" where
  "folded tasks = (case buildTreeLayout tasks of
     Some L \<Rightarrow> collapseCompletedChains (lr_nodes L) (lr_maxCol L) | None \<Rightarrow> None)"

text \<open>
  Where two finished chains meet in one task, the folded page contains a node without a task: the
  summary of the first chain keeps the meeting task as its child, and the second chain then absorbs it.
\<close>
theorem meeting_chains_leave_empty_node:
  "map_option (\<lambda>R. map (\<lambda>(i, n). (i, map_option t_name (pn_task n))) (cl_nodes R)) (folded meeting_tasks) =
     Some [(''__collapsed_a1'', Some ''3 completed steps''), (''__collapsed_x1'', Some ''4 completed steps''), (''h'', None)]"
  by code_simp

definition shared_tasks :: "task list" where
  "shared_tasks = [finished ''r'' [], finished ''b'' [''r'', ''a''], finished ''m'' [''r''], finished ''a'' [''m''],
     finished ''c'' [''b''], finished ''d'' [''c'']]"

text \<open>
  A chain is not checked against the chains found before it, so a finished task can be counted in two summaries.
\<close>
theorem chains_overlap:
  "map_option (\<lambda>R. map (\<lambda>(i, c). cc_names c) (cl_chains R)) (folded shared_tasks) =
     Some [[''b'', ''c'', ''d''], [''m'', ''a'', ''b'', ''c'', ''d'']]"
  by code_simp

lemma collapsed_layout_total_witness:
  "\<exists>L R. buildTreeLayout good_tasks = Some L \<and> collapseCompletedChains (lr_nodes L) (lr_maxCol L) = Some R
    \<and> shown_in R (dep_task ''a'' [])"
proof -
  have "\<forall>t\<in>set good_tasks. \<not> starts_with (t_id t) collapsed_prefix" by code_simp
  from collapsed_layout_total [OF good_distinct good_acyclic this] obtain L R
    where L: "buildTreeLayout good_tasks = Some L" "collapseCompletedChains (lr_nodes L) (lr_maxCol L) = Some R"
    and all: "\<forall>t\<in>set good_tasks. shown_in R t \<or> t_status t = TDone \<and> summed_up_in R t" by blast
  have "dep_task ''a'' [] \<in> set good_tasks" "t_status (dep_task ''a'' []) \<noteq> TDone"
    by (simp_all add: good_tasks_def dep_task_def mk_task_def)
  with all L show ?thesis by blast
qed

end
