(* ===== verification/FetchEffects.thy ===== *)
theory FetchEffects
  imports PlanUtils PathUtils UriCodec
begin

text \<open>
  The hooks that fetch once per selection: \<open>usePlanArtifacts\<close>, \<open>useAutopilotArtifacts\<close>,
  \<open>useFeaturePlanTask\<close>, \<open>useTaskForAutopilot\<close>, and the effect of \<open>ArtifactDialog\<close>. They have one shape: an
  effect keyed by the selection that starts a request, a cleanup that marks the run as cancelled, and
  a continuation that writes the reply into the state. \<open>hook_code\<close> holds what a hook does at
  each of these points, \<open>fetch_step\<close> runs any of them; the locale states what is common to those that
  look at the mark.
\<close>

section \<open>One effect with its requests\<close>

datatype 'a response = NetThrow | HttpStatus nat | Body 'a

record ('k, 'r, 's) hook_code =
  hc_clear :: "'s \<Rightarrow> 's"
  hc_start :: "'k \<Rightarrow> 's \<Rightarrow> 's"
  hc_land :: "'k \<Rightarrow> 'r \<Rightarrow> 's \<Rightarrow> 's"
  hc_guarded :: bool
  hc_polls :: bool

text \<open>
  \<open>fe_live\<close> is the run that has not been cancelled; a request on the wire carries its run and the key its
  closure holds. \<open>fe_landed\<close> records the last reply written since the key changed.
\<close>

record ('k, 'r, 's) fetcher =
  fe_key :: "'k option"
  fe_live :: "nat option"
  fe_run :: nat
  fe_next :: nat
  fe_wire :: "(nat \<times> nat \<times> 'k) list"
  fe_state :: 's
  fe_landed :: "('k \<times> 'r) option"

definition fe_init :: "'s \<Rightarrow> ('k, 'r, 's) fetcher" where
  "fe_init s = \<lparr>fe_key = None, fe_live = None, fe_run = 0, fe_next = 0, fe_wire = [], fe_state = s, fe_landed = None\<rparr>"

text \<open>A render with another selection: the cleanup of the old run, then the new run of the effect.\<close>

definition set_key :: "('k, 'r, 's) hook_code \<Rightarrow> 'k option \<Rightarrow> ('k, 'r, 's) fetcher \<Rightarrow> ('k, 'r, 's) fetcher" where
  "set_key code key f =
     (if key = fe_key f then f
      else (let f1 = f\<lparr>fe_key := key, fe_run := Suc (fe_run f), fe_landed := None\<rparr>
            in case key of
                 None \<Rightarrow> f1\<lparr>fe_live := None, fe_state := hc_clear code (fe_state f)\<rparr>
               | Some k \<Rightarrow> f1\<lparr>fe_live := Some (fe_run f), fe_state := hc_start code k (fe_state f),
                             fe_wire := fe_wire f @ [(fe_next f, fe_run f, k)], fe_next := Suc (fe_next f)\<rparr>))"

definition poll_again :: "('k, 'r, 's) hook_code \<Rightarrow> ('k, 'r, 's) fetcher \<Rightarrow> ('k, 'r, 's) fetcher" where
  "poll_again code f =
     (case (fe_key f, fe_live f) of
        (Some k, Some run) \<Rightarrow>
          if hc_polls code then f\<lparr>fe_wire := fe_wire f @ [(fe_next f, run, k)], fe_next := Suc (fe_next f)\<rparr> else f
      | _ \<Rightarrow> f)"

definition reply_arrives :: "('k, 'r, 's) hook_code \<Rightarrow> nat \<Rightarrow> 'r \<Rightarrow> ('k, 'r, 's) fetcher \<Rightarrow> ('k, 'r, 's) fetcher" where
  "reply_arrives code req r f =
     (case map_of (fe_wire f) req of
        None \<Rightarrow> f
      | Some (run, k) \<Rightarrow>
          (let f1 = f\<lparr>fe_wire := filter (\<lambda>x. fst x \<noteq> req) (fe_wire f)\<rparr>
           in if hc_guarded code \<and> fe_live f \<noteq> Some run then f1
              else f1\<lparr>fe_state := hc_land code k r (fe_state f), fe_landed := Some (k, r)\<rparr>))"

datatype ('k, 'r) fetch_event = SetKey "'k option" | PollAgain | ReplyArrives nat 'r

fun fetch_step :: "('k, 'r, 's) hook_code \<Rightarrow> ('k, 'r) fetch_event \<Rightarrow> ('k, 'r, 's) fetcher \<Rightarrow> ('k, 'r, 's) fetcher" where
  "fetch_step code (SetKey k) f = set_key code k f"
| "fetch_step code PollAgain f = poll_again code f"
| "fetch_step code (ReplyArrives req r) f = reply_arrives code req r f"

definition fetch_run :: "('k, 'r, 's) hook_code \<Rightarrow> 's \<Rightarrow> ('k, 'r) fetch_event list \<Rightarrow> ('k, 'r, 's) fetcher" where
  "fetch_run code s evs = fold (fetch_step code) evs (fe_init s)"

section \<open>What the guarded hooks share\<close>

locale guarded_hook =
  fixes code :: "('k, 'r, 's) hook_code" and start :: 's and view :: "'s \<Rightarrow> 'v"
    and empty_view :: 'v and result :: "'k \<Rightarrow> 'r \<Rightarrow> 'v"
  assumes guarded: "hc_guarded code"
    and start_empty: "view start = empty_view"
    and clear_empty: "view (hc_clear code s) = empty_view"
    and land_result: "view (hc_land code k r s) = result k r"
begin

definition shows_key :: "('k, 'r, 's) fetcher \<Rightarrow> bool" where
  "shows_key f \<longleftrightarrow>
     (\<forall>k r. fe_landed f = Some (k, r) \<longrightarrow> fe_key f = Some k \<and> view (fe_state f) = result k r)
   \<and> (fe_key f = None \<longrightarrow> fe_live f = None \<and> view (fe_state f) = empty_view)
   \<and> (\<forall>(req, run, k)\<in>set (fe_wire f). run < fe_run f \<and> (fe_live f = Some run \<longrightarrow> fe_key f = Some k))
   \<and> (\<forall>run. fe_live f = Some run \<longrightarrow> run < fe_run f)"

lemma shows_key_init: "shows_key (fe_init start)"
  by (simp add: shows_key_def fe_init_def start_empty)

lemma shows_key_set: "shows_key f \<Longrightarrow> shows_key (set_key code key f)"
  by (cases key) (fastforce simp: shows_key_def set_key_def Let_def clear_empty)+

lemma shows_key_poll: "shows_key f \<Longrightarrow> shows_key (poll_again code f)"
  by (auto simp: shows_key_def poll_again_def split: option.splits)

lemma shows_key_reply:
  assumes "shows_key f"
  shows "shows_key (reply_arrives code req r f)"
proof (cases "map_of (fe_wire f) req")
  case (Some p)
  obtain run k where p: "p = (run, k)" by (cases p)
  then have "(req, run, k) \<in> set (fe_wire f)" using Some by (simp add: map_of_SomeD)
  then have "fe_live f = Some run \<longrightarrow> fe_key f = Some k" using assms by (auto simp: shows_key_def)
  then show ?thesis
    using assms Some p guarded by (auto simp: shows_key_def reply_arrives_def Let_def land_result)
qed (use assms in \<open>simp add: reply_arrives_def\<close>)

lemma shows_key_run: "shows_key (fetch_run code start evs)"
proof -
  have "shows_key f \<Longrightarrow> shows_key (fold (fetch_step code) evs f)" for f
  proof (induction evs arbitrary: f)
    case (Cons e evs)
    then show ?case by (cases e) (simp_all add: shows_key_set shows_key_poll shows_key_reply)
  qed simp
  then show ?thesis using shows_key_init by (simp add: fetch_run_def)
qed

text \<open>What is shown after a reply was written is the result of that reply for the key selected now.\<close>

lemma landed_shown:
  "fe_landed (fetch_run code start evs) = Some (k, r) \<Longrightarrow>
     fe_key (fetch_run code start evs) = Some k \<and> view (fe_state (fetch_run code start evs)) = result k r"
  using shows_key_run [of evs] by (simp add: shows_key_def)

lemma nothing_selected:
  "fe_key (fetch_run code start evs) = None \<Longrightarrow> view (fe_state (fetch_run code start evs)) = empty_view"
  using shows_key_run [of evs] by (simp add: shows_key_def)

text \<open>The reply to the request of the current run is always written.\<close>

lemma current_reply_lands:
  assumes "fe_key f \<noteq> Some k" and "shows_key f" and "\<forall>x\<in>set (fe_wire f). fst x < fe_next f"
  shows "fe_landed (reply_arrives code (fe_next f) r (set_key code (Some k) f)) = Some (k, r)"
proof -
  have "map_of (fe_wire f) (fe_next f) = None"
    using assms(3) by (force simp: map_of_eq_None_iff)
  then show ?thesis using assms(1) by (simp add: set_key_def reply_arrives_def Let_def map_add_def)
qed

end

section \<open>Documents\<close>

record artifact =
  at_name :: string
  at_file :: string

definition plan_artifacts_key :: "string option \<Rightarrow> string option \<Rightarrow> (string \<times> string) option" where
  "plan_artifacts_key cwd task = (if \<not> truthy cwd \<or> \<not> truthy task then None else Some (the cwd, the task))"

definition plan_artifacts_url :: "string \<times> string \<Rightarrow> string" where
  "plan_artifacts_url = (\<lambda>(cwd, task).
     ''/api/plan/artifacts?cwd='' @ encodeURIComponent cwd @ ''&task='' @ encodeURIComponent task)"

text \<open>A status that is not ok counts as an empty list, and so does a failing request.\<close>

fun listed :: "artifact list response \<Rightarrow> artifact list" where
  "listed (Body xs) = xs"
| "listed (HttpStatus n) = []"
| "listed NetThrow = []"

definition usePlanArtifacts :: "(string \<times> string, artifact list response, artifact list) hook_code" where
  "usePlanArtifacts = \<lparr>hc_clear = (\<lambda>_. []), hc_start = (\<lambda>_ s. s), hc_land = (\<lambda>_ r _. listed r),
     hc_guarded = True, hc_polls = False\<rparr>"

definition autopilot_artifacts_key :: "string option \<Rightarrow> string option" where
  "autopilot_artifacts_key task = (if truthy task then task else None)"

definition autopilot_artifacts_url :: "string \<Rightarrow> string" where
  "autopilot_artifacts_url task = ''/api/autopilot/artifacts?task='' @ encodeURIComponent task"

definition useAutopilotArtifacts :: "(string, artifact list response, artifact list) hook_code" where
  "useAutopilotArtifacts = \<lparr>hc_clear = (\<lambda>_. []), hc_start = (\<lambda>_ s. s), hc_land = (\<lambda>_ r _. listed r),
     hc_guarded = True, hc_polls = True\<rparr>"

section \<open>The plan task behind a feature\<close>

fun find_plan_task :: "phase list \<Rightarrow> string \<Rightarrow> task option" where
  "find_plan_task [] i = None"
| "find_plan_task (p # ps) i =
     (case find (\<lambda>t. t_id t = i) (ph_tasks p) of Some t \<Rightarrow> Some t | None \<Rightarrow> find_plan_task ps i)"

record feature_task =
  ft_task :: "task option"
  ft_plan :: "plan option"
  ft_loading :: bool

definition feature_task_key :: "feature \<Rightarrow> (string \<times> string) option" where
  "feature_task_key f =
     (if \<not> truthy (f_plan_dir f) \<or> \<not> truthy (f_plan_task_id f) then None
      else Some (the (f_plan_dir f), the (f_plan_task_id f)))"

definition plan_url :: "string \<Rightarrow> string" where
  "plan_url dir = ''/api/plan?cwd='' @ encodeURIComponent dir"

definition feature_task_none :: feature_task where
  "feature_task_none = \<lparr>ft_task = None, ft_plan = None, ft_loading = False\<rparr>"

fun feature_task_result :: "string \<times> string \<Rightarrow> plan response \<Rightarrow> feature_task" where
  "feature_task_result (dir, i) (Body p) = \<lparr>ft_task = find_plan_task (pl_phases p) i, ft_plan = Some p, ft_loading = False\<rparr>"
| "feature_task_result k (HttpStatus n) = feature_task_none"
| "feature_task_result k NetThrow = feature_task_none"

definition useFeaturePlanTask :: "(string \<times> string, plan response, feature_task) hook_code" where
  "useFeaturePlanTask = \<lparr>hc_clear = (\<lambda>_. feature_task_none), hc_start = (\<lambda>_ s. s\<lparr>ft_loading := True\<rparr>),
     hc_land = (\<lambda>k r _. feature_task_result k r), hc_guarded = True, hc_polls = False\<rparr>"

section \<open>The plan task behind an autopilot run\<close>

record task_lookup =
  tl_task :: "task option"
  tl_plan :: "plan option"
  tl_planDir :: "string option"
  tl_projectPath :: "string option"
  tl_loading :: bool

definition lookup_key :: "autopilot_session option \<Rightarrow> (string \<times> string) option" where
  "lookup_key s =
     (case s of
        None \<Rightarrow> None
      | Some a \<Rightarrow> if as_task a = '''' \<or> \<not> truthy (as_project a) then None else Some (as_task a, the (as_project a)))"

definition lookup_candidates :: "string \<Rightarrow> project_summary list \<Rightarrow> project_summary list" where
  "lookup_candidates sessionProject plans =
     filter (\<lambda>p. truthy (ps_plan_dir p) \<and>
       (starts_with (to_lower (ps_project p)) (to_lower sessionProject) \<or>
        str_includes (to_lower (ps_path p)) (to_lower sessionProject))) plans"

text \<open>The candidates are asked one after the other; \<open>None\<close> means that a request threw.\<close>

fun search_plans ::
    "(string \<Rightarrow> plan response) \<Rightarrow> string \<Rightarrow> project_summary list \<Rightarrow> (task \<times> plan \<times> project_summary) option option" where
  "search_plans fetch sessionTask [] = Some None"
| "search_plans fetch sessionTask (c # cs) =
     (case fetch (plan_url (the (ps_plan_dir c))) of
        NetThrow \<Rightarrow> None
      | HttpStatus n \<Rightarrow> search_plans fetch sessionTask cs
      | Body p \<Rightarrow>
          (case find_plan_task (pl_phases p) sessionTask of
             Some t \<Rightarrow> Some (Some (t, p, c))
           | None \<Rightarrow> search_plans fetch sessionTask cs))"

text \<open>The replies the lookup gets: that of \<open>/api/plans\<close> and that of each plan's URL.\<close>

type_synonym plan_server = "project_summary list response \<times> (string \<Rightarrow> plan response)"

definition lookup_none :: "bool \<Rightarrow> task_lookup" where
  "lookup_none loading = \<lparr>tl_task = None, tl_plan = None, tl_planDir = None, tl_projectPath = None, tl_loading = loading\<rparr>"

definition lookup_result :: "string \<times> string \<Rightarrow> plan_server \<Rightarrow> task_lookup" where
  "lookup_result = (\<lambda>(sessionTask, sessionProject) (plans, fetch).
     (case plans of
        Body ps \<Rightarrow>
          (case search_plans fetch sessionTask (lookup_candidates sessionProject ps) of
             Some (Some (t, p, c)) \<Rightarrow>
               \<lparr>tl_task = Some t, tl_plan = Some p, tl_planDir = ps_plan_dir c, tl_projectPath = Some (ps_path c), tl_loading = False\<rparr>
           | _ \<Rightarrow> lookup_none False)
      | _ \<Rightarrow> lookup_none False))"

definition useTaskForAutopilot :: "(string \<times> string, plan_server, task_lookup) hook_code" where
  "useTaskForAutopilot = \<lparr>hc_clear = (\<lambda>s. lookup_none (tl_loading s)), hc_start = (\<lambda>_ s. s\<lparr>tl_loading := True\<rparr>),
     hc_land = (\<lambda>k r _. lookup_result k r), hc_guarded = True, hc_polls = False\<rparr>"

section \<open>The document dialog\<close>

record dialog =
  dg_content :: "string option"
  dg_loading :: bool
  dg_error :: "string option"

definition dialog_init :: dialog where
  "dialog_init = \<lparr>dg_content = None, dg_loading = False, dg_error = None\<rparr>"

text \<open>\<open>thrown\<close> is the message of the error a failing request throws.\<close>

fun dialog_land :: "string \<Rightarrow> string response \<Rightarrow> dialog \<Rightarrow> dialog" where
  "dialog_land thrown (Body c) s = s\<lparr>dg_content := Some c, dg_loading := False\<rparr>"
| "dialog_land thrown (HttpStatus n) s = s\<lparr>dg_error := Some (''HTTP '' @ string_of_nat n), dg_loading := False\<rparr>"
| "dialog_land thrown NetThrow s = s\<lparr>dg_error := Some thrown, dg_loading := False\<rparr>"

definition ArtifactDialog :: "string \<Rightarrow> (string, string response, dialog) hook_code" where
  "ArtifactDialog thrown = \<lparr>hc_clear = (\<lambda>s. s\<lparr>dg_content := None\<rparr>), hc_start = (\<lambda>_ s. s\<lparr>dg_loading := True, dg_error := None\<rparr>),
     hc_land = (\<lambda>_ r s. dialog_land thrown r s), hc_guarded = False, hc_polls = False\<rparr>"

datatype dialog_body = DbSkeleton | DbError string | DbYaml string | DbMarkdown string | DbNothing

definition ends_with :: "string \<Rightarrow> string \<Rightarrow> bool" where
  "ends_with s t \<longleftrightarrow> length t \<le> length s \<and> drop (length s - length t) s = t"

definition check_emoji :: string where "check_emoji = [CHR 0xE2, CHR 0x9C, CHR 0x85]"

text \<open>\<open>split(x).join(y)\<close>: every occurrence, from the left.\<close>

fun replace_all :: "nat \<Rightarrow> string \<Rightarrow> string \<Rightarrow> string \<Rightarrow> string" where
  "replace_all 0 x y s = s"
| "replace_all (Suc n) x y s =
     (if s = [] then []
      else if starts_with s x then y @ replace_all n x y (drop (length x) s)
      else hd s # replace_all n x y (tl s))"

definition brandifyMarkdown :: "string \<Rightarrow> string" where
  "brandifyMarkdown source =
     (if \<not> str_includes source check_emoji then source
      else replace_all (length source) check_emoji ''`wf:check`'' source)"

text \<open>What an open dialog shows: its title and its body.\<close>

definition dialog_view :: "string option \<Rightarrow> string option \<Rightarrow> dialog \<Rightarrow> (string \<times> dialog_body) option" where
  "dialog_view url title s =
     (if \<not> truthy url then None
      else Some (case title of Some t \<Rightarrow> t | None \<Rightarrow> ''Artifact'',
        (if dg_loading s then DbSkeleton
         else if truthy (dg_error s) then DbError (''Failed to load artifact: '' @ the (dg_error s))
         else case dg_content s of
                None \<Rightarrow> DbNothing
              | Some c \<Rightarrow>
                  if case title of Some t \<Rightarrow> ends_with t ''.yaml'' \<or> ends_with t ''.yml'' | None \<Rightarrow> False
                  then DbYaml c else DbMarkdown (brandifyMarkdown c))))"

section \<open>Properties\<close>

interpretation plan_documents: guarded_hook usePlanArtifacts "[]" "\<lambda>s. s" "[]" "\<lambda>_. listed"
  by unfold_locales (simp_all add: usePlanArtifacts_def)

interpretation autopilot_documents: guarded_hook useAutopilotArtifacts "[]" "\<lambda>s. s" "[]" "\<lambda>_. listed"
  by unfold_locales (simp_all add: useAutopilotArtifacts_def)

interpretation feature_lookup: guarded_hook useFeaturePlanTask feature_task_none "\<lambda>s. s" feature_task_none feature_task_result
  by unfold_locales (simp_all add: useFeaturePlanTask_def)

definition found_of :: "task_lookup \<Rightarrow> task option \<times> plan option \<times> string option \<times> string option" where
  "found_of s = (tl_task s, tl_plan s, tl_planDir s, tl_projectPath s)"

interpretation run_lookup: guarded_hook useTaskForAutopilot "lookup_none False" found_of "(None, None, None, None)"
    "\<lambda>k r. found_of (lookup_result k r)"
  by unfold_locales (simp_all add: useTaskForAutopilot_def found_of_def lookup_none_def)

text \<open>
  C15. Whatever order selections and replies come in, a reply to an earlier selection is never shown: once a
  reply has been written, the documents, the feature's task and the run's task are those
  of the reply to a request for the present selection, and with nothing selected nothing is shown.
\<close>
theorem replies_match_selection:
  "(fe_landed (fetch_run usePlanArtifacts [] e1) = Some (k1, r1) \<longrightarrow>
      fe_key (fetch_run usePlanArtifacts [] e1) = Some k1 \<and> fe_state (fetch_run usePlanArtifacts [] e1) = listed r1)
   \<and> (fe_landed (fetch_run useAutopilotArtifacts [] e2) = Some (k2, r1) \<longrightarrow>
      fe_key (fetch_run useAutopilotArtifacts [] e2) = Some k2 \<and> fe_state (fetch_run useAutopilotArtifacts [] e2) = listed r1)
   \<and> (fe_landed (fetch_run useFeaturePlanTask feature_task_none e3) = Some (k3, r3) \<longrightarrow>
      fe_key (fetch_run useFeaturePlanTask feature_task_none e3) = Some k3
      \<and> fe_state (fetch_run useFeaturePlanTask feature_task_none e3) = feature_task_result k3 r3)
   \<and> (fe_landed (fetch_run useTaskForAutopilot (lookup_none False) e4) = Some (k4, r4) \<longrightarrow>
      fe_key (fetch_run useTaskForAutopilot (lookup_none False) e4) = Some k4
      \<and> found_of (fe_state (fetch_run useTaskForAutopilot (lookup_none False) e4)) = found_of (lookup_result k4 r4))
   \<and> (fe_key (fetch_run useTaskForAutopilot (lookup_none False) e4) = None \<longrightarrow>
      found_of (fe_state (fetch_run useTaskForAutopilot (lookup_none False) e4)) = (None, None, None, None))"
  by (intro conjI impI plan_documents.landed_shown autopilot_documents.landed_shown feature_lookup.landed_shown
    run_lookup.landed_shown run_lookup.nothing_selected) simp_all

lemma find_plan_task_mem: "find_plan_task ps i = Some t \<Longrightarrow> t_id t = i \<and> (\<exists>p\<in>set ps. t \<in> set (ph_tasks p))"
  by (induction ps) (auto split: option.splits simp: find_Some_iff)

lemma find_plan_task_None: "find_plan_task ps i = None \<longleftrightarrow> (\<forall>p\<in>set ps. \<forall>t\<in>set (ph_tasks p). t_id t \<noteq> i)"
  by (induction ps) (fastforce split: option.splits simp: find_None_iff find_Some_iff)+

lemma search_plans_found:
  "search_plans fetch i cs = Some (Some (t, p, c)) \<Longrightarrow>
     c \<in> set cs \<and> fetch (plan_url (the (ps_plan_dir c))) = Body p \<and> find_plan_task (pl_phases p) i = Some t"
  by (induction cs) (auto split: response.splits option.splits)

lemma search_plans_missed:
  "search_plans fetch i cs = Some None \<Longrightarrow> c \<in> set cs \<Longrightarrow> fetch (plan_url (the (ps_plan_dir c))) = Body p \<Longrightarrow>
     find_plan_task (pl_phases p) i = None"
  by (induction cs) (auto split: response.splits option.splits)

lemma search_plans_threw:
  "search_plans fetch i cs = None \<Longrightarrow> \<exists>c\<in>set cs. fetch (plan_url (the (ps_plan_dir c))) = NetThrow"
  by (induction cs) (auto split: response.splits option.splits)

text \<open>
  A lookup that answers gives a task with the run's id from a plan of the run's project, together with that plan's
  directory and path; it gives nothing although some plan of the project has the task only if a request threw.
\<close>
theorem run_lookup_exact:
  assumes "s = lookup_result (i, project) (Body ps, fetch)"
  shows "(\<forall>t. tl_task s = Some t \<longrightarrow>
      (\<exists>c\<in>set (lookup_candidates project ps). \<exists>p. fetch (plan_url (the (ps_plan_dir c))) = Body p \<and> tl_plan s = Some p
         \<and> tl_planDir s = ps_plan_dir c \<and> tl_projectPath s = Some (ps_path c)
         \<and> t_id t = i \<and> (\<exists>ph\<in>set (pl_phases p). t \<in> set (ph_tasks ph))))
    \<and> (tl_task s = None \<longrightarrow> found_of s = (None, None, None, None) \<and>
      ((\<exists>c\<in>set (lookup_candidates project ps). fetch (plan_url (the (ps_plan_dir c))) = NetThrow) \<or>
       (\<forall>c\<in>set (lookup_candidates project ps). \<forall>p. fetch (plan_url (the (ps_plan_dir c))) = Body p \<longrightarrow>
          (\<forall>ph\<in>set (pl_phases p). \<forall>t\<in>set (ph_tasks ph). t_id t \<noteq> i))))"
proof (cases "search_plans fetch i (lookup_candidates project ps)")
  case None
  then show ?thesis
    using search_plans_threw [OF None] by (simp add: assms lookup_result_def lookup_none_def found_of_def)
next
  case (Some found)
  show ?thesis
  proof (cases found)
    case None
    then show ?thesis
      using Some search_plans_missed [of fetch i "lookup_candidates project ps"]
      by (simp add: assms lookup_result_def lookup_none_def found_of_def find_plan_task_None)
  next
    case found: (Some x)
    obtain t p c where x: "x = (t, p, c)" by (cases x)
    then have f: "search_plans fetch i (lookup_candidates project ps) = Some (Some (t, p, c))" using Some found by simp
    from search_plans_found [OF f] find_plan_task_mem [of "pl_phases p" i t] show ?thesis
      by (auto simp: assms lookup_result_def f)
  qed
qed

text \<open>
  The dialog does not look whether a reply is for the file it shows: after opening one document, closing it and
  opening another, a late reply to the first puts the first document's text under the second one's title.
\<close>
theorem dialog_shows_other_file:
  assumes "a \<noteq> b" and "b \<noteq> ''''" and "\<not> ends_with title ''.yaml''" and "\<not> ends_with title ''.yml''"
    and "f = fetch_run (ArtifactDialog thrown) dialog_init
      [SetKey (Some a), SetKey None, SetKey (Some b), ReplyArrives 1 (Body textB), ReplyArrives 0 (Body textA)]"
  shows "fe_key f = Some b \<and> dialog_view (fe_key f) (Some title) (fe_state f) = Some (title, DbMarkdown (brandifyMarkdown textA))"
  using assms(1-4) unfolding assms(5)
  by (simp add: fetch_run_def fe_init_def set_key_def reply_arrives_def ArtifactDialog_def dialog_init_def dialog_view_def Let_def truthy_def)

text \<open>
  A run that is deselected while its lookup is on the way leaves the hook loading for ever: the cancelled
  lookup does not reset the flag, and the effect run without a session does not either.
\<close>
theorem lookup_loading_sticks:
  assumes "f = fetch_run useTaskForAutopilot (lookup_none False) (SetKey (Some k) # SetKey None # evs)"
    and "list_all (\<lambda>e. \<forall>k'. e \<noteq> SetKey (Some k')) evs"
  shows "tl_loading (fe_state f)"
proof -
  define stuck where "stuck g \<longleftrightarrow> fe_key g = None \<and> fe_live g = None \<and> tl_loading (fe_state g)"
    for g :: "(string \<times> string, plan_server, task_lookup) fetcher"
  have step: "stuck (fetch_step useTaskForAutopilot e g)" if "stuck g" "\<forall>k'. e \<noteq> SetKey (Some k')" for e g
  proof (cases e)
    case (SetKey key)
    then have "key = None" using that(2) by (cases key) auto
    then show ?thesis using that(1) SetKey by (simp add: set_key_def stuck_def)
  next
    case PollAgain
    then show ?thesis using that(1) by (simp add: poll_again_def stuck_def)
  next
    case (ReplyArrives req r)
    then show ?thesis using that(1)
      by (auto simp: reply_arrives_def stuck_def useTaskForAutopilot_def Let_def split: option.splits)
  qed
  have "stuck (fold (fetch_step useTaskForAutopilot) evs g)" if "stuck g" for g
    using that assms(2) by (induction evs arbitrary: g) (simp_all add: step)
  moreover have "stuck (set_key useTaskForAutopilot None (set_key useTaskForAutopilot (Some k) (fe_init (lookup_none False))))"
    by (simp add: stuck_def set_key_def fe_init_def useTaskForAutopilot_def lookup_none_def Let_def)
  ultimately show ?thesis by (simp add: assms(1) fetch_run_def stuck_def)
qed

lemma replies_match_selection_witness:
  "fe_state (fetch_run usePlanArtifacts [] [SetKey (Some (''/p'', ''a'')), SetKey (Some (''/p'', ''b'')),
     ReplyArrives 1 (Body [\<lparr>at_name = ''PLAN.md'', at_file = ''b/PLAN.md''\<rparr>]), ReplyArrives 0 (Body [])]) =
     [\<lparr>at_name = ''PLAN.md'', at_file = ''b/PLAN.md''\<rparr>]"
proof -
  let ?e = "[SetKey (Some (''/p'', ''a'')), SetKey (Some (''/p'', ''b'')),
     ReplyArrives 1 (Body [\<lparr>at_name = ''PLAN.md'', at_file = ''b/PLAN.md''\<rparr>]), ReplyArrives 0 (Body [])]"
  have "fe_landed (fetch_run usePlanArtifacts [] ?e) = Some ((''/p'', ''b''), Body [\<lparr>at_name = ''PLAN.md'', at_file = ''b/PLAN.md''\<rparr>])"
    by code_simp
  with replies_match_selection [of ?e "(''/p'', ''b'')" "Body [\<lparr>at_name = ''PLAN.md'', at_file = ''b/PLAN.md''\<rparr>]"]
  show ?thesis by simp
qed

definition lookup_plans :: "project_summary list" where
  "lookup_plans = [\<lparr>ps_project = ''dotfiles'', ps_path = ''/r/dotfiles'', ps_phases = 1, ps_progress = 0, ps_has_plan = True,
     ps_lifecycle = None, ps_plan_dir = Some ''/r/INPROGRESS_x'', ps_schema_version = None, ps_active_session_count = None,
     ps_last_activity = None\<rparr>]"

definition lookup_plan :: plan where
  "lookup_plan = \<lparr>pl_schema_version = None, pl_name = ''P'', pl_phases = [mk_phase ''p'' ''P'' [mk_task ''a'' ''A'' TWip]],
     pl_test_targets = None, pl_deferred = None, pl_rest = JNull\<rparr>"

lemma run_lookup_exact_witness:
  "tl_planDir (lookup_result (''a'', ''dotfiles'') (Body lookup_plans, \<lambda>_. Body lookup_plan)) = Some ''/r/INPROGRESS_x''"
proof -
  let ?s = "lookup_result (''a'', ''dotfiles'') (Body lookup_plans, \<lambda>_. Body lookup_plan)"
  have t: "tl_task ?s = Some (mk_task ''a'' ''A'' TWip)" by code_simp
  have c: "lookup_candidates ''dotfiles'' lookup_plans = lookup_plans" by code_simp
  from conjunct1 [OF run_lookup_exact [of ?s, OF refl], rule_format, OF t] show ?thesis
    unfolding c by (auto simp: lookup_plans_def)
qed

lemma dialog_shows_other_file_witness:
  "dialog_view (Some ''u2'') (Some ''QA_REPORT.md'') (fe_state (fetch_run (ArtifactDialog ''x'') dialog_init
     [SetKey (Some ''u1''), SetKey None, SetKey (Some ''u2''), ReplyArrives 1 (Body ''report''), ReplyArrives 0 (Body ''plan'')]))
   = Some (''QA_REPORT.md'', DbMarkdown ''plan'')"
proof -
  have "\<not> ends_with ''QA_REPORT.md'' ''.yaml''" "\<not> ends_with ''QA_REPORT.md'' ''.yml''" by code_simp+
  moreover have "brandifyMarkdown ''plan'' = ''plan''" by code_simp
  ultimately show ?thesis
    using dialog_shows_other_file [of "''u1''" "''u2''" "''QA_REPORT.md''" _ "''x''" "''report''" "''plan''", OF _ _ _ _ refl] by auto
qed

lemma lookup_loading_sticks_witness:
  "tl_loading (fe_state (fetch_run useTaskForAutopilot (lookup_none False)
     [SetKey (Some (''a'', ''dotfiles'')), SetKey None, ReplyArrives 0 (HttpStatus 500, \<lambda>_. NetThrow)]))"
  using lookup_loading_sticks [of _ "(''a'', ''dotfiles'')" "[ReplyArrives 0 (HttpStatus 500, \<lambda>_. NetThrow)]", OF refl] by simp

end
