(* ===== verification/SessionPanel.thy ===== *)
theory SessionPanel
  imports FetchEffects FilterState SessionButtons
begin

text \<open>
  The detail panel of a task, \<open>components/SessionPanel.tsx\<close> with its chrome \<open>wf/DetailHeader.tsx\<close> and
  \<open>wf/DetailSidebar.tsx\<close>: which pane is shown, the sections of the brief and the chips that switch them,
  the merged list of documents, the neighbours in the plan. \<open>parse_date\<close> and \<open>now\<close> are those of \<open>relativeTime\<close>.
\<close>

section \<open>Sections of the brief\<close>

definition brief_section_order :: "string list" where
  "brief_section_order =
     [''task_type'', ''what'', ''why'', ''where'', ''constraints'', ''acceptance'', ''manualtest_scenarios'',
      ''manual_test'', ''estimate'', ''description'', ''scope_change'', ''delivered_beyond_plan'', ''remaining_gaps'']"

definition brief_section_labels :: "(string, string) omap" where
  "brief_section_labels =
     [(''task_type'', ''Type''), (''what'', ''What''), (''why'', ''Why''), (''where'', ''Where''),
      (''constraints'', ''Constraints''), (''acceptance'', ''Acceptance''), (''manualtest_scenarios'', ''Test Scenarios''),
      (''manual_test'', ''Manual Test''), (''estimate'', ''Estimate''), (''description'', ''Description''),
      (''scope_change'', ''Scope Change''), (''delivered_beyond_plan'', ''Delivered Beyond Plan''),
      (''remaining_gaps'', ''Remaining Gaps'')]"

definition plan_is2 :: "plan option \<Rightarrow> bool" where
  "plan_is2 p = (case p of None \<Rightarrow> False
     | Some pl \<Rightarrow> (case pl_schema_version pl of Some s \<Rightarrow> starts_with s ''2.'' | None \<Rightarrow> False))"

definition some_items :: "'a list option \<Rightarrow> bool" where
  "some_items xs \<longleftrightarrow> (case xs of None \<Rightarrow> False | Some ys \<Rightarrow> length ys > 0)"

definition some_paths :: "where_block option \<Rightarrow> bool" where
  "some_paths w \<longleftrightarrow> (case w of None \<Rightarrow> False
     | Some b \<Rightarrow> some_items (w_modify b) \<or> some_items (w_create b) \<or> some_items (w_delete b))"

definition nonzero :: "'a::zero option \<Rightarrow> bool" where
  "nonzero x \<longleftrightarrow> (case x of None \<Rightarrow> False | Some n \<Rightarrow> n \<noteq> 0)"

definition some_estimate :: "task_estimate option \<Rightarrow> bool" where
  "some_estimate e \<longleftrightarrow> (case e of None \<Rightarrow> False | Some x \<Rightarrow> nonzero (te_lines_estimate x) \<or> nonzero (te_duration_hours x))"

definition add_if :: "bool \<Rightarrow> 'a \<Rightarrow> 'a list \<Rightarrow> 'a list" where
  "add_if c x xs = (if c then oset_add x xs else xs)"

definition availableBriefSections :: "task \<Rightarrow> plan option \<Rightarrow> string list" where
  "availableBriefSections t plan =
     (let v2 = plan_is2 plan;
          r1 = add_if (v2 \<and> t_task_type t \<noteq> None) ''task_type'' [];
          r2 = add_if (v2 \<and> truthy (t_what t)) ''what'' r1;
          r3 = add_if (v2 \<and> truthy (t_why t)) ''why'' r2;
          r4 = add_if (v2 \<and> some_paths (t_where t)) ''where'' r3;
          r5 = add_if (v2 \<and> some_items (t_constraints t)) ''constraints'' r4;
          r6 = add_if (some_items (t_acceptance t)) ''acceptance'' r5;
          r7 = add_if (v2 \<and> some_items (t_manualtest_scenarios t)) ''manualtest_scenarios'' r6;
          r8 = add_if (v2 \<and> truthy (t_manual_test t)) ''manual_test'' r7;
          r9 = add_if (v2 \<and> some_estimate (t_estimate t)) ''estimate'' r8;
          r10 = add_if (truthy (t_description t)) ''description'' r9;
          r11 = add_if (v2 \<and> truthy (t_scope_change t)) ''scope_change'' r10;
          r12 = add_if (v2 \<and> some_items (t_delivered_beyond_plan t)) ''delivered_beyond_plan'' r11
      in add_if (v2 \<and> some_items (t_remaining_gaps t)) ''remaining_gaps'' r12)"

section \<open>The brief\<close>

datatype brief_content =
    BcText string
  | BcItems "string list"
  | BcChecked bool "string list"
  | BcPaths "(string \<times> string list) list"

record brief_block =
  bb_section :: string
  bb_heading :: string
  bb_content :: brief_content

definition block_if :: "bool \<Rightarrow> string \<Rightarrow> string \<Rightarrow> brief_content \<Rightarrow> brief_block list" where
  "block_if c s h b = (if c then [\<lparr>bb_section = s, bb_heading = h, bb_content = b\<rparr>] else [])"

definition or_empty :: "'a list option \<Rightarrow> 'a list" where
  "or_empty x = (case x of Some xs \<Rightarrow> xs | None \<Rightarrow> [])"

definition where_paths :: "where_block option \<Rightarrow> (string \<times> string list) list" where
  "where_paths w =
     (case w of None \<Rightarrow> []
      | Some b \<Rightarrow> filter (\<lambda>(h, ps). length ps > 0)
          [(''Modify'', or_empty (w_modify b)), (''Create'', or_empty (w_create b)), (''Delete'', or_empty (w_delete b))])"

definition estimate_line :: "task_estimate option \<Rightarrow> string" where
  "estimate_line e =
     (case e of None \<Rightarrow> ''''
      | Some x \<Rightarrow>
          (if nonzero (te_lines_estimate x) then ''~'' @ string_of_int (the (te_lines_estimate x)) @ '' lines'' else '''')
          @ (if nonzero (te_lines_estimate x) \<and> nonzero (te_duration_hours x) then '' '' @ mdot @ '' '' else '''')
          @ (if nonzero (te_duration_hours x) then string_of_rat (the (te_duration_hours x)) @ ''h'' else ''''))"

definition metadata_footer :: "(string \<Rightarrow> int option) \<Rightarrow> int \<Rightarrow> task \<Rightarrow> string list" where
  "metadata_footer parse_date now t =
     (let keys = (case t_extensions t of Some (JObj kvs) \<Rightarrow> map fst kvs | _ \<Rightarrow> [])
      in (case t_auto_update t of
            None \<Rightarrow> []
          | Some a \<Rightarrow> [''auto-update: '' @ (if au_enabled a then ''on'' else ''off'')
              @ (case au_retry_count a of Some n \<Rightarrow> '' '' @ mdot @ '' '' @ string_of_int n @ '' retries'' | None \<Rightarrow> '''')
              @ (if truthy (au_last_attempt_at a)
                 then '' '' @ mdot @ '' last attempt '' @ relativeTime parse_date now (the (au_last_attempt_at a)) else '''')])
       @ (if truthy (t_last_updated t) then [''last updated: '' @ relativeTime parse_date now (the (t_last_updated t))] else [])
       @ (if length keys > 0 then [''extensions: '' @ join_with ('' '' @ mdot @ '' '') keys] else []))"

text \<open>\<open>None\<close> is the message that all sections are hidden.\<close>

definition BriefView :: "task \<Rightarrow> plan option \<Rightarrow> string list \<Rightarrow> brief_block list option" where
  "BriefView t plan visible =
     (let v2 = plan_is2 plan; has = (\<lambda>s. s \<in> set visible)
      in if length visible = 0 then None
         else Some
          (block_if (has ''task_type'' \<and> v2 \<and> t_task_type t \<noteq> None) ''task_type'' ''Type''
             (BcText (taskTypeLabel (map_option task_type_text (t_task_type t))))
         @ block_if (has ''what'' \<and> v2 \<and> truthy (t_what t)) ''what'' ''What'' (BcText (the (t_what t)))
         @ block_if (has ''why'' \<and> v2 \<and> truthy (t_why t)) ''why'' ''Why'' (BcText (the (t_why t)))
         @ block_if (has ''where'' \<and> v2 \<and> some_paths (t_where t)) ''where'' ''Where'' (BcPaths (where_paths (t_where t)))
         @ block_if (has ''constraints'' \<and> v2 \<and> length (or_empty (t_constraints t)) > 0) ''constraints'' ''Constraints''
             (BcItems (or_empty (t_constraints t)))
         @ block_if (has ''acceptance'' \<and> some_items (t_acceptance t)) ''acceptance'' ''Acceptance Criteria''
             (BcChecked (t_status t = TDone) (or_empty (t_acceptance t)))
         @ block_if (has ''manualtest_scenarios'' \<and> v2 \<and> some_items (t_manualtest_scenarios t)) ''manualtest_scenarios''
             ''Test Scenarios'' (BcItems (or_empty (t_manualtest_scenarios t)))
         @ block_if (has ''manual_test'' \<and> v2 \<and> truthy (t_manual_test t)) ''manual_test'' ''Manual Test''
             (BcText (the (t_manual_test t)))
         @ block_if (has ''estimate'' \<and> v2 \<and> some_estimate (t_estimate t)) ''estimate'' ''''
             (BcText (estimate_line (t_estimate t)))
         @ block_if (has ''description'' \<and> truthy (t_description t)) ''description'' ''Description''
             (BcText (the (t_description t)))
         @ block_if (has ''scope_change'' \<and> v2 \<and> truthy (t_scope_change t)) ''scope_change'' ''Scope Change''
             (BcText (the (t_scope_change t)))
         @ block_if (has ''delivered_beyond_plan'' \<and> v2 \<and> some_items (t_delivered_beyond_plan t)) ''delivered_beyond_plan''
             ''Delivered Beyond Plan'' (BcItems (or_empty (t_delivered_beyond_plan t)))
         @ block_if (has ''remaining_gaps'' \<and> v2 \<and> some_items (t_remaining_gaps t)) ''remaining_gaps'' ''Remaining Gaps''
             (BcItems (or_empty (t_remaining_gaps t)))))"

text \<open>The chips above the brief: section, label, whether it is on, whether it can be clicked.\<close>

definition visible_in_row :: "task option \<Rightarrow> plan option \<Rightarrow> string list" where
  "visible_in_row task plan =
     (if plan_is2 plan
      then filter (\<lambda>s.
             if s = ''description'' \<and> \<not> (case task of Some t \<Rightarrow> truthy (t_description t) | None \<Rightarrow> False) then False
             else if s = ''manual_test'' \<and> (case task of Some t \<Rightarrow> t_autopilot t = Some True \<and> \<not> truthy (t_manual_test t) | None \<Rightarrow> False)
             then False else True) brief_section_order
      else filter (\<lambda>s. s = ''acceptance'' \<or> s = ''description'') brief_section_order)"

definition brief_chips :: "task option \<Rightarrow> plan option \<Rightarrow> string list \<Rightarrow> (string \<times> string \<times> bool \<times> bool) list" where
  "brief_chips task plan visible =
     (let available = (case task of Some t \<Rightarrow> availableBriefSections t plan | None \<Rightarrow> [])
      in map (\<lambda>s. (s, om_get_or '''' brief_section_labels s, s \<in> set visible, s \<in> set available)) (visible_in_row task plan))"

definition click_brief_chip :: "string \<Rightarrow> string list \<Rightarrow> string list" where
  "click_brief_chip s visible = oset_toggle s visible"

section \<open>Documents\<close>

datatype artifact_source = AtAutopilot | AtPlan

definition artifact_order :: "(string, int) omap" where
  "artifact_order =
     [(''REQUIREMENTS.md'', 1), (''DESIGN.md'', 2), (''PLAN.md'', 3), (''REVIEW.md'', 4), (''TEAM_REVIEW.md'', 4),
      (''TESTPLAN.md'', 5), (''STATIC_ANALYSIS.md'', 6), (''MANUAL_TEST_LOG.md'', 7), (''TEAM_QA.md'', 8), (''QA_REPORT.md'', 9)]"

definition artifact_rank :: "artifact \<Rightarrow> int" where
  "artifact_rank a = om_get_or 99 artifact_order (at_file a)"

type_synonym sourced = "artifact \<times> artifact_source"

definition add_artifact :: "artifact_source \<Rightarrow> artifact \<Rightarrow> string list \<times> sourced list \<Rightarrow> string list \<times> sourced list" where
  "add_artifact src a = (\<lambda>(seen, result).
     if at_file a \<in> set seen then (seen, result) else (oset_add (at_file a) seen, result @ [(a, src)]))"

definition artifact_cmp :: "sourced \<Rightarrow> sourced \<Rightarrow> int" where
  "artifact_cmp x y = artifact_rank (fst x) - artifact_rank (fst y)"

definition mergeArtifacts :: "artifact list \<Rightarrow> artifact list \<Rightarrow> sourced list" where
  "mergeArtifacts autopilot plan =
     js_sort artifact_cmp (snd (fold (add_artifact AtPlan) plan (fold (add_artifact AtAutopilot) autopilot ([], []))))"

definition buildArtifactUrl ::
    "autopilot_session option \<Rightarrow> string option \<Rightarrow> task option \<Rightarrow> string \<Rightarrow> artifact_source \<Rightarrow> string option" where
  "buildArtifactUrl session projectPath task file source =
     (case (source, session) of
        (AtAutopilot, Some a) \<Rightarrow>
          Some (''/api/autopilot/artifact?task='' @ encodeURIComponent (as_task a) @ ''&file='' @ encodeURIComponent file)
      | _ \<Rightarrow>
          (case task of
             Some t \<Rightarrow>
               if truthy projectPath
               then Some (''/api/plan/artifact?cwd='' @ encodeURIComponent (the projectPath) @ ''&task='' @
                 encodeURIComponent (t_id t) @ ''&file='' @ encodeURIComponent file)
               else None
           | None \<Rightarrow> None))"

section \<open>What the panel shows\<close>

record session_flags =
  sx_isRunning :: bool
  sx_isCompleted :: bool
  sx_isNotStarted :: bool
  sx_hasStream :: bool
  sx_hasPhases :: bool

definition session_status_is :: "autopilot_session option \<Rightarrow> autopilot_session_status \<Rightarrow> bool" where
  "session_status_is session st \<longleftrightarrow> (case session of Some a \<Rightarrow> as_status a = st | None \<Rightarrow> False)"

definition deriveSessionFlags :: "autopilot_session option \<Rightarrow> task option \<Rightarrow> session_flags" where
  "deriveSessionFlags session task =
     \<lparr>sx_isRunning = session_status_is session ASRunning,
      sx_isCompleted = session_status_is session ASCompleted \<or> session_status_is session ASFailed,
      sx_isNotStarted = (case task of Some t \<Rightarrow> t_status t = TPending \<or> t_status t = TWip | None \<Rightarrow> False),
      sx_hasStream = (case session of Some a \<Rightarrow> truthy (as_stream_path a) | None \<Rightarrow> False),
      sx_hasPhases = (session \<noteq> None)\<rparr>"

definition panel_task_id :: "task option \<Rightarrow> autopilot_session option \<Rightarrow> string option" where
  "panel_task_id task session = (case task of Some t \<Rightarrow> Some (t_id t) | None \<Rightarrow> map_option as_task session)"

definition panel_name :: "task option \<Rightarrow> autopilot_session option \<Rightarrow> string option" where
  "panel_name task session = (case task of Some t \<Rightarrow> Some (t_name t) | None \<Rightarrow> map_option as_task session)"

definition panel_title :: "task option \<Rightarrow> autopilot_session option \<Rightarrow> string" where
  "panel_title task session =
     (case panel_task_id task session of Some i \<Rightarrow> i
      | None \<Rightarrow> (case panel_name task session of Some n \<Rightarrow> n | None \<Rightarrow> ''''))"

definition panel_subtitle :: "task option \<Rightarrow> string option" where
  "panel_subtitle task =
     (case task of Some t \<Rightarrow> if t_name t \<noteq> '''' \<and> t_name t \<noteq> t_id t then Some (t_name t) else None | None \<Rightarrow> None)"

definition panel_autopilot_mode :: "task option \<Rightarrow> autopilot_mode" where
  "panel_autopilot_mode task =
     (case task of
        Some t \<Rightarrow> if t_autopilot t = Some True then (if t_pipeline t = Some ''light'' then AmLight else AmFull) else AmManual
      | None \<Rightarrow> AmManual)"

definition prompt_bar :: "task option \<Rightarrow> autopilot_session option \<Rightarrow> string option" where
  "prompt_bar task session =
     (case task of
        Some t \<Rightarrow> if sx_isNotStarted (deriveSessionFlags session task) \<and> truthy (t_prompt t) \<and> t_autopilot t = Some False
                  then t_prompt t else None
      | None \<Rightarrow> None)"

text \<open>The button of that bar, and the key that closes the panel, which it listens for on the whole document.\<close>

definition handleCopyPrompt :: "task option \<Rightarrow> string list \<Rightarrow> string list" where
  "handleCopyPrompt task clipboard =
     (case task of
        Some t \<Rightarrow> if truthy (t_prompt t) then clipboard @ [the (t_prompt t)] else clipboard
      | None \<Rightarrow> clipboard)"

definition on_document_key :: "bool \<Rightarrow> string \<Rightarrow> nat \<Rightarrow> nat" where
  "on_document_key has_onClose key closings = (if has_onClose \<and> key = ''Escape'' then Suc closings else closings)"

lemma copy_button_copies_prompt:
  "prompt_bar task session = Some p \<Longrightarrow> handleCopyPrompt task clipboard = clipboard @ [p] \<and> p \<noteq> []"
  by (auto simp: prompt_bar_def handleCopyPrompt_def truthy_def split: option.splits if_splits)

definition dependents_of :: "string option \<Rightarrow> (string, task) omap option \<Rightarrow> string list" where
  "dependents_of taskId allTasks =
     (case (taskId, allTasks) of
        (Some i, Some m) \<Rightarrow>
          if i = '''' then []
          else map (\<lambda>e. t_id (snd e)) (filter (\<lambda>e. i \<in> set (or_empty (t_depends (snd e)))) m)
      | _ \<Rightarrow> [])"

text \<open>A neighbour's pill: its id and status; an unknown task counts as pending.\<close>

definition TaskChipList :: "string list \<Rightarrow> (string, task) omap option \<Rightarrow> (string \<times> wf_status option) list" where
  "TaskChipList ids allTasks =
     map (\<lambda>i. (i, taskStatusToWfStatus
       (case allTasks of Some m \<Rightarrow> (case om_get m i of Some t \<Rightarrow> t_status t | None \<Rightarrow> TPending) | None \<Rightarrow> TPending))) ids"

record sidebar_extras =
  se_gate :: "(string \<times> wf_status) option"
  se_dependsOn :: "(string \<times> wf_status option) list"
  se_requiredBy :: "(string \<times> wf_status option) list"
  se_group :: "string option"

definition SidebarExtras ::
    "(string \<times> bool) option \<Rightarrow> task option \<Rightarrow> (string, task) omap option \<Rightarrow> string list \<Rightarrow> sidebar_extras" where
  "SidebarExtras previousGate task allTasks dependents =
     \<lparr>se_gate = map_option (\<lambda>(n, passed). (n, if passed then WfCompleted else WfFault)) previousGate,
      se_dependsOn = TaskChipList (case task of Some t \<Rightarrow> or_empty (t_depends t) | None \<Rightarrow> []) allTasks,
      se_requiredBy = TaskChipList dependents allTasks,
      se_group = (case task of Some t \<Rightarrow> if truthy (t_parallel_group t) then t_parallel_group t else None | None \<Rightarrow> None)\<rparr>"

text \<open>\<open>replace\<close> with a string argument: the first occurrence only.\<close>

fun replace_first :: "string \<Rightarrow> string \<Rightarrow> string \<Rightarrow> string" where
  "replace_first x y [] = (if x = [] then y else [])"
| "replace_first x y (c # s) = (if starts_with (c # s) x then y @ drop (length x) (c # s) else c # replace_first x y s)"

definition document_pills :: "sourced list \<Rightarrow> (string \<times> string) list" where
  "document_pills merged = map (\<lambda>(a, src). (at_file a, replace_first ''.md'' '''' (at_name a))) merged"

section \<open>The pane\<close>

datatype panel_mode = PmStream | PmBrief | PmTerminal

text \<open>
  \<open>pm_taskId\<close> and \<open>pm_session\<close> are the props of the last render, \<open>pm_prevTask\<close> and \<open>pm_init\<close> the two refs.
\<close>

record panel_state =
  pm_taskId :: "string option"
  pm_session :: "autopilot_session option"
  pm_prevTask :: "string option"
  pm_init :: bool
  pm_mode :: panel_mode
  pm_file :: "string option"
  pm_url :: "string option"

definition session_mode :: "autopilot_session option \<Rightarrow> panel_mode" where
  "session_mode session = (if session_status_is session ASRunning then PmStream else PmBrief)"

definition reset_effect :: "panel_state \<Rightarrow> panel_state" where
  "reset_effect s =
     (let running = session_status_is (pm_session s) ASRunning
      in if pm_taskId s \<noteq> pm_prevTask s
         then s\<lparr>pm_prevTask := pm_taskId s, pm_init := running, pm_mode := session_mode (pm_session s), pm_file := None, pm_url := None\<rparr>
         else if \<not> pm_init s \<and> running then s\<lparr>pm_init := True, pm_mode := PmStream\<rparr>
         else s)"

definition mount_effect :: "panel_state \<Rightarrow> panel_state" where
  "mount_effect s = (if \<not> pm_init s then s\<lparr>pm_init := True, pm_mode := session_mode (pm_session s)\<rparr> else s)"

text \<open>\<open>rendered\<close> is the mode of the render the effect belongs to.\<close>

definition fallback_effect :: "panel_mode \<Rightarrow> panel_state \<Rightarrow> panel_state" where
  "fallback_effect rendered s =
     (if rendered \<noteq> PmTerminal then s
      else if session_status_is (pm_session s) ASCompleted \<or> session_status_is (pm_session s) ASFailed
      then s\<lparr>pm_mode := session_mode (pm_session s)\<rparr> else s)"

definition panel_mount :: "string option \<Rightarrow> autopilot_session option \<Rightarrow> panel_state" where
  "panel_mount taskId session =
     fallback_effect PmBrief (mount_effect (reset_effect
       \<lparr>pm_taskId = taskId, pm_session = session, pm_prevTask = taskId, pm_init = False, pm_mode = PmBrief,
        pm_file = None, pm_url = None\<rparr>))"

definition panel_render :: "string option \<Rightarrow> autopilot_session option \<Rightarrow> panel_state \<Rightarrow> panel_state" where
  "panel_render taskId session s =
     fallback_effect (pm_mode s) (reset_effect (s\<lparr>pm_taskId := taskId, pm_session := session\<rparr>))"

definition toggle_brief :: "panel_state \<Rightarrow> panel_state" where
  "toggle_brief s = s\<lparr>pm_mode := (if pm_mode s = PmBrief then PmStream else PmBrief)\<rparr>"

definition attach_terminal :: "panel_state \<Rightarrow> panel_state" where
  "attach_terminal s = s\<lparr>pm_mode := PmTerminal\<rparr>"

definition detach_terminal :: "panel_state \<Rightarrow> panel_state" where
  "detach_terminal s = s\<lparr>pm_mode := session_mode (pm_session s)\<rparr>"

definition handleArtifactClick ::
    "string option \<Rightarrow> task option \<Rightarrow> sourced list \<Rightarrow> string \<Rightarrow> panel_state \<Rightarrow> panel_state" where
  "handleArtifactClick projectPath task merged file s =
     (case find (\<lambda>x. at_file (fst x) = file) merged of
        None \<Rightarrow> s
      | Some (a, src) \<Rightarrow> s\<lparr>pm_url := buildArtifactUrl (pm_session s) projectPath task file src, pm_file := Some file\<rparr>)"

definition open_reference :: "plan option \<Rightarrow> string option \<Rightarrow> string \<Rightarrow> string \<Rightarrow> panel_state \<Rightarrow> panel_state" where
  "open_reference plan planDir taskId path s =
     (case plan of
        None \<Rightarrow> s
      | Some p \<Rightarrow> (case resolveArtifactRef path p planDir taskId of
            Resolved url \<Rightarrow> s\<lparr>pm_url := Some url, pm_file := Some path\<rparr>
          | Unresolved reason \<Rightarrow> s))"

definition close_artifact :: "panel_state \<Rightarrow> panel_state" where
  "close_artifact s = s\<lparr>pm_file := None, pm_url := None\<rparr>"

datatype panel_pane = PaneTerminal string | PaneStream string | PaneLog string | PaneBrief task | PaneMissing

definition main_content :: "task option \<Rightarrow> panel_state \<Rightarrow> panel_pane" where
  "main_content task s =
     (case (pm_mode s, pm_taskId s, pm_session s) of
        (PmTerminal, Some i, _) \<Rightarrow> PaneTerminal i
      | (PmStream, _, Some a) \<Rightarrow> if truthy (as_stream_path a) then PaneStream (as_task a) else PaneLog (as_task a)
      | _ \<Rightarrow> (case task of Some t \<Rightarrow> PaneBrief t | None \<Rightarrow> PaneMissing))"

definition shows_filters :: "panel_state \<Rightarrow> bool" where
  "shows_filters s \<longleftrightarrow> pm_mode s = PmBrief"

datatype panel_event =
    PvRender "string option" "autopilot_session option"
  | PvToggle
  | PvAttach
  | PvDetach
  | PvOpen "string option" "task option" "sourced list" string
  | PvReference "plan option" "string option" string string
  | PvClose

fun panel_step :: "panel_event \<Rightarrow> panel_state \<Rightarrow> panel_state" where
  "panel_step (PvRender i a) s = panel_render i a s"
| "panel_step PvToggle s = toggle_brief s"
| "panel_step PvAttach s = attach_terminal s"
| "panel_step PvDetach s = detach_terminal s"
| "panel_step (PvOpen path t merged file) s = handleArtifactClick path t merged file s"
| "panel_step (PvReference p dir i path) s = open_reference p dir i path s"
| "panel_step PvClose s = close_artifact s"

section \<open>Chips and sections agree\<close>

definition section_flags :: "task \<Rightarrow> plan option \<Rightarrow> (string \<times> bool) list" where
  "section_flags t plan =
     (let v2 = plan_is2 plan
      in [(''task_type'', v2 \<and> t_task_type t \<noteq> None), (''what'', v2 \<and> truthy (t_what t)), (''why'', v2 \<and> truthy (t_why t)),
          (''where'', v2 \<and> some_paths (t_where t)), (''constraints'', v2 \<and> some_items (t_constraints t)),
          (''acceptance'', some_items (t_acceptance t)), (''manualtest_scenarios'', v2 \<and> some_items (t_manualtest_scenarios t)),
          (''manual_test'', v2 \<and> truthy (t_manual_test t)), (''estimate'', v2 \<and> some_estimate (t_estimate t)),
          (''description'', truthy (t_description t)), (''scope_change'', v2 \<and> truthy (t_scope_change t)),
          (''delivered_beyond_plan'', v2 \<and> some_items (t_delivered_beyond_plan t)),
          (''remaining_gaps'', v2 \<and> some_items (t_remaining_gaps t))])"

lemma flags_order: "map fst (section_flags t plan) = brief_section_order"
  by (simp add: section_flags_def brief_section_order_def Let_def)

lemma order_distinct: "distinct brief_section_order"
  by code_simp

lemma in_add_if: "s \<in> set (add_if c x xs) \<longleftrightarrow> s = x \<and> c \<or> s \<in> set xs"
  by (simp add: add_if_def)

lemma in_add_flags: "s \<in> set (fold (\<lambda>x. add_if (snd x) (fst x)) fl xs) \<longleftrightarrow> (s, True) \<in> set fl \<or> s \<in> set xs"
proof (induction fl arbitrary: xs)
  case (Cons x fl)
  then show ?case by (cases x) (simp add: in_add_if disj_ac conj_commute)
qed simp

lemma available_flags: "s \<in> set (availableBriefSections t plan) \<longleftrightarrow> (s, True) \<in> set (section_flags t plan)"
proof -
  have "availableBriefSections t plan = fold (\<lambda>x. add_if (snd x) (fst x)) (section_flags t plan) []"
    by (simp only: availableBriefSections_def section_flags_def Let_def fold_simps fst_conv snd_conv)
  then show ?thesis by (simp add: in_add_flags)
qed

lemma or_empty_items: "length (or_empty x) > 0 \<longleftrightarrow> some_items x"
  by (simp add: or_empty_def some_items_def split: option.splits)

lemma block_if_sections: "map bb_section (block_if c s h b) = map fst (filter snd [(s, c)])"
  by (simp add: block_if_def)

lemma filter_concat:
  "map fst (filter (\<lambda>x. P (fst x) \<and> snd x) fl) = concat (map (\<lambda>x. map fst (filter snd [(fst x, P (fst x) \<and> snd x)])) fl)"
  by (induction fl) auto

lemma brief_flags:
  "length visible > 0 \<Longrightarrow> map_option (map bb_section) (BriefView t plan visible) =
     Some (map fst (filter (\<lambda>x. fst x \<in> set visible \<and> snd x) (section_flags t plan)))"
  unfolding BriefView_def section_flags_def Let_def or_empty_items filter_concat [where P = "\<lambda>s. s \<in> set visible"]
  by (subst if_not_P, simp) (simp only: map_append block_if_sections option.map list.map concat.simps fst_conv snd_conv append_Nil2)

lemma filter_flags:
  "distinct (map fst fl) \<Longrightarrow> map fst (filter (\<lambda>x. P (fst x) \<and> snd x) fl) = filter (\<lambda>s. P s \<and> (s, True) \<in> set fl) (map fst fl)"
proof (induction fl)
  case (Cons x fl)
  have "filter (\<lambda>s. P s \<and> (s, True) \<in> set (x # fl)) (map fst fl) = filter (\<lambda>s. P s \<and> (s, True) \<in> set fl) (map fst fl)"
    using Cons.prems by (intro filter_cong refl) force
  then show ?case using Cons by (cases x) (auto simp: image_iff)
qed simp

lemma available_in_row:
  assumes "s \<in> set (availableBriefSections t plan)"
  shows "s \<in> set (visible_in_row (Some t) plan)"
proof -
  have flag: "(s, True) \<in> set (section_flags t plan)" using assms by (simp add: available_flags)
  then have order: "s \<in> set brief_section_order" unfolding flags_order [of t plan, symmetric] by force
  have get: "map_of (section_flags t plan) s = Some True"
    using flag order_distinct by (simp add: flags_order [of t plan, symmetric])
  have "truthy (t_description t)" if "s = ''description''" using get by (simp add: that section_flags_def Let_def)
  moreover have "truthy (t_manual_test t)" if "s = ''manual_test''" using get by (simp add: that section_flags_def Let_def)
  moreover have "s = ''acceptance'' \<or> s = ''description''" if "\<not> plan_is2 plan"
    using flag that by (auto simp: section_flags_def Let_def)
  ultimately show ?thesis using order by (auto simp: visible_in_row_def)
qed

text \<open>
  C16. What can be read and what can be switched are the same: the brief shows, in the declared order, exactly the sections
  that have data and whose chip is on; every section with data has a chip that can be clicked, and
  only those can.
\<close>
theorem brief_matches_chips:
  "(length visible > 0 \<longrightarrow> map_option (map bb_section) (BriefView t plan visible) =
      Some (filter (\<lambda>s. s \<in> set visible \<and> s \<in> set (availableBriefSections t plan)) brief_section_order))
   \<and> {s. \<exists>l on. (s, l, on, True) \<in> set (brief_chips (Some t) plan visible)} = set (availableBriefSections t plan)
   \<and> distinct (map fst (brief_chips task plan visible))"
proof (intro conjI impI)
  show "map_option (map bb_section) (BriefView t plan visible) =
      Some (filter (\<lambda>s. s \<in> set visible \<and> s \<in> set (availableBriefSections t plan)) brief_section_order)"
    if "length visible > 0"
    unfolding brief_flags [OF that] available_flags using filter_flags [of "section_flags t plan" "\<lambda>s. s \<in> set visible"] order_distinct
    by (simp only: flags_order simp_thms)
  show "{s. \<exists>l on. (s, l, on, True) \<in> set (brief_chips (Some t) plan visible)} = set (availableBriefSections t plan)"
    by (auto simp: brief_chips_def Let_def available_in_row image_iff)
  show "distinct (map fst (brief_chips task plan visible))"
    using order_distinct by (simp add: brief_chips_def Let_def comp_def visible_in_row_def)
qed

text \<open>
  The message for a hidden brief looks at the set of chips that are on, which also holds the sections a plan of
  schema 1 has no chip for: switching off both chips of such a task leaves neither sections nor the message.
\<close>
theorem hidden_brief_is_silent:
  assumes "\<not> plan_is2 plan"
    and "visible = fold click_brief_chip (map fst (brief_chips (Some t) plan section_values)) section_values"
  shows "BriefView t plan visible = Some []"
proof -
  have row: "map fst (brief_chips (Some t) plan section_values) = [''acceptance'', ''description'']"
    using assms(1) by (simp add: brief_chips_def Let_def comp_def visible_in_row_def brief_section_order_def)
  have v: "''acceptance'' \<notin> set visible" "''description'' \<notin> set visible" "length visible > 0"
    unfolding assms(2) row by code_simp+
  show ?thesis
    using v assms(1) unfolding BriefView_def Let_def block_if_def by simp
qed

section \<open>Documents\<close>

interpretation artifact_rank_order: js_comparator artifact_cmp
  by unfold_locales (auto simp: artifact_cmp_def)

lemma add_artifact_fold:
  assumes "fold (add_artifact src) xs (seen, res) = (seen', res')" and "set seen = (at_file \<circ> fst) ` set res"
    and "distinct (map (at_file \<circ> fst) res)"
  shows "set seen' = (at_file \<circ> fst) ` set res' \<and> distinct (map (at_file \<circ> fst) res')
    \<and> (at_file \<circ> fst) ` set res' = (at_file \<circ> fst) ` set res \<union> at_file ` set xs
    \<and> set res \<subseteq> set res' \<and> set res' \<subseteq> set res \<union> (\<lambda>a. (a, src)) ` {a \<in> set xs. at_file a \<notin> (at_file \<circ> fst) ` set res}"
  using assms
proof (induction xs arbitrary: seen res)
  case (Cons x xs)
  show ?case
  proof (cases "at_file x \<in> set seen")
    case True
    then have "add_artifact src x (seen, res) = (seen, res)" by (simp add: add_artifact_def)
    then have "fold (add_artifact src) xs (seen, res) = (seen', res')" using Cons.prems(1) by simp
    note IH = Cons.IH [OF this Cons.prems(2,3)]
    show ?thesis using IH True Cons.prems(2) by auto
  next
    case False
    let ?res = "res @ [(x, src)]"
    have "add_artifact src x (seen, res) = (oset_add (at_file x) seen, ?res)" using False by (simp add: add_artifact_def)
    then have f: "fold (add_artifact src) xs (oset_add (at_file x) seen, ?res) = (seen', res')" using Cons.prems(1) by simp
    have 1: "set (oset_add (at_file x) seen) = (at_file \<circ> fst) ` set ?res" using Cons.prems(2) by simp
    have 2: "distinct (map (at_file \<circ> fst) ?res)" using Cons.prems(2,3) False by (simp add: comp_def)
    have new: "at_file x \<notin> (at_file \<circ> fst) ` set res" using False Cons.prems(2) by simp
    have "set res' \<subseteq> set res \<union> (\<lambda>a. (a, src)) ` {a \<in> set (x # xs). at_file a \<notin> (at_file \<circ> fst) ` set res}"
    proof
      fix y assume "y \<in> set res'"
      then consider "y \<in> set ?res" | a where "y = (a, src)" "a \<in> set xs" "at_file a \<notin> (at_file \<circ> fst) ` set ?res"
        using Cons.IH [OF f 1 2] by blast
      then show "y \<in> set res \<union> (\<lambda>a. (a, src)) ` {a \<in> set (x # xs). at_file a \<notin> (at_file \<circ> fst) ` set res}"
        using new by cases auto
    qed
    then show ?thesis using Cons.IH [OF f 1 2] by simp
  qed
qed simp

lemma merge_artifacts_ok:
  assumes "m = mergeArtifacts autopilot plan"
  shows "distinct (map (at_file \<circ> fst) m) \<and> sorted (map (artifact_rank \<circ> fst) m)
    \<and> (at_file \<circ> fst) ` set m = at_file ` set autopilot \<union> at_file ` set plan
    \<and> (\<forall>(a, src)\<in>set m. src = (if at_file a \<in> at_file ` set autopilot then AtAutopilot else AtPlan)
         \<and> a \<in> (case src of AtAutopilot \<Rightarrow> set autopilot | AtPlan \<Rightarrow> set plan))"
proof -
  obtain s1 r1 where f1: "fold (add_artifact AtAutopilot) autopilot ([], []) = (s1, r1)" by fastforce
  obtain s2 r2 where f2: "fold (add_artifact AtPlan) plan (s1, r1) = (s2, r2)" by fastforce
  have m: "m = js_sort artifact_cmp r2" by (simp add: assms mergeArtifacts_def f1 f2)
  have A: "set s1 = (at_file \<circ> fst) ` set r1" "distinct (map (at_file \<circ> fst) r1)"
    "(at_file \<circ> fst) ` set r1 = at_file ` set autopilot" "set r1 \<subseteq> (\<lambda>a. (a, AtAutopilot)) ` set autopilot"
    using add_artifact_fold [OF f1] by auto
  have B: "distinct (map (at_file \<circ> fst) r2)" "(at_file \<circ> fst) ` set r2 = at_file ` set autopilot \<union> at_file ` set plan"
    "set r2 \<subseteq> set r1 \<union> (\<lambda>a. (a, AtPlan)) ` {a \<in> set plan. at_file a \<notin> at_file ` set autopilot}"
    using add_artifact_fold [OF f2 A(1,2)] A(3) by auto
  have "mset (map (at_file \<circ> fst) m) = mset (map (at_file \<circ> fst) r2)" by (simp add: m)
  then have "distinct (map (at_file \<circ> fst) m)" using B(1) by (metis mset_eq_imp_distinct_iff)
  moreover have "sorted (map (artifact_rank \<circ> fst) m)"
    using artifact_rank_order.sorted_js_sort [of r2] by (simp add: m sorted_map artifact_cmp_def)
  moreover have "\<forall>(a, src)\<in>set m. src = (if at_file a \<in> at_file ` set autopilot then AtAutopilot else AtPlan)
         \<and> a \<in> (case src of AtAutopilot \<Rightarrow> set autopilot | AtPlan \<Rightarrow> set plan)"
    using A(4) B(3) by (fastforce simp: m)
  ultimately show ?thesis using B(2) by (simp add: m)
qed

text \<open>
  The document list names every file of either source once, in pipeline order; where both sources have a file the
  entry is the run's, and entries with one source keep it.
\<close>
theorem documents_merged:
  assumes "m = mergeArtifacts autopilot plan"
  shows "distinct (map (at_file \<circ> fst) m) \<and> sorted (map (artifact_rank \<circ> fst) m)
    \<and> (at_file \<circ> fst) ` set m = at_file ` set autopilot \<union> at_file ` set plan
    \<and> (\<forall>(a, src)\<in>set m. src = (if at_file a \<in> at_file ` set autopilot then AtAutopilot else AtPlan)
         \<and> a \<in> (case src of AtAutopilot \<Rightarrow> set autopilot | AtPlan \<Rightarrow> set plan))"
  using assms by (rule merge_artifacts_ok)

section \<open>The pane follows the session\<close>

text \<open>
  Whatever the panel showed before: a render with another task closes the document dialog and shows the stream
  exactly if that task's session is running, a session that has ended is never shown in the terminal, and
  rendering again with the same props changes nothing.
\<close>
theorem panel_follows_session:
  assumes "s' = panel_render i session s"
  shows "(i \<noteq> pm_prevTask s \<longrightarrow> pm_file s' = None \<and> pm_url s' = None
        \<and> (pm_mode s' = PmStream \<longleftrightarrow> session_status_is session ASRunning) \<and> pm_mode s' \<noteq> PmTerminal)
    \<and> (session_status_is session ASCompleted \<or> session_status_is session ASFailed \<longrightarrow>
         (\<forall>task j. main_content task s' \<noteq> PaneTerminal j))
    \<and> panel_render i session s' = s'"
proof -
  have other: "session_status_is session ASCompleted \<or> session_status_is session ASFailed \<Longrightarrow> \<not> session_status_is session ASRunning"
    by (auto simp: session_status_is_def split: option.splits)
  have "pm_mode s' \<noteq> PmTerminal" if "session_status_is session ASCompleted \<or> session_status_is session ASFailed"
    using that other by (auto simp: assms panel_render_def reset_effect_def fallback_effect_def session_mode_def Let_def)
  moreover have "main_content task s' \<noteq> PaneTerminal j" if "pm_mode s' \<noteq> PmTerminal" for task j
    using that by (cases "pm_mode s'") (auto simp: main_content_def split: option.splits)
  moreover have "panel_render i session s' = s'"
    using other unfolding assms
    by (cases "i = pm_prevTask s"; cases "session_status_is session ASRunning"; cases "session_status_is session ASCompleted";
        cases "session_status_is session ASFailed"; cases "pm_mode s = PmTerminal")
       (simp_all add: panel_render_def reset_effect_def fallback_effect_def session_mode_def Let_def)
  moreover have "pm_file s' = None \<and> pm_url s' = None \<and> (pm_mode s' = PmStream \<longleftrightarrow> session_status_is session ASRunning)
      \<and> pm_mode s' \<noteq> PmTerminal" if "i \<noteq> pm_prevTask s"
    using that other by (auto simp: assms panel_render_def reset_effect_def fallback_effect_def session_mode_def Let_def)
  ultimately show ?thesis by blast
qed

text \<open>
  A session that starts after the panel was mounted does not bring up the stream, although a comment says so: the mount effect
  has already marked the initial switch as done. After a change of the task the same arrival does switch.
\<close>
theorem late_session_not_followed:
  assumes "\<not> session_status_is first ASRunning" and "\<not> session_status_is other ASRunning" and "i \<noteq> j"
    and "session_status_is late ASRunning"
  shows "pm_mode (fold (panel_render i) sessions (panel_mount i first)) = PmBrief
    \<and> pm_mode (panel_render j late (panel_render j other (panel_mount i first))) = PmStream"
proof -
  define waits where "waits s \<longleftrightarrow> pm_prevTask s = i \<and> pm_init s \<and> pm_mode s = PmBrief" for s :: panel_state
  have step: "waits (panel_render i session s)" if "waits s" for session s
    using that by (simp add: waits_def panel_render_def reset_effect_def fallback_effect_def Let_def)
  have "waits (fold (panel_render i) sessions s)" if "waits s" for s
    using that by (induction sessions arbitrary: s) (simp_all add: step)
  moreover have mount: "panel_mount i first = \<lparr>pm_taskId = i, pm_session = first, pm_prevTask = i, pm_init = True, pm_mode = PmBrief,
      pm_file = None, pm_url = None\<rparr>"
    using assms(1) by (simp add: panel_mount_def reset_effect_def mount_effect_def fallback_effect_def session_mode_def Let_def)
  ultimately have "pm_mode (fold (panel_render i) sessions (panel_mount i first)) = PmBrief" by (simp add: waits_def)
  moreover have "pm_mode (panel_render j late (panel_render j other (panel_mount i first))) = PmStream"
    using assms(2-4) by (simp add: mount panel_render_def reset_effect_def fallback_effect_def session_mode_def Let_def)
  ultimately show ?thesis by simp
qed

text \<open>
  Between the selection of another task and the reply for it the panel still lists the documents of the task before, and a click on one asks
  for that file under the new task's id.
\<close>
theorem stale_documents_clickable:
  assumes "task_a \<noteq> t_id t" and "cwd \<noteq> ''''" and "task_a \<noteq> ''''" and "t_id t \<noteq> ''''" and "d \<in> set docs"
    and "f = fetch_run usePlanArtifacts [] [SetKey (plan_artifacts_key (Some cwd) (Some task_a)), ReplyArrives 0 (Body docs),
      SetKey (plan_artifacts_key (Some cwd) (Some (t_id t)))]"
    and "m = mergeArtifacts [] (fe_state f)"
  shows "fe_state f = docs \<and> (\<exists>x\<in>set m. at_file (fst x) = at_file d)
    \<and> pm_url (handleArtifactClick (Some cwd) (Some t) m (at_file d) s) =
       Some (''/api/plan/artifact?cwd='' @ encodeURIComponent cwd @ ''&task='' @ encodeURIComponent (t_id t) @
         ''&file='' @ encodeURIComponent (at_file d))"
proof -
  have docs: "fe_state f = docs"
    using assms(1-4) unfolding assms(6)
    by (simp add: fetch_run_def fe_init_def set_key_def reply_arrives_def usePlanArtifacts_def plan_artifacts_key_def truthy_def Let_def)
  have "m = mergeArtifacts [] docs" by (simp add: assms(7) docs)
  note merged = merge_artifacts_ok [OF this]
  then have "at_file d \<in> (at_file \<circ> fst) ` set m" using assms(5) by simp
  then obtain x where x: "x \<in> set m" "at_file (fst x) = at_file d" by auto
  have "find (\<lambda>x. at_file (fst x) = at_file d) m \<noteq> None" using x unfolding find_None_iff by blast
  then obtain y where y: "find (\<lambda>x. at_file (fst x) = at_file d) m = Some y" by blast
  obtain a src where "y = (a, src)" by (cases y)
  with y have found: "find (\<lambda>x. at_file (fst x) = at_file d) m = Some (a, src)" by simp
  then have "(a, src) \<in> set m" by (force simp: find_Some_iff)
  with merged have "src = AtPlan" by auto
  with found have "pm_url (handleArtifactClick (Some cwd) (Some t) m (at_file d) s) =
       Some (''/api/plan/artifact?cwd='' @ encodeURIComponent cwd @ ''&task='' @ encodeURIComponent (t_id t) @
         ''&file='' @ encodeURIComponent (at_file d))"
    using assms(2) by (simp add: handleArtifactClick_def buildArtifactUrl_def truthy_def)
  then show ?thesis using docs x by blast
qed
section \<open>Witnesses\<close>

definition plan_two :: plan where
  "plan_two = \<lparr>pl_schema_version = Some ''2.1'', pl_name = ''P'', pl_phases = [], pl_test_targets = None, pl_deferred = None,
     pl_rest = JNull\<rparr>"

definition brief_task :: task where
  "brief_task = (mk_task ''a'' ''A'' TWip)\<lparr>t_what := Some ''build it'', t_acceptance := Some [''it works'']\<rparr>"

lemma brief_matches_chips_witness:
  "map_option (map bb_section) (BriefView brief_task (Some plan_two) [''acceptance'', ''what'', ''why'']) = Some [''what'', ''acceptance'']"
proof -
  have "filter (\<lambda>s. s \<in> set [''acceptance'', ''what'', ''why''] \<and> s \<in> set (availableBriefSections brief_task (Some plan_two)))
      brief_section_order = [''what'', ''acceptance'']" by code_simp
  moreover have "length [''acceptance'', ''what'', ''why''] > 0" by simp
  ultimately show ?thesis
    using brief_matches_chips [of "[''acceptance'', ''what'', ''why'']" brief_task "Some plan_two"] by auto
qed

lemma hidden_brief_is_silent_witness:
  "BriefView brief_task None (fold click_brief_chip (map fst (brief_chips (Some brief_task) None section_values)) section_values) = Some []"
  by (rule hidden_brief_is_silent [OF _ refl]) (simp add: plan_is2_def)

definition doc :: "string \<Rightarrow> string \<Rightarrow> artifact" where
  "doc n f = \<lparr>at_name = n, at_file = f\<rparr>"

lemma documents_merged_witness:
  "set (map (at_file \<circ> fst) (mergeArtifacts [doc ''Plan'' ''PLAN.md''] [doc ''Plan'' ''PLAN.md'', doc ''Req'' ''REQUIREMENTS.md''])) =
     {''PLAN.md'', ''REQUIREMENTS.md''}"
  using documents_merged [OF refl, of "[doc ''Plan'' ''PLAN.md'']" "[doc ''Plan'' ''PLAN.md'', doc ''Req'' ''REQUIREMENTS.md'']"]
  by (simp add: doc_def insert_commute)

definition run_of :: "string \<Rightarrow> autopilot_session_status \<Rightarrow> autopilot_session" where
  "run_of i st = \<lparr>as_task = i, as_project = None, as_branch = None, as_status = st, as_phases = [], as_elapsed_s = 0,
     as_cost = None, as_log_path = None, as_stream_path = None\<rparr>"

lemma panel_follows_session_witness:
  "pm_mode (panel_render (Some ''b'') (Some (run_of ''b'' ASRunning)) (attach_terminal (panel_mount (Some ''a'') None))) = PmStream"
proof -
  let ?s = "attach_terminal (panel_mount (Some ''a'') None)"
  have "Some ''b'' \<noteq> pm_prevTask ?s" "session_status_is (Some (run_of ''b'' ASRunning)) ASRunning" by code_simp+
  with panel_follows_session [OF refl, where i = "Some ''b''" and session = "Some (run_of ''b'' ASRunning)" and s = ?s]
  show ?thesis by blast
qed

lemma late_session_not_followed_witness:
  "pm_mode (panel_render (Some ''a'') (Some (run_of ''a'' ASRunning)) (panel_mount (Some ''a'') None)) = PmBrief"
proof -
  have "\<not> session_status_is None ASRunning" "Some ''a'' \<noteq> Some ''b''" "session_status_is (Some (run_of ''a'' ASRunning)) ASRunning"
    by code_simp+
  from late_session_not_followed [OF this(1) this(1) this(2,3), of "[Some (run_of ''a'' ASRunning)]"] show ?thesis by simp
qed

lemma stale_documents_clickable_witness:
  "pm_url (handleArtifactClick (Some ''/p'') (Some (mk_task ''b'' ''B'' TWip))
     (mergeArtifacts [] (fe_state (fetch_run usePlanArtifacts [] [SetKey (plan_artifacts_key (Some ''/p'') (Some ''a'')),
        ReplyArrives 0 (Body [doc ''Plan'' ''a/PLAN.md'']), SetKey (plan_artifacts_key (Some ''/p'') (Some (t_id (mk_task ''b'' ''B'' TWip))))])))
     ''a/PLAN.md'' (panel_mount (Some ''b'') None)) = Some ''/api/plan/artifact?cwd=%2Fp&task=b&file=a%2FPLAN.md''"
proof -
  let ?t = "mk_task ''b'' ''B'' TWip"
  have t: "''a'' \<noteq> t_id ?t" "t_id ?t \<noteq> ''''" "t_id ?t = ''b''" by (simp_all add: mk_task_def)
  have "encodeURIComponent ''/p'' = ''%2Fp''" "encodeURIComponent ''b'' = ''b''" "encodeURIComponent ''a/PLAN.md'' = ''a%2FPLAN.md''" by code_simp+
  then show ?thesis
    using conjunct2 [OF conjunct2 [OF stale_documents_clickable [OF t(1) _ _ t(2) _ refl refl,
      where cwd = "''/p''" and d = "doc ''Plan'' ''a/PLAN.md''" and docs = "[doc ''Plan'' ''a/PLAN.md'']"
        and s = "panel_mount (Some ''b'') None"]]]
    by (simp add: t(3) doc_def)
qed

end
