(* ===== verification/Metrics.thy ===== *)
theory Metrics
  imports PlanUtils PathUtils UriCodec
begin

text \<open>
  The metrics page's data and the panels that only render it: the metrics interfaces of
  \<open>dashboard/app/src/types.ts\<close>, \<open>components/metrics/KpiStrip.tsx\<close>, the eight cards beside it, the radar of
  \<open>components/wf/SubagentRadar.tsx\<close> and the CSV export of \<open>components/metrics/MetricsView.tsx\<close>.
  Records of the source with string keys are association lists; counts are \<open>int\<close>, durations and rates \<open>rat\<close>.
  \<open>parse_date\<close> is \<open>new Date(s).getTime()\<close> (\<open>None\<close> is NaN) and \<open>clock\<close> is \<open>toLocaleTimeString\<close>.
  What the selector holds is a session id or \<open>all\<close>.
\<close>

named_theorems csv_scan "reading back one written piece of a CSV text"

section \<open>The data\<close>

record session_calls =
  sc_count :: int
  sc_rate :: rat

record tool_usage =
  tu_by_tool :: "(string, int) omap"
  tu_by_session :: "(string, session_calls) omap"
  tu_most_used :: string
  tu_total :: int

record session_errors =
  se_errors :: int
  se_rate :: rat

record tool_failures =
  tf_failures :: int
  tf_interrupts :: int

record error_event =
  ee_ts :: string
  ee_sid :: string
  ee_tool :: string
  ee_is_interrupt :: bool

record error_tracking =
  er_total_errors :: int
  er_by_tool :: "(string, int) omap"
  er_by_tool_detail :: "(string, tool_failures) omap"
  er_by_session :: "(string, session_errors) omap"
  er_interrupts :: int
  er_failures :: int
  er_timeline :: "error_event list"

record session_life =
  sl_sid :: string
  sl_start :: string
  sl_end :: string
  sl_duration_s :: rat
  sl_model :: string
  sl_source :: string
  sl_end_reason :: string

record concurrency_point =
  cp_ts :: string
  cp_concurrent :: int

record session_lifecycle =
  lc_sessions :: "session_life list"
  lc_model_distribution :: "(string, int) omap"
  lc_source_distribution :: "(string, int) omap"
  lc_end_reasons :: "(string, int) omap"
  lc_concurrency_timeline :: "concurrency_point list"

record session_prompts =
  sp_prompts :: int
  sp_blocked_s :: rat

record prompt_event =
  pe_ts :: string
  pe_sid :: string
  pe_tool :: string
  pe_mode :: string
  pe_msg :: string

record permission_friction =
  pf_total_prompts :: int
  pf_by_tool :: "(string, int) omap"
  pf_by_tool_mode :: "(string, (string, int) omap) omap"
  pf_by_session :: "(string, session_prompts) omap"
  pf_mode_distribution :: "(string, int) omap"
  pf_blocked_durations :: "(string \<times> string \<times> rat) list"
  pf_has_tuid_data :: bool
  pf_timeline :: "prompt_event list"

record subagent_utilization =
  su_total_spawned :: int
  su_by_type :: "(string, int) omap"
  su_by_session :: "(string, int) omap"
  su_peak_concurrent :: int
  su_durations :: "(string \<times> string \<times> rat) list"
  su_running :: "(string \<times> string \<times> string) list"

datatype file_access = EditAccess | ReadAccess

record touched_file =
  tf_path :: string
  tf_sessions :: "string list"
  tf_access :: file_access
  tf_last_ts :: string

record file_activity =
  fl_files :: "touched_file list"
  fl_conflicts :: "(string \<times> string list) list"
  fl_total :: int
  fl_edited :: int
  fl_read_only :: int
  fl_has_fp_data :: bool

record task_completion =
  tc_total :: int
  tc_by_session :: "(string, int) omap"
  tc_tasks :: "(string \<times> string \<times> string) list"
  tc_rates :: "(string, rat) omap"
  tc_total_responses :: "int option"
  tc_responses_by_session :: "(string, int) omap option"

record timeline_session =
  ts_sid :: string
  ts_label :: string
  ts_start :: string
  ts_end :: string
  ts_events :: "(string \<times> string) list"
  ts_idle_gaps :: "(string \<times> string \<times> rat) list"
  ts_density :: rat

record metrics =
  mr_tool_usage :: tool_usage
  mr_error_tracking :: error_tracking
  mr_session_lifecycle :: session_lifecycle
  mr_permission_friction :: permission_friction
  mr_subagent_utilization :: subagent_utilization
  mr_file_activity :: file_activity
  mr_task_completion :: task_completion
  mr_activity_timeline :: "timeline_session list"

text \<open>
  \<open>trendFromTimeline\<close> takes its argument as unknown data and looks at its shape. These are the values
  it is given, as the JSON the server sent.
\<close>

definition error_event_json :: "error_event \<Rightarrow> json" where
  "error_event_json e =
     JObj [(''ts'', JStr (ee_ts e)), (''sid'', JStr (ee_sid e)), (''tool'', JStr (ee_tool e)),
           (''is_interrupt'', JBool (ee_is_interrupt e))]"

definition prompt_event_json :: "prompt_event \<Rightarrow> json" where
  "prompt_event_json e =
     JObj [(''ts'', JStr (pe_ts e)), (''sid'', JStr (pe_sid e)), (''tool'', JStr (pe_tool e)),
           (''mode'', JStr (pe_mode e)), (''msg'', JStr (pe_msg e))]"

definition timeline_session_json :: "timeline_session \<Rightarrow> json" where
  "timeline_session_json s =
     JObj [(''sid'', JStr (ts_sid s)), (''label'', JStr (ts_label s)), (''start'', JStr (ts_start s)),
           (''end'', JStr (ts_end s)),
           (''events'', JArr (map (\<lambda>(t, c). JObj [(''ts'', JStr t), (''category'', JStr c)]) (ts_events s))),
           (''idle_gaps'', JArr (map (\<lambda>(a, b, d). JObj [(''start'', JStr a), (''end'', JStr b), (''duration_s'', JNum d)])
                                    (ts_idle_gaps s))),
           (''density'', JNum (ts_density s))]"

definition activity_timeline_json :: "timeline_session list \<Rightarrow> json" where
  "activity_timeline_json ss = JObj [(''sessions'', JArr (map timeline_session_json ss))]"

section \<open>The KPI strip\<close>

datatype kpi_tone = KpiOk | KpiWarn

record kpi_card =
  kc_label :: string
  kc_value :: string
  kc_hint :: "string option"
  kc_tone :: "kpi_tone option"
  kc_trend :: "rat list"

definition toneRail :: "kpi_tone option \<Rightarrow> string option" where
  "toneRail tone =
     (if tone = Some KpiWarn then Some ''var(--mui-palette-status-stalled)''
      else if tone = Some KpiOk then Some ''var(--mui-palette-status-completed)''
      else None)"

definition valueColorFor :: "kpi_tone option \<Rightarrow> string" where
  "valueColorFor tone =
     (if tone = Some KpiWarn then ''status.stalled''
      else if tone = Some KpiOk then ''status.completed''
      else ''wf.bone'')"

text \<open>\<open>last_n 12 xs\<close> is \<open>xs.slice(-12)\<close>.\<close>

definition last_n :: "nat \<Rightarrow> 'a list \<Rightarrow> 'a list" where
  "last_n n xs = drop (length xs - n) xs"

definition trendFromConcurrency :: "concurrency_point list \<Rightarrow> rat list" where
  "trendFromConcurrency timeline = map (\<lambda>p. of_int (cp_concurrent p)) (last_n 12 timeline)"

definition number_field :: "json \<Rightarrow> string \<Rightarrow> rat option" where
  "number_field p k = (case jfield p k of Some (JNum n) \<Rightarrow> Some n | _ \<Rightarrow> None)"

definition trend_point :: "json \<Rightarrow> rat" where
  "trend_point p =
     (case number_field p ''count'' of Some n \<Rightarrow> n
      | None \<Rightarrow> (case number_field p ''errors'' of Some n \<Rightarrow> n
      | None \<Rightarrow> (case number_field p ''prompts'' of Some n \<Rightarrow> n | None \<Rightarrow> 0)))"

definition trendFromTimeline :: "json \<Rightarrow> rat list" where
  "trendFromTimeline timeline =
     (case timeline of JArr ps \<Rightarrow> map trend_point (last_n 12 ps) | _ \<Rightarrow> [])"

definition derivedTrend :: "rat \<Rightarrow> rat list" where
  "derivedTrend v = map (\<lambda>i. v * (of_nat (Suc i) / 8)) [0..<8]"

definition plain_card :: "string \<Rightarrow> string \<Rightarrow> kpi_card" where
  "plain_card label v = \<lparr>kc_label = label, kc_value = v, kc_hint = None, kc_tone = None, kc_trend = []\<rparr>"

definition empty_cards :: "kpi_card list" where
  "empty_cards =
     [plain_card ''Sessions'' ''0'', plain_card ''Tool Calls'' ''0'', plain_card ''Error Rate'' emdash,
      plain_card ''Friction'' emdash, (plain_card ''Autopilot'' ''0/0'')\<lparr>kc_hint := Some ''engaged''\<rparr>,
      (plain_card ''Spend'' ''$0'')\<lparr>kc_hint := Some ''/hr''\<rparr>]"

text \<open>The figures of one session, with the defaults of the optional chains.\<close>

definition session_tool_count :: "metrics \<Rightarrow> string \<Rightarrow> int" where
  "session_tool_count m sid =
     (case om_get (tu_by_session (mr_tool_usage m)) sid of Some c \<Rightarrow> sc_count c | None \<Rightarrow> 0)"

definition session_prompt_count :: "permission_friction \<Rightarrow> string \<Rightarrow> int" where
  "session_prompt_count p sid = (case om_get (pf_by_session p) sid of Some c \<Rightarrow> sp_prompts c | None \<Rightarrow> 0)"

definition session_responses :: "task_completion \<Rightarrow> string \<Rightarrow> int" where
  "session_responses t sid =
     (case tc_responses_by_session t of None \<Rightarrow> 0 | Some m \<Rightarrow> om_get_or 0 m sid)"

definition percent_of :: "int \<Rightarrow> int \<Rightarrow> rat" where
  "percent_of a b = of_int a / of_int b * 100"

definition single_cards :: "metrics \<Rightarrow> string \<Rightarrow> kpi_card list" where
  "single_cards m sid =
     (let toolCount = session_tool_count m sid;
          errInfo = om_get (er_by_session (mr_error_tracking m)) sid;
          permPrompts = session_prompt_count (mr_permission_friction m) sid;
          responses = session_responses (mr_task_completion m) sid;
          tasks = om_get_or 0 (tc_by_session (mr_task_completion m)) sid
      in [plain_card ''Duration''
            (case find (\<lambda>s. sl_sid s = sid) (lc_sessions (mr_session_lifecycle m)) of
               Some s \<Rightarrow> duration_text (sl_duration_s s) | None \<Rightarrow> emdash),
          (plain_card ''Tool Calls'' (string_of_int toolCount))\<lparr>kc_trend := derivedTrend (of_int toolCount)\<rparr>,
          (plain_card ''Error Rate''
             (case errInfo of Some e \<Rightarrow> string_of_rat (se_rate e) @ ''%'' | None \<Rightarrow> emdash))
            \<lparr>kc_tone := (if (case errInfo of Some e \<Rightarrow> se_rate e | None \<Rightarrow> 0) > 5 then Some KpiWarn else None)\<rparr>,
          plain_card ''Friction''
            (if toolCount > 0 then to_fixed 1 (percent_of permPrompts toolCount) @ ''%'' else emdash),
          (plain_card ''Autopilot'' emdash)\<lparr>kc_hint := Some ''session view''\<rparr>,
          plain_card ''Tasks''
            (if tasks > 0 then string_of_int responses @ ''/'' @ string_of_int tasks
             else string_of_int responses)])"

definition fleet_cards :: "metrics \<Rightarrow> kpi_card list" where
  "fleet_cards m =
     (let sessions = lc_sessions (mr_session_lifecycle m);
          totalSessions = length sessions;
          totalTools = tu_total (mr_tool_usage m);
          errorRate = (if totalTools > 0 then percent_of (er_total_errors (mr_error_tracking m)) totalTools else 0);
          frictionRate =
            (if totalTools > 0 then percent_of (pf_total_prompts (mr_permission_friction m)) totalTools else 0);
          spendPerHour = of_nat totalSessions * (85 / 100);
          autopilotEngaged =
            length (filter (\<lambda>s. sl_end_reason s = ''clear'' \<or> sl_source s = ''continue'') sessions)
      in [(plain_card ''Sessions'' (string_of_nat totalSessions))
            \<lparr>kc_trend := trendFromConcurrency (lc_concurrency_timeline (mr_session_lifecycle m))\<rparr>,
          (plain_card ''Tool Calls'' (string_of_int totalTools))
            \<lparr>kc_trend := trendFromTimeline (activity_timeline_json (mr_activity_timeline m))\<rparr>,
          (plain_card ''Error Rate'' (to_fixed 1 errorRate @ ''%''))
            \<lparr>kc_tone := (if errorRate > 5 then Some KpiWarn else None),
             kc_trend := trendFromTimeline (JArr (map error_event_json (er_timeline (mr_error_tracking m))))\<rparr>,
          (plain_card ''Friction'' (to_fixed 1 frictionRate @ ''%''))
            \<lparr>kc_tone := (if frictionRate > 10 then Some KpiWarn else None),
             kc_trend := trendFromTimeline (JArr (map prompt_event_json (pf_timeline (mr_permission_friction m))))\<rparr>,
          (plain_card ''Autopilot'' (string_of_nat autopilotEngaged @ ''/'' @ string_of_nat totalSessions))
            \<lparr>kc_hint := Some ''engaged'', kc_tone := (if autopilotEngaged > 0 then Some KpiOk else None),
             kc_trend := derivedTrend (of_nat autopilotEngaged)\<rparr>,
          (plain_card ''Spend'' (''$'' @ to_fixed 0 spendPerHour))
            \<lparr>kc_hint := Some ''/hr'', kc_trend := derivedTrend spendPerHour\<rparr>])"

definition buildCards :: "metrics option \<Rightarrow> string \<Rightarrow> kpi_card list" where
  "buildCards metrics selectedSid =
     (case metrics of
        None \<Rightarrow> empty_cards
      | Some m \<Rightarrow> if selectedSid \<noteq> ''all'' then single_cards m selectedSid else fleet_cards m)"

text \<open>One cell: what it is labelled with, the rail and the points of its sparkline.\<close>

definition spark_data :: "rat list \<Rightarrow> (nat \<times> rat) list" where
  "spark_data trend = enumerate 0 (if trend \<noteq> [] then trend else [0, 0])"

definition KpiCardCell :: "kpi_card \<Rightarrow> string \<times> string option \<times> string \<times> (nat \<times> rat) list" where
  "KpiCardCell c =
     (kc_label c @ '': '' @ kc_value c, toneRail (kc_tone c), valueColorFor (kc_tone c), spark_data (kc_trend c))"

section \<open>The cards\<close>

text \<open>A card shows its children, or one message when it is empty.\<close>

definition MetricCard :: "string \<Rightarrow> bool \<Rightarrow> string \<Rightarrow> 'a \<Rightarrow> string \<times> (string + 'a)" where
  "MetricCard title isEmpty emptyMessage children =
     (title, if isEmpty then Inl emptyMessage else Inr children)"

text \<open>\<open>Object.entries(r).sort(([, a], [, b]) => b - a)\<close>, which three of the cards use.\<close>

definition by_count :: "(string, int) omap \<Rightarrow> (string \<times> int) list" where
  "by_count m = js_sort (\<lambda>a b. snd b - snd a) m"

record tool_row =
  tr_tool :: string
  tr_count :: int
  tr_pct :: rat
  tr_spark :: "(nat \<times> rat) list"

definition ToolRow :: "int \<Rightarrow> string \<times> int \<Rightarrow> tool_row" where
  "ToolRow maxCount r =
     \<lparr>tr_tool = fst r, tr_count = snd r,
      tr_pct = (if maxCount > 0 then percent_of (snd r) maxCount else 0),
      tr_spark = map (\<lambda>i. (i, of_int (snd r) * (of_nat (Suc i) / 8))) [0..<8]\<rparr>"

record tool_usage_view =
  tv_rows :: "tool_row list"
  tv_most_used :: string
  tv_rate :: "string option"

definition ToolUsage :: "tool_usage \<Rightarrow> string \<Rightarrow> string \<times> (string + tool_usage_view)" where
  "ToolUsage d selectedSid =
     (let rows = by_count (tu_by_tool d);
          max = (case rows of [] \<Rightarrow> 1 | r # _ \<Rightarrow> snd r);
          rate = (if selectedSid \<noteq> ''all'' then map_option sc_rate (om_get (tu_by_session d) selectedSid) else None)
      in MetricCard ''Tool Usage'' (tu_total d = 0) ''No tool usage data available''
           \<lparr>tv_rows = map (ToolRow max) rows,
            tv_most_used = ''Most used: '' @ (if tu_most_used d = '''' then emdash else tu_most_used d),
            tv_rate = map_option (\<lambda>r. string_of_rat r @ '' calls/min'') rate\<rparr>)"

text \<open>The first entry of the sorted tools, which two cards call dominant.\<close>

definition dominant :: "(string, int) omap \<Rightarrow> (string \<times> int) option" where
  "dominant m = (case by_count m of [] \<Rightarrow> None | e # _ \<Rightarrow> Some e)"

record error_view =
  ev_heading :: string
  ev_total :: string
  ev_pills :: "string \<times> string"
  ev_failures :: "(int option \<times> string) list"
  ev_interrupts :: "(int option \<times> string) list"
  ev_annotation :: "string option"

definition ErrorTracking :: "(string \<Rightarrow> int option) \<Rightarrow> error_tracking \<Rightarrow> string \<Rightarrow> string \<times> (string + (string + error_view))" where
  "ErrorTracking parse_date d selectedSid =
     (let timelineData = map (\<lambda>e. (parse_date (ee_ts e), if ee_is_interrupt e then 0 else 1 :: int, ee_tool e)) (er_timeline d);
          dots = (\<lambda>y. map (\<lambda>(t, _, tool). (t, tool)) (filter (\<lambda>p. fst (snd p) = y) timelineData));
          rate = (if selectedSid \<noteq> ''all'' then map_option se_rate (om_get (er_by_session d) selectedSid) else None)
      in MetricCard ''Error Tracking'' False ''''
           (if er_total_errors d = 0 then Inl ''No errors recorded''
            else Inr \<lparr>ev_heading = ''Errors '' @ (case rate of Some r \<Rightarrow> mdot @ '' rate '' @ string_of_rat r @ ''%'' | None \<Rightarrow> ''''),
            ev_total = string_of_int (er_total_errors d),
            ev_pills = (''Failures: '' @ string_of_int (er_failures d), ''Interrupts: '' @ string_of_int (er_interrupts d)),
            ev_failures = dots 1, ev_interrupts = dots 0,
            ev_annotation =
              map_option (\<lambda>(tool, count). ''Most errors originate in '' @ tool @ '' ('' @ string_of_int count @ '' of ''
                            @ string_of_int (er_total_errors d) @ '')'') (dominant (er_by_tool d))\<rparr>))"

record lifecycle_view =
  lv_avg :: string
  lv_caption :: string
  lv_peak :: "int option"
  lv_bars :: "(bool \<times> rat) list"
  lv_chips :: "string list"

definition mean_or_zero :: "rat list \<Rightarrow> rat" where
  "mean_or_zero xs = (if xs \<noteq> [] then sum_list xs / of_nat (length xs) else 0)"

definition SessionLifecycle :: "session_lifecycle \<Rightarrow> string \<times> (string + lifecycle_view)" where
  "SessionLifecycle d =
     (let sessions = lc_sessions d;
          avgDuration = mean_or_zero (map sl_duration_s sessions);
          timeline = map cp_concurrent (lc_concurrency_timeline d);
          peakConcurrent = (if timeline \<noteq> [] then foldr max (tl timeline) (hd timeline) else int (length sessions));
          concurrencyBars = last_n 12 timeline;
          mx = foldr max concurrencyBars 1
      in MetricCard ''Session Lifecycle'' (sessions = []) ''No session data''
           \<lparr>lv_avg = duration_text avgDuration,
            lv_caption = ''Avg duration ('' @ string_of_nat (length sessions) @ '' sessions)'',
            lv_peak = (if sessions \<noteq> [] then Some peakConcurrent else None),
            lv_bars = map (\<lambda>c. (c > 0, percent_of c mx)) concurrencyBars,
            lv_chips = map (\<lambda>(src, n). src @ '': '' @ string_of_int n) (lc_source_distribution d)\<rparr>)"

definition PermissionFriction :: "permission_friction \<Rightarrow> string \<Rightarrow> string \<times> (string + int \<times> string)" where
  "PermissionFriction d selectedSid =
     (let total = (if selectedSid \<noteq> ''all'' then session_prompt_count d selectedSid else pf_total_prompts d);
          dom = dominant (pf_by_tool d);
          n = (case dom of Some (_, c) \<Rightarrow> c | None \<Rightarrow> 0)
      in MetricCard ''Permission Friction'' False ''''
           (total,
            if total = 0 then
              ''No permission prompts in the last hour. Autopilot has high trust across all active sessions.''
            else
              ''Most friction in '' @ (case dom of Some (tool, _) \<Rightarrow> tool | None \<Rightarrow> emdash) @ '' ('' @ string_of_int n
                @ '' prompt'' @ (if dom \<noteq> None \<and> n = 1 then '''' else ''s'')
                @ ''). Consider granting it broader allowlist for these sessions.''))"

text \<open>
  The radar of the agent types: one segment per type, and what is drawn for it. The points of an arc
  (sine and cosine of the angles) are left out, as are the rings and the sweep line.
\<close>

record segment =
  sg_name :: string
  sg_value :: int
  sg_start :: rat
  sg_end :: rat

datatype wedge = FullDisc string rat | Wedge string rat rat bool rat

definition wedge_opacities :: "rat list" where
  "wedge_opacities = [85 / 100, 65 / 100, 1 / 2, 38 / 100, 28 / 100, 1 / 5]"

fun radar_loop :: "int \<Rightarrow> rat \<Rightarrow> (string \<times> int) list \<Rightarrow> segment list" where
  "radar_loop tot cursor [] = []"
| "radar_loop tot cursor (d # ds) =
     (let angle = of_int (snd d) / of_int tot * 360
      in \<lparr>sg_name = fst d, sg_value = snd d, sg_start = cursor, sg_end = cursor + angle\<rparr>
         # radar_loop tot (cursor + angle) ds)"

definition radar_segments :: "(string \<times> int) list \<Rightarrow> segment list" where
  "radar_segments ds =
     (let tot = sum_list (map snd ds) in if tot = 0 then [] else radar_loop tot 0 ds)"

definition radar_wedge :: "bool \<Rightarrow> nat \<times> segment \<Rightarrow> wedge option" where
  "radar_wedge hasOne is =
     (let i = fst is; seg = snd is; opacity = wedge_opacities ! (i mod length wedge_opacities)
      in if sg_value seg \<le> 0 then None
         else if hasOne then Some (FullDisc (sg_name seg) opacity)
         else Some (Wedge (sg_name seg) (sg_start seg) (sg_end seg) (sg_end seg - sg_start seg > 180) opacity))"

definition SubagentRadar :: "(string \<times> int) list \<Rightarrow> wedge list" where
  "SubagentRadar ds =
     (let hasOne = (case ds of [d] \<Rightarrow> snd d > 0 | _ \<Rightarrow> False)
      in List.map_filter (radar_wedge hasOne) (enumerate 0 (radar_segments ds)))"

record subagent_view =
  sv_spawned :: int
  sv_peak :: int
  sv_avg :: "string option"
  sv_radar :: "(wedge list \<times> bool) option"
  sv_legend :: "(string \<times> int \<times> rat) list"
  sv_running :: "string option"

definition legend_opacities :: "rat list" where
  "legend_opacities = [85 / 100, 65 / 100, 1 / 2, 38 / 100, 28 / 100, 1 / 5]"

definition SubagentUtil :: "subagent_utilization \<Rightarrow> string \<times> (string + subagent_view)" where
  "SubagentUtil d =
     (let typeData = by_count (su_by_type d);
          avgDuration = mean_or_zero (map (\<lambda>(_, _, s). s) (su_durations d));
          isRunning = (su_running d \<noteq> [])
      in MetricCard ''Subagent Utilization'' (su_total_spawned d = 0) ''No subagent activity''
           \<lparr>sv_spawned = su_total_spawned d, sv_peak = su_peak_concurrent d,
            sv_avg = (if avgDuration > 0 then Some (string_of_int (js_round avgDuration) @ ''s'') else None),
            sv_radar = (if typeData \<noteq> [] then Some (SubagentRadar typeData, isRunning) else None),
            sv_legend = map (\<lambda>(i, name, v). (name, v, legend_opacities ! (i mod length legend_opacities)))
                          (enumerate 0 typeData),
            sv_running =
              (if isRunning then Some (string_of_nat (length (su_running d)) @ '' subagent(s) still running'')
               else None)\<rparr>)"

definition task_figures :: "task_completion \<Rightarrow> string \<Rightarrow> int \<times> int" where
  "task_figures d selectedSid =
     (if selectedSid \<noteq> ''all'' then (session_responses d selectedSid, om_get_or 0 (tc_by_session d) selectedSid)
      else ((case tc_total_responses d of Some n \<Rightarrow> n | None \<Rightarrow> 0), tc_total d))"

text \<open>The ratio, whether it is drawn as complete, and the annotation.\<close>

definition TaskCompletion :: "task_completion \<Rightarrow> string \<Rightarrow> string \<times> (string + string \<times> bool \<times> string)" where
  "TaskCompletion d selectedSid =
     (let (r, t) = task_figures d selectedSid;
          isEmpty = (r = 0 \<and> t = 0);
          completionRate = (if t > 0 then percent_of r t else 0);
          allComplete = (t > 0 \<and> r \<ge> t)
      in MetricCard ''Task Completion'' False ''''
           (string_of_int r @ (if t > 0 then '' / '' @ string_of_int t else ''''), allComplete,
            if isEmpty then ''No tasks scheduled in this window.''
            else if allComplete then ''All scheduled tasks across the fleet completed this window.''
            else if t > 0 then
              string_of_int (js_round completionRate) @ ''% of scheduled tasks completed '' @ emdash @ '' ''
                @ string_of_int (t - r) @ '' still in flight.''
            else string_of_int r @ '' response'' @ (if r = 1 then '''' else ''s'') @ '' delivered.''))"

record file_row =
  fr_path :: string
  fr_sessions :: string
  fr_status :: "wf_status option"
  fr_label :: string
  fr_time :: string

record file_view =
  fv_alerts :: "string list"
  fv_more :: "string option"
  fv_rows :: "file_row list"
  fv_summary :: string

definition file_row_of :: "(string \<Rightarrow> string) \<Rightarrow> touched_file \<Rightarrow> file_row" where
  "file_row_of clock f =
     \<lparr>fr_path = tf_path f, fr_sessions = join_with '', '' (map (take 7) (tf_sessions f)),
      fr_status = (if tf_access f = EditAccess then Some WfStalled else None),
      fr_label = (if tf_access f = EditAccess then ''Edit'' else ''Read''),
      fr_time = clock (tf_last_ts f)\<rparr>"

definition FileActivity :: "(string \<Rightarrow> string) \<Rightarrow> file_activity \<Rightarrow> string \<times> (string + (string + file_view))" where
  "FileActivity clock d =
     (if \<not> fl_has_fp_data d then
        MetricCard ''File Activity'' True '''' (Inl (''No file activity data available '' @ emdash @ '' hook update required.''))
      else
        MetricCard ''File Activity'' (fl_files d = []) ''No file activity''
          (Inr \<lparr>fv_alerts =
                  map (\<lambda>(path, sids). last (split_on (CHR ''/'') path) @ '' edited by ''
                         @ string_of_nat (length sids) @ '' sessions'') (take 5 (fl_conflicts d)),
                fv_more =
                  (if length (fl_conflicts d) > 5 then
                     Some (''+'' @ string_of_nat (length (fl_conflicts d) - 5) @ '' more file conflicts'')
                   else None),
                fv_rows = map (file_row_of clock) (fl_files d),
                fv_summary =
                  string_of_int (fl_total d) @ '' files ('' @ string_of_int (fl_edited d) @ '' edited, ''
                    @ string_of_int (fl_read_only d) @ '' read-only)''\<rparr>))"

section \<open>The CSV export\<close>

definition csvEscape :: "string \<Rightarrow> string" where
  "csvEscape v =
     (if list_ex (\<lambda>c. c \<in> {CHR 0x22, CHR '','', CHR 0x0A}) v
      then CHR 0x22 # concat (map (\<lambda>c. if c = CHR 0x22 then [c, c] else [c]) v) @ [CHR 0x22]
      else v)"

definition csv_text :: "string list list \<Rightarrow> string" where
  "csv_text rows = join_with [CHR 0x0A] (map (\<lambda>r. join_with '','' (map csvEscape r)) rows)"

definition metric_rows :: "metrics \<Rightarrow> string \<Rightarrow> string \<Rightarrow> string list list" where
  "metric_rows m selectedSid rng =
     [[''metric'', ''value'', ''session_filter'', ''time_range''],
      [''sessions'', string_of_nat (length (lc_sessions (mr_session_lifecycle m))), selectedSid, rng],
      [''tool_calls'', string_of_int (tu_total (mr_tool_usage m)), selectedSid, rng],
      [''errors_total'', string_of_int (er_total_errors (mr_error_tracking m)), selectedSid, rng],
      [''permission_prompts'', string_of_int (pf_total_prompts (mr_permission_friction m)), selectedSid, rng],
      [''tasks_total'', string_of_int (tc_total (mr_task_completion m)), selectedSid, rng]]"

section \<open>Reading the export back\<close>

text \<open>
  What a program that imports CSV does with the text: one pass over the characters, with the field and the
  row in hand and where it is in a field. A field that starts with a quote ends at the first quote that is
  not doubled.
\<close>

datatype csv_mode = FieldStart | Plain | Quoted | QuoteSeen

record csv_reader =
  cr_mode :: csv_mode
  cr_field :: string
  cr_row :: "string list"
  cr_rows :: "string list list"

definition csv_add :: "csv_mode \<Rightarrow> char \<Rightarrow> csv_reader \<Rightarrow> csv_reader" where
  "csv_add m c r = r\<lparr>cr_mode := m, cr_field := cr_field r @ [c]\<rparr>"

definition csv_end_field :: "csv_reader \<Rightarrow> csv_reader" where
  "csv_end_field r = r\<lparr>cr_mode := FieldStart, cr_field := [], cr_row := cr_row r @ [cr_field r]\<rparr>"

definition csv_end_row :: "csv_reader \<Rightarrow> csv_reader" where
  "csv_end_row r =
     (let r1 = csv_end_field r in r1\<lparr>cr_row := [], cr_rows := cr_rows r1 @ [cr_row r1]\<rparr>)"

definition csv_char :: "char \<Rightarrow> csv_reader \<Rightarrow> csv_reader" where
  "csv_char c r =
     (if cr_mode r = Quoted then
        (if c = CHR 0x22 then r\<lparr>cr_mode := QuoteSeen\<rparr> else csv_add Quoted c r)
      else if c = CHR '','' then csv_end_field r
      else if c = CHR 0x0A then csv_end_row r
      else if c = CHR 0x22 \<and> cr_mode r = FieldStart then r\<lparr>cr_mode := Quoted\<rparr>
      else if c = CHR 0x22 \<and> cr_mode r = QuoteSeen then csv_add Quoted c r
      else csv_add Plain c r)"

definition csv_start :: csv_reader where
  "csv_start = \<lparr>cr_mode = FieldStart, cr_field = [], cr_row = [], cr_rows = []\<rparr>"

definition csv_parse :: "string \<Rightarrow> string list list" where
  "csv_parse s = cr_rows (csv_end_row (fold csv_char s csv_start))"

lemma csv_quoted_scan [csv_scan]:
  "cr_mode r = Quoted \<Longrightarrow>
     fold csv_char (concat (map (\<lambda>c. if c = CHR 0x22 then [c, c] else [c]) v)) r
       = r\<lparr>cr_field := cr_field r @ v\<rparr>"
  by (induction v arbitrary: r) (simp_all add: csv_char_def csv_add_def)

lemma csv_plain_scan [csv_scan]:
  "list_all (\<lambda>c. c \<notin> {CHR 0x22, CHR '','', CHR 0x0A}) v \<Longrightarrow> cr_mode r \<in> {FieldStart, Plain} \<Longrightarrow>
     fold csv_char v r = r\<lparr>cr_mode := (if v = [] then cr_mode r else Plain), cr_field := cr_field r @ v\<rparr>"
  by (induction v arbitrary: r) (auto simp: csv_char_def csv_add_def)

text \<open>A written field brings the reader to a state in which both separators end the field.\<close>

lemma csv_field_scan:
  assumes "cr_mode r = FieldStart" and "cr_field r = []"
  shows "\<exists>m. m \<noteq> Quoted \<and> fold csv_char (csvEscape v) r = r\<lparr>cr_mode := m, cr_field := v\<rparr>"
proof (cases "list_ex (\<lambda>c. c \<in> {CHR 0x22, CHR '','', CHR 0x0A}) v")
  case True
  have "csv_char (CHR 0x22) r = r\<lparr>cr_mode := Quoted\<rparr>"
    and "csv_char (CHR 0x22) (r\<lparr>cr_mode := Quoted, cr_field := v\<rparr>) = r\<lparr>cr_mode := QuoteSeen, cr_field := v\<rparr>"
    using assms by (simp_all add: csv_char_def)
  with True have "fold csv_char (csvEscape v) r = r\<lparr>cr_mode := QuoteSeen, cr_field := v\<rparr>"
    using csv_quoted_scan [of "r\<lparr>cr_mode := Quoted\<rparr>" v] assms(2) by (simp add: csvEscape_def)
  then show ?thesis by (intro exI [of _ QuoteSeen]) simp
next
  case False
  then have "list_all (\<lambda>c. c \<notin> {CHR 0x22, CHR '','', CHR 0x0A}) v"
    by (simp add: list_all_iff list_ex_iff)
  then have "fold csv_char v r = r\<lparr>cr_mode := (if v = [] then FieldStart else Plain), cr_field := v\<rparr>"
    using assms by (simp add: csv_plain_scan)
  with False show ?thesis by (auto simp: csvEscape_def)
qed

lemma csv_row_scan:
  assumes "cr_mode r = FieldStart" and "cr_field r = []" and "row \<noteq> []"
  shows "\<exists>m. m \<noteq> Quoted \<and> fold csv_char (join_with '','' (map csvEscape row)) r
               = r\<lparr>cr_mode := m, cr_field := last row, cr_row := cr_row r @ butlast row\<rparr>"
  using assms
proof (induction row arbitrary: r rule: induct_list012)
  case (2 v)
  then show ?case using csv_field_scan [of r v] by auto
next
  case (3 v w row)
  obtain m where m: "m \<noteq> Quoted" "fold csv_char (csvEscape v) r = r\<lparr>cr_mode := m, cr_field := v\<rparr>"
    using csv_field_scan [OF 3(3,4)] by blast
  let ?r = "r\<lparr>cr_mode := FieldStart, cr_field := [], cr_row := cr_row r @ [v]\<rparr>"
  have "csv_char (CHR '','') (r\<lparr>cr_mode := m, cr_field := v\<rparr>) = ?r"
    using m(1) by (simp add: csv_char_def csv_end_field_def)
  moreover obtain m' where "m' \<noteq> Quoted"
    "fold csv_char (join_with '','' (map csvEscape (w # row))) ?r
       = ?r\<lparr>cr_mode := m', cr_field := last (w # row), cr_row := cr_row ?r @ butlast (w # row)\<rparr>"
    using 3(2) [of ?r] by auto
  ultimately show ?case using m(2) by (intro exI [of _ m']) simp
qed simp

lemma csv_rows_scan:
  assumes "cr_mode r = FieldStart" and "cr_field r = []" and "cr_row r = []"
    and "rows \<noteq> []" and "[] \<notin> set rows"
  shows "cr_rows (csv_end_row (fold csv_char (csv_text rows) r)) = cr_rows r @ rows"
  using assms
proof (induction rows arbitrary: r rule: induct_list012)
  case (2 row)
  then have "row \<noteq> []" by auto
  with csv_row_scan [OF 2(1,2) this] 2(3) show ?case
    by (auto simp: csv_text_def csv_end_row_def csv_end_field_def)
next
  case (3 row row' rows)
  then have "row \<noteq> []" by auto
  with 3(3,4) obtain m where m: "m \<noteq> Quoted"
    "fold csv_char (join_with '','' (map csvEscape row)) r
       = r\<lparr>cr_mode := m, cr_field := last row, cr_row := cr_row r @ butlast row\<rparr>"
    using csv_row_scan by blast
  let ?r = "r\<lparr>cr_mode := FieldStart, cr_field := [], cr_rows := cr_rows r @ [row]\<rparr>"
  have "csv_char (CHR 0x0A) (r\<lparr>cr_mode := m, cr_field := last row, cr_row := cr_row r @ butlast row\<rparr>) = ?r"
    using m(1) 3(5) \<open>row \<noteq> []\<close> by (simp add: csv_char_def csv_end_row_def csv_end_field_def)
  with m(2) have "fold csv_char (csv_text (row # row' # rows)) r = fold csv_char (csv_text (row' # rows)) ?r"
    by (simp add: csv_text_def)
  with 3(2) [of ?r] 3(3-7) show ?case by auto
qed simp

lemma csv_parse_text: "rows \<noteq> [] \<Longrightarrow> [] \<notin> set rows \<Longrightarrow> csv_parse (csv_text rows) = rows"
  using csv_rows_scan [of csv_start rows] by (simp add: csv_parse_def csv_start_def)

interpretation csv: codec csv_text "\<lambda>s. Some (csv_parse s)" "\<lambda>rows. rows \<noteq> [] \<and> [] \<notin> set rows"
  by unfold_locales (simp add: csv_parse_text)

text \<open>C26. The text that the export button writes is read back, by a program that imports CSV, as the rows
  that were exported, whatever the selected session is called.\<close>
theorem exported_csv_reads_back: "csv_parse (csv_text (metric_rows m sid rng)) = metric_rows m sid rng"
  using csv.dec_enc [of "metric_rows m sid rng"] by (simp add: metric_rows_def)

section \<open>What the strip and the cards show\<close>

lemma trend_of_events: "(\<And>e. trend_point (f e) = 0) \<Longrightarrow>
    trendFromTimeline (JArr (map f es)) = replicate (min 12 (length es)) 0"
  by (rule nth_equalityI) (auto simp: trendFromTimeline_def last_n_def min_def)

lemma trend_of_error: "trend_point (error_event_json e) = 0"
  and trend_of_prompt: "trend_point (prompt_event_json p) = 0"
  by (simp_all add: trend_point_def number_field_def error_event_json_def prompt_event_json_def)

text \<open>Three of the four sparklines of the strip that are meant to follow recorded data never do: the
  tool calls have no points, errors and friction one zero per recorded event, whatever the server sent.\<close>
theorem kpi_sparklines_flat:
  "map kc_trend (take 3 (drop 1 (buildCards (Some m) ''all''))) =
     [[], replicate (min 12 (length (er_timeline (mr_error_tracking m)))) 0,
      replicate (min 12 (length (pf_timeline (mr_permission_friction m)))) 0]"
  by (simp add: buildCards_def fleet_cards_def Let_def plain_card_def trend_of_events [OF trend_of_error]
        trend_of_events [OF trend_of_prompt])
     (simp add: trendFromTimeline_def activity_timeline_json_def)

text \<open>Ranking by count.\<close>

lemma find_filter: "find P xs = (case filter P xs of [] \<Rightarrow> None | x # _ \<Rightarrow> Some x)"
  by (induction xs) auto

lemma js_comparator_count: "js_comparator (\<lambda>a b :: string \<times> int. snd b - snd a)"
  by unfold_locales auto

interpretation count_order: js_comparator "\<lambda>a b :: string \<times> int. snd b - snd a"
  by (rule js_comparator_count)

lemma by_count_sorted: "sorted_wrt (\<lambda>a b. snd b \<le> snd a) (by_count m)"
  using count_order.sorted_js_sort [of m] by (simp add: by_count_def)

lemma set_by_count [simp]: "set (by_count m) = set m"
  by (simp add: by_count_def)

lemma by_count_empty [simp]: "by_count m = [] \<longleftrightarrow> m = []"
  by (metis set_by_count set_empty)

lemma by_count_Nil: "by_count [] = []"
  by (simp add: by_count_def)

lemma by_count_max: "by_count m = e # es \<Longrightarrow> x \<in> set m \<Longrightarrow> snd x \<le> snd e"
  using by_count_sorted [of m] set_by_count [of m] by auto

text \<open>The tool that the error and friction cards single out has the highest count, and among the
  tools with that count it is the one recorded first; there is none only when nothing was recorded.\<close>
theorem dominant_tool_exact:
  "case dominant m of
     None \<Rightarrow> m = []
   | Some e \<Rightarrow> snd e = Max (snd ` set m) \<and> find (\<lambda>x. snd x = snd e) m = Some e"
proof (cases "by_count m")
  case Nil
  then show ?thesis by (simp add: dominant_def by_count_Nil)
next
  case (Cons e es)
  have "filter (\<lambda>x. snd x = snd e) m = e # filter (\<lambda>x. snd x = snd e) es"
    using count_order.stable_js_sort [of e m, symmetric] Cons by (simp add: by_count_def [symmetric])
  then have "find (\<lambda>x. snd x = snd e) m = Some e"
    by (simp add: find_filter)
  moreover have "e \<in> set m" using Cons set_by_count [of m] by auto
  then have "snd e = Max (snd ` set m)"
    using by_count_max [OF Cons] by (intro Max_eqI [symmetric]) auto
  ultimately show ?thesis using Cons by (simp add: dominant_def)
qed

text \<open>The bars of the tool list are in descending order of the counts, one per recorded tool, and their
  widths are the shares of the highest count: the first bar is full and none is longer.\<close>
theorem tool_bars_ranked:
  assumes "ToolUsage d sid = (title, Inr v)" and "\<forall>x \<in> set (tu_by_tool d). 0 < snd x"
  shows "mset (map (\<lambda>r. (tr_tool r, tr_count r)) (tv_rows v)) = mset (tu_by_tool d) \<and>
         sorted_wrt (\<lambda>a b. tr_count b \<le> tr_count a \<and> tr_pct b \<le> tr_pct a) (tv_rows v) \<and>
         (\<forall>r \<in> set (tv_rows v). 0 < tr_pct r \<and> tr_pct r \<le> 100) \<and>
         (tv_rows v \<noteq> [] \<longrightarrow> tr_pct (hd (tv_rows v)) = 100)"
proof (cases "by_count (tu_by_tool d)")
  case Nil
  with assms(1) show ?thesis
    by (auto simp: ToolUsage_def MetricCard_def Let_def by_count_Nil split: if_splits)
next
  case (Cons e es)
  let ?m = "tu_by_tool d"
  have rows: "tv_rows v = map (ToolRow (snd e)) (by_count ?m)"
    using assms(1) Cons by (auto simp: ToolUsage_def MetricCard_def Let_def split: if_splits)
  have pos: "0 < snd e" using assms(2) Cons set_by_count [of ?m] by auto
  then have pct: "tr_pct (ToolRow (snd e) x) = of_int (snd x) / of_int (snd e) * 100" for x
    by (simp add: ToolRow_def percent_of_def)
  have fields: "(tr_tool (ToolRow n x), tr_count (ToolRow n x)) = x" for n x
    by (simp add: ToolRow_def)
  then have "mset (map (\<lambda>r. (tr_tool r, tr_count r)) (tv_rows v)) = mset ?m"
    by (simp add: rows comp_def by_count_def)
  moreover have "sorted_wrt (\<lambda>a b. tr_count b \<le> tr_count a \<and> tr_pct b \<le> tr_pct a) (tv_rows v)"
    unfolding rows sorted_wrt_map
    by (rule sorted_wrt_mono_rel [OF _ by_count_sorted])
       (use pos in \<open>simp add: pct, simp add: ToolRow_def divide_right_mono\<close>)
  moreover have "0 < tr_pct r \<and> tr_pct r \<le> 100" if row: "r \<in> set (tv_rows v)" for r
  proof -
    obtain x where "x \<in> set ?m" "r = ToolRow (snd e) x" using row unfolding rows by auto
    with assms(2) by_count_max [OF Cons] pos show ?thesis by (auto simp: pct field_simps)
  qed
  moreover have "tr_pct (hd (tv_rows v)) = 100" using Cons pos by (simp add: rows pct)
  ultimately show ?thesis by blast
qed

text \<open>The angles of the radar.\<close>

lemma length_radar_loop [simp]: "length (radar_loop tot c ds) = length ds"
  by (induction ds arbitrary: c) (simp_all add: Let_def)

lemma radar_loop_names: "map (\<lambda>s. (sg_name s, sg_value s)) (radar_loop tot c ds) = ds"
  by (induction ds arbitrary: c) (simp_all add: Let_def)

lemma radar_loop_nth:
  "i < length ds \<Longrightarrow>
     sg_start (radar_loop tot c ds ! i) = c + of_int (sum_list (map snd (take i ds))) / of_int tot * 360 \<and>
     sg_end (radar_loop tot c ds ! i) = c + of_int (sum_list (map snd (take (Suc i) ds))) / of_int tot * 360"
  by (induction ds arbitrary: c i)
     (auto simp: Let_def nth_Cons' add_divide_distrib distrib_right take_Cons' gr0_conv_Suc)

text \<open>The wedges of the subagent radar fill the disc exactly: they follow each other without gap or
  overlap from 0 to 360 degrees, each as wide as its type's share of the agents.\<close>
theorem radar_partitions_disc:
  assumes "\<forall>d \<in> set ds. 0 \<le> snd d" and "0 < sum_list (map snd ds)"
  shows "map (\<lambda>s. (sg_name s, sg_value s)) (radar_segments ds) = ds \<and>
         sg_start (radar_segments ds ! 0) = 0 \<and> sg_end (radar_segments ds ! (length ds - 1)) = 360 \<and>
         (\<forall>i < length ds. sg_end (radar_segments ds ! i) - sg_start (radar_segments ds ! i)
              = of_int (snd (ds ! i)) / of_int (sum_list (map snd ds)) * 360) \<and>
         (\<forall>i < length ds. 0 \<le> sg_start (radar_segments ds ! i) \<and> sg_end (radar_segments ds ! i) \<le> 360) \<and>
         (\<forall>i. Suc i < length ds \<longrightarrow> sg_end (radar_segments ds ! i) = sg_start (radar_segments ds ! Suc i))"
proof -
  let ?t = "sum_list (map snd ds)"
  have seg: "radar_segments ds = radar_loop ?t 0 ds" using assms(2) by (simp add: radar_segments_def)
  have ne: "ds \<noteq> []" using assms(2) by auto
  have part: "0 \<le> sum_list (map snd (take i ds)) \<and> sum_list (map snd (take i ds)) \<le> ?t" for i
  proof -
    have "0 \<le> sum_list (map snd (take i ds))" and "0 \<le> sum_list (map snd (drop i ds))"
      by (rule sum_list_nonneg, use assms(1) in \<open>fastforce dest: in_set_takeD in_set_dropD\<close>)+
    moreover have "sum_list (map snd (take i ds)) + sum_list (map snd (drop i ds)) = ?t"
      by (metis append_take_drop_id map_append sum_list_append)
    ultimately show ?thesis by linarith
  qed
  have frac: "0 \<le> of_int (sum_list (map snd (take i ds))) / of_int ?t * (360 :: rat) \<and>
              of_int (sum_list (map snd (take i ds))) / of_int ?t * (360 :: rat) \<le> 360" for i
    using part [of i] assms(2) by (simp add: field_simps)
  have width: "of_int (sum_list (map snd (take (Suc i) ds))) / of_int ?t * 360
                 - of_int (sum_list (map snd (take i ds))) / of_int ?t * (360 :: rat)
               = of_int (snd (ds ! i)) / of_int ?t * 360" if "i < length ds" for i
    using that by (simp add: take_Suc_conv_app_nth add_divide_distrib distrib_right)
  show ?thesis
    using ne assms(2) frac width by (simp add: seg radar_loop_names radar_loop_nth)
qed

lemma string_of_nat_nonspace: "filter (\<lambda>c. c \<noteq> CHR '' '') (string_of_nat n) = string_of_nat n"
proof (induction n rule: string_of_nat.induct)
  case (1 n)
  have digit: "(char_of (48 + k) :: char) \<noteq> CHR '' ''" if "k < 10" for k :: nat
  proof
    assume "(char_of (48 + k) :: char) = CHR '' ''"
    then have "(of_char (char_of (48 + k) :: char) :: nat) = of_char (CHR '' '')" by simp
    with that show False by simp
  qed
  show ?case
  proof (cases "n < 10")
    case True
    then show ?thesis using digit [of n] by (simp add: string_of_nat.simps [of n])
  next
    case False
    then show ?thesis
      using digit [of "n mod 10"] 1 by (simp add: string_of_nat.simps [of n])
  qed
qed

lemma string_of_int_nonspace: "filter (\<lambda>c. c \<noteq> CHR '' '') (string_of_int i) = string_of_int i"
  by (simp add: string_of_int_def string_of_nat_nonspace)

text \<open>For a selected session the strip and the cards, which compute them separately, show the same
  figures: the Tasks value is the ratio of the task card, the Friction value is the share of the prompts
  that the friction card counts.\<close>
theorem kpi_agrees_with_cards:
  assumes "sid \<noteq> ''all''"
    and "TaskCompletion (mr_task_completion m) sid = (t1, Inr (ratio, allDone, note))"
    and "PermissionFriction (mr_permission_friction m) sid = (t2, Inr (prompts, note2))"
  shows "kc_value (buildCards (Some m) sid ! 5) = filter (\<lambda>c. c \<noteq> CHR '' '') ratio \<and>
         kc_value (buildCards (Some m) sid ! 3) =
           (if 0 < session_tool_count m sid
            then to_fixed 1 (percent_of prompts (session_tool_count m sid)) @ ''%'' else emdash)"
  using assms
  by (auto simp: TaskCompletion_def PermissionFriction_def MetricCard_def Let_def task_figures_def buildCards_def
      single_cards_def plain_card_def string_of_int_nonspace)

text \<open>The hint for missing file data is passed as the child of an empty card, which shows the message, an
  empty text: it never appears.\<close>

lemma file_hint_never_shown:
  "\<not> fl_has_fp_data d \<Longrightarrow> FileActivity clock d = (''File Activity'', Inl '''')"
  by (simp add: FileActivity_def MetricCard_def)

text \<open>The percentage is rounded, so a card can read \<open>100%\<close> while it counts tasks in flight.\<close>

lemma full_percentage_in_flight:
  "TaskCompletion \<lparr>tc_total = 200, tc_by_session = [], tc_tasks = [], tc_rates = [],
                   tc_total_responses = Some 199, tc_responses_by_session = None\<rparr> ''all''
     = (''Task Completion'', Inr (''199 / 200'', False, ''100% of scheduled tasks completed '' @ emdash @ '' 1 still in flight.''))"
  by code_simp

text \<open>The concurrency bars fit their box and the peak is the highest of them and of everything before.\<close>

lemma foldr_max_ge: "x \<in> set xs \<or> x = a \<Longrightarrow> x \<le> foldr max xs (a :: int)"
  by (induction xs) (auto simp: le_max_iff_disj)

lemma lifecycle_bars_fit:
  assumes "SessionLifecycle d = (title, Inr v)"
    and "\<forall>p \<in> set (lc_concurrency_timeline d). 0 \<le> cp_concurrent p"
  shows "(\<forall>b \<in> set (lv_bars v). 0 \<le> snd b \<and> snd b \<le> 100) \<and>
         (\<forall>p \<in> set (lc_concurrency_timeline d). \<exists>n. lv_peak v = Some n \<and> cp_concurrent p \<le> n)"
proof -
  let ?cs = "map cp_concurrent (lc_concurrency_timeline d)"
  let ?bars = "last_n 12 ?cs"
  let ?mx = "foldr max ?bars 1"
  have v: "lv_bars v = map (\<lambda>c. (c > 0, percent_of c ?mx)) ?bars"
    "lv_peak v = Some (if ?cs \<noteq> [] then foldr max (tl ?cs) (hd ?cs) else int (length (lc_sessions d)))"
    using assms(1) by (auto simp: SessionLifecycle_def MetricCard_def Let_def split: if_splits)
  have "1 \<le> ?mx" using foldr_max_ge by blast
  moreover have "0 \<le> c" if "c \<in> set ?bars" for c
    using assms(2) that unfolding last_n_def by (auto dest!: in_set_dropD)
  moreover have "c \<le> ?mx" if "c \<in> set ?bars" for c
    using that foldr_max_ge by blast
  ultimately have "\<forall>b \<in> set (lv_bars v). 0 \<le> snd b \<and> snd b \<le> 100"
    by (fastforce simp: v percent_of_def field_simps)
  moreover have "c \<le> foldr max (tl ?cs) (hd ?cs)" if "c \<in> set ?cs" for c
    by (rule foldr_max_ge) (use that in \<open>cases ?cs, auto\<close>)
  ultimately show ?thesis by (auto simp: v(2))
qed

section \<open>Witnesses\<close>

definition demo_tools :: tool_usage where
  "demo_tools = \<lparr>tu_by_tool = [(''Read'', 2), (''Bash'', 8), (''Edit'', 8)],
                 tu_by_session = [(''s1'', \<lparr>sc_count = 18, sc_rate = 3 / 2\<rparr>)], tu_most_used = ''Bash'', tu_total = 18\<rparr>"

definition demo_tool_view :: tool_usage_view where
  "demo_tool_view =
     \<lparr>tv_rows = map (ToolRow 8) [(''Bash'', 8), (''Edit'', 8), (''Read'', 2)],
      tv_most_used = ''Most used: Bash'', tv_rate = Some ''1.5 calls/min''\<rparr>"

definition demo_metrics :: metrics where
  "demo_metrics =
     \<lparr>mr_tool_usage = demo_tools,
      mr_error_tracking =
        \<lparr>er_total_errors = 1, er_by_tool = [(''Bash'', 1)], er_by_tool_detail = [], er_by_session = [],
         er_interrupts = 0, er_failures = 1,
         er_timeline = [\<lparr>ee_ts = ''t'', ee_sid = ''s1'', ee_tool = ''Bash'', ee_is_interrupt = False\<rparr>]\<rparr>,
      mr_session_lifecycle =
        \<lparr>lc_sessions = [], lc_model_distribution = [], lc_source_distribution = [], lc_end_reasons = [],
         lc_concurrency_timeline = []\<rparr>,
      mr_permission_friction =
        \<lparr>pf_total_prompts = 3, pf_by_tool = [(''Bash'', 3)], pf_by_tool_mode = [],
         pf_by_session = [(''s1'', \<lparr>sp_prompts = 3, sp_blocked_s = 0\<rparr>)], pf_mode_distribution = [],
         pf_blocked_durations = [], pf_has_tuid_data = False, pf_timeline = []\<rparr>,
      mr_subagent_utilization =
        \<lparr>su_total_spawned = 0, su_by_type = [], su_by_session = [], su_peak_concurrent = 0, su_durations = [],
         su_running = []\<rparr>,
      mr_file_activity =
        \<lparr>fl_files = [], fl_conflicts = [], fl_total = 0, fl_edited = 0, fl_read_only = 0, fl_has_fp_data = False\<rparr>,
      mr_task_completion =
        \<lparr>tc_total = 4, tc_by_session = [(''s1'', 4)], tc_tasks = [], tc_rates = [], tc_total_responses = Some 3,
         tc_responses_by_session = Some [(''s1'', 3)]\<rparr>,
      mr_activity_timeline = []\<rparr>"

lemma tool_bars_ranked_witness:
  "sorted_wrt (\<lambda>a b. tr_count b \<le> tr_count a \<and> tr_pct b \<le> tr_pct a) (tv_rows demo_tool_view) \<and>
   map tr_pct (tv_rows demo_tool_view) = [100, 100, 25]"
proof -
  have "ToolUsage demo_tools ''s1'' = (''Tool Usage'', Inr demo_tool_view)" by code_simp
  moreover have "\<forall>x \<in> set (tu_by_tool demo_tools). 0 < snd x" by (simp add: demo_tools_def)
  moreover have "map tr_pct (tv_rows demo_tool_view) = [100, 100, 25]" by code_simp
  ultimately show ?thesis using tool_bars_ranked [of demo_tools "''s1''" _ demo_tool_view] by blast
qed

lemma radar_partitions_disc_witness:
  "sg_end (radar_segments [(''Explore'', 3), (''Plan'', 1)] ! 1) = 360 \<and>
   map sg_start (radar_segments [(''Explore'', 3), (''Plan'', 1)]) = [0, 270]"
  using radar_partitions_disc [of "[(''Explore'', 3), (''Plan'', 1)]"]
  by (simp add: radar_segments_def Let_def)

lemma kpi_agrees_with_cards_witness:
  "kc_value (buildCards (Some demo_metrics) ''s1'' ! 5) = ''3/4'' \<and>
   kc_value (buildCards (Some demo_metrics) ''s1'' ! 3) = ''16.7%''"
proof -
  have task: "TaskCompletion (mr_task_completion demo_metrics) ''s1'' =
          (''Task Completion'', Inr (''3 / 4'', False, ''75% of scheduled tasks completed '' @ emdash @ '' 1 still in flight.''))"
    by code_simp
  have "fst (PermissionFriction (mr_permission_friction demo_metrics) ''s1'') = ''Permission Friction''" and
    "map_sum id fst (snd (PermissionFriction (mr_permission_friction demo_metrics) ''s1'')) = (Inr 3 :: string + int)"
    by code_simp+
  then obtain msg where prompts:
    "PermissionFriction (mr_permission_friction demo_metrics) ''s1'' = (''Permission Friction'', Inr (3, msg))"
    by (cases "PermissionFriction (mr_permission_friction demo_metrics) ''s1''"; cases "snd (PermissionFriction (mr_permission_friction demo_metrics) ''s1'')") auto
  have share: "(if 0 < session_tool_count demo_metrics ''s1''
      then to_fixed 1 (percent_of 3 (session_tool_count demo_metrics ''s1'')) @ ''%'' else emdash) = ''16.7%''"
    by code_simp
  show ?thesis
    using kpi_agrees_with_cards [OF _ task prompts] by (simp add: share)
qed

end
