(* ===== verification/ActivityTimeline.thy ===== *)
theory ActivityTimeline
  imports Metrics
begin

text \<open>
  The activity timeline, \<open>components/metrics/ActivityTimeline.tsx\<close>: the dots and gaps it draws and the
  selection of a time range with the mouse. The state is the component's five \<open>useState\<close> cells; a step is
  one mouse event, with the plot's left edge and width as the browser reports them (\<open>None\<close> when the
  container is not mounted). Times are milliseconds; \<open>parse_date\<close> is \<open>new Date(s).getTime()\<close>.
\<close>

section \<open>What is drawn\<close>

record event_dot =
  ed_ts :: "int option"
  ed_row :: nat
  ed_category :: string
  ed_sid :: string

definition category_labels :: "(string, string) omap" where
  "category_labels =
     [(''tool'', ''Tool''), (''error'', ''Error''), (''notification'', ''Notify''), (''subagent'', ''Subagent''),
      (''session'', ''Session''), (''permission'', ''Perm''), (''task'', ''Task''), (''prompt'', ''Prompt'')]"

definition shown_sessions :: "timeline_session list \<Rightarrow> string \<Rightarrow> timeline_session list" where
  "shown_sessions ss selectedSid =
     (if selectedSid \<noteq> ''all'' then filter (\<lambda>s. ts_sid s = selectedSid) ss else ss)"

definition timeline_dots :: "(string \<Rightarrow> int option) \<Rightarrow> timeline_session list \<Rightarrow> event_dot list" where
  "timeline_dots parse_date ss =
     concat (map (\<lambda>(rowIdx, s).
       map (\<lambda>(t, c). \<lparr>ed_ts = parse_date t, ed_row = rowIdx, ed_category = c, ed_sid = ts_sid s\<rparr>) (ts_events s))
       (enumerate 0 ss))"

definition dotsByCategory :: "event_dot list \<Rightarrow> (string, event_dot list) omap" where
  "dotsByCategory = om_group ed_category"

record idle_gap =
  ig_start :: "int option"
  ig_end :: "int option"
  ig_row :: nat
  ig_duration :: rat

definition idleGaps :: "(string \<Rightarrow> int option) \<Rightarrow> timeline_session list \<Rightarrow> idle_gap list" where
  "idleGaps parse_date ss =
     concat (map (\<lambda>(rowIdx, s).
       map (\<lambda>(a, b, d). \<lparr>ig_start = parse_date a, ig_end = parse_date b, ig_row = rowIdx, ig_duration = d\<rparr>)
         (ts_idle_gaps s)) (enumerate 0 ss))"

text \<open>The bounds start at plus and minus infinity (\<open>None\<close>) and an invalid time compares false with both.\<close>

definition lower_min :: "event_dot \<Rightarrow> int option \<Rightarrow> int option" where
  "lower_min d m =
     (case (ed_ts d, m) of
        (Some t, None) \<Rightarrow> Some t
      | (Some t, Some v) \<Rightarrow> if t < v then Some t else m
      | (None, _) \<Rightarrow> m)"

definition raise_max :: "event_dot \<Rightarrow> int option \<Rightarrow> int option" where
  "raise_max d m =
     (case (ed_ts d, m) of
        (Some t, None) \<Rightarrow> Some t
      | (Some t, Some v) \<Rightarrow> if t > v then Some t else m
      | (None, _) \<Rightarrow> m)"

definition timeBounds :: "event_dot list \<Rightarrow> int \<times> int" where
  "timeBounds dots =
     (let mn = fold lower_min dots None; mx = fold raise_max dots None
      in ((case mn of None \<Rightarrow> 0 | Some v \<Rightarrow> v), (case mx of None \<Rightarrow> 0 | Some v \<Rightarrow> v)))"

section \<open>Zooming\<close>

record zoom =
  zm_left :: "rat option"
  zm_right :: "rat option"
  zm_refLeft :: "rat option"
  zm_refRight :: "rat option"
  zm_dragging :: bool

definition zoom_init :: zoom where
  "zoom_init = \<lparr>zm_left = None, zm_right = None, zm_refLeft = None, zm_refRight = None, zm_dragging = False\<rparr>"

definition full_domain :: "int \<times> int \<Rightarrow> rat \<times> rat" where
  "full_domain b =
     (let lo = of_int (fst b); hi = of_int (snd b); p = (hi - lo) * (1 / 100); pad = (if p = 0 then 60000 else p)
      in (lo - pad, hi + pad))"

definition timeline_domain :: "int \<times> int \<Rightarrow> zoom \<Rightarrow> rat \<times> rat" where
  "timeline_domain b z =
     (case (zm_left z, zm_right z) of (Some l, Some r) \<Rightarrow> (l, r) | _ \<Rightarrow> full_domain b)"

definition margin_left :: rat where "margin_left = 80"
definition margin_right :: rat where "margin_right = 16"

definition pxToTs :: "(rat \<times> rat) option \<Rightarrow> rat \<times> rat \<Rightarrow> rat \<Rightarrow> rat option" where
  "pxToTs rect dm clientX =
     (case rect of
        None \<Rightarrow> None
      | Some (left, width) \<Rightarrow>
          (let plotWidth = width - margin_left - margin_right
           in if plotWidth \<le> 0 then None
              else (let px = clientX - left - margin_left; ratio = max 0 (min 1 (px / plotWidth))
                    in Some (fst dm + ratio * (snd dm - fst dm)))))"

definition handleMouseDown :: "(rat \<times> rat) option \<Rightarrow> int \<times> int \<Rightarrow> rat \<Rightarrow> zoom \<Rightarrow> zoom" where
  "handleMouseDown rect b x z =
     (case pxToTs rect (timeline_domain b z) x of
        None \<Rightarrow> z
      | Some t \<Rightarrow> z\<lparr>zm_refLeft := Some t, zm_dragging := True\<rparr>)"

definition handleMouseMove :: "(rat \<times> rat) option \<Rightarrow> int \<times> int \<Rightarrow> rat \<Rightarrow> zoom \<Rightarrow> zoom" where
  "handleMouseMove rect b x z =
     (if \<not> zm_dragging z then z
      else (case pxToTs rect (timeline_domain b z) x of
              None \<Rightarrow> z | Some t \<Rightarrow> z\<lparr>zm_refRight := Some t\<rparr>))"

definition handleMouseUp :: "zoom \<Rightarrow> zoom" where
  "handleMouseUp z =
     (if \<not> zm_dragging z then z
      else (let z1 = z\<lparr>zm_dragging := False\<rparr>;
                z2 = (case (zm_refLeft z, zm_refRight z) of
                        (Some a, Some c) \<Rightarrow>
                          (let left = min a c; right = max a c
                           in if right - left > 1000 then z1\<lparr>zm_left := Some left, zm_right := Some right\<rparr> else z1)
                      | _ \<Rightarrow> z1)
            in z2\<lparr>zm_refLeft := None, zm_refRight := None\<rparr>))"

definition handleResetZoom :: "zoom \<Rightarrow> zoom" where
  "handleResetZoom z = z\<lparr>zm_left := None, zm_right := None\<rparr>"

datatype mouse = MouseDown rat | MouseMove rat | MouseUp | MouseLeave | ResetZoom

fun timeline_step :: "(rat \<times> rat) option \<Rightarrow> int \<times> int \<Rightarrow> mouse \<Rightarrow> zoom \<Rightarrow> zoom" where
  "timeline_step rect b (MouseDown x) z = handleMouseDown rect b x z"
| "timeline_step rect b (MouseMove x) z = handleMouseMove rect b x z"
| "timeline_step rect b MouseUp z = handleMouseUp z"
| "timeline_step rect b MouseLeave z = handleMouseUp z"
| "timeline_step rect b ResetZoom z = handleResetZoom z"

text \<open>The chart as it is rendered: its header, the axis and the selected area.\<close>

datatype timeline_header = ResetButton | DragHint | NoHeader

record timeline_view =
  tl_height :: int
  tl_header :: timeline_header
  tl_domain :: "rat \<times> rat"
  tl_rows :: "string list"
  tl_gaps :: "idle_gap list"
  tl_selection :: "(rat \<times> rat) option"
  tl_series :: "(string \<times> event_dot list) list"

definition ActivityTimeline ::
  "(string \<Rightarrow> int option) \<Rightarrow> timeline_session list \<Rightarrow> string \<Rightarrow> zoom \<Rightarrow> string \<times> (string + timeline_view)" where
  "ActivityTimeline parse_date ss selectedSid z =
     (let sessions = shown_sessions ss selectedSid;
          dots = timeline_dots parse_date sessions;
          isZoomed = (zm_left z \<noteq> None)
      in MetricCard ''Activity Timeline'' (sessions = []) ''No session activity data''
           \<lparr>tl_height = min 500 (max 200 (int (length sessions) * 32 + 60)),
            tl_header = (if isZoomed then ResetButton else if sessions \<noteq> [] then DragHint else NoHeader),
            tl_domain = timeline_domain (timeBounds dots) z,
            tl_rows = map ts_label sessions,
            tl_gaps = idleGaps parse_date sessions,
            tl_selection =
              (case (zm_refLeft z, zm_refRight z) of (Some a, Some c) \<Rightarrow> Some (a, c) | _ \<Rightarrow> None),
            tl_series =
              map (\<lambda>(cat, ds). ((case om_get category_labels cat of Some l \<Rightarrow> l | None \<Rightarrow> cat), ds))
                (dotsByCategory dots)\<rparr>)"

section \<open>Bounds of the data\<close>

lemma lower_min_Some: "lower_min d (Some a) = Some (case ed_ts d of None \<Rightarrow> a | Some t \<Rightarrow> min t a)"
  and raise_max_Some: "raise_max d (Some a) = Some (case ed_ts d of None \<Rightarrow> a | Some t \<Rightarrow> max t a)"
  by (auto simp: lower_min_def raise_max_def split: option.splits)

lemma fold_lower_min:
  "\<exists>v. fold lower_min ds (Some a) = Some v \<and> v \<le> a \<and> (\<forall>d \<in> set ds. \<forall>t. ed_ts d = Some t \<longrightarrow> v \<le> t)"
proof (induction ds arbitrary: a)
  case (Cons d ds)
  show ?case
    using Cons.IH [of "case ed_ts d of None \<Rightarrow> a | Some t \<Rightarrow> min t a"]
    by (cases "ed_ts d") (auto simp: lower_min_Some)
qed simp

lemma fold_raise_max:
  "\<exists>v. fold raise_max ds (Some a) = Some v \<and> a \<le> v \<and> (\<forall>d \<in> set ds. \<forall>t. ed_ts d = Some t \<longrightarrow> t \<le> v)"
proof (induction ds arbitrary: a)
  case (Cons d ds)
  show ?case
    using Cons.IH [of "case ed_ts d of None \<Rightarrow> a | Some t \<Rightarrow> max t a"]
    by (cases "ed_ts d") (auto simp: raise_max_Some)
qed simp

lemma timeBounds_skip: "ed_ts d = None \<Longrightarrow> timeBounds (d # ds) = timeBounds ds"
  by (simp add: timeBounds_def lower_min_def raise_max_def)

lemma timeBounds_Cons:
  "ed_ts d = Some t \<Longrightarrow> \<exists>lo hi. timeBounds (d # ds) = (lo, hi) \<and> lo \<le> t \<and> t \<le> hi \<and>
     (\<forall>e \<in> set ds. \<forall>u. ed_ts e = Some u \<longrightarrow> lo \<le> u \<and> u \<le> hi)"
  using fold_lower_min [of ds t] fold_raise_max [of ds t]
  by (auto simp: timeBounds_def lower_min_def raise_max_def)

lemma timeBounds_ok:
  "fst (timeBounds ds) \<le> snd (timeBounds ds) \<and>
   (\<forall>d \<in> set ds. \<forall>t. ed_ts d = Some t \<longrightarrow> fst (timeBounds ds) \<le> t \<and> t \<le> snd (timeBounds ds))"
proof (induction ds)
  case (Cons d ds)
  show ?case
  proof (cases "ed_ts d")
    case None
    with Cons timeBounds_skip show ?thesis by auto
  next
    case (Some t)
    then show ?thesis using timeBounds_Cons [of d t ds] by fastforce
  qed
qed (simp add: timeBounds_def)

lemma full_domain_around:
  assumes "fst b \<le> snd b"
  shows "fst (full_domain b) < of_int (fst b)" and "of_int (snd b) < snd (full_domain b)"
    and "fst (full_domain b) < snd (full_domain b)"
proof -
  let ?p = "(of_int (snd b) - of_int (fst b)) * (1 / 100) :: rat"
  define pad where "pad = (if ?p = 0 then 60000 else ?p)"
  have le: "(of_int (fst b) :: rat) \<le> of_int (snd b)" using assms by simp
  then have "0 < pad" by (auto simp: pad_def)
  moreover have "full_domain b = (of_int (fst b) - pad, of_int (snd b) + pad)"
    by (simp add: full_domain_def pad_def Let_def)
  ultimately show "fst (full_domain b) < of_int (fst b)" "of_int (snd b) < snd (full_domain b)"
    "fst (full_domain b) < snd (full_domain b)"
    using le by auto
qed

lemma pxToTs_inside:
  assumes "pxToTs rect dm x = Some t" and "fst dm < snd dm"
  shows "fst dm \<le> t \<and> t \<le> snd dm"
proof -
  have "\<exists>q. t = fst dm + max 0 (min 1 q) * (snd dm - fst dm)"
    using assms(1) by (auto simp: pxToTs_def Let_def split: option.splits if_splits)
  then obtain q where "t = fst dm + max 0 (min 1 q) * (snd dm - fst dm)" by blast
  moreover define r where "r = max 0 (min 1 q)"
  ultimately have r: "t = fst dm + r * (snd dm - fst dm)" "0 \<le> r" "r \<le> 1" by auto
  then have "r * (snd dm - fst dm) \<le> 1 * (snd dm - fst dm)"
    using assms(2) by (intro mult_right_mono) auto
  then have "t \<le> fst dm + 1 * (snd dm - fst dm)" unfolding r(1) by (rule add_left_mono)
  then have "t \<le> snd dm" by simp
  moreover have "fst dm \<le> t" using r assms(2) by simp
  ultimately show ?thesis by blast
qed

section \<open>The invariant of a zoomed timeline\<close>

text \<open>
  The selection exists only while the mouse is dragged and lies in the domain of the data; a zoom is more
  than a second wide and lies there too.
\<close>

definition zoom_ok :: "int \<times> int \<Rightarrow> zoom \<Rightarrow> bool" where
  "zoom_ok b z \<longleftrightarrow>
     (let lo = fst (full_domain b); hi = snd (full_domain b) in
      (zm_left z = None \<longleftrightarrow> zm_right z = None) \<and>
      (\<forall>l r. zm_left z = Some l \<longrightarrow> zm_right z = Some r \<longrightarrow> lo \<le> l \<and> l + 1000 < r \<and> r \<le> hi) \<and>
      (\<forall>t. zm_refLeft z = Some t \<longrightarrow> lo \<le> t \<and> t \<le> hi) \<and>
      (\<forall>t. zm_refRight z = Some t \<longrightarrow> lo \<le> t \<and> t \<le> hi) \<and>
      (zm_dragging z \<longleftrightarrow> zm_refLeft z \<noteq> None) \<and> (\<not> zm_dragging z \<longrightarrow> zm_refRight z = None))"

lemma zoom_ok_domain:
  assumes "zoom_ok b z" and "fst b \<le> snd b"
  shows "fst (full_domain b) \<le> fst (timeline_domain b z) \<and> fst (timeline_domain b z) < snd (timeline_domain b z) \<and>
         snd (timeline_domain b z) \<le> snd (full_domain b)"
proof (cases "zm_left z")
  case None
  with full_domain_around(3) [OF assms(2)] show ?thesis by (simp add: timeline_domain_def)
next
  case (Some l)
  with assms(1) obtain r where "zm_right z = Some r" by (auto simp: zoom_ok_def Let_def)
  with Some assms(1) show ?thesis by (simp add: timeline_domain_def zoom_ok_def Let_def)
qed

lemma zoom_ok_px:
  assumes "zoom_ok b z" and "fst b \<le> snd b" and "pxToTs rect (timeline_domain b z) x = Some t"
  shows "fst (full_domain b) \<le> t \<and> t \<le> snd (full_domain b)"
  using zoom_ok_domain [OF assms(1,2)] pxToTs_inside [OF assms(3)] by auto

lemma zoom_ok_init: "zoom_ok b zoom_init"
  by (simp add: zoom_ok_def zoom_init_def Let_def)

lemma zoom_ok_down: "zoom_ok b z \<Longrightarrow> fst b \<le> snd b \<Longrightarrow> zoom_ok b (handleMouseDown rect b x z)"
  using zoom_ok_px [of b z rect x]
  by (auto simp: handleMouseDown_def split: option.splits) (auto simp: zoom_ok_def Let_def)

lemma zoom_ok_move: "zoom_ok b z \<Longrightarrow> fst b \<le> snd b \<Longrightarrow> zoom_ok b (handleMouseMove rect b x z)"
  using zoom_ok_px [of b z rect x]
  by (auto simp: handleMouseMove_def split: option.splits) (auto simp: zoom_ok_def Let_def)

lemma zoom_ok_up: "zoom_ok b z \<Longrightarrow> zoom_ok b (handleMouseUp z)"
  by (auto simp: handleMouseUp_def zoom_ok_def Let_def split: option.splits)

lemma zoom_ok_reset: "zoom_ok b z \<Longrightarrow> zoom_ok b (handleResetZoom z)"
  by (simp add: handleResetZoom_def zoom_ok_def Let_def)

lemma zoom_ok_step: "zoom_ok b z \<Longrightarrow> fst b \<le> snd b \<Longrightarrow> zoom_ok b (timeline_step rect b e z)"
  by (cases e) (simp_all add: zoom_ok_down zoom_ok_move zoom_ok_up zoom_ok_reset)

lemma zoom_ok_run:
  "zoom_ok b z \<Longrightarrow> fst b \<le> snd b \<Longrightarrow> zoom_ok b (fold (\<lambda>(rect, e). timeline_step rect b e) es z)"
  by (induction es arbitrary: z) (auto simp: zoom_ok_step)

text \<open>C25. Whatever the mouse does, also while the window is resized or the plot is too narrow, the time axis
  shows a non-empty range inside that of the data; unzoomed it shows every dot with a valid time, a zoom is
  wider than a second, and the selected area is only drawn during a drag.\<close>
theorem timeline_zoom_sound:
  assumes "dots = timeline_dots parse_date (shown_sessions ss sid)"
    and "z = fold (\<lambda>(rect, e). timeline_step rect (timeBounds dots) e) es zoom_init"
    and "ActivityTimeline parse_date ss sid z = (title, Inr v)"
  shows "fst (tl_domain v) < snd (tl_domain v) \<and>
         fst (full_domain (timeBounds dots)) \<le> fst (tl_domain v) \<and>
         snd (tl_domain v) \<le> snd (full_domain (timeBounds dots)) \<and>
         (tl_header v = ResetButton \<longrightarrow> fst (tl_domain v) + 1000 < snd (tl_domain v)) \<and>
         (tl_header v \<noteq> ResetButton \<longrightarrow>
            (\<forall>d \<in> set dots. \<forall>t. ed_ts d = Some t \<longrightarrow> fst (tl_domain v) < of_int t \<and> of_int t < snd (tl_domain v))) \<and>
         (tl_selection v \<noteq> None \<longrightarrow> zm_dragging z)"
proof -
  let ?b = "timeBounds dots"
  have b: "fst ?b \<le> snd ?b" using timeBounds_ok by blast
  have ok: "zoom_ok ?b z" unfolding assms(2) by (rule zoom_ok_run [OF zoom_ok_init b])
  note card = assms(3) [unfolded ActivityTimeline_def MetricCard_def Let_def, folded assms(1), symmetric]
  have v: "tl_domain v = timeline_domain ?b z" "tl_header v = ResetButton \<longleftrightarrow> zm_left z \<noteq> None"
    "tl_selection v \<noteq> None \<longrightarrow> zm_refRight z \<noteq> None"
    using card by (simp_all split: if_split_asm option.split)
  have "fst (timeline_domain ?b z) + 1000 < snd (timeline_domain ?b z)" if "zm_left z \<noteq> None"
    using that ok by (auto simp: zoom_ok_def Let_def timeline_domain_def)
  moreover have "fst (timeline_domain ?b z) < of_int t \<and> of_int t < snd (timeline_domain ?b z)"
    if "zm_left z = None" and "d \<in> set dots" and "ed_ts d = Some t" for d t
  proof -
    have "fst ?b \<le> t \<and> t \<le> snd ?b" using timeBounds_ok that(2,3) by blast
    then have "of_int (fst ?b) \<le> (of_int t :: rat) \<and> of_int t \<le> (of_int (snd ?b) :: rat)" by simp
    with full_domain_around [OF b] that(1) show ?thesis by (simp add: timeline_domain_def)
  qed
  moreover have "zm_refRight z \<noteq> None \<longrightarrow> zm_dragging z"
    using ok by (auto simp: zoom_ok_def Let_def)
  ultimately show ?thesis using zoom_ok_domain [OF ok b] v(3) unfolding v(1,2) by blast
qed

text \<open>A drag of more than a second zooms to the selected range, a shorter one or a click to nothing.\<close>

lemma drag_zooms_to_selection:
  assumes "\<not> zm_dragging z" and "zm_refRight z = None"
    and "pxToTs rect (timeline_domain b z) x = Some s" and "pxToTs rect (timeline_domain b z) y = Some t"
  shows "timeline_domain b (fold (timeline_step rect b) [MouseDown x, MouseMove y, MouseUp] z) =
           (if max s t - min s t > 1000 then (min s t, max s t) else timeline_domain b z)"
  using assms
  by (cases "zm_left z"; cases "zm_right z")
     (simp_all add: handleMouseDown_def handleMouseMove_def handleMouseUp_def timeline_domain_def Let_def)

lemma click_keeps_domain:
  assumes "\<not> zm_dragging z" and "zm_refRight z = None"
  shows "timeline_domain b (fold (timeline_step rect b) [MouseDown x, MouseUp] z) = timeline_domain b z"
  using assms by (simp add: handleMouseDown_def handleMouseUp_def timeline_domain_def Let_def split: option.splits)

lemma reset_shows_all: "timeline_domain b (handleResetZoom z) = full_domain b"
  by (simp add: handleResetZoom_def timeline_domain_def)

section \<open>Witness\<close>

definition demo_time :: "string \<Rightarrow> int option" where
  "demo_time s = (if s = ''a'' then Some 100000 else if s = ''b'' then Some 300000 else None)"

definition demo_timeline :: "timeline_session list" where
  "demo_timeline =
     [\<lparr>ts_sid = ''s1'', ts_label = ''main'', ts_start = ''a'', ts_end = ''b'',
       ts_events = [(''a'', ''tool''), (''b'', ''error''), (''?'', ''tool'')], ts_idle_gaps = [], ts_density = 0\<rparr>]"

definition demo_drag :: "((rat \<times> rat) option \<times> mouse) list" where
  "demo_drag = [(Some (0, 1096), MouseDown 580), (Some (0, 1096), MouseMove 2000), (Some (0, 1096), MouseUp)]"

definition demo_dots :: "event_dot list" where
  "demo_dots = timeline_dots demo_time (shown_sessions demo_timeline ''all'')"

definition demo_zoom :: zoom where
  "demo_zoom = fold (\<lambda>(rect, e). timeline_step rect (timeBounds demo_dots) e) demo_drag zoom_init"

lemma timeline_zoom_sound_witness:
  "zm_left demo_zoom = Some 200000 \<and>
   snd (timeline_domain (timeBounds demo_dots) demo_zoom) \<le> snd (full_domain (timeBounds demo_dots))"
proof -
  have left: "zm_left demo_zoom = Some 200000" by code_simp
  obtain v where v: "ActivityTimeline demo_time demo_timeline ''all'' demo_zoom = (''Activity Timeline'', Inr v)"
    "tl_domain v = timeline_domain (timeBounds demo_dots) demo_zoom"
    by (simp add: ActivityTimeline_def MetricCard_def Let_def demo_dots_def)
       (simp add: shown_sessions_def demo_timeline_def)
  show ?thesis
    using timeline_zoom_sound [OF demo_dots_def demo_zoom_def v(1)] left v(2) by simp
qed

end
