(* ===== verification/MetricsView.thy ===== *)
theory MetricsView
  imports ActivityTimeline
begin

text \<open>
  The metrics page, \<open>components/metrics/MetricsView.tsx\<close> with \<open>hooks/useMetrics.ts\<close>: filters, the moving time
  window, the request key, what is shown while a reply is missing, the freshness label and the export.
  Times are milliseconds since 1970; every step carries the time at which it happens. The cache of SWR
  is an association list from keys to replies: as its documentation says, a component sees the entry
  of its present key, nothing when there is none, and the same object again when a reply is equal.
\<close>

section \<open>Dates\<close>

text \<open>\<open>Date.prototype.toISOString\<close>: the proleptic Gregorian calendar in UTC.\<close>

definition civil_of_days :: "int \<Rightarrow> int \<times> int \<times> int" where
  "civil_of_days d0 =
     (let z = d0 + 719468; era = z div 146097; doe = z mod 146097;
          yoe = (doe - doe div 1460 + doe div 36524 - doe div 146096) div 365;
          doy = doe - (365 * yoe + yoe div 4 - yoe div 100);
          mp = (5 * doy + 2) div 153;
          d = doy - (153 * mp + 2) div 5 + 1;
          m = (if mp < 10 then mp + 3 else mp - 9);
          y = yoe + era * 400 + (if m \<le> 2 then 1 else 0)
      in (y, m, d))"

definition pad_num :: "nat \<Rightarrow> int \<Rightarrow> string" where
  "pad_num w n = (let s = string_of_int n in replicate (w - length s) (CHR ''0'') @ s)"

definition iso_year :: "int \<Rightarrow> string" where
  "iso_year y =
     (if 0 \<le> y \<and> y \<le> 9999 then pad_num 4 y
      else (if y < 0 then CHR ''-'' else CHR ''+'') # pad_num 6 \<bar>y\<bar>)"

definition toISOString :: "int \<Rightarrow> string" where
  "toISOString ms =
     (let (y, m, d) = civil_of_days (ms div 86400000); r = ms mod 86400000
      in iso_year y @ ''-'' @ pad_num 2 m @ ''-'' @ pad_num 2 d @ ''T''
         @ pad_num 2 (r div 3600000) @ '':'' @ pad_num 2 (r mod 3600000 div 60000) @ '':''
         @ pad_num 2 (r mod 60000 div 1000) @ ''.'' @ pad_num 3 (r mod 1000) @ ''Z'')"

section \<open>The request\<close>

text \<open>\<open>URLSearchParams.toString\<close> writes the form encoding, which differs from \<open>encodeURIComponent\<close>.\<close>

definition form_safe :: "char \<Rightarrow> bool" where
  "form_safe c \<longleftrightarrow>
     (let n = (of_char c :: nat) in
        (48 \<le> n \<and> n \<le> 57) \<or> (65 \<le> n \<and> n \<le> 90) \<or> (97 \<le> n \<and> n \<le> 122) \<or> n \<in> {42, 45, 46, 95})"

definition form_byte :: "char \<Rightarrow> string" where
  "form_byte c =
     (if c = CHR '' '' then ''+'' else if form_safe c then [c]
      else [CHR ''%'', upper_hex (of_char c div 16), upper_hex (of_char c mod 16)])"

definition form_encode :: "string \<Rightarrow> string" where
  "form_encode s = concat (map form_byte s)"

definition params_text :: "(string \<times> string) list \<Rightarrow> string" where
  "params_text ps = join_with ''&'' (map (\<lambda>(k, v). form_encode k @ CHR ''='' # form_encode v) ps)"

definition metrics_params :: "string option \<Rightarrow> string option \<Rightarrow> (string \<times> string) list" where
  "metrics_params sid since =
     (if truthy sid then [(''sid'', the sid)] else []) @ (if truthy since then [(''since'', the since)] else [])"

definition useMetrics :: "string option \<Rightarrow> string option \<Rightarrow> string" where
  "useMetrics sid since =
     (let query = params_text (metrics_params sid since)
      in ''/api/metrics'' @ (if query = '''' then '''' else CHR ''?'' # query))"

section \<open>The page\<close>

datatype sub_tab = ActivityTab | RunEconomyTab

datatype time_range = R15m | R1h | R6h | R24h | R7d | RAll

fun range_text :: "time_range \<Rightarrow> string" where
  "range_text R15m = ''15m''"
| "range_text R1h = ''1h''"
| "range_text R6h = ''6h''"
| "range_text R24h = ''24h''"
| "range_text R7d = ''7d''"
| "range_text RAll = ''all''"

fun range_mins :: "time_range \<Rightarrow> int option" where
  "range_mins R15m = Some 15"
| "range_mins R1h = Some 60"
| "range_mins R6h = Some 360"
| "range_mins R24h = Some 1440"
| "range_mins R7d = Some (1440 * 7)"
| "range_mins RAll = None"

definition computeSince :: "int \<Rightarrow> time_range \<Rightarrow> string option" where
  "computeSince now r = map_option (\<lambda>mins. toISOString (now - mins * 60000)) (range_mins r)"

definition formatRelativeAgo :: "int \<Rightarrow> int \<Rightarrow> string" where
  "formatRelativeAgo now ts =
     (let seconds = max 0 ((now - ts) div 1000)
      in if seconds < 60 then string_of_int seconds @ ''s ago''
         else if seconds < 3600 then string_of_int (seconds div 60) @ ''m ago''
         else string_of_int (seconds div 3600) @ ''h ago'')"

text \<open>
  The state: the \<open>useState\<close> cells, the memoised window and label, the ref with the time of the last change,
  the cache, the reply the effect saw last, and the state of the timeline while it is mounted.
\<close>

record metrics_page =
  mv_subTab :: sub_tab
  mv_selectedSid :: string
  mv_timeRange :: time_range
  mv_since :: "string option"
  mv_lastFetch :: int
  mv_liveLabel :: string
  mv_cache :: "(string, metrics) omap"
  mv_seen :: "(string \<times> metrics) option"
  mv_timeline :: "zoom option"

definition metrics_key :: "metrics_page \<Rightarrow> string" where
  "metrics_key v =
     useMetrics (if mv_selectedSid v \<noteq> ''all'' then Some (mv_selectedSid v) else None) (mv_since v)"

definition page_metrics :: "metrics_page \<Rightarrow> metrics option" where
  "page_metrics v = om_get (mv_cache v) (metrics_key v)"

text \<open>After a render: the effect on the shown metrics, and mounting or unmounting the timeline.\<close>

definition page_commit :: "int \<Rightarrow> metrics_page \<Rightarrow> metrics_page" where
  "page_commit now v =
     (let seen = map_option (Pair (metrics_key v)) (page_metrics v);
          v1 = (if seen \<noteq> mv_seen v
                then v\<lparr>mv_seen := seen, mv_lastFetch := (if seen \<noteq> None then now else mv_lastFetch v)\<rparr> else v)
      in v1\<lparr>mv_timeline :=
              (if mv_subTab v = ActivityTab \<and> page_metrics v \<noteq> None
               then Some (case mv_timeline v of Some z \<Rightarrow> z | None \<Rightarrow> zoom_init) else None)\<rparr>)"

definition page_mount :: "(string, metrics) omap \<Rightarrow> int \<Rightarrow> metrics_page" where
  "page_mount cache now =
     page_commit now
       \<lparr>mv_subTab = ActivityTab, mv_selectedSid = ''all'', mv_timeRange = R1h, mv_since = computeSince now R1h,
        mv_lastFetch = now, mv_liveLabel = formatRelativeAgo now now, mv_cache = cache, mv_seen = None,
        mv_timeline = None\<rparr>"

datatype page_event =
    PickTab sub_tab
  | PickSid string
  | PickRange "time_range option"
  | SinceTick
  | LiveTick
  | Reply string metrics
  | TimelineMouse "(rat \<times> rat) option" mouse

definition page_bounds :: "(string \<Rightarrow> int option) \<Rightarrow> metrics_page \<Rightarrow> int \<times> int" where
  "page_bounds parse_date v =
     (case page_metrics v of
        None \<Rightarrow> (0, 0)
      | Some m \<Rightarrow> timeBounds (timeline_dots parse_date
                    (shown_sessions (mr_activity_timeline m) (mv_selectedSid v))))"

definition page_act :: "(string \<Rightarrow> int option) \<Rightarrow> int \<Rightarrow> page_event \<Rightarrow> metrics_page \<Rightarrow> metrics_page" where
  "page_act parse_date now e v =
     (case e of
        PickTab t \<Rightarrow> v\<lparr>mv_subTab := t\<rparr>
      | PickSid s \<Rightarrow> v\<lparr>mv_selectedSid := s\<rparr>
      | PickRange None \<Rightarrow> v
      | PickRange (Some r) \<Rightarrow>
          if r = mv_timeRange v then v else v\<lparr>mv_timeRange := r, mv_since := computeSince now r\<rparr>
      | SinceTick \<Rightarrow> if mv_timeRange v = RAll then v else v\<lparr>mv_since := computeSince now (mv_timeRange v)\<rparr>
      | LiveTick \<Rightarrow> v\<lparr>mv_liveLabel := formatRelativeAgo now (mv_lastFetch v)\<rparr>
      | Reply k m \<Rightarrow> v\<lparr>mv_cache := om_set k m (mv_cache v)\<rparr>
      | TimelineMouse rect me \<Rightarrow>
          v\<lparr>mv_timeline := map_option (timeline_step rect (page_bounds parse_date v) me) (mv_timeline v)\<rparr>)"

definition page_step :: "(string \<Rightarrow> int option) \<Rightarrow> int \<times> page_event \<Rightarrow> metrics_page \<Rightarrow> metrics_page" where
  "page_step parse_date te v = page_commit (fst te) (page_act parse_date (fst te) (snd te) v)"

text \<open>What is rendered.\<close>

record page_panels =
  pp_timeline :: "string \<times> (string + timeline_view)"
  pp_tools :: "string \<times> (string + tool_usage_view)"
  pp_errors :: "string \<times> (string + (string + error_view))"
  pp_lifecycle :: "string \<times> (string + lifecycle_view)"
  pp_friction :: "string \<times> (string + int \<times> string)"
  pp_subagents :: "string \<times> (string + subagent_view)"
  pp_tasks :: "string \<times> (string + string \<times> bool \<times> string)"
  pp_files :: "string \<times> (string + (string + file_view))"

definition sessionOptions :: "session list option \<Rightarrow> (string \<times> string) list" where
  "sessionOptions sessions =
     (case sessions of
        None \<Rightarrow> []
      | Some ss \<Rightarrow> map (\<lambda>s. (s_sid s, s_branch s @ '' '' @ emdash @ '' '' @ take 7 (s_sid s))) ss)"

definition activity_panels ::
  "(string \<Rightarrow> int option) \<Rightarrow> (string \<Rightarrow> string) \<Rightarrow> metrics_page \<Rightarrow> metrics \<Rightarrow> page_panels" where
  "activity_panels parse_date clock v m =
     (let sid = mv_selectedSid v in
      \<lparr>pp_timeline =
         ActivityTimeline parse_date (mr_activity_timeline m) sid
           (case mv_timeline v of Some z \<Rightarrow> z | None \<Rightarrow> zoom_init),
       pp_tools = ToolUsage (mr_tool_usage m) sid,
       pp_errors = ErrorTracking parse_date (mr_error_tracking m) sid,
       pp_lifecycle = SessionLifecycle (mr_session_lifecycle m),
       pp_friction = PermissionFriction (mr_permission_friction m) sid,
       pp_subagents = SubagentUtil (mr_subagent_utilization m),
       pp_tasks = TaskCompletion (mr_task_completion m) sid,
       pp_files = FileActivity clock (mr_file_activity m)\<rparr>)"

record activity_content =
  ac_options :: "(string \<times> string) list"
  ac_label :: string
  ac_kpis :: "kpi_card list"
  ac_body :: "string + page_panels"

definition ActivityContent ::
  "(string \<Rightarrow> int option) \<Rightarrow> (string \<Rightarrow> string) \<Rightarrow> session list option \<Rightarrow> metrics_page \<Rightarrow> activity_content" where
  "ActivityContent parse_date clock sessions v =
     \<lparr>ac_options = (''all'', ''All Sessions'') # sessionOptions sessions,
      ac_label = ''Updated '' @ mv_liveLabel v,
      ac_kpis = buildCards (page_metrics v) (mv_selectedSid v),
      ac_body = (case page_metrics v of
                   None \<Rightarrow> Inl ''Loading metrics...''
                 | Some m \<Rightarrow> Inr (activity_panels parse_date clock v m))\<rparr>"

definition MetricsView ::
  "(string \<Rightarrow> int option) \<Rightarrow> (string \<Rightarrow> string) \<Rightarrow> session list option \<Rightarrow> metrics_page \<Rightarrow> activity_content option" where
  "MetricsView parse_date clock sessions v =
     (if mv_subTab v = ActivityTab then Some (ActivityContent parse_date clock sessions v) else None)"

text \<open>The export button: the name of the file and its text.\<close>

definition exportMetricsCsv :: "int \<Rightarrow> metrics_page \<Rightarrow> (string \<times> string) option" where
  "exportMetricsCsv now v =
     map_option (\<lambda>m.
       (''metrics-'' @ range_text (mv_timeRange v) @ ''-''
          @ map (\<lambda>c. if c \<in> {CHR '':'', CHR ''T''} then CHR ''-'' else c) (take 19 (toISOString now)) @ ''.csv'',
        csv_text (metric_rows m (mv_selectedSid v) (range_text (mv_timeRange v))))) (page_metrics v)"

section \<open>Reading the request\<close>

text \<open>A server splits the query at ampersands and equals signs and undoes the form encoding.\<close>

definition unplus :: "char \<Rightarrow> char" where
  "unplus c = (if c = CHR ''+'' then CHR '' '' else c)"

definition form_decode :: "string \<Rightarrow> string option" where
  "form_decode s =
     (case uri_unescape (map unplus s) of
        Some b \<Rightarrow> if utf8_valid b then Some b else None | None \<Rightarrow> None)"

definition form_pair :: "string \<Rightarrow> (string \<times> string) option" where
  "form_pair p =
     (case index_of (CHR ''='') p of
        None \<Rightarrow> None
      | Some i \<Rightarrow> (case (form_decode (take i p), form_decode (drop (Suc i) p)) of
                    (Some k, Some v) \<Rightarrow> Some (k, v) | _ \<Rightarrow> None))"

definition form_query :: "string \<Rightarrow> (string \<times> string) option list" where
  "form_query url =
     (case index_of (CHR ''?'') url of
        None \<Rightarrow> []
      | Some i \<Rightarrow> map form_pair (split_on (CHR ''&'') (drop (Suc i) url)))"

lemma unplus_unreserved: "uri_unreserved c \<Longrightarrow> unplus c = c"
  by (auto simp: unplus_def uri_unreserved_def)

lemma form_safe_facts: "form_safe c \<Longrightarrow> c \<noteq> CHR ''+'' \<and> c \<noteq> CHR ''%'' \<and> c \<notin> {CHR ''&'', CHR ''='', CHR ''?''}"
  by (auto simp: form_safe_def)

lemma unescape_form_byte: "uri_unescape (map unplus (form_byte c @ r)) = map_option ((#) c) (uri_unescape (map unplus r))"
proof (cases "c = CHR '' '' \<or> form_safe c")
  case True
  then show ?thesis
    using form_safe_facts [of c] by (auto simp: form_byte_def unplus_def)
next
  case False
  have nib: "(of_char c :: nat) div 16 < 16" by (rule char_nibble)
  have "char_of ((of_char c :: nat) div 16 * 16 + of_char c mod 16) = c"
    by (simp only: div_mult_mod_eq char_of_char)
  moreover have "unplus (upper_hex n) = upper_hex n" if "n < 16" for n
    using that by (intro unplus_unreserved upper_hex_unreserved)
  moreover have "unplus (CHR ''%'') = CHR ''%''" by (simp add: unplus_def)
  ultimately show ?thesis using False nib by (simp add: form_byte_def hex_val_upper)
qed

lemma unescape_form: "uri_unescape (map unplus (form_encode s)) = Some s"
proof (induction s)
  case (Cons c s)
  then show ?case
    using unescape_form_byte [of c "form_encode s"] by (simp add: form_encode_def)
qed (simp add: form_encode_def)

interpretation form: codec form_encode form_decode utf8_valid
  by unfold_locales (simp add: form_decode_def unescape_form)

lemma form_encode_no_delim: "set (form_encode s) \<inter> {CHR ''&'', CHR ''='', CHR ''?''} = {}"
proof (induction s)
  case (Cons c s)
  have "d \<notin> {CHR ''&'', CHR ''='', CHR ''?''}" if "uri_unreserved d" for d
    using that by (auto simp: uri_unreserved_def)
  then have "upper_hex n \<notin> {CHR ''&'', CHR ''='', CHR ''?''}" if "n < 16" for n
    using that upper_hex_unreserved by blast
  from this [OF char_nibble, of c] this [of "of_char c mod 16"]
  have "set (form_byte c) \<inter> {CHR ''&'', CHR ''='', CHR ''?''} = {}"
    using form_safe_facts [of c] by (auto simp: form_byte_def)
  with Cons show ?case by (auto simp: form_encode_def)
qed (simp add: form_encode_def)

lemma form_pair_encode:
  "utf8_valid k \<Longrightarrow> utf8_valid v \<Longrightarrow> form_pair (form_encode k @ CHR ''='' # form_encode v) = Some (k, v)"
  using form_encode_no_delim [of k] by (auto simp: form_pair_def index_of_append form.dec_enc)

lemma form_query_params:
  assumes "ps \<noteq> []" and "CHR ''?'' \<notin> set pre" and "\<And>k v. (k, v) \<in> set ps \<Longrightarrow> utf8_valid k \<and> utf8_valid v"
  shows "form_query (pre @ CHR ''?'' # params_text ps) = map Some ps"
proof -
  have "split_on (CHR ''&'') (params_text ps) = map (\<lambda>(k, v). form_encode k @ CHR ''='' # form_encode v) ps"
    unfolding params_text_def by (rule split_join) (use assms(1) form_encode_no_delim in auto)
  then show ?thesis
    using assms(2,3) by (auto simp: form_query_def index_of_append form_pair_encode)
qed

lemma form_query_metrics:
  assumes "\<And>s. sid = Some s \<Longrightarrow> utf8_valid s" and "\<And>s. since = Some s \<Longrightarrow> utf8_valid s"
  shows "form_query (useMetrics sid since) = map Some (metrics_params sid since)"
proof (cases "metrics_params sid since")
  case Nil
  then show ?thesis by (simp add: useMetrics_def params_text_def form_query_def)
next
  case (Cons p ps)
  have "utf8_valid ''sid''" "utf8_valid ''since''" by code_simp+
  then have valid: "utf8_valid k \<and> utf8_valid v" if "(k, v) \<in> set (metrics_params sid since)" for k v
    using that assms by (auto simp: metrics_params_def truthy_def split: if_splits option.splits)
  have "params_text (metrics_params sid since) \<noteq> []"
    using Cons by (cases p; cases ps) (auto simp: params_text_def)
  then have "useMetrics sid since = ''/api/metrics'' @ CHR ''?'' # params_text (metrics_params sid since)"
    by (simp add: useMetrics_def Let_def)
  moreover have "form_query (''/api/metrics'' @ CHR ''?'' # params_text (metrics_params sid since))
                   = map Some (metrics_params sid since)"
    by (rule form_query_params) (use Cons valid in auto)
  ultimately show ?thesis by simp
qed

text \<open>A date text is plain ASCII.\<close>

definition ascii :: "string \<Rightarrow> bool" where
  "ascii s \<longleftrightarrow> (\<forall>c \<in> set s. (of_char c :: nat) < 128)"

lemma ascii_append [simp]: "ascii (s @ t) \<longleftrightarrow> ascii s \<and> ascii t"
  by (auto simp: ascii_def)

lemma ascii_Cons [simp]: "ascii (c # s) \<longleftrightarrow> (of_char c :: nat) < 128 \<and> ascii s"
  by (simp add: ascii_def)

lemma ascii_Nil [simp]: "ascii []"
  by (simp add: ascii_def)

lemma ascii_nat: "ascii (string_of_nat n)"
  by (induction n rule: string_of_nat.induct) (subst string_of_nat.simps, auto)

lemma ascii_int: "ascii (string_of_int i)"
  by (simp add: string_of_int_def ascii_nat)

lemma ascii_pad: "ascii (pad_num w n)"
  by (simp add: pad_num_def Let_def ascii_int) (simp add: ascii_def)

lemma ascii_iso: "ascii (toISOString ms)"
  by (simp add: toISOString_def iso_year_def Let_def ascii_pad split: prod.splits)

lemma ascii_utf8: "ascii s \<Longrightarrow> utf8_valid s"
  by (induction s) (simp_all add: utf8_valid_def)

lemma iso_nonempty: "toISOString ms \<noteq> []"
  by (simp add: toISOString_def Let_def split: prod.splits)

lemma metrics_params_since:
  "metrics_params sid (computeSince t r) =
     (if truthy sid then [(''sid'', the sid)] else []) @
     (case range_mins r of None \<Rightarrow> [] | Some mins \<Rightarrow> [(''since'', toISOString (t - mins * 60000))])"
  by (cases "range_mins r") (simp_all add: metrics_params_def computeSince_def truthy_def iso_nonempty)

section \<open>The page follows its filters\<close>

text \<open>The last reply for a key in a run, or what was known before it.\<close>

fun last_reply :: "string \<Rightarrow> metrics option \<Rightarrow> (int \<times> page_event) list \<Rightarrow> metrics option" where
  "last_reply k known [] = known"
| "last_reply k known (te # es) =
     last_reply k (case snd te of Reply k' m \<Rightarrow> if k' = k then Some m else known | _ \<Rightarrow> known) es"

definition page_run :: "(string \<Rightarrow> int option) \<Rightarrow> (int \<times> page_event) list \<Rightarrow> metrics_page \<Rightarrow> metrics_page" where
  "page_run parse_date = fold (page_step parse_date)"

named_theorems page_frame "what a render leaves alone"

lemma commit_frame [page_frame, simp]:
  "mv_subTab (page_commit now v) = mv_subTab v" "mv_selectedSid (page_commit now v) = mv_selectedSid v"
  "mv_timeRange (page_commit now v) = mv_timeRange v" "mv_since (page_commit now v) = mv_since v"
  "mv_cache (page_commit now v) = mv_cache v" "mv_liveLabel (page_commit now v) = mv_liveLabel v"
  by (simp_all add: page_commit_def Let_def)

lemma commit_key [page_frame, simp]:
  "metrics_key (page_commit now v) = metrics_key v" "page_metrics (page_commit now v) = page_metrics v"
  by (simp_all add: metrics_key_def page_metrics_def)

lemma cache_step:
  "om_get (mv_cache (page_step parse_date te v)) k =
     (case snd te of Reply k' m \<Rightarrow> if k' = k then Some m else om_get (mv_cache v) k | _ \<Rightarrow> om_get (mv_cache v) k)"
  by (auto simp: page_step_def page_act_def om_get_set split: page_event.splits option.splits)

lemma cache_run:
  "om_get (mv_cache (page_run parse_date es v)) k = last_reply k (om_get (mv_cache v) k) es"
  by (induction es arbitrary: v) (simp_all add: page_run_def cache_step)

lemma since_step:
  assumes "mv_since v = computeSince t (mv_timeRange v)"
  shows "mv_since (page_step parse_date te v) = computeSince t (mv_timeRange (page_step parse_date te v)) \<or>
         mv_since (page_step parse_date te v) = computeSince (fst te) (mv_timeRange (page_step parse_date te v))"
  using assms by (auto simp: page_step_def page_act_def split: page_event.splits option.splits)

lemma since_run:
  "mv_since v = computeSince t (mv_timeRange v) \<Longrightarrow>
     \<exists>u \<in> insert t (fst ` set es).
       mv_since (page_run parse_date es v) = computeSince u (mv_timeRange (page_run parse_date es v))"
proof (induction es arbitrary: v t)
  case (Cons te es)
  obtain u where "u = t \<or> u = fst te"
    "mv_since (page_step parse_date te v) = computeSince u (mv_timeRange (page_step parse_date te v))"
    using since_step [OF Cons.prems] by blast
  then show ?case using Cons.IH [of "page_step parse_date te v" u] by (auto simp: page_run_def)
qed (simp add: page_run_def)

text \<open>The timeline is mounted exactly while the activity tab has data.\<close>

definition timeline_mounted :: "metrics_page \<Rightarrow> bool" where
  "timeline_mounted v \<longleftrightarrow>
     (mv_timeline v \<noteq> None \<longleftrightarrow> mv_subTab v = ActivityTab \<and> page_metrics v \<noteq> None)"

lemma mounted_commit: "timeline_mounted (page_commit now v)"
  unfolding timeline_mounted_def commit_frame commit_key by (simp add: page_commit_def Let_def)

lemma mounted_run: "timeline_mounted v \<Longrightarrow> timeline_mounted (page_run parse_date es v)"
  by (induction es arbitrary: v) (simp_all add: page_run_def page_step_def mounted_commit)

lemma mount_since: "mv_since (page_mount cache t0) = computeSince t0 (mv_timeRange (page_mount cache t0))"
  by (simp add: page_mount_def)

text \<open>C24. Whatever happens on the page, its request asks for the selected session and for a window of the
  selected length that ends at the mount or at a step of the run, what is shown is the last reply to
  that very request, and the timeline keeps its zoom exactly while it is shown.\<close>
theorem metrics_follow_filters:
  assumes "v = page_run parse_date es (page_mount cache t0)" and "utf8_valid (mv_selectedSid v)"
    and "mv_selectedSid v \<noteq> ''''"
  shows "(\<exists>t \<in> insert t0 (fst ` set es).
            form_query (metrics_key v) =
              map Some ((if mv_selectedSid v \<noteq> ''all'' then [(''sid'', mv_selectedSid v)] else []) @
                        (case range_mins (mv_timeRange v) of
                           None \<Rightarrow> [] | Some mins \<Rightarrow> [(''since'', toISOString (t - mins * 60000))]))) \<and>
         page_metrics v = last_reply (metrics_key v) (om_get cache (metrics_key v)) es \<and>
         (mv_timeline v \<noteq> None \<longleftrightarrow> mv_subTab v = ActivityTab \<and> page_metrics v \<noteq> None)"
proof -
  have "\<exists>t \<in> insert t0 (fst ` set es). mv_since v = computeSince t (mv_timeRange v)"
    unfolding assms(1) by (rule since_run [OF mount_since])
  then obtain t where t: "t \<in> insert t0 (fst ` set es)" "mv_since v = computeSince t (mv_timeRange v)" by blast
  have "utf8_valid s" if "mv_since v = Some s" for s
    using that t(2) by (auto simp: computeSince_def ascii_utf8 ascii_iso)
  then have "form_query (metrics_key v) =
      map Some (metrics_params (if mv_selectedSid v \<noteq> ''all'' then Some (mv_selectedSid v) else None) (mv_since v))"
    unfolding metrics_key_def by (intro form_query_metrics) (use assms(2) in \<open>auto split: if_splits\<close>)
  then have "form_query (metrics_key v) =
      map Some ((if mv_selectedSid v \<noteq> ''all'' then [(''sid'', mv_selectedSid v)] else []) @
                (case range_mins (mv_timeRange v) of
                   None \<Rightarrow> [] | Some mins \<Rightarrow> [(''since'', toISOString (t - mins * 60000))]))"
    using assms(3) unfolding t(2) metrics_params_since by (simp add: truthy_def)
  moreover have "page_metrics v = last_reply (metrics_key v) (om_get cache (metrics_key v)) es"
    unfolding page_metrics_def unfolding assms(1) cache_run by (simp add: page_mount_def)
  moreover have "timeline_mounted v"
    unfolding assms(1) by (rule mounted_run) (simp add: page_mount_def mounted_commit)
  ultimately show ?thesis
    using t(1) unfolding timeline_mounted_def by (intro conjI bexI [of _ t]) assumption+
qed

text \<open>Moving the window, which the page does every thirty seconds so that it stays up to date, empties
  it: until the reply for the new window arrives the strip shows the zeros of a page without data, the
  cards give way to the loading text, and the timeline comes back without its zoom.\<close>
theorem window_tick_empties_page:
  assumes "mv_timeRange v \<noteq> RAll" and "mv_subTab v = ActivityTab"
    and "v1 = page_step parse_date (t, SinceTick) v"
    and "om_get (mv_cache v) (metrics_key v1) = None"
    and "v2 = page_step parse_date (t', Reply (metrics_key v1) m) v1"
  shows "MetricsView parse_date clock sessions v1 =
           Some \<lparr>ac_options = (''all'', ''All Sessions'') # sessionOptions sessions,
                 ac_label = ''Updated '' @ mv_liveLabel v, ac_kpis = empty_cards,
                 ac_body = Inl ''Loading metrics...''\<rparr> \<and>
         mv_timeline v1 = None \<and> page_metrics v2 = Some m \<and> mv_timeline v2 = Some zoom_init"
proof -
  let ?a = "page_act parse_date t SinceTick v"
  have v1: "v1 = page_commit t ?a" using assms(3) by (simp add: page_step_def)
  have frame: "mv_subTab v1 = ActivityTab" "mv_liveLabel v1 = mv_liveLabel v" "mv_cache v1 = mv_cache v"
    using assms(1,2) by (simp_all add: v1 page_act_def)
  with assms(4) have none: "page_metrics v1 = None" by (simp add: page_metrics_def)
  moreover have unmounted: "mv_timeline v1 = None"
    using mounted_commit [of t ?a] none unfolding v1 [symmetric] by (simp add: timeline_mounted_def)
  moreover
  let ?b = "page_act parse_date t' (Reply (metrics_key v1) m) v1"
  have key: "metrics_key ?b = metrics_key v1" by (simp add: page_act_def metrics_key_def)
  then have "page_metrics ?b = Some m" by (simp add: page_metrics_def) (simp add: page_act_def om_get_set)
  moreover have "mv_subTab ?b = ActivityTab" "mv_timeline ?b = None"
    using frame(1) unmounted by (simp_all add: page_act_def)
  ultimately show ?thesis
    using frame by (simp add: MetricsView_def ActivityContent_def buildCards_def assms(5) page_step_def)
      (simp add: page_commit_def Let_def)
qed

text \<open>A reply equal to the one shown is not counted as a refresh: the age in the label keeps growing.\<close>

lemma equal_reply_not_counted:
  assumes "page_metrics v = Some m" and "mv_seen v = Some (metrics_key v, m)"
  shows "mv_lastFetch (page_step parse_date (t, Reply (metrics_key v) m) v) = mv_lastFetch v"
proof -
  let ?a = "page_act parse_date t (Reply (metrics_key v) m) v"
  have key: "metrics_key ?a = metrics_key v" by (simp add: page_act_def metrics_key_def)
  then have "page_metrics ?a = Some m" by (simp add: page_metrics_def) (simp add: page_act_def om_get_set)
  moreover have "mv_seen ?a = mv_seen v" "mv_lastFetch ?a = mv_lastFetch v" by (simp_all add: page_act_def)
  ultimately show ?thesis using key assms(2) by (simp add: page_step_def page_commit_def Let_def)
qed

text \<open>The export names the filters that its figures were asked for with, and its name has no colon.\<close>

lemma export_of_shown:
  assumes "exportMetricsCsv now v = Some (name, txt)"
  shows "\<exists>m. page_metrics v = Some m \<and>
             csv_parse txt = metric_rows m (mv_selectedSid v) (range_text (mv_timeRange v)) \<and> CHR '':'' \<notin> set name"
proof -
  have "CHR '':'' \<notin> set (range_text r)" for r by (cases r) simp_all
  with assms show ?thesis
    using csv.dec_enc by (fastforce simp: exportMetricsCsv_def metric_rows_def)
qed

section \<open>Witnesses\<close>

definition demo_run :: "(int \<times> page_event) list" where
  "demo_run = [(1000, PickSid ''s1''), (2000, PickRange (Some R15m)), (32000, SinceTick)]"

definition demo_page :: metrics_page where
  "demo_page = page_run demo_time demo_run (page_mount [] 0)"

lemma demo_digits:
  "char_of (48 :: nat) = CHR ''0''" "char_of (49 :: nat) = CHR ''1''" "char_of (50 :: nat) = CHR ''2''"
  "char_of (51 :: nat) = CHR ''3''" "char_of (52 :: nat) = CHR ''4''" "char_of (53 :: nat) = CHR ''5''"
  "char_of (54 :: nat) = CHR ''6''" "char_of (57 :: nat) = CHR ''9''" "char_of (65 :: nat) = CHR ''A''"
  by (simp_all add: char_of_eq_iff)

lemma demo_day: "civil_of_days (-1) = (1969, 12, 31)"
  by code_simp

lemma demo_numbers:
  "string_of_nat 0 = ''0''" "string_of_nat 12 = ''12''" "string_of_nat 23 = ''23''" "string_of_nat 30 = ''30''"
  "string_of_nat 31 = ''31''" "string_of_nat 32 = ''32''" "string_of_nat 45 = ''45''" "string_of_nat 1969 = ''1969''"
  by (simp_all add: string_of_nat.simps demo_digits)

lemmas demo_date = toISOString_def demo_day iso_year_def pad_num_def string_of_int_def demo_numbers numeral_2_eq_2

lemma demo_isos:
  "toISOString (- 868000) = ''1969-12-31T23:45:32.000Z''"
  "toISOString (- 3600000) = ''1969-12-31T23:00:00.000Z''"
  "toISOString (- 3570000) = ''1969-12-31T23:00:30.000Z''"
  by (simp_all add: demo_date)

lemma demo_windows:
  "computeSince 32000 R15m = Some ''1969-12-31T23:45:32.000Z''"
  "computeSince 0 R1h = Some ''1969-12-31T23:00:00.000Z''"
  "computeSince 30000 R1h = Some ''1969-12-31T23:00:30.000Z''"
  by (simp_all add: computeSince_def demo_isos)

lemmas demo_form = useMetrics_def params_text_def metrics_params_def truthy_def form_encode_def form_byte_def
  form_safe_def upper_hex_def demo_digits

lemma demo_keys:
  "useMetrics (Some ''s1'') (Some ''1969-12-31T23:45:32.000Z'')
     = ''/api/metrics?sid=s1&since=1969-12-31T23%3A45%3A32.000Z''"
  "useMetrics None (Some ''1969-12-31T23:00:00.000Z'') = ''/api/metrics?since=1969-12-31T23%3A00%3A00.000Z''"
  "useMetrics None (Some ''1969-12-31T23:00:30.000Z'') = ''/api/metrics?since=1969-12-31T23%3A00%3A30.000Z''"
  by (simp_all add: demo_form)

lemma metrics_follow_filters_witness:
  "form_query (metrics_key demo_page) = [Some (''sid'', ''s1''), Some (''since'', ''1969-12-31T23:45:32.000Z'')] \<and>
   page_metrics demo_page = None"
proof -
  have "mv_selectedSid demo_page = ''s1''" "mv_since demo_page = computeSince 32000 R15m"
    by (simp_all add: demo_page_def demo_run_def page_run_def page_step_def page_act_def page_mount_def)
  then have "metrics_key demo_page = ''/api/metrics?sid=s1&since=1969-12-31T23%3A45%3A32.000Z''"
    by (simp add: metrics_key_def demo_windows demo_keys)
  moreover have "form_query ''/api/metrics?sid=s1&since=1969-12-31T23%3A45%3A32.000Z''
      = [Some (''sid'', ''s1''), Some (''since'', ''1969-12-31T23:45:32.000Z'')]" by code_simp
  moreover have "utf8_valid ''s1''" by code_simp
  moreover have "last_reply k None demo_run = None" for k by (simp add: demo_run_def)
  ultimately show ?thesis
    using metrics_follow_filters [OF demo_page_def] \<open>mv_selectedSid demo_page = ''s1''\<close> by simp
qed

definition demo_shown :: metrics_page where
  "demo_shown = page_mount [(''/api/metrics?since=1969-12-31T23%3A00%3A00.000Z'', demo_metrics)] 0"

lemma window_tick_empties_page_witness:
  "page_metrics demo_shown = Some demo_metrics \<and>
   map_option ac_kpis (MetricsView demo_time id None (page_step demo_time (30000, SinceTick) demo_shown)) = Some empty_cards"
proof -
  let ?v1 = "page_step demo_time (30000, SinceTick) demo_shown"
  have v: "mv_timeRange demo_shown = R1h" "mv_subTab demo_shown = ActivityTab" "mv_selectedSid demo_shown = ''all''"
    "mv_since demo_shown = computeSince 0 R1h"
    "mv_cache demo_shown = [(''/api/metrics?since=1969-12-31T23%3A00%3A00.000Z'', demo_metrics)]"
    by (simp_all add: demo_shown_def page_mount_def)
  then have "metrics_key demo_shown = ''/api/metrics?since=1969-12-31T23%3A00%3A00.000Z''"
    by (simp add: metrics_key_def demo_windows demo_keys)
  moreover have "mv_selectedSid ?v1 = ''all''" "mv_since ?v1 = computeSince 30000 R1h"
    using v by (simp_all add: page_step_def page_act_def)
  then have "metrics_key ?v1 = ''/api/metrics?since=1969-12-31T23%3A00%3A30.000Z''"
    by (simp add: metrics_key_def demo_windows demo_keys)
  ultimately show ?thesis
    using window_tick_empties_page [OF _ v(2) refl _ refl, of demo_time 30000 id None] v(1,5)
    by (simp add: page_metrics_def)
qed

end
