(* ===== verification/DeferredAudit.thy ===== *)
theory DeferredAudit
  imports SessionPanel ListViews
begin

text \<open>
  The audit of deferred work, \<open>components/plan2/DeferredAuditView.tsx\<close> with \<open>plan2/deferredColumns.ts\<close>: which
  entries are listed and in what order, the three groups of chips, and the buttons that open the task that
  takes an entry up. \<open>loc\<close> is \<open>localeCompare\<close>. The grid's paging and the columns' widths are left out.
\<close>

section \<open>Entries\<close>

datatype entry_kind = KCodeFinding | KReviewSuggestion | KScopeDecision | KFutureEnhancement

fun kind_of :: "deferred_entry \<Rightarrow> entry_kind" where
  "kind_of (CodeFinding _) = KCodeFinding"
| "kind_of (ReviewSuggestion _) = KReviewSuggestion"
| "kind_of (ScopeDecision _) = KScopeDecision"
| "kind_of (FutureEnhancement _) = KFutureEnhancement"

fun entry_id :: "deferred_entry \<Rightarrow> string" where
  "entry_id (CodeFinding e) = dcf_id e"
| "entry_id (ReviewSuggestion e) = drs_id e"
| "entry_id (ScopeDecision e) = dsd_id e"
| "entry_id (FutureEnhancement e) = dfe_id e"

definition KINDS :: "entry_kind list" where
  "KINDS = [KCodeFinding, KReviewSuggestion, KScopeDecision, KFutureEnhancement]"

fun kind_label :: "entry_kind \<Rightarrow> string" where
  "kind_label KCodeFinding = ''Code findings''"
| "kind_label KReviewSuggestion = ''Review suggestions''"
| "kind_label KScopeDecision = ''Scope decisions''"
| "kind_label KFutureEnhancement = ''Future enhancements''"

fun state_text :: "deferred_code_finding_state \<Rightarrow> string" where
  "state_text WontFix = ''WontFix''"
| "state_text FalsePositive = ''FalsePositive''"
| "state_text Deferred = ''Deferred''"
| "state_text Accepted = ''Accepted''"

definition state_filter_values :: "string list" where
  "state_filter_values = [''WontFix'', ''FalsePositive'', ''Deferred'', ''Accepted'']"

fun decision_text :: "scope_decision_value \<Rightarrow> string" where
  "decision_text ScDismissed = ''dismissed''"
| "decision_text ScDeferred = ''deferred''"
| "decision_text ScAcceptedForFuture = ''accepted-for-future''"

text \<open>The field and the heading of each column; the last one holds the button.\<close>

definition open_task_column :: "string \<times> string" where
  "open_task_column = (''openTask'', ''Task'')"

fun kind_columns :: "entry_kind \<Rightarrow> (string \<times> string) list" where
  "kind_columns KCodeFinding =
     [(''id'', ''ID''), (''kind'', ''Kind''), (''finding_id'', ''Finding''), (''rule'', ''Rule''), (''file'', ''File''),
      (''line'', ''Line''), (''state'', ''State''), (''owner'', ''Owner''), (''reviewed_at'', ''Reviewed''),
      (''review_trigger'', ''Trigger''), open_task_column]"
| "kind_columns KReviewSuggestion =
     [(''id'', ''ID''), (''kind'', ''Kind''), (''date'', ''Date''), (''feature_or_task_id'', ''Feature/Task''),
      (''phase_id'', ''Phase''), (''reviewer'', ''Reviewer''), (''category'', ''Category''),
      (''description'', ''Description''), (''reason_deferred'', ''Reason''), open_task_column]"
| "kind_columns KScopeDecision =
     [(''id'', ''ID''), (''kind'', ''Kind''), (''date'', ''Date''), (''decided_at_task_id'', ''Decided at task''),
      (''decision'', ''Decision''), (''rationale'', ''Rationale''), open_task_column]"
| "kind_columns KFutureEnhancement =
     [(''id'', ''ID''), (''kind'', ''Kind''), (''date'', ''Date''), (''description'', ''Description''),
      (''target_release'', ''Target release''), (''effort_estimate'', ''Effort''), open_task_column]"

text \<open>The fields that the cards of the narrow layout read.\<close>

fun entry_field :: "deferred_entry \<Rightarrow> string \<Rightarrow> string option" where
  "entry_field (CodeFinding e) f =
     (if f = ''id'' then Some (dcf_id e) else if f = ''file'' then Some (dcf_file e)
      else if f = ''state'' then Some (state_text (dcf_state e)) else None)"
| "entry_field (ReviewSuggestion e) f =
     (if f = ''id'' then Some (drs_id e) else if f = ''description'' then Some (drs_description e)
      else if f = ''category'' then Some (drs_category e) else None)"
| "entry_field (ScopeDecision e) f =
     (if f = ''id'' then Some (dsd_id e) else if f = ''decision'' then Some (decision_text (dsd_decision e))
      else if f = ''rationale'' then Some (dsd_rationale e) else None)"
| "entry_field (FutureEnhancement e) f =
     (if f = ''id'' then Some (dfe_id e) else if f = ''description'' then Some (dfe_description e)
      else if f = ''target_release'' then dfe_target_release e else None)"

fun kind_card_fields :: "entry_kind \<Rightarrow> string list" where
  "kind_card_fields KCodeFinding = [''id'', ''file'', ''state'']"
| "kind_card_fields KReviewSuggestion = [''id'', ''description'', ''category'']"
| "kind_card_fields KScopeDecision = [''id'', ''decision'', ''rationale'']"
| "kind_card_fields KFutureEnhancement = [''id'', ''description'', ''target_release'']"

section \<open>Order and links\<close>

fun defaultSortValue :: "deferred_entry \<Rightarrow> string" where
  "defaultSortValue (CodeFinding e) = dcf_reviewed_at e"
| "defaultSortValue (ReviewSuggestion e) = drs_date e"
| "defaultSortValue (ScopeDecision e) = dsd_date e"
| "defaultSortValue (FutureEnhancement e) = dfe_date e"

definition deferredSortComparator :: "(string \<Rightarrow> string \<Rightarrow> int) \<Rightarrow> deferred_entry \<Rightarrow> deferred_entry \<Rightarrow> int" where
  "deferredSortComparator loc a b =
     (let cmp = loc (defaultSortValue b) (defaultSortValue a)
      in if cmp \<noteq> 0 then cmp else loc (entry_id a) (entry_id b))"

definition plan_tasks :: "plan \<Rightarrow> task list" where
  "plan_tasks p = concat (map ph_tasks (pl_phases p))"

definition task_refs :: "task \<Rightarrow> (string \<times> task) list" where
  "task_refs t = map (\<lambda>r. (r, t)) (case t_deferred_refs t of None \<Rightarrow> [] | Some rs \<Rightarrow> rs)"

definition buildDependentTaskMap :: "plan \<Rightarrow> (string, task) omap" where
  "buildDependentTaskMap p = fold (\<lambda>(r, t) m. om_set r t m) (concat (map task_refs (plan_tasks p))) []"

definition OpenTaskButton :: "(string, task) omap \<Rightarrow> string \<Rightarrow> (string \<times> task) option" where
  "OpenTaskButton m deferredId = map_option (\<lambda>t. (''Open task '' @ t_id t, t)) (om_get m deferredId)"

section \<open>The view\<close>

record audit =
  au_kind :: entry_kind
  au_states :: "string list"
  au_owner :: "string option"

definition audit_init :: audit where
  "audit_init = \<lparr>au_kind = KCodeFinding, au_states = [], au_owner = None\<rparr>"

fun entry_owner :: "deferred_entry \<Rightarrow> string option" where
  "entry_owner (CodeFinding e) = Some (dcf_owner e)"
| "entry_owner (ReviewSuggestion e) = Some (drs_reviewer e)"
| "entry_owner _ = None"

definition add_owner :: "deferred_entry \<Rightarrow> string list \<Rightarrow> string list" where
  "add_owner e acc = (case entry_owner e of Some o' \<Rightarrow> if o' \<noteq> '''' then oset_add o' acc else acc | None \<Rightarrow> acc)"

definition audit_owners :: "(string \<Rightarrow> string \<Rightarrow> int) \<Rightarrow> deferred_entry list \<Rightarrow> string list" where
  "audit_owners loc es = js_sort loc (fold add_owner es [])"

definition state_passes :: "audit \<Rightarrow> deferred_entry \<Rightarrow> bool" where
  "state_passes a e \<longleftrightarrow>
     (if length (au_states a) = 0 then True
      else (case e of CodeFinding c \<Rightarrow> state_text (dcf_state c) \<in> set (au_states a) | _ \<Rightarrow> True))"

definition owner_passes :: "audit \<Rightarrow> deferred_entry \<Rightarrow> bool" where
  "owner_passes a e \<longleftrightarrow>
     (if \<not> truthy (au_owner a) then True
      else (case entry_owner e of Some o' \<Rightarrow> Some o' = au_owner a | None \<Rightarrow> True))"

definition visibleEntries :: "(string \<Rightarrow> string \<Rightarrow> int) \<Rightarrow> deferred_entry list \<Rightarrow> audit \<Rightarrow> deferred_entry list" where
  "visibleEntries loc es a =
     js_sort (deferredSortComparator loc)
       (filter (owner_passes a) (filter (state_passes a) (filter (\<lambda>e. kind_of e = au_kind a) es)))"

record chip =
  ch_label :: string
  ch_active :: bool
  ch_disabled :: bool

datatype audit_body =
    NoRowsForFilters
  | MobileCards "((string \<times> string) list \<times> (string \<times> task) option) list"
  | Grid string "(string \<times> string) list" "(deferred_entry \<times> (string \<times> task) option) list"

datatype audit_view =
    NotSchema2
  | NoDeferred
  | AuditPage "chip list" "chip list" "chip list" audit_body

definition card_lines :: "entry_kind \<Rightarrow> deferred_entry \<Rightarrow> (string \<times> string) list" where
  "card_lines k e =
     List.map_filter (\<lambda>f. map_option (\<lambda>v. (f @ '':'', v)) (entry_field e f)) (kind_card_fields k)"

definition DeferredAuditView :: "(string \<Rightarrow> string \<Rightarrow> int) \<Rightarrow> bool \<Rightarrow> plan option \<Rightarrow> audit \<Rightarrow> audit_view" where
  "DeferredAuditView loc isMobile plan a =
     (let es = (case plan of None \<Rightarrow> [] | Some p \<Rightarrow> (case pl_deferred p of None \<Rightarrow> [] | Some ds \<Rightarrow> ds));
          links = (case plan of None \<Rightarrow> [] | Some p \<Rightarrow> buildDependentTaskMap p);
          rows = visibleEntries loc es a
      in if plan = None \<or> \<not> plan_is2 plan then NotSchema2
         else if length es = 0 then NoDeferred
         else AuditPage
           (map (\<lambda>k. \<lparr>ch_label = kind_label k, ch_active = (au_kind a = k), ch_disabled = False\<rparr>) KINDS)
           (map (\<lambda>s. \<lparr>ch_label = s, ch_active = (s \<in> set (au_states a)), ch_disabled = (au_kind a \<noteq> KCodeFinding)\<rparr>)
              state_filter_values)
           (map (\<lambda>o'. \<lparr>ch_label = o', ch_active = (au_owner a = Some o'), ch_disabled = False\<rparr>) (audit_owners loc es))
           (if rows = [] then NoRowsForFilters
            else if isMobile then
              MobileCards (map (\<lambda>e. (card_lines (au_kind a) e, OpenTaskButton links (entry_id e))) rows)
            else Grid (string_of_nat (length rows) @ '' '' @ (if length rows = 1 then ''entry'' else ''entries''))
                   (kind_columns (au_kind a)) (map (\<lambda>e. (e, OpenTaskButton links (entry_id e))) rows)))"

datatype audit_click = ClickKind entry_kind | ClickState string | ClickOwner string

text \<open>A disabled chip does not react.\<close>

fun audit_step :: "audit_click \<Rightarrow> audit \<Rightarrow> audit" where
  "audit_step (ClickKind k) a = a\<lparr>au_kind := k\<rparr>"
| "audit_step (ClickState s) a =
     (if au_kind a \<noteq> KCodeFinding then a else a\<lparr>au_states := oset_toggle s (au_states a)\<rparr>)"
| "audit_step (ClickOwner o') a =
     a\<lparr>au_owner := (if au_owner a = Some o' then None else Some o')\<rparr>"

section \<open>What is listed\<close>


text \<open>The entries a chip selection asks for, in one condition.\<close>

definition wanted :: "audit \<Rightarrow> deferred_entry \<Rightarrow> bool" where
  "wanted a e \<longleftrightarrow> kind_of e = au_kind a \<and> state_passes a e \<and> owner_passes a e"

lemma visible_sort: "visibleEntries loc es a = js_sort (deferredSortComparator loc) (filter (wanted a) es)"
  by (simp add: visibleEntries_def wanted_def [abs_def])

lemma set_visible [simp]: "set (visibleEntries loc es a) = {e \<in> set es. wanted a e}"
  by (simp add: visible_sort)


section \<open>The buttons\<close>

lemma find_app: "find P (xs @ ys) = (case find P xs of None \<Rightarrow> find P ys | Some x \<Rightarrow> Some x)"
  by (induction xs) auto

lemma fold_om_set_get:
  "om_get (fold (\<lambda>(r, t) m. om_set r t m) rts m0) k =
     (case find (\<lambda>p. fst p = k) (rev rts) of Some p \<Rightarrow> Some (snd p) | None \<Rightarrow> om_get m0 k)"
proof (induction rts rule: rev_induct)
  case (snoc p rts)
  then show ?case by (cases p) (auto simp: om_get_set)
qed simp


text \<open>An entry has a button exactly when a task of the plan names it among its deferred references, and the
  button opens such a task: of several, the last in the plan.\<close>
theorem audit_button_opens_referrer:
  "case OpenTaskButton (buildDependentTaskMap p) i of
     None \<Rightarrow> \<not> (\<exists>t \<in> set (plan_tasks p). \<exists>rs. t_deferred_refs t = Some rs \<and> i \<in> set rs)
   | Some (label, t) \<Rightarrow>
       label = ''Open task '' @ t_id t \<and>
       (\<exists>before after. plan_tasks p = before @ t # after \<and>
          (\<exists>rs. t_deferred_refs t = Some rs \<and> i \<in> set rs) \<and>
          \<not> (\<exists>u \<in> set after. \<exists>rs. t_deferred_refs u = Some rs \<and> i \<in> set rs))"
proof -
  define P where "P = (\<lambda>t :: task. \<exists>rs. t_deferred_refs t = Some rs \<and> i \<in> set rs)"
  have *: "find (\<lambda>q. fst q = i) (rev (concat (map task_refs ts))) =
          map_option (Pair i) (find P (rev ts))" for ts
  proof (induction ts rule: rev_induct)
    case (snoc t ts)
    have "find (\<lambda>q. fst q = i) (rev (task_refs t)) = (if P t then Some (i, t) else None)"
    proof (cases "t_deferred_refs t")
      case (Some rs)
      have "find (\<lambda>q. fst q = i) (rev (map (\<lambda>r. (r, t)) rs)) = (if i \<in> set rs then Some (i, t) else None)"
        by (induction rs rule: rev_induct) auto
      with Some show ?thesis by (simp add: task_refs_def P_def)
    qed (simp add: task_refs_def P_def)
    with snoc show ?case by (simp add: find_app split: option.splits)
  qed simp
  have get: "om_get (buildDependentTaskMap p) i = find P (rev (plan_tasks p))"
    unfolding buildDependentTaskMap_def fold_om_set_get * by (simp split: option.splits)
  show ?thesis
  proof (cases "find P (rev (plan_tasks p))")
    case None
    then have "\<not> (\<exists>t \<in> set (plan_tasks p). P t)" by (simp add: find_None_iff)
    with None show ?thesis by (simp add: OpenTaskButton_def get P_def)
  next
    case (Some t)
    then obtain xs ys where xy: "rev (plan_tasks p) = xs @ t # ys" "P t" "\<forall>u \<in> set xs. \<not> P u"
      by (metis find_split)
    from xy(1) have "plan_tasks p = rev ys @ t # rev xs" by (metis rev_append rev.simps(2) append_assoc append_Cons append_Nil rev_rev_ident)
    moreover have "\<forall>u \<in> set (rev xs). \<not> P u" using xy(3) by simp
    ultimately have "\<exists>before after. plan_tasks p = before @ t # after \<and> P t \<and> \<not> (\<exists>u \<in> set after. P u)"
      using xy(2) by blast
    with Some show ?thesis by (simp add: OpenTaskButton_def get P_def)
  qed
qed

section \<open>Owners\<close>

lemma set_fold_add_owner:
  "set (fold add_owner es acc) = set acc \<union> {o'. o' \<noteq> '''' \<and> (\<exists>e \<in> set es. entry_owner e = Some o')}"
  by (induction es arbitrary: acc) (auto simp: add_owner_def set_oset_add split: option.splits)

lemma set_owners: "set (audit_owners loc es) = {o'. o' \<noteq> '''' \<and> (\<exists>e \<in> set es. entry_owner e = Some o')}"
  by (simp add: audit_owners_def set_fold_add_owner)

text \<open>The page is refetched while it is open. When the owner whose chip is on no longer has an entry, the page
  says that nothing matches although no chip for an owner is lit, whatever the other chips do: for code
  findings and review suggestions it stays empty until another owner is chosen or the page is closed.\<close>
theorem vanished_owner_empties_audit:
  assumes "pl_deferred p = Some es" and "es \<noteq> []" and "plan_is2 (Some p)"
    and "au_owner a = Some own" and "own \<noteq> ''''" and "\<not> (\<exists>e \<in> set es. entry_owner e = Some own)"
    and "a' = fold audit_step (filter (\<lambda>c. \<not> (\<exists>x. c = ClickOwner x)) clicks) a"
    and "au_kind a' \<in> {KCodeFinding, KReviewSuggestion}"
  shows "\<exists>kinds states owners. DeferredAuditView loc isMobile (Some p) a' = AuditPage kinds states owners NoRowsForFilters \<and>
           \<not> (\<exists>c \<in> set owners. ch_active c)"
proof -
  have "au_owner (fold audit_step (filter (\<lambda>c. \<not> (\<exists>x. c = ClickOwner x)) clicks) a) = au_owner a"
  proof (induction clicks arbitrary: a)
    case (Cons c clicks)
    then show ?case by (cases c) auto
  qed simp
  then have own: "au_owner a' = Some own" using assms(4,7) by simp
  have "\<not> wanted a' e" if "e \<in> set es" for e
    using assms(5,6,8) that own by (cases e) (auto simp: wanted_def owner_passes_def truthy_def)
  then have "set (visibleEntries loc es a') = {}" by auto
  then have "visibleEntries loc es a' = []" by (simp only: set_empty)
  moreover have "own \<notin> set (audit_owners loc es)" using assms(6) by (auto simp: set_owners)
  ultimately show ?thesis
    using assms(1,2,3) own by (auto simp: DeferredAuditView_def Let_def)
qed

section \<open>Witnesses\<close>

definition demo_finding :: "string \<Rightarrow> string \<Rightarrow> string \<Rightarrow> deferred_entry" where
  "demo_finding i own d =
     CodeFinding \<lparr>dcf_id = i, dcf_finding_id = ''F'', dcf_rule = ''R'', dcf_file = ''a.ts'', dcf_line = 1,
       dcf_state = Deferred, dcf_reason = ''later'', dcf_owner = own, dcf_reviewed_at = d, dcf_review_trigger = '''',
       dcf_ticket = None, dcf_deferred_at_task_id = None, dcf_deferred_at_phase_id = None\<rparr>"

definition demo_entries :: "deferred_entry list" where
  "demo_entries = [demo_finding ''D1'' ''ann'' ''2026-01'', demo_finding ''D3'' ''bob'' ''2026-02'',
                   demo_finding ''D2'' ''ann'' ''2026-02'']"

definition demo_audit_plan :: plan where
  "demo_audit_plan =
     \<lparr>pl_schema_version = Some ''2.0'', pl_name = ''P'', pl_phases = [], pl_test_targets = None,
      pl_deferred = Some demo_entries, pl_rest = JNull\<rparr>"


lemma vanished_owner_empties_audit_witness:
  "\<exists>kinds states owners.
     DeferredAuditView str_cmp False (Some demo_audit_plan) (audit_init\<lparr>au_owner := Some ''eve'', au_states := [''Accepted'']\<rparr>)
       = AuditPage kinds states owners NoRowsForFilters"
proof -
  have "plan_is2 (Some demo_audit_plan)" by code_simp
  moreover have "audit_init\<lparr>au_owner := Some ''eve'', au_states := [''Accepted'']\<rparr> =
      fold audit_step (filter (\<lambda>c. \<not> (\<exists>x. c = ClickOwner x)) [ClickState ''Accepted'']) (audit_init\<lparr>au_owner := Some ''eve''\<rparr>)"
    by (simp add: audit_init_def oset_toggle_def oset_add_def)
  ultimately show ?thesis
    using vanished_owner_empties_audit [of demo_audit_plan demo_entries "audit_init\<lparr>au_owner := Some ''eve''\<rparr>" "''eve''"
        "audit_init\<lparr>au_owner := Some ''eve'', au_states := [''Accepted'']\<rparr>" "[ClickState ''Accepted'']" str_cmp False]
    by (fastforce simp: demo_audit_plan_def demo_entries_def demo_finding_def audit_init_def)
qed

end
