(* ===== verification/SessionMonitor.thy ===== *)
theory SessionMonitor
  imports PipelineView PathUtils
begin

text \<open>
  The session monitor, \<open>components/SessionMonitor.tsx\<close>, and the hover link between its rows and the task
  cards, \<open>contexts/HoverLinkContext.tsx\<close>. \<open>parse_date\<close> is \<open>new Date(s).getTime()\<close>, \<open>None\<close> for
  NaN; every comparison with NaN is false.
\<close>

section \<open>Labels\<close>

fun STATUS_SORT_ORDER :: "session_status \<Rightarrow> int" where
  "STATUS_SORT_ORDER SNeedsInput = 0"
| "STATUS_SORT_ORDER SWorking = 1"
| "STATUS_SORT_ORDER SIdle = 2"
| "STATUS_SORT_ORDER SCompleted = 3"
| "STATUS_SORT_ORDER SStopped = 4"
| "STATUS_SORT_ORDER SClosed = 5"
| "STATUS_SORT_ORDER SStale = 6"

text \<open>The status with its underscore replaced by a blank.\<close>

fun status_words :: "session_status \<Rightarrow> string" where
  "status_words SNeedsInput = ''needs input''"
| "status_words SWorking = ''working''"
| "status_words SIdle = ''idle''"
| "status_words SCompleted = ''completed''"
| "status_words SStopped = ''stopped''"
| "status_words SClosed = ''closed''"
| "status_words SStale = ''stale''"

definition PHASE_LABELS :: "(string \<times> string) list" where
  "PHASE_LABELS =
     [(''started'', ''Started''), (''ba'', ''BA''), (''design'', ''Design''), (''plan'', ''Plan''),
      (''team-review'', ''T-Rev''), (''review'', ''Review''), (''implement'', ''Impl''),
      (''static-analysis'', ''SA''), (''manualtest'', ''Test''), (''team-qa'', ''T-QA''),
      (''commit'', ''Commit''), (''done'', ''Done''), (''unknown'', ''?'')]"

text \<open>The bar has no value when the number of phases is zero: the quotient is then infinite or NaN.\<close>

record flow_bar =
  fb_title :: string
  fb_label :: string
  fb_value :: "rat option"

definition FlowProgress :: "flow_info \<Rightarrow> flow_bar" where
  "FlowProgress f =
     (let label = (case map_of PHASE_LABELS (fl_phase f) of Some l \<Rightarrow> l | None \<Rightarrow> fl_phase f)
      in \<lparr>fb_title = fl_feature f @ '': '' @ label @ '' ('' @ string_of_int (fl_phase_index f + 1) @ ''/'' @
            string_of_int (fl_total_phases f) @ '')'',
          fb_label = label,
          fb_value = (if fl_total_phases f = 0 then None
                      else Some (of_int (fl_phase_index f + 1) / of_int (fl_total_phases f) * 100))\<rparr>)"

text \<open>What follows the first occurrence of a text.\<close>

fun after_first :: "string \<Rightarrow> string \<Rightarrow> string option" where
  "after_first t [] = (if t = [] then Some [] else None)"
| "after_first t (c # s) =
     (if starts_with (c # s) t then Some (drop (length t) (c # s)) else after_first t s)"

definition shortenPath :: "string \<Rightarrow> string" where
  "shortenPath path =
     (case after_first ''/Users/'' path of
        Some rest \<Rightarrow>
          (let parts = split_on (CHR ''/'') rest
           in if 1 < length parts then ''~/'' @ join_with ''/'' (drop 1 parts) else path)
      | None \<Rightarrow> path)"

section \<open>Rows\<close>

record hover_link =
  hl_task :: "string option"
  hl_branch :: "string option"

definition hover_init :: hover_link where
  "hover_init = \<lparr>hl_task = None, hl_branch = None\<rparr>"

definition setHoveredTask :: "string option \<Rightarrow> hover_link \<Rightarrow> hover_link" where
  "setHoveredTask i h = h\<lparr>hl_task := i\<rparr>"

definition setHoveredSession :: "string option \<Rightarrow> hover_link \<Rightarrow> hover_link" where
  "setHoveredSession b h = h\<lparr>hl_branch := b\<rparr>"

record session_row =
  sw_sid :: string
  sw_finished :: bool
  sw_linked :: bool
  sw_pulse :: bool
  sw_pill :: "wf_status option \<times> string"
  sw_path :: string
  sw_ago :: string
  sw_branch :: string
  sw_flow :: "flow_bar option"
  sw_link :: "string option"

definition SessionRow :: "(string \<Rightarrow> int option) \<Rightarrow> int \<Rightarrow> hover_link \<Rightarrow> session \<Rightarrow> session_row" where
  "SessionRow parse_date now h s =
     (let isCompleted = s_status s \<in> {SCompleted, SStopped, SStale, SClosed}; feature = branch_feature (s_branch s)
      in \<lparr>sw_sid = s_sid s, sw_finished = isCompleted, sw_linked = (hl_task h = Some feature),
          sw_pulse = (s_status s = SNeedsInput),
          sw_pill = (sessionStatusToWfStatus (s_status s), status_words (s_status s)),
          sw_path = shortenPath (s_worktree s), sw_ago = relativeTime parse_date now (s_ts s),
          sw_branch = s_branch s, sw_flow = map_option FlowProgress (s_flow s),
          sw_link = buildFocusUri (s_worktree s)\<rparr>)"

datatype row_mouse = RowEnter | RowLeave

fun row_hover :: "session \<Rightarrow> row_mouse \<Rightarrow> hover_link \<Rightarrow> hover_link" where
  "row_hover s RowEnter h = setHoveredSession (Some (s_branch s)) h"
| "row_hover s RowLeave h = setHoveredSession None h"

text \<open>The same for a card of the pipeline.\<close>

fun card_hover :: "task \<Rightarrow> row_mouse \<Rightarrow> hover_link \<Rightarrow> hover_link" where
  "card_hover t RowEnter h = setHoveredTask (Some (t_id t)) h"
| "card_hover t RowLeave h = setHoveredTask None h"

section \<open>One row per branch\<close>

definition session_key :: "session \<Rightarrow> string" where
  "session_key s = s_worktree s @ ''::'' @ s_branch s"

definition newer :: "(string \<Rightarrow> int option) \<Rightarrow> string \<Rightarrow> string \<Rightarrow> bool" where
  "newer parse_date a b = (case (parse_date a, parse_date b) of (Some x, Some y) \<Rightarrow> y < x | _ \<Rightarrow> False)"

definition keep_latest ::
    "(string \<Rightarrow> int option) \<Rightarrow> session \<Rightarrow> (string, session) omap \<Rightarrow> (string, session) omap" where
  "keep_latest parse_date s seen =
     (case om_get seen (session_key s) of
        None \<Rightarrow> om_set (session_key s) s seen
      | Some existing \<Rightarrow>
          if newer parse_date (s_ts s) (s_ts existing) then om_set (session_key s) s seen else seen)"

definition deduplicateSessions :: "(string \<Rightarrow> int option) \<Rightarrow> session list \<Rightarrow> session list" where
  "deduplicateSessions parse_date ss = map snd (fold (keep_latest parse_date) ss [])"

section \<open>The summary and the list\<close>

record status_chip =
  sc_status :: session_status
  sc_count :: nat
  sc_label :: string

definition status_counts :: "session list \<Rightarrow> (session_status, nat) omap" where
  "status_counts ss = fold (\<lambda>s m. om_set (s_status s) (om_get_or 0 m (s_status s) + 1) m) ss []"

definition SummaryStrip :: "session list \<Rightarrow> status_chip list" where
  "SummaryStrip ss =
     js_sort (\<lambda>a b. STATUS_SORT_ORDER (sc_status a) - STATUS_SORT_ORDER (sc_status b))
       (map (\<lambda>(st, n). \<lparr>sc_status = st, sc_count = n, sc_label = string_of_nat n @ '' '' @ status_words st\<rparr>)
          (filter (\<lambda>(st, n). 0 < n) (status_counts ss)))"

definition sorted_sessions :: "session list \<Rightarrow> session list" where
  "sorted_sessions deduped = js_sort (\<lambda>a b. STATUS_SORT_ORDER (s_status a) - STATUS_SORT_ORDER (s_status b)) deduped"

datatype monitor_view = NoActiveSessions | MonitorRows "status_chip list" "session_row list"

definition SessionMonitor ::
    "(string \<Rightarrow> int option) \<Rightarrow> int \<Rightarrow> hover_link \<Rightarrow> session list option \<Rightarrow> monitor_view" where
  "SessionMonitor parse_date now h sessions =
     (let deduped = deduplicateSessions parse_date (case sessions of None \<Rightarrow> [] | Some ss \<Rightarrow> ss)
      in if length deduped = 0 then NoActiveSessions
         else MonitorRows (SummaryStrip deduped) (map (SessionRow parse_date now h) (sorted_sessions deduped)))"

section \<open>Which session is kept\<close>

text \<open>
  The session kept of those that share a key: a first one whose time cannot be read is never displaced; otherwise
  it is the first of the latest readable time.
\<close>

definition prevails :: "(string \<Rightarrow> int option) \<Rightarrow> session list \<Rightarrow> session \<Rightarrow> bool" where
  "prevails parse_date ss e \<longleftrightarrow>
     (\<exists>before after. ss = before @ e # after \<and>
        (before \<noteq> [] \<longrightarrow> parse_date (s_ts (hd before)) \<noteq> None) \<and>
        (\<forall>s \<in> set before. parse_date (s_ts s) = None \<or> newer parse_date (s_ts e) (s_ts s)) \<and>
        (\<forall>s \<in> set after. \<not> newer parse_date (s_ts s) (s_ts e)))"

lemma prevails_single [simp]: "prevails pd [e] e"
  unfolding prevails_def by (intro exI [of _ "[]"]) simp

lemma prevails_keep: "prevails pd ss e \<Longrightarrow> \<not> newer pd (s_ts s) (s_ts e) \<Longrightarrow> prevails pd (ss @ [s]) e"
  unfolding prevails_def
proof (elim exE conjE)
  fix before after
  assume "ss = before @ e # after" and "\<not> newer pd (s_ts s) (s_ts e)"
    and "before \<noteq> [] \<longrightarrow> pd (s_ts (hd before)) \<noteq> None"
    and "\<forall>x \<in> set before. pd (s_ts x) = None \<or> newer pd (s_ts e) (s_ts x)"
    and "\<forall>x \<in> set after. \<not> newer pd (s_ts x) (s_ts e)"
  then show "\<exists>before after. ss @ [s] = before @ e # after \<and>
      (before \<noteq> [] \<longrightarrow> pd (s_ts (hd before)) \<noteq> None) \<and>
      (\<forall>x \<in> set before. pd (s_ts x) = None \<or> newer pd (s_ts e) (s_ts x)) \<and>
      (\<forall>x \<in> set after. \<not> newer pd (s_ts x) (s_ts e))"
    by (intro exI [of _ before] exI [of _ "after @ [s]"]) auto
qed

lemma newer_the:
  "newer pd a b \<Longrightarrow> the (pd b) < the (pd a)"
  "\<not> newer pd a b \<Longrightarrow> pd a \<noteq> None \<Longrightarrow> pd b \<noteq> None \<Longrightarrow> the (pd a) \<le> the (pd b)"
  by (auto simp: newer_def split: option.splits)

lemma newer_trans: "newer pd a b \<Longrightarrow> newer pd b c \<Longrightarrow> newer pd a c"
  by (auto simp: newer_def split: option.splits)

lemma not_newer_trans: "newer pd a b \<Longrightarrow> \<not> newer pd c b \<Longrightarrow> pd c = None \<or> newer pd a c"
  by (auto simp: newer_def split: option.splits)

lemma prevails_displace:
  assumes "prevails pd ss e" and "newer pd (s_ts s) (s_ts e)" shows "prevails pd (ss @ [s]) s"
proof -
  obtain before after where *: "ss = before @ e # after"
    "before \<noteq> [] \<longrightarrow> pd (s_ts (hd before)) \<noteq> None"
    "\<forall>x \<in> set before. pd (s_ts x) = None \<or> newer pd (s_ts e) (s_ts x)"
    "\<forall>x \<in> set after. \<not> newer pd (s_ts x) (s_ts e)"
    using assms(1) unfolding prevails_def by blast
  have "pd (s_ts e) \<noteq> None" using assms(2) by (auto simp: newer_def split: option.splits)
  then have "pd (s_ts (hd ss)) \<noteq> None" using *(1,2) by (cases before) simp_all
  moreover have "\<forall>x \<in> set ss. pd (s_ts x) = None \<or> newer pd (s_ts s) (s_ts x)"
    using *(1,3,4) newer_trans [OF assms(2)] not_newer_trans [OF assms(2)] assms(2) by auto
  ultimately show ?thesis unfolding prevails_def by (intro exI [of _ ss] exI [of _ "[]"]) simp
qed

definition kept_ok :: "(string \<Rightarrow> int option) \<Rightarrow> session list \<Rightarrow> (string, session) omap \<Rightarrow> bool" where
  "kept_ok pd ss m \<longleftrightarrow> distinct (om_keys m) \<and>
     (\<forall>k. case om_get m k of
        None \<Rightarrow> filter (\<lambda>s. session_key s = k) ss = []
      | Some e \<Rightarrow> prevails pd (filter (\<lambda>s. session_key s = k) ss) e)"

lemma kept_ok_step:
  assumes ok: "kept_ok pd ss m" shows "kept_ok pd (ss @ [s]) (keep_latest pd s m)"
proof -
  have old: "case om_get m k of None \<Rightarrow> filter (\<lambda>s. session_key s = k) ss = []
      | Some e \<Rightarrow> prevails pd (filter (\<lambda>s. session_key s = k) ss) e" for k
    using ok by (simp add: kept_ok_def)
  have other: "case om_get m k of None \<Rightarrow> filter (\<lambda>s. session_key s = k) (ss @ [s]) = []
      | Some e \<Rightarrow> prevails pd (filter (\<lambda>s. session_key s = k) (ss @ [s])) e" if "k \<noteq> session_key s" for k
  proof -
    have "filter (\<lambda>x. session_key x = k) (ss @ [s]) = filter (\<lambda>x. session_key x = k) ss" using that by auto
    with old [of k] show ?thesis by (simp only:)
  qed
  have d: "distinct (om_keys m)" using ok by (simp add: kept_ok_def)
  show ?thesis
  proof (cases "om_get m (session_key s)")
    case None
    with old [of "session_key s"] have "filter (\<lambda>x. session_key x = session_key s) ss = []" by simp
    with None d other show ?thesis by (simp add: kept_ok_def keep_latest_def)
  next
    case (Some e)
    with old [of "session_key s"] have e: "prevails pd (filter (\<lambda>x. session_key x = session_key s) ss) e" by simp
    show ?thesis
    proof (cases "newer pd (s_ts s) (s_ts e)")
      case True
      with Some d other prevails_displace [OF e True] show ?thesis by (simp add: kept_ok_def keep_latest_def)
    next
      case False
      have "case om_get m k of None \<Rightarrow> filter (\<lambda>s. session_key s = k) (ss @ [s]) = []
          | Some e \<Rightarrow> prevails pd (filter (\<lambda>s. session_key s = k) (ss @ [s])) e" for k
        using other [of k] prevails_keep [OF e False] Some by (cases "k = session_key s") simp_all
      with Some False d show ?thesis by (simp add: kept_ok_def keep_latest_def)
    qed
  qed
qed

lemma kept_ok_fold: "kept_ok pd ss (fold (keep_latest pd) ss [])"
proof (induction ss rule: rev_induct)
  case Nil
  show ?case by (simp add: kept_ok_def)
qed (simp add: kept_ok_step)

lemma kept_ok_None: "kept_ok pd ss m \<Longrightarrow> om_get m k = None \<Longrightarrow> filter (\<lambda>s. session_key s = k) ss = []"
  unfolding kept_ok_def by (drule conjunct2, drule spec [of _ k]) simp

lemma kept_ok_Some: "kept_ok pd ss m \<Longrightarrow> om_get m k = Some e \<Longrightarrow> prevails pd (filter (\<lambda>s. session_key s = k) ss) e"
  unfolding kept_ok_def by (drule conjunct2, drule spec [of _ k]) simp

lemma session_key_inj:
  assumes "session_key a = session_key b" and "CHR '':'' \<notin> set (s_branch a)" and "CHR '':'' \<notin> set (s_branch b)"
  shows "s_worktree a = s_worktree b \<and> s_branch a = s_branch b"
proof -
  have "last (split_on (CHR '':'') (session_key x)) = s_branch x" if "CHR '':'' \<notin> set (s_branch x)" for x
    using last_split [OF that, of "s_worktree x @ '':''"] by (simp add: session_key_def)
  then have "s_branch a = s_branch b" using assms by metis
  with assms(1) show ?thesis by (simp add: session_key_def)
qed

lemma prevails_in: "prevails pd ss e \<Longrightarrow> e \<in> set ss"
  by (auto simp: prevails_def)

lemma prevails_latest:
  assumes "prevails pd ss e" and "\<forall>s \<in> set ss. pd (s_ts s) \<noteq> None" and "s \<in> set ss"
  shows "the (pd (s_ts s)) \<le> the (pd (s_ts e))"
proof -
  obtain before after where *: "ss = before @ e # after"
    "\<forall>x \<in> set before. pd (s_ts x) = None \<or> newer pd (s_ts e) (s_ts x)"
    "\<forall>x \<in> set after. \<not> newer pd (s_ts x) (s_ts e)"
    using assms(1) unfolding prevails_def by blast
  have "pd (s_ts e) \<noteq> None" "pd (s_ts s) \<noteq> None" using *(1) assms(2,3) by auto
  moreover have "s = e \<or> newer pd (s_ts e) (s_ts s) \<or> \<not> newer pd (s_ts s) (s_ts e)"
    using * assms(2,3) by auto
  ultimately show ?thesis by (auto simp: newer_def)
qed

lemma deduped_group:
  assumes "e \<in> set (deduplicateSessions pd ss)"
  shows "prevails pd (filter (\<lambda>s. session_key s = session_key e) ss) e"
proof -
  let ?m = "fold (keep_latest pd) ss []"
  obtain k where k: "(k, e) \<in> set ?m" using assms by (auto simp: deduplicateSessions_def)
  then have "om_get ?m k = Some e" using kept_ok_fold [of pd ss] by (simp add: kept_ok_def)
  then have p: "prevails pd (filter (\<lambda>s. session_key s = k) ss) e"
    by (rule kept_ok_Some [OF kept_ok_fold])
  moreover have "session_key e = k" using prevails_in [OF p] by simp
  ultimately show ?thesis by simp
qed

lemma deduped_keys: "map session_key (deduplicateSessions pd ss) = om_keys (fold (keep_latest pd) ss [])"
proof -
  let ?m = "fold (keep_latest pd) ss []"
  have "session_key e = k" if "(k, e) \<in> set ?m" for k e
  proof -
    have "om_get ?m k = Some e" using kept_ok_fold [of pd ss] that by (simp add: kept_ok_def)
    then have "prevails pd (filter (\<lambda>s. session_key s = k) ss) e"
      by (rule kept_ok_Some [OF kept_ok_fold])
    then show ?thesis using prevails_in by fastforce
  qed
  then show ?thesis by (auto simp: deduplicateSessions_def)
qed

lemma deduped_in: "e \<in> set (deduplicateSessions pd ss) \<Longrightarrow> e \<in> set ss"
  using prevails_in [OF deduped_group] by fastforce

lemma key_of_pair:
  assumes "\<forall>s \<in> set ss. CHR '':'' \<notin> set (s_branch s)" and "a \<in> set ss" and "b \<in> set ss"
  shows "session_key a = session_key b \<longleftrightarrow> s_worktree a = s_worktree b \<and> s_branch a = s_branch b"
  using session_key_inj [of a b] assms by (auto simp: session_key_def)

lemma deduped_covers:
  assumes "s \<in> set ss" shows "\<exists>e \<in> set (deduplicateSessions pd ss). session_key e = session_key s"
proof -
  have "om_get (fold (keep_latest pd) ss []) (session_key s) \<noteq> None"
  proof
    assume "om_get (fold (keep_latest pd) ss []) (session_key s) = None"
    then have "filter (\<lambda>x. session_key x = session_key s) ss = []"
      by (rule kept_ok_None [OF kept_ok_fold])
    with assms show False by (auto simp: filter_empty_conv)
  qed
  then obtain e where "e \<in> set (deduplicateSessions pd ss)" "session_key e = session_key s"
    using om_get_in [of "fold (keep_latest pd) ss []" "session_key s"] unfolding deduped_keys [symmetric] by auto
  then show ?thesis by blast
qed

lemma deduped_latest:
  assumes "e \<in> set (deduplicateSessions pd ss)"
  shows "\<exists>before after. filter (\<lambda>s. session_key s = session_key e) ss = before @ e # after \<and>
           ((\<forall>s \<in> set ss. pd (s_ts s) \<noteq> None) \<longrightarrow>
              (\<forall>s \<in> set before. the (pd (s_ts s)) < the (pd (s_ts e))) \<and>
              (\<forall>s \<in> set after. the (pd (s_ts s)) \<le> the (pd (s_ts e))))"
proof -
  obtain before after where *: "filter (\<lambda>s. session_key s = session_key e) ss = before @ e # after"
    "\<forall>s \<in> set before. pd (s_ts s) = None \<or> newer pd (s_ts e) (s_ts s)"
    "\<forall>s \<in> set after. \<not> newer pd (s_ts s) (s_ts e)"
    using deduped_group [OF assms] unfolding prevails_def by blast
  have "set (before @ e # after) \<subseteq> set ss" unfolding *(1) [symmetric] by auto
  then have in_ss: "x \<in> set ss" if "x \<in> set before \<or> x \<in> set after \<or> x = e" for x using that by auto
  have "the (pd (s_ts x)) < the (pd (s_ts e))" if "\<forall>s \<in> set ss. pd (s_ts s) \<noteq> None" and "x \<in> set before" for x
    using that *(2) in_ss newer_the(1) by blast
  moreover have "the (pd (s_ts x)) \<le> the (pd (s_ts e))" if "\<forall>s \<in> set ss. pd (s_ts s) \<noteq> None" and "x \<in> set after" for x
    using that *(3) in_ss newer_the(2) [of pd "s_ts x" "s_ts e"] by blast
  ultimately show ?thesis using *(1) by (intro exI [of _ before] exI [of _ after]) simp
qed

text \<open>
  C32. The monitor has one row for each worktree and branch of the reported sessions, showing a session that was reported
  for them; if all times can be read it is a latest one, and of equally late ones the first.
\<close>
theorem one_row_per_branch:
  assumes "\<forall>s \<in> set ss. CHR '':'' \<notin> set (s_branch s)"
  shows "distinct (map (\<lambda>s. (s_worktree s, s_branch s)) (deduplicateSessions pd ss)) \<and>
         (\<lambda>s. (s_worktree s, s_branch s)) ` set (deduplicateSessions pd ss) = (\<lambda>s. (s_worktree s, s_branch s)) ` set ss \<and>
         (\<forall>e \<in> set (deduplicateSessions pd ss). \<exists>before after.
            filter (\<lambda>s. s_worktree s = s_worktree e \<and> s_branch s = s_branch e) ss = before @ e # after \<and>
            ((\<forall>s \<in> set ss. pd (s_ts s) \<noteq> None) \<longrightarrow>
               (\<forall>s \<in> set before. the (pd (s_ts s)) < the (pd (s_ts e))) \<and>
               (\<forall>s \<in> set after. the (pd (s_ts s)) \<le> the (pd (s_ts e)))))"
proof -
  let ?out = "deduplicateSessions pd ss" and ?pair = "\<lambda>s. (s_worktree s, s_branch s)"
  note key = key_of_pair [OF assms]
  have "distinct (map session_key ?out)" using kept_ok_fold [of pd ss] by (simp add: deduped_keys kept_ok_def)
  then have "distinct (map ?pair ?out)" using key deduped_in by (auto simp: distinct_map inj_on_def)
  moreover have "?pair ` set ?out = ?pair ` set ss"
  proof (intro equalityI image_subsetI)
    fix s assume s: "s \<in> set ss"
    then obtain e where "e \<in> set ?out" "session_key e = session_key s" using deduped_covers by blast
    with key [OF deduped_in s] show "?pair s \<in> ?pair ` set ?out" by (intro image_eqI [of _ _ e]) simp_all
  qed (use deduped_in in blast)
  moreover have "filter (\<lambda>s. s_worktree s = s_worktree e \<and> s_branch s = s_branch e) ss =
      filter (\<lambda>s. session_key s = session_key e) ss" if "e \<in> set ?out" for e
    using key [OF _ deduped_in [OF that]] by (auto intro: filter_cong)
  ultimately show ?thesis using deduped_latest by simp
qed

section \<open>Summary and order\<close>

lemma status_counts_ok:
  "om_get_or 0 (status_counts ss) st = count (mset (map s_status ss)) st \<and> distinct (om_keys (status_counts ss))"
proof (induction ss rule: rev_induct)
  case (snoc s ss)
  then show ?case by (auto simp: status_counts_def)
qed (simp add: status_counts_def om_get_or_def)

lemma count_replicates:
  assumes "distinct (om_keys m)"
  shows "count (mset (concat (map (\<lambda>(k, n). replicate n k) m))) k = om_get_or 0 m k"
  using assms
proof (induction m)
  case (Cons p m)
  have "count (mset (concat (map (\<lambda>(k, n). replicate n k) m))) k = 0" if "k \<notin> set (om_keys m)"
    using that by (force simp: count_eq_zero_iff)
  moreover have "om_get m k = None" if "k \<notin> set (om_keys m)" using that by (simp add: map_of_eq_None_iff)
  ultimately show ?case using Cons by (cases p) (auto simp: om_get_or_def)
qed (simp add: om_get_or_def)

lemma order_inj: "inj STATUS_SORT_ORDER"
proof (rule injI)
  fix x y assume "STATUS_SORT_ORDER x = STATUS_SORT_ORDER y"
  then show "x = y" by (cases x; cases y) simp_all
qed

lemma sorted_by_order:
  "sorted (map f (js_sort (\<lambda>a b. f a - f b :: int) xs))"
  using js_comparator.sorted_js_sort [OF js_comparator_key [of f], of xs] by (simp add: sorted_map)

lemma sorted_concat_replicate:
  "sorted (map f cs) \<Longrightarrow> sorted (concat (map (\<lambda>c. replicate (n c) (f c)) cs))"
  by (induction cs) (auto simp: sorted_append sorted_replicate)

text \<open>
  The summary describes the list below it: read as so many of each status in turn, the chips give the statuses
  of the rows from the top down, the most urgent first.
\<close>
theorem summary_matches_rows:
  assumes "SessionMonitor pd now h sessions = MonitorRows chips rows"
  shows "map (\<lambda>r. snd (sw_pill r)) rows = concat (map (\<lambda>c. replicate (sc_count c) (status_words (sc_status c))) chips) \<and>
         (\<forall>c \<in> set chips. 0 < sc_count c \<and> sc_label c = string_of_nat (sc_count c) @ '' '' @ status_words (sc_status c)) \<and>
         sorted (map (\<lambda>c. STATUS_SORT_ORDER (sc_status c)) chips) \<and> rows \<noteq> []"
proof -
  define ks where "ks = deduplicateSessions pd (case sessions of None \<Rightarrow> [] | Some ss \<Rightarrow> ss)"
  have ne: "ks \<noteq> []" and chips: "chips = SummaryStrip ks"
    and rows: "rows = map (SessionRow pd now h) (sorted_sessions ks)"
    using assms by (auto simp: SessionMonitor_def ks_def Let_def split: if_splits)
  let ?g = "\<lambda>c. STATUS_SORT_ORDER (sc_status c)" and ?R = "concat (map (\<lambda>c. replicate (sc_count c) (sc_status c)) chips)"
  have sorted_chips: "sorted (map ?g chips)" unfolding chips SummaryStrip_def by (rule sorted_by_order)
  have L: "sorted (map STATUS_SORT_ORDER (map s_status (sorted_sessions ks)))"
    using sorted_by_order [of "\<lambda>s. STATUS_SORT_ORDER (s_status s)" ks] by (simp add: sorted_sessions_def comp_def)
  have "map STATUS_SORT_ORDER ?R = concat (map (\<lambda>c. replicate (sc_count c) (?g c)) chips)"
    by (simp add: map_concat comp_def)
  then have R: "sorted (map STATUS_SORT_ORDER ?R)" using sorted_concat_replicate [OF sorted_chips] by simp
  have "mset ?R = mset (map s_status ks)"
  proof (rule multiset_eqI)
    fix st
    have "mset ?R = sum_mset (image_mset (\<lambda>c. replicate_mset (sc_count c) (sc_status c)) (mset chips))"
      by (simp add: mset_concat comp_def flip: sum_mset_sum_list mset_map)
    also have "\<dots> = mset (concat (map (\<lambda>(k, n). replicate n k) (filter (\<lambda>(k, n). 0 < n) (status_counts ks))))"
      by (simp add: chips SummaryStrip_def mset_concat multiset.map_comp comp_def case_prod_unfold flip: sum_mset_sum_list mset_map)
    also have "concat (map (\<lambda>(k, n). replicate n k) (filter (\<lambda>(k, n). 0 < n) m)) = concat (map (\<lambda>(k, n). replicate n k) m)"
      for m :: "(session_status, nat) omap" by (induction m) auto
    finally show "count (mset ?R) st = count (mset (map s_status ks)) st"
      using status_counts_ok [of ks st] count_replicates [of "status_counts ks" st] by simp
  qed
  then have "mset (map STATUS_SORT_ORDER ?R) = mset (map STATUS_SORT_ORDER (map s_status (sorted_sessions ks)))"
    by (simp only: mset_map sorted_sessions_def mset_js_sort)
  then have "map STATUS_SORT_ORDER ?R = map STATUS_SORT_ORDER (map s_status (sorted_sessions ks))"
    using L R by (metis properties_for_sort)
  then have "?R = map s_status (sorted_sessions ks)" using order_inj by (metis inj_map_eq_map)
  then have "map status_words ?R = map (\<lambda>r. snd (sw_pill r)) rows"
    by (simp add: rows SessionRow_def Let_def comp_def)
  moreover have "map status_words ?R = concat (map (\<lambda>c. replicate (sc_count c) (status_words (sc_status c))) chips)"
    by (simp add: map_concat comp_def)
  moreover have "\<forall>c \<in> set chips. 0 < sc_count c \<and> sc_label c = string_of_nat (sc_count c) @ '' '' @ status_words (sc_status c)"
    by (auto simp: chips SummaryStrip_def)
  moreover have "rows \<noteq> []" using ne by (metis rows sorted_sessions_def length_js_sort length_map list.size(3) length_0_conv)
  ultimately show ?thesis using sorted_chips by simp
qed

section \<open>The hover link\<close>

text \<open>
  The link is symmetric: a row is highlighted while the mouse is on a card exactly if that card would be
  highlighted while the mouse is on the row, and leaving either clears it.
\<close>
theorem hover_link_symmetric:
  assumes "t_id t \<noteq> ''''"
  shows "(sw_linked (SessionRow pd now (card_hover t RowEnter h) s) \<longleftrightarrow>
           linked_highlight (hl_branch (row_hover s RowEnter h')) t) \<and>
         \<not> sw_linked (SessionRow pd now (card_hover t RowLeave h) s) \<and>
         \<not> linked_highlight (hl_branch (row_hover s RowLeave h')) t"
  using assms
  by (auto simp: SessionRow_def setHoveredTask_def setHoveredSession_def linked_highlight_def Let_def)

section \<open>Times that cannot be read\<close>

text \<open>
  A session whose time cannot be read and that is reported first keeps its row, whatever is reported for its branch
  afterwards.
\<close>
lemma unreadable_time_stays:
  assumes "pd (s_ts s) = None" and "session_key e = session_key s" and "e \<in> set (deduplicateSessions pd (s # ss))"
  shows "e = s"
  using deduped_group [OF assms(3)] assms(1,2)
  by (auto simp: prevails_def newer_def Cons_eq_append_conv split: option.splits)

section \<open>Witnesses\<close>

definition demo_at :: "string \<Rightarrow> int option" where
  "demo_at s = (case s of [c] \<Rightarrow> Some (of_char c) | _ \<Rightarrow> None)"

definition demo_report :: "string \<Rightarrow> string \<Rightarrow> string \<Rightarrow> session_status \<Rightarrow> session" where
  "demo_report sid branch ts st =
     \<lparr>s_sid = sid, s_cwd = ''/Users/me/w'', s_worktree = ''/Users/me/w'', s_branch = branch, s_event = ''Stop'',
      s_type = '''', s_msg = '''', s_ts = ts, s_status = st, s_flow = None\<rparr>"

definition demo_sessions :: "session list" where
  "demo_sessions = [demo_report ''a'' ''feature/x'' ''1'' SIdle, demo_report ''b'' ''main'' ''2'' SNeedsInput,
     demo_report ''c'' ''feature/x'' ''3'' SWorking]"

lemma demo_dedup: "map s_sid (deduplicateSessions demo_at demo_sessions) = [''c'', ''b'']"
  by code_simp

lemma one_row_per_branch_witness:
  "distinct (map (\<lambda>s. (s_worktree s, s_branch s)) (deduplicateSessions demo_at demo_sessions)) \<and>
   map s_sid (deduplicateSessions demo_at demo_sessions) = [''c'', ''b'']"
proof -
  have "\<forall>s \<in> set demo_sessions. CHR '':'' \<notin> set (s_branch s)"
    by (simp add: demo_sessions_def demo_report_def)
  from one_row_per_branch [OF this, of demo_at] demo_dedup show ?thesis by blast
qed

definition demo_monitor :: monitor_view where
  "demo_monitor = SessionMonitor demo_at 0 hover_init (Some demo_sessions)"

lemma summary_matches_rows_witness:
  "\<exists>chips rows. demo_monitor = MonitorRows chips rows \<and> rows \<noteq> [] \<and>
     map sc_label chips = [''1 needs input'', ''1 working'']"
proof -
  have "(case demo_monitor of MonitorRows chips rows \<Rightarrow> map sc_label chips | NoActiveSessions \<Rightarrow> []) =
      [''1 needs input'', ''1 working'']" by code_simp
  note chips = this
  show ?thesis
  proof (cases demo_monitor)
    case (MonitorRows chips' rows')
    then have "rows' \<noteq> []" using summary_matches_rows unfolding demo_monitor_def by blast
    moreover have "map sc_label chips' = [''1 needs input'', ''1 working'']" using chips unfolding MonitorRows by (simp only: monitor_view.case)
    ultimately show ?thesis using MonitorRows by (intro exI [of _ chips'] exI [of _ rows'] conjI)
  qed (use chips in simp)
qed

definition demo_card :: task where
  "demo_card = mk_task ''x'' ''X'' TPending"

lemma hover_link_symmetric_witness:
  "sw_linked (SessionRow demo_at 0 (card_hover demo_card RowEnter hover_init) (hd demo_sessions)) \<and>
   linked_highlight (hl_branch (row_hover (hd demo_sessions) RowEnter hover_init)) demo_card"
proof -
  have "t_id demo_card \<noteq> ''''" by (simp add: demo_card_def mk_task_def)
  moreover have "linked_highlight (hl_branch (row_hover (hd demo_sessions) RowEnter hover_init)) demo_card" by code_simp
  ultimately show ?thesis using hover_link_symmetric by blast
qed

end
