(* ===== verification/Overview.thy ===== *)
theory Overview
  imports SessionMonitor ListViews
begin

text \<open>
  The landing page, \<open>components/OverviewView.tsx\<close>: the status line, the four tiles, the portfolio table and the
  panels for activity, throughput and health, all computed from the replies of the three polls.
  Numbers are exact where the code rounds them; \<open>parse_date\<close> is \<open>Date.parse\<close>, \<open>None\<close> for NaN.
\<close>

section \<open>Counting\<close>

fun feature_status_name :: "feature_status \<Rightarrow> string" where
  "feature_status_name FStuck = ''stuck''"
| "feature_status_name FWaiting = ''waiting''"
| "feature_status_name FActive = ''active''"
| "feature_status_name FPaused = ''paused''"
| "feature_status_name FDone = ''done''"
| "feature_status_name (FUnknown s) = s"

record feature_counts =
  fc_running :: nat
  fc_awaiting :: nat
  fc_blocked :: nat
  fc_shipped :: nat

definition count_feature :: "feature \<Rightarrow> feature_counts \<Rightarrow> feature_counts" where
  "count_feature f c =
     (if f_status f = FActive then c\<lparr>fc_running := fc_running c + 1\<rparr>
      else if f_status f = FWaiting then c\<lparr>fc_awaiting := fc_awaiting c + 1\<rparr>
      else if f_status f = FStuck \<or> f_status f = FPaused then c\<lparr>fc_blocked := fc_blocked c + 1\<rparr>
      else if f_status f = FDone then c\<lparr>fc_shipped := fc_shipped c + 1\<rparr>
      else c)"

definition countFeaturesByStatus :: "feature list \<Rightarrow> feature_counts" where
  "countFeaturesByStatus fs =
     fold count_feature fs \<lparr>fc_running = 0, fc_awaiting = 0, fc_blocked = 0, fc_shipped = 0\<rparr>"

text \<open>A share in percent, rounded to one decimal.\<close>

definition permille :: "int \<Rightarrow> nat \<Rightarrow> rat" where
  "permille a b = of_int (js_round (of_int a / of_nat b * 1000)) / 10"

record fleet_stats =
  fl_passRate :: rat
  fl_errorRate :: rat
  fl_permissionFriction :: rat
  fl_autopilotTrust :: int
  fl_budgetUsed :: int
  fl_burnPerWk :: rat
  fl_commits24h :: nat
  fl_weekThroughput :: "nat list"
  fl_runningDelta :: int
  fl_shippedDelta :: int

text \<open>The loop over the shipped features, by their number: the \<open>i\<close>-th goes to day \<open>2 * i mod 7\<close>.\<close>

definition week_buckets :: "nat \<Rightarrow> nat list" where
  "week_buckets n = fold (\<lambda>i week. week[i * 2 mod 7 := week ! (i * 2 mod 7) + 1]) [0..<n] (replicate 7 0)"

definition computeFleetStats :: "feature list \<Rightarrow> session list option \<Rightarrow> fleet_stats" where
  "computeFleetStats features sessions =
     (let ss = (case sessions of None \<Rightarrow> [] | Some ss \<Rightarrow> ss);
          total = (if length ss = 0 then 1 else length ss);
          ended = length (filter (\<lambda>s. s_status s \<in> {SCompleted, SStopped, SClosed, SStale}) ss);
          errors = length (filter (\<lambda>s. s_event s = ''PostToolUseFailure'') ss);
          friction = length (filter (\<lambda>s. s_event s = ''PermissionRequest'') ss);
          passed = int ended - int errors;
          shippedThisWeek = length (filter (\<lambda>f. f_status f = FDone) features)
      in \<lparr>fl_passRate = permille passed (max 1 ended),
          fl_errorRate = permille (int errors) total,
          fl_permissionFriction = permille (int friction) total,
          fl_autopilotTrust = (if friction = 0 then 100 else max 0 (100 - int friction)),
          fl_budgetUsed = min 100 (js_round (of_nat total / 100 * 100)),
          fl_burnPerWk = of_nat total * (6 / 5),
          fl_commits24h = fold (\<lambda>f acc. acc + length (f_sessions f)) features 0,
          fl_weekThroughput = week_buckets shippedThisWeek,
          fl_runningDelta = 0,
          fl_shippedDelta = (if shippedThisWeek > 0 then int shippedThisWeek else 0)\<rparr>)"

section \<open>Activity\<close>

definition relativeAgo :: "(string \<Rightarrow> int option) \<Rightarrow> int \<Rightarrow> string \<Rightarrow> string" where
  "relativeAgo parse_date now ts =
     (case parse_date ts of
        None \<Rightarrow> ''''
      | Some then' \<Rightarrow>
          (let seconds = (now - then') div 1000
           in if seconds < 60 then string_of_int seconds @ ''s''
              else if seconds < 3600 then string_of_int (seconds div 60) @ ''m''
              else if seconds < 86400 then string_of_int (seconds div 3600) @ ''h''
              else string_of_int (seconds div 86400) @ ''d''))"

definition session_event :: "session \<Rightarrow> string option" where
  "session_event s =
     (if s_event s = ''TaskCompleted'' then Some (''task completed '' @ mdot @ '' '' @ s_branch s)
      else if s_event s = ''Stop'' then Some (''session ended '' @ mdot @ '' '' @ s_branch s)
      else if s_event s = ''PostToolUseFailure'' then Some (''tool failed '' @ mdot @ '' '' @ s_branch s)
      else if s_event s = ''SessionStart'' then Some (''new session '' @ mdot @ '' '' @ s_branch s)
      else None)"

definition slice_last :: "nat \<Rightarrow> 'a list \<Rightarrow> 'a list" where
  "slice_last n xs = drop (length xs - n) xs"

definition recentActivity ::
    "(string \<Rightarrow> int option) \<Rightarrow> int \<Rightarrow> feature list \<Rightarrow> session list option \<Rightarrow> (string \<times> string) list" where
  "recentActivity parse_date now features sessions =
     (let ss = (case sessions of None \<Rightarrow> [] | Some ss \<Rightarrow> ss);
          recent = rev (slice_last 12 ss)
      in List.map_filter (\<lambda>s. map_option (Pair (relativeAgo parse_date now (s_ts s))) (session_event s)) recent
         @ List.map_filter (\<lambda>f. if f_status f = FDone then Some (''now'', f_name f @ '' shipped'') else None) features)"

definition plural_words :: "string \<Rightarrow> nat \<Rightarrow> string" where
  "plural_words w n = string_of_nat n @ '' '' @ w @ (if n = 1 then '''' else ''s'')"

definition summarize :: "feature list \<Rightarrow> nat \<Rightarrow> nat \<Rightarrow> string" where
  "summarize features projectCount activeSessions =
     (let active = length (filter (\<lambda>f. f_status f = FActive \<or> f_status f = FWaiting) features)
      in if active = 0 \<and> projectCount = 0 then ''No projects discovered yet.''
         else join_with ('' '' @ mdot @ '' '')
           ([plural_words ''feature'' active @ '' underway'']
            @ (if activeSessions > 0 then [plural_words ''active session'' activeSessions] else [])
            @ (if projectCount > 0 then [plural_words ''project'' projectCount] else [])))"

section \<open>The page\<close>

datatype progress_tone = TonePrimary | ToneOk | ToneWarn | ToneBad

fun progressTone :: "feature_status \<Rightarrow> progress_tone" where
  "progressTone FActive = TonePrimary"
| "progressTone FDone = ToneOk"
| "progressTone FStuck = ToneBad"
| "progressTone FPaused = ToneWarn"
| "progressTone _ = TonePrimary"

record portfolio_row =
  pr_name :: string
  pr_pill :: "wf_status option \<times> string"
  pr_progress :: int
  pr_tone :: progress_tone
  pr_phase :: string
  pr_pipeline :: pipeline_type
  pr_sessions :: nat
  pr_project :: string

definition OverviewFeatureRow :: "feature \<Rightarrow> portfolio_row" where
  "OverviewFeatureRow f =
     \<lparr>pr_name = f_name f,
      pr_pill = (featureToWfStatus (feature_status_name (f_status f)), feature_status_name (f_status f)),
      pr_progress = (if f_total_phases f > 0
                     then js_round (of_int (f_phase_index f) / of_int (f_total_phases f) * 100) else 0),
      pr_tone = progressTone (f_status f),
      pr_phase = string_of_int (f_phase_index f) @ ''/'' @ string_of_int (f_total_phases f),
      pr_pipeline = f_pipeline_type f, pr_sessions = length (f_sessions f), pr_project = f_project f\<rparr>"

datatype tile_tone = TileOk | TileWarn | TileNeutral

record kpi_tile =
  kt_label :: string
  kt_value :: nat
  kt_tone :: tile_tone
  kt_delta :: "string option"

definition KpiTile :: "string \<Rightarrow> nat \<Rightarrow> tile_tone \<Rightarrow> int option \<Rightarrow> kpi_tile" where
  "KpiTile label value tone delta =
     \<lparr>kt_label = label, kt_value = value, kt_tone = tone,
      kt_delta = (case delta of
          Some d \<Rightarrow> if d \<noteq> 0 then Some ((if d > 0 then ''+'' else '''') @ string_of_int d @ '' vs prev'') else None
        | None \<Rightarrow> None)\<rparr>"

record health_row =
  hr_label :: string
  hr_bar :: rat
  hr_text :: string
  hr_tone :: tile_tone

definition HealthRow :: "string \<Rightarrow> rat \<Rightarrow> string \<Rightarrow> tile_tone \<Rightarrow> health_row" where
  "HealthRow label value unit tone =
     \<lparr>hr_label = label, hr_bar = min 100 (max 0 value), hr_text = string_of_rat value @ unit, hr_tone = tone\<rparr>"

record day_bar =
  db_day :: "string option"
  db_lit :: bool
  db_height :: rat

definition week_days :: "string list" where
  "week_days = [''Mon'', ''Tue'', ''Wed'', ''Thu'', ''Fri'', ''Sat'', ''Sun'']"

definition ThroughputBars :: "nat list \<Rightarrow> day_bar list" where
  "ThroughputBars throughput =
     (let mx = fold max throughput 1
      in map (\<lambda>(i, v). \<lparr>db_day = (if i < length week_days then Some (week_days ! i) else None), db_lit = (v > 0),
                       db_height = of_nat v / of_nat mx * 60\<rparr>) (enumerate 0 throughput))"

datatype portfolio = PortfolioLoading | NoActiveFeatures | PortfolioRows "portfolio_row list"
datatype activity_panel = Quiet | ActivityLines "(string \<times> string) list"

record overview_page =
  op_status :: string
  op_header :: "string list"
  op_tiles :: "kpi_tile list"
  op_portfolio :: portfolio
  op_activity :: activity_panel
  op_throughput :: "day_bar list"
  op_health :: "health_row list"

datatype overview = EmptyScope string | OverviewPage overview_page

definition active_count :: "session list \<Rightarrow> nat" where
  "active_count ss = length (filter (\<lambda>s. s_status s \<in> {SWorking, SNeedsInput, SIdle}) ss)"

definition overview_tiles :: "feature_counts \<Rightarrow> fleet_stats \<Rightarrow> kpi_tile list" where
  "overview_tiles c st =
     [KpiTile ''Running'' (fc_running c) TileNeutral (Some (fl_runningDelta st)),
      KpiTile ''Awaiting review'' (fc_awaiting c) TileNeutral None,
      KpiTile ''Blocked'' (fc_blocked c) (if fc_blocked c > 0 then TileWarn else TileNeutral) None,
      KpiTile ''Shipped (this wk)'' (fc_shipped c) TileOk (Some (fl_shippedDelta st))]"

definition health_rows :: "fleet_stats \<Rightarrow> health_row list" where
  "health_rows st =
     [HealthRow ''Pass-rate'' (fl_passRate st) ''%'' TileOk,
      HealthRow ''Error-rate'' (fl_errorRate st) ''%'' (if fl_errorRate st > 5 then TileWarn else TileNeutral),
      HealthRow ''Permission friction'' (fl_permissionFriction st) ''%'' TileNeutral,
      HealthRow ''Autopilot trust'' (of_int (fl_autopilotTrust st)) ''%'' TileOk,
      HealthRow ''Budget used'' (of_int (fl_budgetUsed st)) ''%'' TileNeutral]"

definition overview_header :: "fleet_stats \<Rightarrow> string list" where
  "overview_header st =
     [''pass-rate '' @ string_of_rat (fl_passRate st) @ ''%'',
      ''burn $'' @ to_fixed 0 (fl_burnPerWk st) @ ''/wk'',
      ''commits '' @ string_of_nat (fl_commits24h st)]"

definition OverviewView ::
    "(string \<Rightarrow> int option) \<Rightarrow> int \<Rightarrow> feature list option \<Rightarrow> bool \<Rightarrow> session list option \<Rightarrow> nat option \<Rightarrow> overview" where
  "OverviewView parse_date now features featuresLoading sessions projects =
     (let fs = (case features of None \<Rightarrow> [] | Some fs \<Rightarrow> fs);
          ss = (case sessions of None \<Rightarrow> [] | Some ss \<Rightarrow> ss);
          np = (case projects of None \<Rightarrow> 0 | Some n \<Rightarrow> n);
          fleet = computeFleetStats fs (Some ss);
          activity = recentActivity parse_date now fs (Some ss)
      in if np = 0 \<and> length ss = 0 \<and> length fs = 0 then EmptyScope ''no projects discovered yet''
         else OverviewPage
           \<lparr>op_status = summarize fs np (active_count ss), op_header = overview_header fleet,
            op_tiles = overview_tiles (countFeaturesByStatus fs) fleet,
            op_portfolio = (if featuresLoading then PortfolioLoading
                            else if length fs = 0 then NoActiveFeatures else PortfolioRows (map OverviewFeatureRow fs)),
            op_activity = (if length activity = 0 then Quiet else ActivityLines (take 6 activity)),
            op_throughput = ThroughputBars (fl_weekThroughput fleet), op_health = health_rows fleet\<rparr>)"

section \<open>Throughput\<close>

lemma week_step: "week_buckets (Suc n) = (week_buckets n)[n * 2 mod 7 := week_buckets n ! (n * 2 mod 7) + 1]"
  by (simp add: week_buckets_def)

lemma length_week [simp]: "length (week_buckets n) = 7"
  by (induction n) (simp_all add: week_step, simp add: week_buckets_def)

text \<open>Since \<open>4\<close> inverts \<open>2\<close> modulo \<open>7\<close>, day \<open>i\<close> gets the shipped features whose number is \<open>4 * i\<close> modulo \<open>7\<close>.\<close>

lemma add_div_week:
  assumes "r < 7" shows "(Suc n + 6 - r) div 7 = (n + 6 - r) div 7 + (if n mod 7 = r then 1 else 0)"
proof -
  have "Suc n + 6 - r = Suc (n + 6 - r)" using assms by simp
  then have "(Suc n + 6 - r) div 7 = (n + 6 - r) div 7 + (if Suc (n + 6 - r) mod 7 = 0 then 1 else 0)"
    by (simp only: div_Suc) simp
  moreover have "r = 0 \<or> r = 1 \<or> r = 2 \<or> r = 3 \<or> r = 4 \<or> r = 5 \<or> r = 6" using assms by auto
  then have "Suc (n + 6 - r) mod 7 = 0 \<longleftrightarrow> n mod 7 = r" by (elim disjE; simp; presburger)
  ultimately show ?thesis by simp
qed

lemma week_closed: "i < 7 \<Longrightarrow> week_buckets n ! i = (n + 6 - 4 * i mod 7) div 7"
proof (induction n)
  case 0
  then show ?case by (simp add: week_buckets_def)
next
  case (Suc n)
  have "n * 2 mod 7 = i \<longleftrightarrow> n mod 7 = 4 * i mod 7"
  proof -
    have "4 * (n * 2 mod 7) mod 7 = n mod 7" using mod_mult_self2 [of n 7 n] by (simp add: mod_mult_right_eq)
    moreover have "(4 * i mod 7) * 2 mod 7 = i" using Suc.prems mod_mult_self2 [of i 7 i] by (simp add: mod_mult_left_eq)
    moreover have "n * 2 mod 7 = (n mod 7) * 2 mod 7" by (simp add: mod_mult_left_eq)
    ultimately show ?thesis by metis
  qed
  moreover have "r < 7 \<Longrightarrow> (Suc n + 6 - r) div 7 = (n + 6 - r) div 7 + (if n mod 7 = r then 1 else 0)" for r
    by (rule add_div_week)
  ultimately show ?case using Suc by (cases "n * 2 mod 7 = i") (simp_all add: week_step)
qed

lemma sum_list_update_Suc: "i < length xs \<Longrightarrow> sum_list (xs[i := xs ! i + 1]) = sum_list xs + (1 :: nat)"
  by (simp add: sum_list_update)

lemma sum_week: "sum_list (week_buckets n) = n"
proof (induction n)
  case (Suc n)
  then show ?case unfolding week_step by (subst sum_list_update_Suc) simp_all
qed (simp add: week_buckets_def)

lemma week_even: "i < 7 \<Longrightarrow> j < 7 \<Longrightarrow> week_buckets n ! i \<le> week_buckets n ! j + 1"
proof -
  assume "i < 7" and "j < 7"
  have "4 * j mod 7 < 7" by simp
  then have "n \<le> n + 6 - 4 * j mod 7" by linarith
  then have "n div 7 + 1 \<le> (n + 6 - 4 * j mod 7) div 7 + 1" by (simp add: div_le_mono)
  moreover have "(n + 6 - 4 * i mod 7) div 7 \<le> (n + 7) div 7" by (rule div_le_mono) simp
  ultimately have "(n + 6 - 4 * i mod 7) div 7 \<le> (n + 6 - 4 * j mod 7) div 7 + 1" by simp
  then show ?thesis using \<open>i < 7\<close> \<open>j < 7\<close> by (simp add: week_closed)
qed

lemma fold_max_base: "a \<le> fold max xs (a :: nat)"
proof (induction xs arbitrary: a)
  case (Cons y ys)
  have "a \<le> max y a" by simp
  also have "\<dots> \<le> fold max ys (max y a)" by (rule Cons.IH)
  finally show ?case by simp
qed simp

lemma fold_max_ge: "x \<in> set xs \<Longrightarrow> x \<le> fold max xs (a :: nat)"
proof (induction xs arbitrary: a)
  case (Cons y ys)
  show ?case
  proof (cases "x = y")
    case True
    have "x \<le> max y a" unfolding True by simp
    also have "\<dots> \<le> fold max ys (max y a)" by (rule fold_max_base)
    finally show ?thesis by simp
  qed (use Cons in simp)
qed simp

lemma bar_heights: "b \<in> set (ThroughputBars week) \<Longrightarrow> 0 \<le> db_height b \<and> db_height b \<le> 60 \<and> (db_lit b \<longleftrightarrow> 0 < db_height b)"
proof -
  assume "b \<in> set (ThroughputBars week)"
  then obtain i where i: "i < length week" and b: "db_lit b \<longleftrightarrow> week ! i > 0"
    "db_height b = of_nat (week ! i) / of_nat (fold max week 1) * 60"
    unfolding ThroughputBars_def Let_def by (auto simp: in_set_enumerate_eq)
  let ?v = "week ! i"
  have v: "?v \<in> set week" using i by simp
  have "1 \<le> fold max week 1" "?v \<le> fold max week 1" using fold_max_base fold_max_ge [OF v] by blast+
  then show ?thesis unfolding b by (auto simp: divide_le_eq zero_less_divide_iff)
qed

section \<open>Tiles\<close>

lemma fold_count_feature:
  "fold count_feature fs c =
     \<lparr>fc_running = fc_running c + length (filter (\<lambda>f. f_status f = FActive) fs),
      fc_awaiting = fc_awaiting c + length (filter (\<lambda>f. f_status f = FWaiting) fs),
      fc_blocked = fc_blocked c + length (filter (\<lambda>f. f_status f \<in> {FStuck, FPaused}) fs),
      fc_shipped = fc_shipped c + length (filter (\<lambda>f. f_status f = FDone) fs)\<rparr>"
  by (induction fs arbitrary: c) (simp_all add: count_feature_def)

text \<open>
  C31. The tiles are the numbers of rows of the portfolio by status, so that together they account for every feature
  of a known status; the week's bars add up to the shipped tile, but which day they stand on has
  nothing to do with when a feature was shipped: the counts of any two days differ by at most one.
\<close>
theorem overview_tiles_exact:
  assumes "OverviewView pd now (Some fs) loading ss np = OverviewPage p"
    and "week = fl_weekThroughput (computeFleetStats fs ss)"
  shows "map kt_value (op_tiles p) =
           [length (filter (\<lambda>f. f_status f = FActive) fs), length (filter (\<lambda>f. f_status f = FWaiting) fs),
            length (filter (\<lambda>f. f_status f \<in> {FStuck, FPaused}) fs), length (filter (\<lambda>f. f_status f = FDone) fs)] \<and>
         sum_list (map kt_value (op_tiles p)) = length (filter (\<lambda>f. \<forall>s. f_status f \<noteq> FUnknown s) fs) \<and>
         op_throughput p = ThroughputBars week \<and> length week = 7 \<and> sum_list week = kt_value (op_tiles p ! 3) \<and>
         (\<forall>i < 7. \<forall>j < 7. week ! i \<le> week ! j + 1) \<and>
         (\<forall>b \<in> set (op_throughput p). 0 \<le> db_height b \<and> db_height b \<le> 60)"
proof -
  let ?n = "length (filter (\<lambda>f. f_status f = FDone) fs)"
  have week: "week = week_buckets ?n" unfolding assms(2) by (simp add: computeFleetStats_def Let_def)
  have tiles: "op_tiles p = overview_tiles (countFeaturesByStatus fs) (computeFleetStats fs (Some (case ss of None \<Rightarrow> [] | Some s \<Rightarrow> s)))"
    and bars: "op_throughput p = ThroughputBars (fl_weekThroughput (computeFleetStats fs (Some (case ss of None \<Rightarrow> [] | Some s \<Rightarrow> s))))"
    using assms(1) by (auto simp: OverviewView_def Let_def split: if_splits)
  have bars': "op_throughput p = ThroughputBars week" unfolding bars week by (simp add: computeFleetStats_def Let_def)
  have vals: "map kt_value (op_tiles p) =
           [length (filter (\<lambda>f. f_status f = FActive) fs), length (filter (\<lambda>f. f_status f = FWaiting) fs),
            length (filter (\<lambda>f. f_status f \<in> {FStuck, FPaused}) fs), ?n]"
    unfolding tiles by (simp add: overview_tiles_def KpiTile_def countFeaturesByStatus_def fold_count_feature)
  moreover have "length (filter (\<lambda>f. f_status f = FActive) fs) + length (filter (\<lambda>f. f_status f = FWaiting) fs) +
      length (filter (\<lambda>f. f_status f \<in> {FStuck, FPaused}) fs) + ?n = length (filter (\<lambda>f. \<forall>s. f_status f \<noteq> FUnknown s) fs)"
  proof (induction fs)
    case (Cons f fs)
    then show ?case by (cases "f_status f") simp_all
  qed simp
  moreover have "kt_value (op_tiles p ! 3) = ?n" unfolding tiles by (simp add: overview_tiles_def KpiTile_def countFeaturesByStatus_def fold_count_feature)
  ultimately show ?thesis using bars' week week_even sum_week bar_heights by simp
qed

section \<open>Rates\<close>

lemma permille_bounds:
  assumes "a \<le> int b" and "0 < b" shows "permille a b \<le> 100"
proof -
  have "of_int a \<le> (of_int (int b) :: rat)" using assms(1) by (simp only: of_int_le_iff)
  then have "of_int a / of_nat b * 1000 \<le> (of_int 1000 :: rat)" using assms(2) by (simp add: divide_le_eq)
  from js_round_mono [OF this] have "js_round (of_int a / of_nat b * 1000 :: rat) \<le> 1000"
    unfolding js_round_of_int .
  then have "of_int (js_round (of_int a / of_nat b * 1000)) \<le> (of_int 1000 :: rat)" by (simp only: of_int_le_iff)
  then show ?thesis by (simp add: permille_def)
qed

lemma permille_nonneg: "0 \<le> a \<Longrightarrow> 0 \<le> permille a b"
proof -
  assume "0 \<le> a"
  then have "of_int 0 \<le> (of_int a / of_nat b * 1000 :: rat)" by simp
  from js_round_mono [OF this] have "0 \<le> js_round (of_int a / of_nat b * 1000 :: rat)" unfolding js_round_of_int .
  then show ?thesis by (simp add: permille_def)
qed

lemma permille_whole: "permille a 1 = of_int (100 * a)"
proof -
  have "js_round (of_int (a * 1000) :: rat) = a * 1000" by (rule js_round_of_int)
  then show ?thesis by (simp add: permille_def)
qed

text \<open>
  The pass rate never exceeds 100 percent and is not negative while no more sessions fail than have ended; but it
  counts the failures of running sessions against those that have ended, so that before any has ended every
  failing tool takes off 100 points. The other rates stay between 0 and 100.
\<close>
theorem pass_rate_bounds:
  assumes "ss = (case sessions of None \<Rightarrow> [] | Some ss \<Rightarrow> ss)"
    and "ended = length (filter (\<lambda>s. s_status s \<in> {SCompleted, SStopped, SClosed, SStale}) ss)"
    and "errors = length (filter (\<lambda>s. s_event s = ''PostToolUseFailure'') ss)"
    and "st = computeFleetStats fs sessions"
  shows "fl_passRate st \<le> 100 \<and> (errors \<le> ended \<longrightarrow> 0 \<le> fl_passRate st) \<and>
         (ended = 0 \<longrightarrow> fl_passRate st = - 100 * of_nat errors) \<and>
         0 \<le> fl_errorRate st \<and> fl_errorRate st \<le> 100 \<and>
         0 \<le> fl_permissionFriction st \<and> fl_permissionFriction st \<le> 100 \<and>
         0 \<le> fl_autopilotTrust st \<and> fl_autopilotTrust st \<le> 100 \<and> 1 \<le> fl_budgetUsed st \<and> fl_budgetUsed st \<le> 100"
proof -
  let ?total = "if length ss = 0 then 1 else length ss" and ?fr = "length (filter (\<lambda>s. s_event s = ''PermissionRequest'') ss)"
  have st: "fl_passRate st = permille (int ended - int errors) (max 1 ended)"
    "fl_errorRate st = permille (int errors) ?total" "fl_permissionFriction st = permille (int ?fr) ?total"
    "fl_autopilotTrust st = (if ?fr = 0 then 100 else max 0 (100 - int ?fr))"
    "fl_budgetUsed st = min 100 (js_round (of_nat ?total / 100 * 100))"
    unfolding assms by (simp_all add: computeFleetStats_def Let_def)
  have le: "errors \<le> ?total" "?fr \<le> ?total" unfolding assms by (simp_all add: le_SucI)
  have "fl_passRate st \<le> 100"
    unfolding st by (rule permille_bounds) simp_all
  moreover have "fl_errorRate st \<le> 100" "fl_permissionFriction st \<le> 100"
    unfolding st using le by (auto intro!: permille_bounds)
  moreover have "fl_passRate st = - 100 * of_nat errors" if "ended = 0"
    using that permille_whole [of "- int errors"] unfolding st by simp
  moreover have "errors \<le> ended \<Longrightarrow> 0 \<le> fl_passRate st" "0 \<le> fl_errorRate st" "0 \<le> fl_permissionFriction st"
    unfolding st by (simp_all add: permille_nonneg)
  moreover have "js_round (of_nat ?total / 100 * 100) = int ?total" using js_round_of_int [of "int ?total"] by simp
  then have "1 \<le> fl_budgetUsed st \<and> fl_budgetUsed st \<le> 100" unfolding st by (cases ss) auto
  ultimately show ?thesis unfolding st(4) by simp
qed

section \<open>Activity\<close>

lemma map_filter_pair:
  "map snd (List.map_filter (\<lambda>s. map_option (Pair (t s)) (g s)) xs) = List.map_filter g xs"
  by (induction xs) (auto simp: List.map_filter_def)

text \<open>
  The panel is headed as the activity of the last 24 hours, but what it lists does not depend on the time at all:
  however old its events are, it shows those of the last twelve reported sessions and every finished feature.
\<close>
theorem activity_ignores_age:
  "map snd (recentActivity pd now fs ss) = map snd (recentActivity pd' now' fs ss) \<and>
   (\<forall>f \<in> set fs. f_status f = FDone \<longrightarrow> (''now'', f_name f @ '' shipped'') \<in> set (recentActivity pd now fs ss)) \<and>
   length (recentActivity pd now fs ss) \<le> 12 + length (filter (\<lambda>f. f_status f = FDone) fs)"
proof (intro conjI ballI impI)
  show "map snd (recentActivity pd now fs ss) = map snd (recentActivity pd' now' fs ss)"
    by (simp add: recentActivity_def Let_def map_filter_pair)
next
  fix f assume "f \<in> set fs" and "f_status f = FDone"
  then show "(''now'', f_name f @ '' shipped'') \<in> set (recentActivity pd now fs ss)"
    by (force simp: recentActivity_def Let_def List.map_filter_def)
next
  have le: "length (List.map_filter g xs) \<le> length xs" for g :: "session \<Rightarrow> 'b option" and xs
    by (simp add: List.map_filter_def)
  have "length (List.map_filter g (rev (slice_last 12 xs))) \<le> 12" for g :: "session \<Rightarrow> 'b option" and xs
    by (rule order_trans [OF le]) (simp add: slice_last_def)
  moreover have "length (List.map_filter (\<lambda>f. if f_status f = FDone then Some (''now'', f_name f @ '' shipped'') else None) fs) =
      length (filter (\<lambda>f. f_status f = FDone) fs)"
    by (induction fs) (auto simp: List.map_filter_def)
  ultimately show "length (recentActivity pd now fs ss) \<le> 12 + length (filter (\<lambda>f. f_status f = FDone) fs)"
    by (simp add: recentActivity_def Let_def)
qed

text \<open>A fleet without sessions shows the budget and the spending of a fleet with one.\<close>

lemma empty_fleet_spends:
  "fl_budgetUsed (computeFleetStats fs None) = 1 \<and> fl_burnPerWk (computeFleetStats fs None) = 6 / 5 \<and>
   fl_budgetUsed (computeFleetStats fs None) = fl_budgetUsed (computeFleetStats fs (Some [s]))"
  using js_round_of_int [of 1] by (simp add: computeFleetStats_def Let_def)


section \<open>Witnesses\<close>

definition demo_fleet :: "feature list" where
  "demo_fleet = [demo_feature, demo_feature\<lparr>f_status := FDone\<rparr>, demo_feature\<lparr>f_status := FDone\<rparr>]"

lemma overview_tiles_exact_witness:
  "\<exists>p. OverviewView demo_at 0 (Some demo_fleet) False None None = OverviewPage p \<and>
       map kt_value (op_tiles p) = [0, 0, 1, 2] \<and> op_throughput p = ThroughputBars [1, 0, 1, 0, 0, 0, 0]"
proof -
  have week: "fl_weekThroughput (computeFleetStats demo_fleet None) = [1, 0, 1, 0, 0, 0, 0]"
  proof -
    have "week_buckets 2 = [1, 0, 1, 0, 0, 0, 0]" by code_simp
    moreover have "length (filter (\<lambda>f. f_status f = FDone) demo_fleet) = 2" by (simp add: demo_fleet_def demo_feature_def)
    ultimately show ?thesis by (simp add: computeFleetStats_def Let_def)
  qed
  obtain p where p: "OverviewView demo_at 0 (Some demo_fleet) False None None = OverviewPage p"
    by (simp add: OverviewView_def Let_def demo_fleet_def)
  from overview_tiles_exact [OF p week [symmetric]] show ?thesis
    using p by (intro exI [of _ p]) (simp add: demo_fleet_def demo_feature_def)
qed

text \<open>Two sessions at work, of which one just had a failing tool: a pass rate of -100 percent.\<close>

definition demo_working :: "session list" where
  "demo_working = [(demo_report ''a'' ''main'' ''1'' SWorking)\<lparr>s_event := ''PostToolUseFailure''\<rparr>,
     demo_report ''b'' ''main'' ''2'' SWorking]"

lemma pass_rate_bounds_witness:
  "fl_passRate (computeFleetStats [] (Some demo_working)) = - 100 \<and>
   fl_errorRate (computeFleetStats [] (Some demo_working)) \<le> 100"
  using pass_rate_bounds [OF refl refl refl refl, where sessions = "Some demo_working" and fs = "[]"]
  by (simp add: demo_working_def demo_report_def)

end
