(* ===== verification/FeatureViews.thy ===== *)
theory FeatureViews
  imports Overview FilterState SessionPanel LogPolling
begin

text \<open>
  The list of features with its filter bar and cards, the detail beside it and the tab of one feature
  (\<open>components/features/FeatureList.tsx\<close>, \<open>FeatureCard.tsx\<close>, \<open>FeatureDetail.tsx\<close>, \<open>FeaturesView.tsx\<close>,
  \<open>FeatureTabView.tsx\<close>, \<open>wf/ProgressBar.tsx\<close>), the filter bar of the plan list (\<open>PlansFilterBar.tsx\<close>) and the
  list of runs (\<open>autopilot/AutopilotList.tsx\<close>, \<open>AutopilotCard.tsx\<close>, \<open>AutopilotView.tsx\<close>). Layers and
  comparators are those of \<open>ListViews\<close>, the stored filters those of \<open>FilterState\<close>.
\<close>

section \<open>Filter bars\<close>

record filter_chip =
  fi_value :: string
  fi_label :: string
  fi_active :: bool

record filter_bar =
  fb_lifecycle :: "filter_chip list"
  fb_project :: "filter_chip list"
  fb_search :: string
  fb_sort :: "filter_chip list option"

definition toggle_chips :: "string list \<Rightarrow> (string \<Rightarrow> string) \<Rightarrow> string list \<Rightarrow> filter_chip list" where
  "toggle_chips order label chosen =
     map (\<lambda>v. \<lparr>fi_value = v, fi_label = label v, fi_active = (v \<in> set chosen)\<rparr>) order"

definition sort_chips :: "(string, string) omap \<Rightarrow> string \<Rightarrow> filter_chip list" where
  "sort_chips labels srt = map (\<lambda>(v, l). \<lparr>fi_value = v, fi_label = l, fi_active = (srt = v)\<rparr>) labels"

definition FilterBar :: "string list \<Rightarrow> filter_values \<Rightarrow> filter_bar" where
  "FilterBar chipNames v =
     \<lparr>fb_lifecycle = toggle_chips feature_chip_order feature_chip_label (fv_lifecycle v),
      fb_project = toggle_chips chipNames (\<lambda>n. n) (fv_project v), fb_search = fv_search v,
      fb_sort = Some (sort_chips sort_chip_label (fv_sort v))\<rparr>"

definition plan_sort_label :: "(string, string) omap" where
  "plan_sort_label =
     [(''group-then-progress-desc'', ''Status''),
      (''name-asc'', ''Name A'' @ [CHR 0xE2, CHR 0x86, CHR 0x92] @ ''Z''),
      (''last-activity-desc'', ''Recent'')]"

definition PlansFilterBar :: "string list \<Rightarrow> filter_values \<Rightarrow> nat option \<Rightarrow> filter_bar" where
  "PlansFilterBar chipNames v visibleCount =
     (let showSort = (case visibleCount of None \<Rightarrow> True | Some n \<Rightarrow> n \<ge> 2)
      in \<lparr>fb_lifecycle = map (\<lambda>c. \<lparr>fi_value = chip_text c, fi_label = plan_chip_label c, fi_active = (chip_text c \<in> set (fv_lifecycle v))\<rparr>)
            plan_chip_order,
          fb_project = toggle_chips chipNames (\<lambda>n. n) (fv_project v), fb_search = fv_search v,
          fb_sort = (if showSort then Some (sort_chips plan_sort_label (fv_sort v)) else None)\<rparr>)"

datatype bar_action = BarLifecycle string | BarProject string | BarSearch string | BarSort string

text \<open>Every click on a chip builds a new set; a click on the active sort chip does nothing.\<close>

fun bar_events :: "bar_action \<Rightarrow> filter_values \<Rightarrow> filter_event list" where
  "bar_events (BarLifecycle c) v = [FeLifecycle False (oset_toggle c (fv_lifecycle v))]"
| "bar_events (BarProject n) v = [FeProject False (oset_toggle n (fv_project v))]"
| "bar_events (BarSearch s) v = [FeSearch s]"
| "bar_events (BarSort m) v = (if fv_sort v = m then [] else [FeSort m])"

definition bar_click :: "bar_action \<Rightarrow> filter_hook \<Rightarrow> filter_hook" where
  "bar_click c h = fold filter_step (bar_events c (fh_state h)) h"

section \<open>Cards\<close>

definition card_phase_labels :: "(string \<times> string) list" where
  "card_phase_labels =
     [(''started'', ''Started''), (''ba'', ''BA''), (''design'', ''Design''), (''plan'', ''Plan''),
      (''team-review'', ''T-Rev''), (''review'', ''Review''), (''implement'', ''Impl''),
      (''static-analysis'', ''SA''), (''manualtest'', ''Test''), (''team-qa'', ''T-QA''), (''qa'', ''QA''),
      (''commit'', ''Commit''), (''done'', ''Done''), (''unknown'', ''?'')]"

definition completedRatio :: "feature \<Rightarrow> rat" where
  "completedRatio f =
     (if f_status f = FDone \<or> f_phase_index f \<ge> f_total_phases f then 1
      else (of_int (f_phase_index f) + 1 / 2) / of_int (f_total_phases f))"

definition ProgressBar :: "rat \<Rightarrow> int" where
  "ProgressBar value = js_round (min 1 (max 0 value) * 100)"

record feature_card =
  fk_aria :: string
  fk_selected :: bool
  fk_tabIndex :: int
  fk_mode :: string
  fk_subtitle :: "string option"
  fk_plan_link :: "(string \<times> string) option"
  fk_phase :: "string option"
  fk_status :: "wf_status option \<times> string"
  fk_project :: string
  fk_percent :: int
  fk_activity :: string
  fk_sessions :: "string option"

fun pipeline_text :: "pipeline_type \<Rightarrow> string" where
  "pipeline_text PipelineFull = ''full''"
| "pipeline_text PipelineLight = ''light''"

text \<open>\<open>fk_plan_link\<close> is the label of the chip and the directory a click on it jumps to.\<close>

definition FeatureCard ::
    "(string \<Rightarrow> int option) \<Rightarrow> int \<Rightarrow> project_summary list option \<Rightarrow> bool \<Rightarrow> feature \<Rightarrow> feature_card" where
  "FeatureCard parse_date now plans selected f =
     (let status = feature_status_name (f_status f);
          phaseLabel = (case map_of card_phase_labels (f_phase f) of Some l \<Rightarrow> l | None \<Rightarrow> f_phase f);
          showPlanLink = (truthy (f_plan_dir f) \<and> truthy (f_plan_task_id f));
          planEntry = (if showPlanLink
            then find (\<lambda>p. ps_plan_dir p = f_plan_dir f) (case plans of Some ps \<Rightarrow> ps | None \<Rightarrow> []) else None)
      in \<lparr>fk_aria = f_name f @ '' '' @ emdash @ '' '' @ f_project f @ '' '' @ emdash @ '' '' @ status,
          fk_selected = selected, fk_tabIndex = (if selected then 0 else - 1),
          fk_mode = (if f_is_autopilot f then pipeline_text (f_pipeline_type f) else ''manual''),
          fk_subtitle = (if truthy (f_plan_task_name f) \<and> f_plan_task_name f \<noteq> Some (f_name f) then f_plan_task_name f else None),
          fk_plan_link = (if showPlanLink
            then Some (case planEntry of Some p \<Rightarrow> ps_project p | None \<Rightarrow> the (f_plan_task_id f), the (f_plan_dir f)) else None),
          fk_phase = (if to_lower phaseLabel = to_lower status then None else Some phaseLabel),
          fk_status = (featureToWfStatus status, status), fk_project = f_project f,
          fk_percent = ProgressBar (completedRatio f),
          fk_activity = (if truthy (f_last_activity f) then relativeTime parse_date now (the (f_last_activity f)) else ''no activity''),
          fk_sessions = (if length (f_sessions f) > 1 then Some (string_of_nat (length (f_sessions f)) @ '' sessions'') else None)\<rparr>)"

section \<open>The list\<close>

definition feature_ident :: "feature \<Rightarrow> string" where
  "feature_ident f = f_project_root f @ '':'' @ f_name f"

datatype list_item = CardItem string feature_card | DoneDivider nat

datatype feature_list =
    FeaturesLoading
  | NoFeatures
  | NoFeatureMatches filter_bar string
  | FeatureItems filter_bar "list_item list"

definition card_items ::
    "(string \<Rightarrow> int option) \<Rightarrow> int \<Rightarrow> project_summary list option \<Rightarrow> string option \<Rightarrow> feature list \<Rightarrow> list_item list" where
  "card_items parse_date now plans selectedKey fs =
     map (\<lambda>f. CardItem (feature_ident f) (FeatureCard parse_date now plans (Some (feature_ident f) = selectedKey) f)) fs"

definition FeatureList ::
    "(string \<Rightarrow> string \<Rightarrow> int) \<Rightarrow> (string \<Rightarrow> string \<Rightarrow> int) \<Rightarrow> (string \<Rightarrow> int option) \<Rightarrow> int \<Rightarrow>
     project_summary list option \<Rightarrow> filter_values \<Rightarrow> feature list option \<Rightarrow> bool \<Rightarrow> string option \<Rightarrow> feature_list" where
  "FeatureList loc locb parse_date now plans v features isLoading selectedKey =
     (let chipNames = feature_project_chips loc (case features of Some fs \<Rightarrow> fs | None \<Rightarrow> []);
          layers = feature_layers_of locb features (fv_lifecycle v) (fv_project v) (fv_search v) (fv_sort v);
          inprogress = fl_inprogress layers; done_layer = fl_done layers
      in if isLoading \<and> features = None then FeaturesLoading
         else if features = Some [] then NoFeatures
         else if length inprogress = 0 \<and> length done_layer = 0
         then NoFeatureMatches (FilterBar chipNames v) (feature_empty_subtitle (fv_lifecycle v))
         else FeatureItems (FilterBar chipNames v)
           (card_items parse_date now plans selectedKey inprogress
            @ (if length inprogress > 0 \<and> length done_layer > 0 then [DoneDivider (length done_layer)] else [])
            @ card_items parse_date now plans selectedKey done_layer))"

section \<open>The detail\<close>

text \<open>A session's status as the server sends it; a text that is no known status has no colour.\<close>

definition session_pill :: "string \<Rightarrow> wf_status option \<times> string" where
  "session_pill s =
     ((if s = ''working'' then Some WfRunning
       else if s = ''needs_input'' then Some WfStalled
       else if s = ''completed'' then Some WfCompleted
       else if s = ''stale'' then Some WfFault
       else None), s)"

record feature_page =
  fp_page_title :: string
  fp_page_subtitle :: "string option"
  fp_live :: bool
  fp_project :: string
  fp_target :: string
  fp_phases :: "autopilot_phase list"
  fp_artifacts :: "(string \<times> string) list"
  fp_alert :: "string list"
  fp_events :: "(string \<times> string \<times> string) list"
  fp_quiet :: "string option"
  fp_sessions :: "(string \<times> (wf_status option \<times> string) \<times> string) list"

datatype feature_detail =
    RunPanel autopilot_session "task option" "plan option" string
  | FeaturePage feature_page

definition is_live :: "feature \<Rightarrow> bool" where
  "is_live f \<longleftrightarrow> f_status f = FActive \<or> f_status f = FStuck"

definition opt_text :: "string option \<Rightarrow> string" where
  "opt_text s = (case s of Some t \<Rightarrow> t | None \<Rightarrow> '''')"

definition stuck_alert :: "feature \<Rightarrow> string list" where
  "stuck_alert f =
     (case f_stuck_info f of
        None \<Rightarrow> []
      | Some i \<Rightarrow>
          if si_reason i = AttractorLoop
          then [''Agent is looping:'', '' repeating '' @ opt_text (si_tool i) @ '' on '' @ opt_text (si_file i),
                ''Check the session '' @ emdash @ '' it may need manual intervention.'']
          else [''Agent is stuck on permission prompts.'', ''Check the session '' @ emdash @ '' it may need approval.''])"

definition FeatureDetail ::
    "(string \<Rightarrow> int option) \<Rightarrow> int \<Rightarrow> feature \<Rightarrow> autopilot_session option \<Rightarrow> (string \<times> string) list option \<Rightarrow>
     feature_task \<Rightarrow> tool_activity list \<Rightarrow> feature_detail" where
  "FeatureDetail parse_date now f autopilotSession artifacts lookup activityEvents =
     (case (f_is_autopilot f, autopilotSession) of
        (True, Some s) \<Rightarrow> RunPanel s (ft_task lookup) (ft_plan lookup) (f_project_root f)
      | _ \<Rightarrow> FeaturePage
          \<lparr>fp_page_title = f_name f,
           fp_page_subtitle = (case ft_task lookup of
               Some t \<Rightarrow> if t_name t \<noteq> '''' \<and> t_name t \<noteq> f_name f then Some (t_name t) else None | None \<Rightarrow> None),
           fp_live = is_live f, fp_project = f_project f, fp_target = f_name f, fp_phases = featureToPhases f,
           fp_artifacts = (case artifacts of Some as \<Rightarrow> as | None \<Rightarrow> f_artifacts f), fp_alert = stuck_alert f,
           fp_events = map (\<lambda>e. (ta_tool e, ta_summary e, relativeTime parse_date now (opt_text (ta_ts e)))) (take 10 activityEvents),
           fp_quiet = (if length activityEvents > 0 then None
             else Some (if is_live f then ''Waiting for activity...'' else ''No recent activity'')),
           fp_sessions = map (\<lambda>s. (take 7 (fs_sid s), session_pill (fs_status s), relativeTime parse_date now (fs_last_ts s)))
             (f_sessions f)\<rparr>)"

definition feature_artifact_url :: "feature \<Rightarrow> string \<Rightarrow> string" where
  "feature_artifact_url f file =
     ''/api/feature/artifact?feature='' @ encodeURIComponent (f_name f) @ ''&project_root='' @
     encodeURIComponent (f_project_root f) @ ''&file='' @ encodeURIComponent file"

section \<open>The two columns\<close>

definition selectedFeature :: "feature list option \<Rightarrow> string option \<Rightarrow> feature option" where
  "selectedFeature features selectedKey =
     find (\<lambda>f. Some (feature_ident f) = selectedKey) (case features of Some fs \<Rightarrow> fs | None \<Rightarrow> [])"

definition run_of_feature :: "autopilot_session list option \<Rightarrow> feature \<Rightarrow> autopilot_session option" where
  "run_of_feature autopilots f =
     (if f_is_autopilot f then find (\<lambda>s. as_task s = f_name f) (case autopilots of Some ss \<Rightarrow> ss | None \<Rightarrow> []) else None)"

datatype feature_column = SelectAFeature | ShowFeature feature "autopilot_session option"

definition FeaturesView :: "feature list option \<Rightarrow> autopilot_session list option \<Rightarrow> string option \<Rightarrow> feature_column" where
  "FeaturesView features autopilots selectedKey =
     (case selectedFeature features selectedKey of
        Some f \<Rightarrow> ShowFeature f (run_of_feature autopilots f)
      | None \<Rightarrow> SelectAFeature)"

section \<open>The tab of one feature\<close>

record feature_tab =
  fe_title :: string
  fe_status_text :: string
  fe_project_line :: string
  fe_pipeline :: string
  fe_progress :: int
  fe_phase :: string
  fe_sessions :: "(string \<times> string \<times> string) list"

datatype feature_tab_view = FeatureNotFound string | FeatureTab feature_tab

definition FeatureTabView :: "feature list option \<Rightarrow> string \<Rightarrow> feature_tab_view" where
  "FeatureTabView features featureKey =
     (case find (\<lambda>f. f_project f @ ''/'' @ f_name f = featureKey) (case features of Some fs \<Rightarrow> fs | None \<Rightarrow> []) of
        None \<Rightarrow> FeatureNotFound featureKey
      | Some f \<Rightarrow> FeatureTab
          \<lparr>fe_title = f_name f, fe_status_text = feature_status_name (f_status f),
           fe_project_line = ''project '' @ mdot @ '' '' @ f_project f,
           fe_pipeline = ''pipeline '' @ mdot @ '' '' @ pipeline_text (f_pipeline_type f),
           fe_progress = (if f_total_phases f > 0
             then js_round (of_int (f_phase_index f) / of_int (f_total_phases f) * 100) else 0),
           fe_phase = string_of_int (f_phase_index f) @ ''/'' @ string_of_int (f_total_phases f),
           fe_sessions = map (\<lambda>s. (take 8 (fs_sid s), fs_status s, fs_last_ts s)) (f_sessions f)\<rparr>)"

section \<open>Runs\<close>

fun run_rank :: "autopilot_session_status \<Rightarrow> int" where
  "run_rank ASRunning = 0"
| "run_rank ASFailed = 1"
| "run_rank ASCompleted = 2"

definition formatElapsed :: "rat \<Rightarrow> string" where
  "formatElapsed seconds =
     (let m = \<lfloor>seconds / 60\<rfloor>; s = seconds - of_int m * 60
      in if m > 0 then string_of_int m @ ''m '' @ string_of_rat s @ ''s'' else string_of_rat s @ ''s'')"

fun run_colour :: "autopilot_session_status \<Rightarrow> wf_status" where
  "run_colour ASRunning = WfRunning"
| "run_colour ASCompleted = WfCompleted"
| "run_colour ASFailed = WfFault"

record run_card =
  rc_aria :: string
  rc_selected :: bool
  rc_task :: string
  rc_project :: string
  rc_pill :: "wf_status \<times> string"
  rc_phases :: "autopilot_phase list"
  rc_elapsed :: string
  rc_cost :: string

definition AutopilotCard :: "bool \<Rightarrow> autopilot_session \<Rightarrow> run_card" where
  "AutopilotCard selected s =
     (let status = autopilot_status_text (as_status s)
      in \<lparr>rc_aria = as_task s @ '' '' @ emdash @ '' '' @ (case as_project s of Some p \<Rightarrow> p | None \<Rightarrow> ''unknown'') @ '' '' @ emdash @ '' '' @ status,
          rc_selected = selected, rc_task = as_task s, rc_project = opt_text (as_project s),
          rc_pill = (run_colour (as_status s), status), rc_phases = as_phases s, rc_elapsed = formatElapsed (as_elapsed_s s),
          rc_cost = (case as_cost s of Some c \<Rightarrow> ''$'' @ to_fixed 2 c | None \<Rightarrow> emdash)\<rparr>)"

datatype run_list = RunsLoading | NoRuns | RunCards "run_card list"

definition sorted_runs :: "autopilot_session list option \<Rightarrow> autopilot_session list" where
  "sorted_runs sessions =
     (case sessions of None \<Rightarrow> [] | Some ss \<Rightarrow> js_sort (\<lambda>a b. run_rank (as_status a) - run_rank (as_status b)) ss)"

definition AutopilotList :: "autopilot_session list option \<Rightarrow> bool \<Rightarrow> string option \<Rightarrow> run_list" where
  "AutopilotList sessions isLoading selectedTask =
     (if isLoading \<and> sessions = None then RunsLoading
      else if length (sorted_runs sessions) = 0 then NoRuns
      else RunCards (map (\<lambda>s. AutopilotCard (Some (as_task s) = selectedTask) s) (sorted_runs sessions)))"

definition selected_run :: "autopilot_session list option \<Rightarrow> string option \<Rightarrow> autopilot_session option" where
  "selected_run sessions selectedTask =
     find (\<lambda>s. Some (as_task s) = selectedTask) (case sessions of Some ss \<Rightarrow> ss | None \<Rightarrow> [])"

section \<open>Clicks on a filter bar\<close>

lemma bar_fields [simp]:
  "fb_lifecycle (FilterBar n v) = toggle_chips feature_chip_order feature_chip_label (fv_lifecycle v)"
  "fb_project (FilterBar n v) = toggle_chips n (\<lambda>x. x) (fv_project v)"
  "fb_search (FilterBar n v) = fv_search v" "fb_sort (FilterBar n v) = Some (sort_chips sort_chip_label (fv_sort v))"
  by (simp_all add: FilterBar_def)

definition flip_chip :: "string \<Rightarrow> filter_chip \<Rightarrow> filter_chip" where
  "flip_chip c chip = (if fi_value chip = c then chip\<lparr>fi_active := \<not> fi_active chip\<rparr> else chip)"

lemma toggle_flips:
  "distinct xs \<Longrightarrow> toggle_chips order label (oset_of (oset_toggle c xs)) = map (flip_chip c) (toggle_chips order label xs)"
  by (simp add: toggle_chips_def flip_chip_def set_oset_toggle)

text \<open>
  A click on a chip of the filter bar turns exactly that chip over and leaves every other one, the search and the order as
  they are; of the sort chips exactly the one last clicked is on. The hook accepts every such click and stays sound.
\<close>
theorem filter_bar_click_exact:
  assumes "values_ok feature_filters (fh_state h)" and "b = FilterBar names (fh_state h)"
    and "b' = FilterBar names (fh_state (bar_click c h))"
    and "case c of BarLifecycle v \<Rightarrow> v \<in> set feature_chip_order | BarSort m \<Rightarrow> m \<in> set (om_keys sort_chip_label) | _ \<Rightarrow> True"
  shows "fb_lifecycle b' = (case c of BarLifecycle v \<Rightarrow> map (flip_chip v) (fb_lifecycle b) | _ \<Rightarrow> fb_lifecycle b) \<and>
         fb_project b' = (case c of BarProject n \<Rightarrow> map (flip_chip n) (fb_project b) | _ \<Rightarrow> fb_project b) \<and>
         fb_search b' = (case c of BarSearch s \<Rightarrow> s | _ \<Rightarrow> fb_search b) \<and>
         fb_sort b' = (case c of BarSort m \<Rightarrow> Some (sort_chips sort_chip_label m) | _ \<Rightarrow> fb_sort b) \<and>
         (\<forall>e \<in> set (bar_events c (fh_state h)). event_typed feature_filters e) \<and>
         values_ok feature_filters (fh_state (bar_click c h))"
proof -
  have d: "distinct (fv_lifecycle (fh_state h))" "distinct (fv_project (fh_state h))"
    "set (fv_lifecycle (fh_state h)) \<subseteq> set feature_chip_order"
    using assms(1) by (simp_all add: values_ok_def feature_filters_def feature_chip_order_def)
  show ?thesis
  proof (cases c)
    case (BarLifecycle v)
    then show ?thesis
      using assms d by (auto simp: bar_click_def setLifecycle_def toggle_flips values_ok_def set_oset_toggle
          feature_filters_def feature_chip_order_def split: if_splits)
  next
    case (BarProject n)
    then show ?thesis
      using assms d by (auto simp: bar_click_def setProject_def toggle_flips values_ok_def)
  next
    case (BarSearch s)
    then show ?thesis using assms by (simp add: bar_click_def setSearch_def values_ok_def)
  next
    case (BarSort m)
    then show ?thesis
      using assms by (auto simp: bar_click_def setSort_def values_ok_def feature_filters_def sort_chip_label_def)
  qed
qed

section \<open>Progress\<close>

lemma full_ratio: "f_status f = FDone \<or> f_total_phases f \<le> f_phase_index f \<Longrightarrow> completedRatio f = 1"
  by (auto simp: completedRatio_def)

lemma full_bar: "ProgressBar 1 = 100"
  using js_round_of_int [of 100] by (simp add: ProgressBar_def)

lemma open_ratio:
  assumes "f_status f \<noteq> FDone" and "f_phase_index f < f_total_phases f"
    and "0 \<le> f_phase_index f" and "f_total_phases f \<le> 99"
  shows "completedRatio f = (of_int (f_phase_index f) + 1 / 2) / of_int (f_total_phases f) \<and>
         1 / 198 \<le> completedRatio f \<and> completedRatio f \<le> 197 / 198"
proof -
  let ?p = "of_int (f_phase_index f) :: rat" and ?t = "of_int (f_total_phases f) :: rat"
  have r: "completedRatio f = (?p + 1 / 2) / ?t" using assms(1,2) by (simp add: completedRatio_def)
  have t: "0 < ?t" "?t \<le> 99" "0 \<le> ?p" using assms by simp_all
  have "f_phase_index f + 1 \<le> f_total_phases f" using assms(2) by simp
  then have pt: "?p + 1 \<le> ?t" by (metis of_int_1 of_int_add of_int_le_iff)
  have "1 / 2 / ?t \<le> completedRatio f" using t unfolding r by (intro divide_right_mono) simp_all
  moreover have "completedRatio f \<le> (?t - 1 / 2) / ?t" using t pt unfolding r by (intro divide_right_mono) simp_all
  moreover have "(?t - 1 / 2) / ?t = 1 - 1 / 2 / ?t" using t by (simp add: diff_divide_distrib)
  moreover have "1 / 2 / 99 \<le> 1 / 2 / ?t" using t by (simp add: field_simps)
  ultimately have "1 / 198 \<le> completedRatio f" "completedRatio f \<le> 197 / 198" by linarith+
  with r show ?thesis by blast
qed

lemma open_bar:
  assumes "1 / 198 \<le> x" and "x \<le> 197 / 198"
  shows "ProgressBar x = js_round (x * 100) \<and> 1 \<le> ProgressBar x \<and> ProgressBar x < 100"
proof -
  have "ProgressBar x = js_round (x * 100)" using assms by (simp add: ProgressBar_def min_def max_def)
  moreover have "1 \<le> js_round (x * 100)" using assms(1) by (simp add: js_round_def le_floor_iff)
  moreover have "js_round (x * 100) < 100" using assms(2) by (simp add: js_round_def floor_less_iff)
  ultimately show ?thesis by simp
qed

lemma js_round_less: "x + 1 \<le> y \<Longrightarrow> js_round x < js_round y"
proof -
  assume "x + 1 \<le> y"
  then have "js_round (x + 1) \<le> js_round y" by (rule js_round_mono)
  moreover have "js_round (x + 1) = \<lfloor>(x + 1 / 2) + 1\<rfloor>" by (simp add: js_round_def)
  ultimately show ?thesis unfolding one_add_floor [symmetric] by (simp add: js_round_def)
qed

lemma one_phase_more:
  assumes "p < q" and "0 < t" and "t \<le> (99 :: rat)"
  shows "(of_int p + 1 / 2) / t * 100 + 1 \<le> (of_int q + 1 / 2) / t * 100"
proof -
  have "of_int (p + 1) \<le> (of_int q :: rat)" using assms(1) by (subst of_int_le_iff) simp
  then have "(of_int p + 1 / 2) * 100 + t \<le> (of_int q + 1 / 2 :: rat) * 100" using assms(3) by simp
  then have "((of_int p + 1 / 2) * 100 + t) / t \<le> (of_int q + 1 / 2) * 100 / t" using assms(2) by (intro divide_right_mono) simp_all
  then show ?thesis using assms(2) by (simp add: add_divide_distrib)
qed

lemma row_percent_le_100:
  assumes "f_phase_index f \<le> f_total_phases f" and "0 < f_total_phases f"
  shows "pr_progress (OverviewFeatureRow f) \<le> 100"
proof -
  have "of_int (f_phase_index f) / of_int (f_total_phases f) * 100 \<le> (of_int 100 :: rat)"
    using assms by (simp add: divide_le_eq)
  from js_round_mono [OF this] show ?thesis
    using assms(2) unfolding js_round_of_int by (simp add: OverviewFeatureRow_def)
qed

text \<open>
  C34. Of a feature with 1 to 99 phases and no negative phase index, the card is full exactly when the feature is finished or past its last phase;
  before that it shows between 1 and 99 percent, a higher number with every phase, and up to the last phase never less than the overview
  shows for the same feature. (With more phases the last ones may round to 100.)
\<close>
theorem card_percent_exact:
  assumes "0 \<le> f_phase_index f" and "0 < f_total_phases f" and "f_total_phases f \<le> 99"
  shows "(ProgressBar (completedRatio f) = 100 \<longleftrightarrow> f_status f = FDone \<or> f_total_phases f \<le> f_phase_index f) \<and>
         1 \<le> ProgressBar (completedRatio f) \<and> ProgressBar (completedRatio f) \<le> 100 \<and>
         (f_phase_index f \<le> f_total_phases f \<longrightarrow> pr_progress (OverviewFeatureRow f) \<le> ProgressBar (completedRatio f)) \<and>
         (\<forall>g. f_total_phases g = f_total_phases f \<and> f_phase_index f < f_phase_index g \<and> f_status f \<noteq> FDone \<and>
              f_phase_index f < f_total_phases f \<longrightarrow> ProgressBar (completedRatio f) < ProgressBar (completedRatio g))"
proof (cases "f_status f = FDone \<or> f_total_phases f \<le> f_phase_index f")
  case True
  with full_ratio [OF True] full_bar row_percent_le_100 [OF _ assms(2)] show ?thesis by auto
next
  case False
  let ?p = "of_int (f_phase_index f) :: rat" and ?t = "of_int (f_total_phases f) :: rat"
  have t: "0 < ?t" using assms(2) by simp
  have r: "completedRatio f = (?p + 1 / 2) / ?t" and c: "1 / 198 \<le> completedRatio f" "completedRatio f \<le> 197 / 198"
    using open_ratio [OF _ _ assms(1,3)] False by auto
  note bar = open_bar [OF c]
  have "?p / ?t * 100 \<le> completedRatio f * 100" using t unfolding r by (simp add: divide_right_mono)
  from js_round_mono [OF this] have "pr_progress (OverviewFeatureRow f) \<le> ProgressBar (completedRatio f)"
    using assms(2) bar by (simp add: OverviewFeatureRow_def)
  moreover have "ProgressBar (completedRatio f) < ProgressBar (completedRatio g)"
    if g: "f_total_phases g = f_total_phases f" "f_phase_index f < f_phase_index g" for g
  proof (cases "f_status g = FDone \<or> f_total_phases g \<le> f_phase_index g")
    case True
    with full_ratio [OF True] full_bar bar show ?thesis by simp
  next
    case False
    then have rg: "completedRatio g = (of_int (f_phase_index g) + 1 / 2) / ?t" and cg: "1 / 198 \<le> completedRatio g" "completedRatio g \<le> 197 / 198"
      using open_ratio [of g] g assms by auto
    have "completedRatio f * 100 + 1 \<le> completedRatio g * 100"
      unfolding r rg using g(2) t assms(3) by (intro one_phase_more) simp_all
    from js_round_less [OF this] show ?thesis using bar open_bar [OF cg] by simp
  qed
  ultimately show ?thesis using False bar by simp
qed

section \<open>The list and the detail\<close>

definition shown_cards :: "list_item list \<Rightarrow> (string \<times> feature_card) list" where
  "shown_cards items = List.map_filter (\<lambda>i. case i of CardItem k c \<Rightarrow> Some (k, c) | DoneDivider n \<Rightarrow> None) items"

lemma shown_cards_append [simp]: "shown_cards (xs @ ys) = shown_cards xs @ shown_cards ys"
  by (simp add: shown_cards_def List.map_filter_def)

lemma shown_card_items [simp]:
  "shown_cards (card_items pd now plans sel fs) = map (\<lambda>f. (feature_ident f, FeatureCard pd now plans (Some (feature_ident f) = sel) f)) fs"
  by (induction fs) (simp_all add: shown_cards_def card_items_def List.map_filter_def)

lemma shown_items [simp]:
  "shown_cards [] = []" "shown_cards (DoneDivider n # is) = shown_cards is" "shown_cards (CardItem k c # is) = (k, c) # shown_cards is"
  by (simp_all add: shown_cards_def List.map_filter_def)

lemma card_tabIndex [simp]: "fk_tabIndex (FeatureCard pd now plans sel f) = (if sel then 0 else - 1)"
  by (simp add: FeatureCard_def Let_def)

lemma feature_items:
  assumes "FeatureList loc locb pd now plans v features loading sel = FeatureItems bar items"
    and "layers = feature_layers_of locb features (fv_lifecycle v) (fv_project v) (fv_search v) (fv_sort v)"
  shows "shown_cards items = map (\<lambda>f. (feature_ident f, FeatureCard pd now plans (Some (feature_ident f) = sel) f)) (fl_inprogress layers @ fl_done layers)"
  using assms by (auto simp: FeatureList_def Let_def split: if_splits)

text \<open>
  The list can be reached with the tabulator key only through the selected card: while nothing that is listed is
  selected, as on every first visit, no card takes the focus, although a focused card would answer to the keyboard.
\<close>
theorem list_needs_a_selection:
  assumes "FeatureList loc locb pd now plans v features loading sel = FeatureItems bar items"
  shows "((\<exists>(k, c) \<in> set (shown_cards items). fk_tabIndex c = 0) \<longleftrightarrow> (\<exists>(k, c) \<in> set (shown_cards items). Some k = sel)) \<and>
         (sel = None \<longrightarrow> (\<forall>(k, c) \<in> set (shown_cards items). fk_tabIndex c = - 1))"
  unfolding feature_items [OF assms refl] set_map bex_simps ball_simps prod.case card_tabIndex by auto

lemma card_of_layer:
  "f \<in> set (fl_inprogress (feature_layers_of locb (Some fs) l p s m) @ fl_done (feature_layers_of locb (Some fs) l p s m)) \<Longrightarrow> f \<in> set fs"
  by (auto simp: feature_layers_of_def Let_def split: if_splits)

text \<open>
  C33. A click on a card shows the detail of the feature on the card, if directory and name tell the reported features apart;
  of a run it shows the first reported one of that name, in whatever project it runs, and none if the feature is no
  autopilot's or no run has its name.
\<close>
theorem card_opens_its_feature:
  assumes "FeatureList loc locb pd now plans v (Some fs) loading sel = FeatureItems bar items"
    and "(k, crd) \<in> set (shown_cards items)" and "distinct (map feature_ident fs)"
  shows "\<exists>f \<in> set fs. crd = FeatureCard pd now plans (Some k = sel) f \<and> k = feature_ident f \<and>
           (\<exists>run. FeaturesView (Some fs) (Some runs) (Some k) = ShowFeature f run \<and>
             (run \<noteq> None \<longleftrightarrow> f_is_autopilot f \<and> f_name f \<in> as_task ` set runs) \<and>
             (\<forall>r. run = Some r \<longrightarrow> (\<exists>before after. runs = before @ r # after \<and> as_task r = f_name f \<and>
                (\<forall>r' \<in> set before. as_task r' \<noteq> f_name f))))"
proof -
  let ?ls = "feature_layers_of locb (Some fs) (fv_lifecycle v) (fv_project v) (fv_search v) (fv_sort v)"
  have "(k, crd) \<in> (\<lambda>f. (feature_ident f, FeatureCard pd now plans (Some (feature_ident f) = sel) f)) ` set (fl_inprogress ?ls @ fl_done ?ls)"
    using assms(2) unfolding feature_items [OF assms(1) refl] set_map .
  then obtain f where layer: "f \<in> set (fl_inprogress ?ls @ fl_done ?ls)"
    and f': "(k, crd) = (feature_ident f, FeatureCard pd now plans (Some (feature_ident f) = sel) f)" by (elim imageE)
  have f: "f \<in> set fs" "k = feature_ident f" "crd = FeatureCard pd now plans (Some k = sel) f"
    using card_of_layer [OF layer] f' by simp_all
  have same: "g = f" if "g \<in> set fs" and "feature_ident g = k" for g
    using assms(3) f(1,2) that by (auto simp: distinct_map inj_on_def)
  have "find (\<lambda>g. feature_ident g = k) fs = Some f"
  proof (cases "find (\<lambda>g. feature_ident g = k) fs")
    case None
    with f(1,2) show ?thesis by (auto simp: find_None_iff)
  next
    case (Some g)
    then have "g \<in> set fs" "feature_ident g = k" by (auto simp: find_Some_iff)
    with same Some show ?thesis by simp
  qed
  then have "FeaturesView (Some fs) (Some runs) (Some k) = ShowFeature f (run_of_feature (Some runs) f)"
    by (simp add: FeaturesView_def selectedFeature_def)
  moreover have "run_of_feature (Some runs) f \<noteq> None \<longleftrightarrow> f_is_autopilot f \<and> f_name f \<in> as_task ` set runs"
    by (force simp: run_of_feature_def find_None_iff image_iff simp del: not_None_eq)
  moreover have "\<exists>before after. runs = before @ r # after \<and> as_task r = f_name f \<and> (\<forall>r' \<in> set before. as_task r' \<noteq> f_name f)"
    if "run_of_feature (Some runs) f = Some r" for r
    using find_split [of "\<lambda>r. as_task r = f_name f" runs r] that by (simp add: run_of_feature_def split: if_splits)
  ultimately show ?thesis using f by blast
qed

text \<open>A feature whose name is that of a run in another project is shown with that run.\<close>

lemma foreign_run_shown:
  assumes "f_is_autopilot f" and "as_task r = f_name f" and "as_project r \<noteq> Some (f_project f)"
  shows "FeatureDetail pd now f (run_of_feature (Some (r # rs)) f) artifacts lookup events =
           RunPanel r (ft_task lookup) (ft_plan lookup) (f_project_root f)"
  using assms(1,2) by (simp add: FeatureDetail_def run_of_feature_def)

text \<open>When the first request for the features fails, the page says that none matches the filters.\<close>

lemma failed_request_matches_nothing:
  "FeatureList loc locb pd now plans v None False sel =
     NoFeatureMatches (FilterBar (feature_project_chips loc []) v) (feature_empty_subtitle (fv_lifecycle v))"
  by (simp add: FeatureList_def feature_layers_of_def Let_def)

section \<open>Order of runs\<close>

text \<open>
  The list of runs has a card for every reported run, the running ones first, then the failed and the completed ones, each
  group in the order of the report.
\<close>
theorem run_list_grouped:
  assumes "AutopilotList (Some ss) loading sel = RunCards cards"
  shows "map rc_task cards =
     map as_task (filter (\<lambda>s. as_status s = ASRunning) ss @ filter (\<lambda>s. as_status s = ASFailed) ss
                  @ filter (\<lambda>s. as_status s = ASCompleted) ss)"
proof -
  let ?cmp = "\<lambda>a b. run_rank (as_status a) - run_rank (as_status b)"
  let ?groups = "filter (\<lambda>s. as_status s = ASRunning) ss @ filter (\<lambda>s. as_status s = ASFailed) ss @ filter (\<lambda>s. as_status s = ASCompleted) ss"
  have rank: "run_rank a = run_rank b \<longleftrightarrow> a = b" for a b by (cases a; cases b) simp_all
  have same: "sorted_wrt (\<lambda>a b. ?cmp a b \<le> 0) (filter (\<lambda>s. as_status s = k) xs)" for k xs by (induction xs) auto
  have "sorted_wrt (\<lambda>a b. ?cmp a b \<le> 0) ?groups"
    unfolding sorted_wrt_append by (intro conjI same) auto
  moreover have "filter (\<lambda>y. ?cmp k y = 0) ?groups = filter (\<lambda>y. ?cmp k y = 0) ss" for k
  proof -
    have same: "filter (\<lambda>y. ?cmp k y = 0) xs = filter (\<lambda>s. as_status s = as_status k) xs" for xs
      by (rule filter_cong) (auto simp: rank)
    show ?thesis unfolding same by (cases "as_status k") (simp_all cong: conj_cong)
  qed
  ultimately have "js_sort ?cmp ss = ?groups"
    by (rule js_comparator.js_sort_unique [OF js_comparator_key])
  moreover have "map rc_task cards = map as_task (js_sort ?cmp ss)"
    using assms by (auto simp: AutopilotList_def sorted_runs_def AutopilotCard_def Let_def split: if_splits)
  ultimately show ?thesis by simp
qed

section \<open>Witnesses\<close>

definition demo_bar_hook :: filter_hook where
  "demo_bar_hook = fh_mount feature_filters None"

lemma filter_bar_click_exact_witness:
  "fb_lifecycle (FilterBar [] (fh_state (bar_click (BarLifecycle ''done'') demo_bar_hook)))
     = map (flip_chip ''done'') (fb_lifecycle (FilterBar [] (fh_state demo_bar_hook)))"
proof -
  have "values_ok feature_filters (fh_state demo_bar_hook)"
    by (simp add: demo_bar_hook_def fh_mount_def safeRead_def values_ok_def feature_filters_def Let_def)
  from filter_bar_click_exact [OF this refl refl, of "BarLifecycle ''done''" "[]"] show ?thesis
    by (simp add: feature_chip_order_def)
qed

lemma card_percent_exact_witness:
  "1 \<le> ProgressBar (completedRatio PlanUtils.demo_feature) \<and> ProgressBar (completedRatio PlanUtils.demo_feature) < 100"
proof -
  have "0 \<le> f_phase_index PlanUtils.demo_feature" "0 < f_total_phases PlanUtils.demo_feature"
    "f_total_phases PlanUtils.demo_feature \<le> 99" by (simp_all add: PlanUtils.demo_feature_def)
  from card_percent_exact [OF this]
  have "1 \<le> ProgressBar (completedRatio PlanUtils.demo_feature)" "ProgressBar (completedRatio PlanUtils.demo_feature) \<le> 100"
    "ProgressBar (completedRatio PlanUtils.demo_feature) \<noteq> 100" by (simp_all add: PlanUtils.demo_feature_def)
  then show ?thesis by linarith
qed

abbreviation demo_feature_list :: feature_list where
  "demo_feature_list \<equiv> FeatureList demo_collate demo_collate (\<lambda>_. None) 0 None (fc_defaults feature_filters) (Some [PlanUtils.demo_feature]) False None"

lemma demo_layers:
  "map feature_ident (fl_inprogress (feature_layers_of demo_collate (Some [PlanUtils.demo_feature])
     (fv_lifecycle (fc_defaults feature_filters)) (fv_project (fc_defaults feature_filters))
     (fv_search (fc_defaults feature_filters)) (fv_sort (fc_defaults feature_filters)))) = [''/p:a'']"
  by (simp add: feature_layers_of_def feature_filters_def PlanUtils.demo_feature_def feature_ident_def Let_def
      isDoneFeature_def feature_searchMatches_def feature_projectMatches_def feature_lifecycleMatches_def)

lemma demo_items:
  obtains bar items where "demo_feature_list = FeatureItems bar items" and "map fst (shown_cards items) = [''/p:a'']"
proof -
  obtain bar items where d: "demo_feature_list = FeatureItems bar items"
    using demo_layers by (auto simp: FeatureList_def Let_def)
  have "map fst (shown_cards items) = [''/p:a'']"
    using demo_layers by (simp add: feature_items [OF d refl] o_def feature_layers_of_def feature_filters_def)
  from that [OF d this] show thesis .
qed

lemma list_needs_a_selection_witness:
  "\<exists>bar items. demo_feature_list = FeatureItems bar items \<and> shown_cards items \<noteq> [] \<and> (\<forall>(k, c) \<in> set (shown_cards items). fk_tabIndex c = - 1)"
proof -
  obtain bar items where d: "demo_feature_list = FeatureItems bar items" "map fst (shown_cards items) = [''/p:a'']"
    by (rule demo_items)
  with list_needs_a_selection [OF d(1)] show ?thesis by auto
qed

lemma card_opens_its_feature_witness:
  "FeaturesView (Some [PlanUtils.demo_feature]) (Some []) (Some ''/p:a'') = ShowFeature PlanUtils.demo_feature None"
proof -
  obtain bar items where d: "demo_feature_list = FeatureItems bar items" "map fst (shown_cards items) = [''/p:a'']"
    by (rule demo_items)
  then obtain crd where "(''/p:a'', crd) \<in> set (shown_cards items)" by (cases "shown_cards items") auto
  moreover have "distinct (map feature_ident [PlanUtils.demo_feature])" by simp
  ultimately show ?thesis using card_opens_its_feature [OF d(1), of "''/p:a''" crd "[]"] by auto
qed

lemma run_list_grouped_witness:
  "\<exists>cards. AutopilotList (Some [(demo_session [])\<lparr>as_status := ASFailed, as_task := ''b''\<rparr>, demo_session []]) False None = RunCards cards
     \<and> map rc_task cards = [''a'', ''b'']"
proof -
  let ?ss = "[(demo_session [])\<lparr>as_status := ASFailed, as_task := ''b''\<rparr>, demo_session []]"
  obtain cards where c: "AutopilotList (Some ?ss) False None = RunCards cards"
    by (simp add: AutopilotList_def sorted_runs_def PlanUtils.demo_session_def)
  from run_list_grouped [OF c] c show ?thesis by (simp add: PlanUtils.demo_session_def)
qed
end
