(* ===== verification/ShellViews.thy ===== *)
theory ShellViews
  imports DeferredAudit Tabs Overview
begin

text \<open>
  What the shell puts on the page: the sidebar with the activity rail (\<open>components/ActivityRail.tsx\<close>), the
  freshness label of the title bar (\<open>DataFreshnessChip.tsx\<close>, \<open>hooks/useDataFreshness.ts\<close>,
  \<open>hooks/useRelativeTimer.ts\<close>), the views of one project (\<open>ProjectSubviewTab.tsx\<close>), the rows of the plan
  list and the choice of the main view (\<open>DashboardShell.tsx\<close>). The answers of the polls are arguments;
  \<open>plan_reply\<close> gives the plan and whether it is still loading, by directory.
\<close>

section \<open>Freshness\<close>

definition useRelativeTimer :: "int \<Rightarrow> int option \<Rightarrow> string" where
  "useRelativeTimer now timestamp =
     (case timestamp of
        None \<Rightarrow> ''''
      | Some t \<Rightarrow>
          (let seconds = (now - t) div 1000
           in if seconds < 60 then string_of_int seconds @ ''s ago''
              else string_of_int (seconds div 60) @ ''m ago''))"

text \<open>
  The hook's effect runs when the polled value is another object. SWR compares a reply with the value it has and
  keeps the old object when they are equal.
\<close>

record 'd freshness =
  fr_data :: "'d option"
  fr_lastFetchTime :: "int option"
  fr_isTabVisible :: bool

definition fresh_mount :: "int \<Rightarrow> 'd option \<Rightarrow> 'd freshness" where
  "fresh_mount now cached =
     \<lparr>fr_data = cached, fr_lastFetchTime = (case cached of None \<Rightarrow> None | Some _ \<Rightarrow> Some now), fr_isTabVisible = True\<rparr>"

datatype 'd fresh_event = PollAnswer int 'd | PollFailed | VisibilityChange bool

fun fresh_step :: "'d fresh_event \<Rightarrow> 'd freshness \<Rightarrow> 'd freshness" where
  "fresh_step (PollAnswer now d) s =
     (if fr_data s = Some d then s else s\<lparr>fr_data := Some d, fr_lastFetchTime := Some now\<rparr>)"
| "fresh_step PollFailed s = s"
| "fresh_step (VisibilityChange hidden) s = s\<lparr>fr_isTabVisible := \<not> hidden\<rparr>"

datatype chip_colour = Fog | Amber

definition DataFreshnessChip :: "int \<Rightarrow> 'd freshness \<Rightarrow> string \<times> chip_colour option \<times> chip_colour" where
  "DataFreshnessChip now s =
     (let elapsed = useRelativeTimer now (fr_lastFetchTime s)
      in if \<not> fr_isTabVisible s then (''paused'', Some Fog, Fog)
         else (case fr_lastFetchTime s of
                 None \<Rightarrow> (''connecting'' @ ellipsis, Some Fog, Fog)
               | Some t \<Rightarrow>
                   if now - t < 30000 then (elapsed, None, Fog)
                   else (''stale '' @ mdot @ '' '' @ elapsed, Some Amber, Amber)))"

section \<open>Activity rail\<close>

record grinder_summary =
  gr_project :: string
  gr_path :: string
  gr_status :: "grinder_pass_status option"
  gr_current_pass :: "string option"
  gr_batches_completed :: int
  gr_batches_total :: int
  gr_running_batches :: "int option"
  gr_deferrals_count :: int
  gr_last_event_ts :: "string option"
  gr_paused :: bool

text \<open>\<open>None\<close> is the status \<open>idle\<close>.\<close>

fun grinder_status_text :: "grinder_pass_status option \<Rightarrow> string" where
  "grinder_status_text None = ''idle''"
| "grinder_status_text (Some GpPending) = ''pending''"
| "grinder_status_text (Some GpInProgress) = ''in_progress''"
| "grinder_status_text (Some GpCompleted) = ''completed''"
| "grinder_status_text (Some GpFailed) = ''failed''"

fun session_status_name :: "session_status \<Rightarrow> string" where
  "session_status_name SWorking = ''working''"
| "session_status_name SNeedsInput = ''needs_input''"
| "session_status_name SIdle = ''idle''"
| "session_status_name SCompleted = ''completed''"
| "session_status_name SStopped = ''stopped''"
| "session_status_name SStale = ''stale''"
| "session_status_name SClosed = ''closed''"

datatype rail_action = SelectFeature | SelectPlan "string option"

record rail_row =
  rr_title :: string
  rr_subtitle :: string
  rr_second :: "string option"
  rr_dot :: "wf_status option"
  rr_click :: "rail_action option"

definition RailRow :: "string \<Rightarrow> string \<Rightarrow> string option \<Rightarrow> rail_tone \<Rightarrow> rail_action option \<Rightarrow> rail_row" where
  "RailRow title subtitle second tone click =
     \<lparr>rr_title = title, rr_subtitle = subtitle, rr_second = second, rr_dot = toneToWfStatus tone, rr_click = click\<rparr>"

definition statusToneSession :: "string \<Rightarrow> rail_tone" where
  "statusToneSession s =
     (if s = ''needs_input'' then ToneWarning
      else if s = ''working'' then ToneInfo
      else if s = ''ended'' then ToneMuted
      else ToneInfo)"

definition statusToneFeature :: "string \<Rightarrow> rail_tone" where
  "statusToneFeature s =
     (if s = ''stuck'' then ToneError
      else if s = ''waiting'' then ToneWarning
      else if s = ''paused'' then ToneMuted
      else if s = ''done'' then ToneSuccess
      else ToneInfo)"

record rail_section =
  rs_title :: string
  rs_count :: nat
  rs_expanded :: bool
  rs_rows :: "rail_row list option"

text \<open>A collapsed section shows no rows, an empty one the text \<open>none active\<close>.\<close>

definition RailSection :: "string \<Rightarrow> bool \<Rightarrow> rail_row list \<Rightarrow> rail_section" where
  "RailSection title expanded rows =
     \<lparr>rs_title = title, rs_count = length rows, rs_expanded = expanded,
      rs_rows = (if expanded \<and> length rows \<noteq> 0 then Some rows else None)\<rparr>"

definition session_rail_row :: "session \<Rightarrow> rail_row" where
  "session_rail_row s =
     RailRow (branch_feature (s_branch s)) (session_status_name (s_status s)) (Some (s_worktree s))
       (statusToneSession (session_status_name (s_status s))) None"

definition plan_rail_row :: "autopilot_session \<Rightarrow> rail_row" where
  "plan_rail_row a =
     RailRow (as_task a)
       (case find (\<lambda>p. ap_status p = ARunning) (as_phases a) of
          Some p \<Rightarrow> ap_name p | None \<Rightarrow> autopilot_status_text (as_status a))
       None (autopilotToTone (autopilot_status_text (as_status a))) (Some (SelectPlan (as_project a)))"

definition feature_rail_row :: "feature \<Rightarrow> rail_row" where
  "feature_rail_row f =
     RailRow (f_name f)
       (string_of_int (f_phase_index f) @ ''/'' @ string_of_int (f_total_phases f) @ '' '' @ mdot @ '' '' @ f_project f)
       None (statusToneFeature (feature_status_name (f_status f))) (Some SelectFeature)"

definition grinder_rail_row :: "grinder_summary \<Rightarrow> rail_row" where
  "grinder_rail_row g =
     RailRow (gr_project g)
       ((case gr_current_pass g of Some p \<Rightarrow> p | None \<Rightarrow> grinder_status_text (gr_status g))
        @ (if gr_paused g then '' '' @ mdot @ '' paused'' else ''''))
       None ToneInfo None"

record rail_view =
  rl_sessions :: rail_section
  rl_plans :: rail_section
  rl_features :: rail_section
  rl_grinders :: rail_section
  rl_footer :: string

text \<open>\<open>open'\<close> says which of the four sections are expanded.\<close>

definition ActivityRail ::
    "(nat \<Rightarrow> bool) \<Rightarrow> session list option \<Rightarrow> autopilot_session list option \<Rightarrow> feature list option \<Rightarrow>
     grinder_summary list option \<Rightarrow> project_summary list option \<Rightarrow> rail_view" where
  "ActivityRail open' sessions autopilots features grinders plans =
     \<lparr>rl_sessions = RailSection ''Active Sessions'' (open' 0)
            (map session_rail_row (filter (\<lambda>s. s_status s = SWorking \<or> s_status s = SNeedsInput)
              (case sessions of None \<Rightarrow> [] | Some xs \<Rightarrow> xs))),
          rl_plans = RailSection ''Active Plans'' (open' 1)
            (map plan_rail_row (filter (\<lambda>a. isAutopilotActive (autopilot_status_text (as_status a)))
              (case autopilots of None \<Rightarrow> [] | Some xs \<Rightarrow> xs))),
          rl_features = RailSection ''Active Features'' (open' 2)
            (map feature_rail_row (filter (\<lambda>f. f_status f = FActive \<or> f_status f = FWaiting)
              (case features of None \<Rightarrow> [] | Some xs \<Rightarrow> xs))),
          rl_grinders = RailSection ''Active Grinders'' (open' 3)
            (map grinder_rail_row (filter (\<lambda>g. gr_status g = Some GpInProgress)
              (case grinders of None \<Rightarrow> [] | Some xs \<Rightarrow> xs))),
          rl_footer = plural_words ''project'' (case plans of None \<Rightarrow> 0 | Some ps \<Rightarrow> length ps) @ '' discovered''\<rparr>"

definition rail_toggle :: "nat \<Rightarrow> (nat \<Rightarrow> bool) \<Rightarrow> nat \<Rightarrow> bool" where
  "rail_toggle i open' = open'(i := \<not> open' i)"

section \<open>One project\<close>

definition find_project :: "project_summary list option \<Rightarrow> string \<Rightarrow> project_summary option" where
  "find_project projects projectId =
     find (\<lambda>p. ps_project p = projectId) (case projects of None \<Rightarrow> [] | Some ps \<Rightarrow> ps)"

definition project_dir :: "project_summary \<Rightarrow> string" where
  "project_dir p = (case ps_plan_dir p of Some d \<Rightarrow> d | None \<Rightarrow> ps_path p)"

text \<open>Without a directory, or with an empty one, nothing is requested.\<close>

definition usePlan :: "(string \<Rightarrow> plan option \<times> bool) \<Rightarrow> string option \<Rightarrow> plan option \<times> bool" where
  "usePlan plan_reply dir = (if truthy dir then plan_reply (the dir) else (None, False))"

definition projectSessions :: "project_summary \<Rightarrow> session list option \<Rightarrow> session list" where
  "projectSessions p sessions =
     filter (\<lambda>s. ps_path p \<noteq> '''' \<and> starts_with (s_cwd s) (ps_path p)) (case sessions of None \<Rightarrow> [] | Some ss \<Rightarrow> ss)"

text \<open>The properties handed to the pipeline view.\<close>

record pipeline_props =
  px_plan :: plan
  px_sessions :: "session list"
  px_projectPath :: "string option"
  px_planDir :: "string option"

text \<open>
  \<open>hd_controls\<close> is the target of the chain's controls where they are offered, \<open>hd_terminal\<close> that of the
  terminal below the header when it is open.
\<close>

record project_header =
  hd_title :: string
  hd_label :: string
  hd_pill :: "wf_status option \<times> string"
  hd_controls :: "string option option"
  hd_attached :: bool
  hd_counts :: string
  hd_percent :: string
  hd_terminal :: "string option option"

definition text_or_none :: "string \<Rightarrow> string option" where
  "text_or_none s = (if s = '''' then None else Some s)"

definition row_counts :: "plan \<Rightarrow> string" where
  "row_counts plan =
     (let rowTasks = flattenTasks plan
      in string_of_nat (length (filter (\<lambda>t. t_status t = TDone) rowTasks)) @ ''/'' @ string_of_nat (length rowTasks))"

definition ProjectHeader :: "string \<Rightarrow> plan \<Rightarrow> project_summary \<Rightarrow> bool \<Rightarrow> project_header" where
  "ProjectHeader label plan project isTerminalOpen =
     (let chainId = planDirToChainId (case ps_plan_dir project of Some d \<Rightarrow> d | None \<Rightarrow> '''');
          showChainControls = (classifyPlan project \<noteq> LcDone)
      in \<lparr>hd_title = pl_name plan, hd_label = label, hd_pill = statusPillProps project,
          hd_controls = (if showChainControls then Some (text_or_none chainId) else None),
          hd_attached = isTerminalOpen, hd_counts = row_counts plan,
          hd_percent = string_of_int (computeProgressPct plan) @ ''%'',
          hd_terminal = (if showChainControls \<and> isTerminalOpen then Some (text_or_none chainId) else None)\<rparr>)"

section \<open>Vision and deviations\<close>

text \<open>These read members of the plan that are passed through as they were sent; all are texts or lists of texts.\<close>

definition rest_text :: "json \<Rightarrow> string \<Rightarrow> string option" where
  "rest_text j k = (case jfield j k of Some (JStr s) \<Rightarrow> text_or_none s | _ \<Rightarrow> None)"

definition rest_items :: "json \<Rightarrow> string \<Rightarrow> json list" where
  "rest_items j k = (case jfield j k of Some (JArr xs) \<Rightarrow> xs | _ \<Rightarrow> [])"

definition text_or_empty :: "json \<Rightarrow> string \<Rightarrow> string" where
  "text_or_empty j k = (case rest_text j k of Some s \<Rightarrow> s | None \<Rightarrow> '''')"

record vision_pane =
  vp_title :: string
  vp_description :: "string option"
  vp_vision :: "string option"
  vp_tech :: "string list"
  vp_criteria :: "(string \<times> (string \<times> string \<times> string option) list) option"
  vp_scope :: "(string list \<times> string list) option"

definition VisionPane :: "string \<Rightarrow> plan \<Rightarrow> vision_pane" where
  "VisionPane projectName plan =
     (let r = pl_rest plan; criteria = rest_items r ''success_criteria'';
          scope = (case jfield r ''scope'' of Some s \<Rightarrow> s | None \<Rightarrow> JNull);
          scopeIn = map tab_text (rest_items scope ''in_scope''); scopeOut = map tab_text (rest_items scope ''out_of_scope'')
      in \<lparr>vp_title = projectName, vp_description = rest_text r ''description'', vp_vision = rest_text r ''vision'',
          vp_tech = map tab_text (rest_items r ''tech_stack''),
          vp_criteria =
            (if length criteria > 0
             then Some (''Success criteria ('' @ string_of_nat (length criteria) @ '')'',
                    map (\<lambda>c. (text_or_empty c ''id'', text_or_empty c ''description'', rest_text c ''measurable_via'')) criteria)
             else None),
          vp_scope = (if length scopeIn > 0 \<or> length scopeOut > 0 then Some (scopeIn, scopeOut) else None)\<rparr>)"

record deviation_detail =
  dd_type :: "string option"
  dd_description :: "string option"
  dd_reason :: "string option"
  dd_impact :: "string option"
  dd_confidence :: "rat option"
  dd_evidence :: "string option"
  dd_criteria :: "string list option"

record phase_result =
  pr_result_phase :: string
  pr_timestamp :: "string option"
  pr_conformance :: string
  pr_acceptance :: "string option"
  pr_deviations :: "deviation_detail list option"

definition shown :: "string option \<Rightarrow> string list" where
  "shown s = (case s of Some t \<Rightarrow> if t = '''' then [] else [t] | None \<Rightarrow> [])"

definition DeviationDetailBlock :: "deviation_detail \<Rightarrow> string list" where
  "DeviationDetailBlock d =
     shown (dd_type d) @ map (append ''impact: '') (shown (dd_impact d))
     @ (case dd_confidence d of Some c \<Rightarrow> [string_of_int (js_round (c * 100)) @ ''%''] | None \<Rightarrow> [])
     @ shown (dd_description d) @ map (append ''reason:'') (shown (dd_reason d))
     @ map (append ''evidence:'') (shown (dd_evidence d))
     @ (case dd_criteria d of Some cs \<Rightarrow> if length cs > 0 then [''affects: '' @ join_with '', '' cs] else [] | None \<Rightarrow> [])"

record deviation_row =
  dr_task :: string
  dr_phase :: string
  dr_conformance :: string
  dr_aligned :: bool
  dr_acceptance :: "string list"
  dr_details :: "string list list"

definition DeviationRow :: "string \<Rightarrow> phase_result \<Rightarrow> deviation_row" where
  "DeviationRow taskId r =
     \<lparr>dr_task = taskId, dr_phase = pr_result_phase r, dr_conformance = pr_conformance r,
      dr_aligned = (pr_conformance r = ''aligned''), dr_acceptance = shown (pr_acceptance r),
      dr_details = map DeviationDetailBlock (case pr_deviations r of Some ds \<Rightarrow> ds | None \<Rightarrow> [])\<rparr>"

text \<open>\<open>results\<close> is the member \<open>phase_results\<close> of a task, which its declared type does not have.\<close>

definition deviation_rows :: "(task \<Rightarrow> phase_result list option) \<Rightarrow> plan \<Rightarrow> deviation_row list" where
  "deviation_rows results plan =
     concat (map (\<lambda>t. case results t of Some rs \<Rightarrow> map (DeviationRow (t_id t)) rs | None \<Rightarrow> []) (plan_tasks plan))"


section \<open>The sub-view tab\<close>

text \<open>
  \<open>hd_mounted\<close> is the mounted header, by the view it belongs to, with its terminal open or not: React keeps it from
  one render to the next when the same view is rendered at the same place, also for another project.
\<close>

type_synonym mounted_header = "(string \<times> bool) option"

definition keep_header :: "string option \<Rightarrow> mounted_header \<Rightarrow> mounted_header" where
  "keep_header now_shown m =
     (case now_shown of
        None \<Rightarrow> None
      | Some v \<Rightarrow> (case m of Some (v', open') \<Rightarrow> if v = v' then m else Some (v, True) | None \<Rightarrow> Some (v, True)))"

definition toggle_terminal :: "mounted_header \<Rightarrow> mounted_header" where
  "toggle_terminal m = map_option (apsnd Not) m"

definition detach :: "mounted_header \<Rightarrow> mounted_header" where
  "detach m = map_option (apsnd (\<lambda>_. False)) m"

datatype subview_pane =
    SubviewLoading
  | PlanNotFound string
  | ShowVision vision_pane
  | ShowPipeline project_header pipeline_props
  | ShowDeferred project_header plan
  | ShowDeviations project_header "deviation_row list"
  | NoPane

definition ProjectSubviewTab ::
    "project_summary list option \<Rightarrow> bool \<Rightarrow> (string \<Rightarrow> plan option \<times> bool) \<Rightarrow> session list option \<Rightarrow>
     (task \<Rightarrow> phase_result list option) \<Rightarrow> bool \<Rightarrow> string \<Rightarrow> string \<Rightarrow> subview_pane" where
  "ProjectSubviewTab projects projectsLoading plan_reply sessions results isTerminalOpen projectId subview =
     (let project = find_project projects projectId;
          (reply, planLoading) = usePlan plan_reply (map_option project_dir project)
      in if projectsLoading \<or> planLoading then SubviewLoading
         else (case (project, reply) of
                 (Some p, Some plan) \<Rightarrow>
                   if subview = ''vision'' then ShowVision (VisionPane (ps_project p) plan)
                   else if subview = ''pipeline'' then
                     ShowPipeline (ProjectHeader ''Pipeline'' plan p isTerminalOpen)
                       \<lparr>px_plan = plan, px_sessions = projectSessions p sessions, px_projectPath = None, px_planDir = None\<rparr>
                   else if subview = ''deferred'' then ShowDeferred (ProjectHeader ''Deferred Audit'' plan p isTerminalOpen) plan
                   else if subview = ''deviations'' then
                     ShowDeviations (ProjectHeader ''Deviations'' plan p isTerminalOpen) (deviation_rows results plan)
                   else NoPane
               | _ \<Rightarrow> PlanNotFound projectId))"

fun pane_header :: "subview_pane \<Rightarrow> (string \<times> project_header) option" where
  "pane_header (ShowPipeline h _) = Some (''pipeline'', h)"
| "pane_header (ShowDeferred h _) = Some (''deferred'', h)"
| "pane_header (ShowDeviations h _) = Some (''deviations'', h)"
| "pane_header _ = None"

section \<open>The rows of the plan list\<close>

definition supported_schema_majors :: "string list" where
  "supported_schema_majors = [''1'', ''2'']"

datatype project_panel =
    PanelLoading
  | PanelNoPlan string
  | PanelRow project_header "string option" pipeline_props

definition schema_warning :: "plan \<Rightarrow> string option" where
  "schema_warning plan =
     (case pl_schema_version plan of
        Some v \<Rightarrow>
          if hd (split_on (CHR ''.'') v) \<notin> set supported_schema_majors
          then Some (''Plan uses schema v'' @ v @ '' '' @ emdash @ '' dashboard supports v'' @
                 join_with '', v'' supported_schema_majors @ ''.x'')
          else None
      | None \<Rightarrow> None)"

definition ProjectPanel ::
    "(string \<Rightarrow> plan option \<times> bool) \<Rightarrow> session list option \<Rightarrow> project_summary \<Rightarrow> project_panel" where
  "ProjectPanel plan_reply sessions project =
     (let (reply, planLoading) = usePlan plan_reply (Some (project_dir project))
      in if planLoading then PanelLoading
         else (case reply of
                 None \<Rightarrow> PanelNoPlan (''No execution plan found for '' @ ps_project project @ ''.'')
               | Some plan \<Rightarrow>
                   PanelRow
                     \<lparr>hd_title = pl_name plan, hd_label = '''', hd_pill = statusPillProps project,
                      hd_controls = (if classifyPlan project \<noteq> LcDone
                        then Some (text_or_none (planDirToChainId (case ps_plan_dir project of Some d \<Rightarrow> d | None \<Rightarrow> ''''))) else None),
                      hd_attached = False, hd_counts = row_counts plan,
                      hd_percent = string_of_int (computeProgressPct plan) @ ''%'', hd_terminal = None\<rparr>
                     (schema_warning plan)
                     \<lparr>px_plan = plan, px_sessions = (case sessions of Some ss \<Rightarrow> ss | None \<Rightarrow> []),
                      px_projectPath = Some (ps_path project), px_planDir = Some (project_dir project)\<rparr>))"





section \<open>The main view\<close>

datatype shell_content =
    ContentFeature string
  | ContentProject string string
  | ContentView string
  | ContentBlank

definition shell_content :: "string \<Rightarrow> shell_content" where
  "shell_content view =
     (if isFeatureTab view then ContentFeature (featureKeyFromTab view)
      else if isProjectSubviewTab view then
        (case parseProjectSubviewTab view of Some (p, sub) \<Rightarrow> ContentProject p sub | None \<Rightarrow> ContentBlank)
      else if view \<in> set (om_keys view_options) then ContentView view
      else ContentBlank)"

definition project_key :: "project_summary \<Rightarrow> string" where
  "project_key p = (case ps_plan_dir p of Some d \<Rightarrow> d | None \<Rightarrow> ps_path p @ ''::'' @ ps_project p)"

text \<open>What can be clicked: the entries of the sidebar and its rail, the output button of a plan's row, and a tab.\<close>

datatype shell_target =
    ClickView string
  | ClickProject project_summary
  | ClickSubview project_summary string
  | ClickRail rail_action
  | ClickOutput project_summary
  | ClickTab string
  | ClickClose string

fun shell_actions :: "shell_target \<Rightarrow> tab_action list" where
  "shell_actions (ClickView v) = [TabView v]"
| "shell_actions (ClickProject p) = [TabOpen (project_tab (ps_project p) ''pipeline''), TabToggle (project_key p)]"
| "shell_actions (ClickSubview p label) =
     [TabOpen (project_tab (ps_project p) (om_get_or '''' project_subview_keys label))]"
| "shell_actions (ClickRail SelectFeature) = [TabOpen ''features'']"
| "shell_actions (ClickRail (SelectPlan project)) =
     (if truthy project then [TabOpen (project_tab (the project) ''pipeline'')] else [TabOpen ''plan''])"
| "shell_actions (ClickOutput p) = [TabOpen (project_tab (ps_project p) ''pipeline'')]"
| "shell_actions (ClickTab i) = [TabOpen i]"
| "shell_actions (ClickClose i) = [TabClose i]"

definition shell_click :: "shell_target \<Rightarrow> tab_strip \<Rightarrow> tab_strip" where
  "shell_click c s = fold tab_step (shell_actions c) s"


section \<open>No blank page\<close>

definition renderable :: "string \<Rightarrow> bool" where
  "renderable i \<longleftrightarrow> shell_content i \<noteq> ContentBlank"

text \<open>What the page offers to click, given the tabs that are open.\<close>

fun offered :: "tab_strip \<Rightarrow> shell_target \<Rightarrow> bool" where
  "offered s (ClickView v) = (v \<in> set (om_keys view_options))"
| "offered s (ClickSubview p label) = (label \<in> set (om_keys project_subview_keys))"
| "offered s (ClickTab i) = (i \<in> set (ts_open s))"
| "offered s _ = True"

definition strip_renders :: "tab_strip \<Rightarrow> bool" where
  "strip_renders s \<longleftrightarrow> strip_ok s \<and> (\<forall>t \<in> set (ts_open s). renderable t)"

lemma project_tab_content: "sub \<in> set subviews \<Longrightarrow> shell_content (project_tab p sub) = ContentProject p sub"
  using project_tab_roundtrip [of sub p] by (auto simp: shell_content_def parseProjectSubviewTab_def split: if_splits)

lemma view_content: "v \<in> set (om_keys view_options) \<Longrightarrow> shell_content v = ContentView v"
  by (auto simp: shell_content_def view_options_def isFeatureTab_def isProjectSubviewTab_def feature_tab_prefix_def
      project_tab_prefix_def starts_with_def)

lemma subview_of_label: "label \<in> set (om_keys project_subview_keys) \<Longrightarrow> om_get_or '''' project_subview_keys label \<in> set subviews"
  by (auto simp: project_subview_keys_def subviews_def om_get_or_def)

text \<open>The tabs an action opens.\<close>

fun opened :: "tab_action \<Rightarrow> string list" where
  "opened (TabOpen i) = [i]"
| "opened (TabView v) = [v]"
| "opened TabPlan = [''plan'']"
| "opened _ = []"

lemma open_after_step: "set (ts_open (tab_step a s)) \<subseteq> set (ts_open s) \<union> set (opened a) \<union> {''overview''}"
  by (cases a) (auto simp: persist_tabs_def openOrFocusTab_def handleNavigateToPlan_def closeTab_def toggleProject_def
      handleViewSelectChange_def Let_def)

lemma renderable_view [simp]: "renderable ''overview''" "renderable ''plan''" "renderable ''features''"
  by (simp_all add: renderable_def view_content view_options_def)

lemma renders_step:
  assumes "strip_renders s" and "action_ok a" and "\<forall>t \<in> set (opened a). renderable t"
  shows "strip_renders (tab_step a s)"
proof -
  have "strip_ok (tab_step a s)" using assms(1,2) by (simp add: strip_renders_def strip_ok_step)
  moreover have "renderable t" if "t \<in> set (ts_open (tab_step a s))" for t
    using open_after_step [of a s] that assms(1,3) by (auto simp: strip_renders_def)
  ultimately show ?thesis by (simp add: strip_renders_def)
qed

lemma pipeline_tab_ok [simp]:
  "isValidTabId (JStr (project_tab p ''pipeline''))" "renderable (project_tab p ''pipeline'')"
  using project_tab_roundtrip [of "''pipeline''" p] project_tab_content [of "''pipeline''" p]
  by (simp_all add: subviews_def renderable_def)

lemma offered_actions:
  assumes "strip_renders s" and "offered s c" and "a \<in> set (shell_actions c)"
  shows "action_ok a \<and> (\<forall>t \<in> set (opened a). renderable t)"
proof (cases c)
  case (ClickView v)
  with assms show ?thesis using view_content [of v] by (auto simp: isValidTabId_def renderable_def)
next
  case (ClickSubview p label)
  with assms subview_of_label [of label] show ?thesis
    using project_tab_roundtrip project_tab_content by (fastforce simp: renderable_def)
next
  case (ClickRail r)
  have "isValidTabId (JStr ''features'')" by (simp add: isValidTabId_def view_options_def)
  with ClickRail assms show ?thesis by (cases r) (auto split: if_splits)
next
  case (ClickTab i)
  with assms show ?thesis by (auto simp: strip_renders_def strip_ok_def)
qed (use assms in \<open>auto split: if_splits\<close>)

lemma renders_click:
  assumes "strip_renders s" and "offered s c" shows "strip_renders (shell_click c s)"
proof -
  have "strip_renders s' \<Longrightarrow> set as \<subseteq> set (shell_actions c) \<Longrightarrow> strip_renders (fold tab_step as s')" for as s'
    by (induction as arbitrary: s') (use offered_actions [OF assms] renders_step in auto)
  then show ?thesis using assms(1) by (simp add: shell_click_def)
qed

text \<open>Clicks one after the other, each on what the page offers then.\<close>

fun clickable :: "tab_strip \<Rightarrow> shell_target list \<Rightarrow> bool" where
  "clickable s [] = True"
| "clickable s (c # cs) \<longleftrightarrow> offered s c \<and> clickable (shell_click c s) cs"

lemma renders_clicks: "strip_renders s \<Longrightarrow> clickable s cs \<Longrightarrow> strip_renders (fold shell_click cs s)"
  by (induction cs arbitrary: s) (simp_all add: renders_click)

text \<open>
  C28. On a first visit the shell shows a view, and whatever the operator clicks afterwards in the sidebar, the rail,
  the plan list or the tab strip, the page is never blank: the active tab is one of the open ones and all of them
  show something.
\<close>
theorem shell_never_blank:
  assumes "clickable (ts_mount None None legacy) cs"
  shows "shell_content (ts_active (fold shell_click cs (ts_mount None None legacy))) \<noteq> ContentBlank \<and>
         (\<forall>t \<in> set (ts_open (fold shell_click cs (ts_mount None None legacy))). shell_content t \<noteq> ContentBlank)"
proof -
  have "strip_ok (ts_mount None None legacy)" using tab_strip_sound by blast
  moreover have "ts_open (ts_mount None None legacy) = [migrateLegacyView legacy]"
    by (simp add: ts_mount_def initial_tabs_def truthy_def)
  moreover have "migrateLegacyView legacy \<in> set (om_keys view_options)"
    by (simp add: migrateLegacyView_def view_options_def)
  ultimately have "strip_renders (ts_mount None None legacy)"
    by (simp add: strip_renders_def renderable_def view_content)
  from renders_clicks [OF this assms] show ?thesis
    by (auto simp: strip_renders_def strip_ok_def renderable_def)
qed

section \<open>Which plan a tab shows\<close>

text \<open>
  The sidebar and the plan list have an entry for every plan, but a tab is named by the plan's name: the entry's tab
  shows the plan it stands for exactly if no plan before it in the server's list has the same name.
\<close>
theorem subview_shows_first_namesake:
  assumes "ps = before @ p # after" and "distinct ps" and "s' = shell_click (ClickSubview p label) s"
    and "(label, sub) \<in> set project_subview_keys"
  shows "shell_content (ts_active s') = ContentProject (ps_project p) sub \<and>
         (find_project (Some ps) (ps_project p) = Some p \<longleftrightarrow> (\<forall>q \<in> set before. ps_project q \<noteq> ps_project p))"
proof -
  have "om_get_or '''' project_subview_keys label = sub" "sub \<in> set subviews"
    using assms(4) by (auto simp: project_subview_keys_def om_get_or_def subviews_def)
  then have "shell_content (ts_active s') = ContentProject (ps_project p) sub"
    unfolding assms(3) by (simp add: shell_click_def persist_tabs_def openOrFocusTab_def project_tab_content)
  moreover have "find (\<lambda>q. ps_project q = ps_project p) ps = Some p \<longleftrightarrow> (\<forall>q \<in> set before. ps_project q \<noteq> ps_project p)"
  proof (cases "find (\<lambda>q. ps_project q = ps_project p) before")
    case None
    then have "\<forall>q \<in> set before. ps_project q \<noteq> ps_project p" by (auto simp: find_None_iff)
    moreover have "find (\<lambda>q. ps_project q = ps_project p) ps = Some p" unfolding assms(1) find_app None by simp
    ultimately show ?thesis by blast
  next
    case (Some q)
    then have "q \<in> set before" "ps_project q = ps_project p" by (auto simp: find_Some_iff)
    with Some assms(1,2) show ?thesis by (auto simp: find_app)
  qed
  ultimately show ?thesis by (simp add: find_project_def)
qed

text \<open>
  A row of the rail carries the repository of its run, while tabs look for a plan of that name: if no plan is
  called like the repository, the row opens a page that says the plan was not found, whatever plan is running.
\<close>
theorem rail_row_opens_nothing:
  assumes "r \<in> set (the (rs_rows (rl_plans (ActivityRail open' sessions (Some as) features grinders projects))))"
    and "rs_rows (rl_plans (ActivityRail open' sessions (Some as) features grinders projects)) \<noteq> None"
    and "\<forall>a \<in> set as. \<exists>repo. as_project a = Some repo \<and> repo \<noteq> '''' \<and> find_project projects repo = None"
    and "rr_click r = Some act" and "s' = shell_click (ClickRail act) s"
  shows "\<exists>a \<in> set as. \<exists>repo. as_project a = Some repo \<and> as_status a = ASRunning \<and>
           shell_content (ts_active s') = ContentProject repo ''pipeline'' \<and>
           ProjectSubviewTab projects False plan_reply ss results t repo ''pipeline'' = PlanNotFound repo"
proof -
  obtain a where a: "a \<in> set as" "isAutopilotActive (autopilot_status_text (as_status a))" "r = plan_rail_row a"
    using assms(1,2) by (auto simp: ActivityRail_def RailSection_def split: if_splits)
  then have run: "as_status a = ASRunning" by (cases "as_status a") (simp_all add: isAutopilotActive_def)
  obtain repo where repo: "as_project a = Some repo" "repo \<noteq> ''''" "find_project projects repo = None"
    using assms(3) a(1) by blast
  have "act = SelectPlan (Some repo)" using assms(4) repo(1) by (simp add: a(3) plan_rail_row_def RailRow_def)
  then have "shell_content (ts_active s') = ContentProject repo ''pipeline''"
    using repo(2) project_tab_content [of "''pipeline''" repo]
    by (simp add: assms(5) shell_click_def truthy_def persist_tabs_def openOrFocusTab_def subviews_def)
  moreover have "ProjectSubviewTab projects False plan_reply ss results t repo ''pipeline'' = PlanNotFound repo"
    using repo(3) by (simp add: ProjectSubviewTab_def usePlan_def truthy_def)
  ultimately show ?thesis using a(1) repo(1) run by blast
qed

section \<open>Headers\<close>

lemma pane_header_cases:
  "ProjectSubviewTab projects loading plan_reply sessions results t projectId subview = pane \<Longrightarrow>
   pane_header pane = Some (v, h) \<Longrightarrow>
   \<exists>p plan label. find_project projects projectId = Some p \<and> usePlan plan_reply (Some (project_dir p)) = (Some plan, False) \<and>
     v = subview \<and> h = ProjectHeader label plan p t"
  by (auto simp: ProjectSubviewTab_def Let_def split: prod.splits option.splits if_splits)

lemma find_project_sound: "find_project projects i = Some p \<Longrightarrow> ps_project p = i \<and> (\<exists>ps. projects = Some ps \<and> p \<in> set ps)"
  by (auto simp: find_project_def find_Some_iff split: option.splits)

text \<open>
  C29. The controls of a project's page, its terminal and the controls of its row in the plan list work on the same
  chain, none of them is offered for a finished plan, and page and row show the same counts.
\<close>
theorem page_and_row_agree:
  assumes "pane_header (ProjectSubviewTab projects loading plan_reply sessions results t projectId subview) = Some (v, h)"
    and "find_project projects projectId = Some p"
    and "ProjectPanel plan_reply sessions' p = PanelRow row warning props"
  shows "hd_controls h = hd_controls row \<and> hd_pill h = hd_pill row \<and> hd_title h = hd_title row \<and>
         hd_counts h = hd_counts row \<and> hd_percent h = hd_percent row \<and>
         (hd_controls h = None \<longleftrightarrow> classifyPlan p = LcDone) \<and>
         hd_terminal h = (if t then hd_controls h else None)"
proof -
  obtain plan label where *: "usePlan plan_reply (Some (project_dir p)) = (Some plan, False)" "h = ProjectHeader label plan p t"
    using pane_header_cases [OF refl assms(1)] assms(2) by auto
  with assms(3) show ?thesis
    by (auto simp: ProjectPanel_def ProjectHeader_def Let_def)
qed

text \<open>
  The terminal of a project's page, once detached, stays closed when the operator goes straight to the same view of
  another project whose plan is loaded, although its page offers no button to open it again; after any page
  in between it is open.
\<close>
theorem detached_terminal_stays_closed:
  assumes "pane_header (ProjectSubviewTab projects False plan_reply sessions results t i ''pipeline'') = Some (v, h)"
    and "m = keep_header (Some v) (detach (keep_header (Some v) m0))"
    and "hd_controls h \<noteq> None" and "m' = keep_header (Some v) (keep_header None m)"
  shows "m = Some (''pipeline'', False) \<and> m' = Some (''pipeline'', True) \<and>
         (\<forall>h1. pane_header (ProjectSubviewTab projects False plan_reply sessions results (snd (the m)) i ''pipeline'') = Some (v, h1)
            \<longrightarrow> hd_terminal h1 = None \<and> hd_controls h1 = hd_controls h) \<and>
         (\<forall>h1. pane_header (ProjectSubviewTab projects False plan_reply sessions results (snd (the m')) i ''pipeline'') = Some (v, h1)
            \<longrightarrow> hd_terminal h1 = hd_controls h)"
proof -
  obtain p plan label where p: "find_project projects i = Some p" "usePlan plan_reply (Some (project_dir p)) = (Some plan, False)"
    "v = ''pipeline''" "h = ProjectHeader label plan p t"
    using pane_header_cases [OF refl assms(1)] by blast
  have m: "m = Some (''pipeline'', False)"
    using assms(2) p(3) by (auto simp: keep_header_def detach_def split: option.splits prod.splits)
  have m': "m' = Some (''pipeline'', True)" using assms(4) p(3) by (simp add: keep_header_def)
  show ?thesis
    using p assms(3) by (auto simp: m m' ProjectSubviewTab_def ProjectHeader_def Let_def split: if_splits)
qed

text \<open>
  A project's pipeline page hands no directory to the pipeline, as the plan list does: the panel of a task opened
  there asks for none of the documents that the same task has in the plan list.
\<close>
theorem pipeline_page_has_no_documents:
  assumes "ProjectSubviewTab projects loading plan_reply sessions results t i ''pipeline'' = ShowPipeline h props"
    and "find_project projects i = Some p" and "ProjectPanel plan_reply sessions p = PanelRow row warning props'"
    and "task \<noteq> ''''"
  shows "px_plan props = px_plan props' \<and>
         plan_artifacts_key (px_planDir props) (Some task) = None \<and>
         plan_artifacts_key (px_planDir props') (Some task) = Some (project_dir p, task)"
proof -
  have "truthy (Some (project_dir p))"
    using assms(3) by (auto simp: ProjectPanel_def usePlan_def split: if_splits)
  moreover obtain plan where "usePlan plan_reply (Some (project_dir p)) = (Some plan, False)" "px_plan props = plan" "px_planDir props = None"
    using assms(1,2) by (auto simp: ProjectSubviewTab_def Let_def split: prod.splits option.splits if_splits)
  ultimately show ?thesis
    using assms(3,4) by (auto simp: ProjectPanel_def Let_def plan_artifacts_key_def truthy_def)
qed

text \<open>
  A project's page lists every session inside its directory, but the test is for a prefix of the path only: the
  sessions of a sibling directory whose name continues its own are listed as well.
\<close>
theorem project_sessions_exact:
  assumes "ps_path p \<noteq> ''''"
  shows "(s \<in> set (projectSessions p (Some ss)) \<longleftrightarrow> s \<in> set ss \<and> (\<exists>rest. s_cwd s = ps_path p @ rest)) \<and>
         (s \<in> set ss \<and> s_cwd s = ps_path p @ ''-old/x'' \<longrightarrow> s \<in> set (projectSessions p (Some ss)))"
  using assms by (simp add: projectSessions_def starts_with_iff)

section \<open>Jumping to a plan\<close>


section \<open>Deviations\<close>

text \<open>
  The deviations page has one row for each result of each task, in the plan's order, and is empty exactly if no task has
  any.
\<close>
theorem deviation_rows_exact:
  "map dr_task (deviation_rows results plan) =
     concat (map (\<lambda>t. replicate (length (case results t of Some rs \<Rightarrow> rs | None \<Rightarrow> [])) (t_id t)) (flattenTasks plan)) \<and>
   (deviation_rows results plan = [] \<longleftrightarrow> (\<forall>t \<in> set (flattenTasks plan). results t = None \<or> results t = Some []))"
proof -
  have "plan_tasks plan = flattenTasks plan" by (simp add: plan_tasks_def flattenTasks_def)
  moreover have "map dr_task (map (DeviationRow i) rs) = replicate (length rs) i" for i rs
    by (induction rs) (simp_all add: DeviationRow_def)
  ultimately have "map dr_task (deviation_rows results plan) =
      concat (map (\<lambda>t. replicate (length (case results t of Some rs \<Rightarrow> rs | None \<Rightarrow> [])) (t_id t)) (flattenTasks plan))"
    unfolding deviation_rows_def map_concat
    by (intro arg_cong [of _ _ concat]) (auto split: option.splits)
  moreover have "deviation_rows results plan = [] \<longleftrightarrow> (\<forall>t \<in> set (flattenTasks plan). results t = None \<or> results t = Some [])"
  proof -
    have "(case results t of Some rs \<Rightarrow> map (DeviationRow (t_id t)) rs | None \<Rightarrow> []) = [] \<longleftrightarrow>
        results t = None \<or> results t = Some []" for t by (cases "results t") simp_all
    then show ?thesis unfolding deviation_rows_def plan_tasks_def flattenTasks_def by simp
  qed
  ultimately show ?thesis by blast
qed

section \<open>Freshness\<close>

definition changed :: "'d freshness \<Rightarrow> 'd fresh_event \<Rightarrow> bool" where
  "changed s e = (case e of PollAnswer now d \<Rightarrow> fr_data s \<noteq> Some d | _ \<Rightarrow> False)"

lemma unchanged_polls:
  assumes "\<forall>e \<in> set es. (\<exists>now. e = PollAnswer now d) \<or> e = PollFailed" and "fr_data s = Some d"
  shows "fold fresh_step es s = s"
  using assms by (induction es) auto

text \<open>
  The label counts from the last reply that was different from the one before, not from the last reply: while nothing
  happens, every poll succeeds and the label turns to a warning that the data is stale after thirty
  seconds, just as if the polls failed.
\<close>
theorem quiet_fleet_reads_stale:
  assumes "s = fresh_step (PollAnswer t0 d) s0" and "fr_data s0 \<noteq> Some d" and "fr_isTabVisible s0"
    and "\<forall>e \<in> set es. (\<exists>now. e = PollAnswer now d) \<or> e = PollFailed" and "t0 + 30000 \<le> now"
  shows "DataFreshnessChip now (fold fresh_step es s) =
           (''stale '' @ mdot @ '' '' @ useRelativeTimer now (Some t0), Some Amber, Amber)"
  using assms(2,3,5) unchanged_polls [OF assms(4), of s] by (simp add: assms(1) DataFreshnessChip_def Let_def)

section \<open>The rail\<close>

text \<open>
  Each section of the rail counts and lists exactly the live entries: sessions at work or waiting for input, runs that are
  running, features in progress and grinders in progress; a collapsed section hides its rows but keeps the count.
\<close>
theorem rail_sections_exact:
  assumes "r = ActivityRail open' (Some ss) (Some as) (Some fs) (Some gs) projects"
  shows "rs_count (rl_sessions r) = length (filter (\<lambda>s. s_status s \<in> {SWorking, SNeedsInput}) ss) \<and>
         rs_count (rl_plans r) = length (filter (\<lambda>a. as_status a = ASRunning) as) \<and>
         rs_count (rl_features r) = length (filter (\<lambda>f. f_status f \<in> {FActive, FWaiting}) fs) \<and>
         rs_count (rl_grinders r) = length (filter (\<lambda>g. gr_status g = Some GpInProgress) gs) \<and>
         (\<forall>sec \<in> {rl_sessions r, rl_plans r, rl_features r, rl_grinders r}.
            (case rs_rows sec of Some rows \<Rightarrow> rs_expanded sec \<and> length rows = rs_count sec \<and> rows \<noteq> []
             | None \<Rightarrow> \<not> rs_expanded sec \<or> rs_count sec = 0))"
proof -
  have "isAutopilotActive (autopilot_status_text st) \<longleftrightarrow> st = ASRunning" for st
    by (cases st) (simp_all add: isAutopilotActive_def)
  then show ?thesis by (simp add: assms ActivityRail_def RailSection_def)
qed

section \<open>Witnesses\<close>

definition demo_shell_plan :: plan where
  "demo_shell_plan =
     \<lparr>pl_schema_version = Some ''2.0.0'', pl_name = ''ui'', pl_phases = [mk_phase ''p'' ''P'' [mk_task ''a'' ''A'' TDone, mk_task ''b'' ''B'' TWip]],
      pl_test_targets = None, pl_deferred = None, pl_rest = JNull\<rparr>"

definition demo_project :: "string \<Rightarrow> string \<Rightarrow> project_summary" where
  "demo_project name dir =
     \<lparr>ps_project = name, ps_path = ''/r/app'', ps_phases = 1, ps_progress = 50, ps_has_plan = True,
      ps_lifecycle = Some ''inprogress'', ps_plan_dir = Some dir, ps_schema_version = None,
      ps_active_session_count = None, ps_last_activity = None\<rparr>"

definition demo_projects :: "project_summary list" where
  "demo_projects = [demo_project ''ui'' ''/r/app/docs/INPROGRESS_Plan_ui'', demo_project ''api'' ''/r/app/docs/INPROGRESS_Plan_api'']"

definition demo_reply :: "string \<Rightarrow> plan option \<times> bool" where
  "demo_reply d = (Some demo_shell_plan, False)"

definition demo_pane :: "bool \<Rightarrow> string \<Rightarrow> subview_pane" where
  "demo_pane t i = ProjectSubviewTab (Some demo_projects) False demo_reply None (\<lambda>_. None) t i ''pipeline''"

lemma demo_find: "find_project (Some demo_projects) ''ui'' = Some (hd demo_projects)"
  by (simp add: find_project_def demo_projects_def demo_project_def)

lemma demo_pane_eq:
  "demo_pane t ''ui'' = ShowPipeline (ProjectHeader ''Pipeline'' demo_shell_plan (hd demo_projects) t)
     \<lparr>px_plan = demo_shell_plan, px_sessions = [], px_projectPath = None, px_planDir = None\<rparr>"
proof -
  have "usePlan demo_reply (Some (project_dir (hd demo_projects))) = (Some demo_shell_plan, False)"
    by (simp add: usePlan_def truthy_def demo_reply_def project_dir_def demo_projects_def demo_project_def)
  then show ?thesis by (simp add: demo_pane_def ProjectSubviewTab_def demo_find projectSessions_def)
qed

lemma demo_panel: "\<exists>row warning. ProjectPanel demo_reply ss (hd demo_projects) = PanelRow row warning
     \<lparr>px_plan = demo_shell_plan, px_sessions = (case ss of Some ss \<Rightarrow> ss | None \<Rightarrow> []),
      px_projectPath = Some ''/r/app'', px_planDir = Some ''/r/app/docs/INPROGRESS_Plan_ui''\<rparr>"
  by (simp add: ProjectPanel_def usePlan_def truthy_def demo_reply_def project_dir_def demo_projects_def demo_project_def)

lemma demo_open: "classifyPlan (hd demo_projects) = LcOpen"
  by (simp add: classifyPlan_def demo_projects_def demo_project_def)

definition demo_clicks :: "shell_target list" where
  "demo_clicks = [ClickView ''plan'', ClickSubview (hd demo_projects) ''Vision'', ClickClose ''overview'']"

lemma shell_never_blank_witness:
  "clickable (ts_mount None None None) demo_clicks \<and>
   shell_content (ts_active (fold shell_click demo_clicks (ts_mount None None None))) \<noteq> ContentBlank"
proof -
  have c: "clickable (ts_mount None None None) demo_clicks"
    by (simp add: demo_clicks_def view_options_def project_subview_keys_def)
  from shell_never_blank [OF this] c show ?thesis by blast
qed

lemma subview_shows_first_namesake_witness:
  "find_project (Some demo_projects) ''api'' = Some (demo_projects ! 1)"
  using subview_shows_first_namesake [of demo_projects "[hd demo_projects]" "demo_projects ! 1" "[]" _ "''Vision''" "ts_mount None None None" "''vision''"]
  by (simp add: demo_projects_def demo_project_def project_subview_keys_def)

definition demo_run :: autopilot_session where
  "demo_run = (PlanUtils.demo_session [])\<lparr>as_project := Some ''app''\<rparr>"

lemma rail_row_opens_nothing_witness:
  "\<exists>a \<in> {demo_run}. as_project a = Some ''app'' \<and>
     demo_pane True ''app'' = PlanNotFound ''app''"
proof -
  let ?rail = "ActivityRail (\<lambda>_. True) None (Some [demo_run]) None None (Some demo_projects)"
  have rows: "rs_rows (rl_plans ?rail) = Some [plan_rail_row demo_run]"
    by (simp add: ActivityRail_def RailSection_def demo_run_def PlanUtils.demo_session_def isAutopilotActive_def)
  have none: "\<forall>a \<in> set [demo_run]. \<exists>repo. as_project a = Some repo \<and> repo \<noteq> '''' \<and> find_project (Some demo_projects) repo = None"
    by (simp add: demo_run_def find_project_def demo_projects_def demo_project_def)
  have click: "rr_click (plan_rail_row demo_run) = Some (SelectPlan (Some ''app''))"
    by (simp add: plan_rail_row_def RailRow_def demo_run_def)
  have "plan_rail_row demo_run \<in> set (the (rs_rows (rl_plans ?rail)))" "rs_rows (rl_plans ?rail) \<noteq> None" by (simp_all add: rows)
  from rail_row_opens_nothing [OF this none click refl,
      where plan_reply = demo_reply and ss = None and results = "\<lambda>_. None" and t = True and s = "ts_mount None None None"]
  show ?thesis unfolding demo_pane_def by (auto simp: demo_run_def)
qed

lemma page_and_row_agree_witness:
  "\<exists>v h row warning props. pane_header (demo_pane True ''ui'') = Some (v, h) \<and>
     ProjectPanel demo_reply None (hd demo_projects) = PanelRow row warning props \<and>
     hd_controls h = hd_controls row \<and> hd_terminal h = hd_controls h \<and> hd_controls h \<noteq> None"
proof -
  obtain v h where h: "pane_header (demo_pane True ''ui'') = Some (v, h)" by (simp add: demo_pane_eq)
  obtain row warning props where row: "ProjectPanel demo_reply None (hd demo_projects) = PanelRow row warning props"
    using demo_panel by blast
  note agree = page_and_row_agree [OF h [unfolded demo_pane_def] demo_find row]
  from agree have "(hd_controls h = None) = (classifyPlan (hd demo_projects) = LcDone)" by blast
  then have "hd_controls h \<noteq> None" unfolding demo_open by simp
  moreover from agree have "hd_terminal h = hd_controls h" by simp
  moreover from agree have "hd_controls h = hd_controls row" by blast
  ultimately show ?thesis using h row by blast
qed

lemma detached_terminal_stays_closed_witness:
  "\<forall>h1. pane_header (demo_pane False ''ui'') = Some (''pipeline'', h1) \<longrightarrow> hd_terminal h1 = None \<and> hd_controls h1 \<noteq> None"
proof -
  obtain h where h: "pane_header (demo_pane True ''ui'') = Some (''pipeline'', h)" "hd_controls h \<noteq> None"
    using demo_open by (simp add: demo_pane_eq ProjectHeader_def Let_def)
  from detached_terminal_stays_closed [OF h(1) [unfolded demo_pane_def] refl h(2) refl, of None] h(2)
  show ?thesis unfolding demo_pane_def by (metis snd_conv option.sel)
qed

lemma pipeline_page_has_no_documents_witness:
  "\<exists>h props. demo_pane True ''ui'' = ShowPipeline h props \<and> plan_artifacts_key (px_planDir props) (Some ''b'') = None"
proof -
  obtain h props where p: "demo_pane True ''ui'' = ShowPipeline h props" by (simp add: demo_pane_eq)
  obtain row warning props' where row: "ProjectPanel demo_reply None (hd demo_projects) = PanelRow row warning props'"
    using demo_panel by blast
  from pipeline_page_has_no_documents [OF p [unfolded demo_pane_def] demo_find row, of "''b''"] p show ?thesis by auto
qed

lemma project_sessions_exact_witness:
  "demo_report ''a'' ''main'' ''1'' SWorking\<lparr>s_cwd := ''/r/app-old/x''\<rparr> \<in>
     set (projectSessions (hd demo_projects) (Some [demo_report ''a'' ''main'' ''1'' SWorking\<lparr>s_cwd := ''/r/app-old/x''\<rparr>]))"
  using project_sessions_exact [of "hd demo_projects" "demo_report ''a'' ''main'' ''1'' SWorking\<lparr>s_cwd := ''/r/app-old/x''\<rparr>"
      "[demo_report ''a'' ''main'' ''1'' SWorking\<lparr>s_cwd := ''/r/app-old/x''\<rparr>]"]
  by (simp add: demo_projects_def demo_project_def)


lemma quiet_fleet_reads_stale_witness:
  "fst (DataFreshnessChip 61000 (fold fresh_step [PollAnswer 3000 ''x'', PollAnswer 60000 ''x''] (fresh_step (PollAnswer 1000 ''x'') (fresh_mount 0 None)))) =
     ''stale '' @ mdot @ '' '' @ ''1m ago''"
proof -
  have "useRelativeTimer 61000 (Some 1000) = ''1m ago''"
  proof -
    have "string_of_nat 1 = ''1''" by (simp add: string_of_nat.simps char_of_eq_iff)
    then show ?thesis by (simp add: useRelativeTimer_def string_of_int_def)
  qed
  with quiet_fleet_reads_stale [OF refl, of "fresh_mount 0 None" "''x''" "[PollAnswer 3000 ''x'', PollAnswer 60000 ''x'']" 1000 61000]
  show ?thesis by (simp add: fresh_mount_def)
qed

lemma rail_sections_exact_witness:
  "rs_count (rl_plans (ActivityRail (\<lambda>_. False) (Some []) (Some [demo_run]) (Some []) (Some []) None)) = 1"
  using rail_sections_exact [OF refl, of "\<lambda>_. False" "[]" "[demo_run]" "[]" "[]" None]
  by (simp add: demo_run_def PlanUtils.demo_session_def)

end
