(* ===== verification/LiveViews.thy ===== *)
theory LiveViews
  imports StreamView LogPolling StreamPolling PathUtils
begin

text \<open>
  The live views of a run: the text log with its screen-reader announcements (\<open>components/autopilot/LogViewer.tsx\<close>),
  the rows, filters and scrolling of the event stream and the strip of recent activity under it
  (\<open>components/autopilot/StreamViewer.tsx\<close>), and the hook that polls that activity (\<open>hooks/useSessionActivity.ts\<close>).

  Heights are in pixels. The height of the rendered content is given with every event that changes the content, since
  the browser computes it; assigning to \<open>scrollTop\<close> is cut to the range the browser allows.
\<close>

section \<open>Scrolling\<close>

text \<open>Both viewers follow the end of their content until the reader scrolls away from it.\<close>

record scroller =
  sc_top :: int
  sc_client :: int
  sc_height :: int
  sc_auto :: bool

definition scroll_threshold :: int where "scroll_threshold = 50"

definition scroll_to :: "int \<Rightarrow> scroller \<Rightarrow> scroller" where
  "scroll_to y s = s\<lparr>sc_top := max 0 (min y (sc_height s - sc_client s))\<rparr>"

definition at_bottom :: "scroller \<Rightarrow> bool" where
  "at_bottom s \<longleftrightarrow> sc_top s + sc_client s \<ge> sc_height s - scroll_threshold"

definition handleScroll :: "scroller \<Rightarrow> scroller" where
  "handleScroll s = s\<lparr>sc_auto := at_bottom s\<rparr>"

definition jumpToBottom :: "scroller \<Rightarrow> scroller" where
  "jumpToBottom s = (scroll_to (sc_height s) s)\<lparr>sc_auto := True\<rparr>"

definition follow_effect :: "scroller \<Rightarrow> scroller" where
  "follow_effect s = (if sc_auto s then scroll_to (sc_height s) s else s)"

text \<open>
  What happens to the box: its content is rendered anew and the effect runs, its content grows or shrinks by itself,
  it leaves the page, the reader scrolls, or the reader clicks the button, which is there while the box does not
  follow. The effect also runs when following was switched on or off.
\<close>

datatype scroll_event = ScContent int | ScGrow int | ScGone | ScUser int | ScJump

definition on_flag :: "scroller \<Rightarrow> scroller \<Rightarrow> scroller" where
  "on_flag before s = (if sc_auto s \<noteq> sc_auto before then follow_effect s else s)"

fun scroll_step :: "scroll_event \<Rightarrow> scroller \<Rightarrow> scroller" where
  "scroll_step (ScContent h) s = follow_effect (scroll_to (sc_top s) (s\<lparr>sc_height := h\<rparr>))"
| "scroll_step (ScGrow h) s = scroll_to (sc_top s) (s\<lparr>sc_height := h\<rparr>)"
| "scroll_step ScGone s = s\<lparr>sc_top := 0, sc_height := 0\<rparr>"
| "scroll_step (ScUser y) s = on_flag s (handleScroll (scroll_to y s))"
| "scroll_step ScJump s = (if sc_auto s then s else on_flag s (jumpToBottom s))"

definition scroll_init :: "int \<Rightarrow> scroller" where
  "scroll_init client = \<lparr>sc_top = 0, sc_client = client, sc_height = 0, sc_auto = True\<rparr>"

definition scroll_run :: "int \<Rightarrow> scroll_event list \<Rightarrow> scroller" where
  "scroll_run client evs = fold scroll_step evs (scroll_init client)"

section \<open>The text log\<close>

definition rule_glyphs :: string where
  "rule_glyphs = concat (replicate 3 [CHR 0xE2, CHR 0x94, CHR 0x81])"

definition phase_mark :: string where "phase_mark = rule_glyphs @ '' Phase:''"

definition check_glyph :: string where "check_glyph = [CHR 0xE2, CHR 0x9C, CHR 0x93]"
definition warn_glyph :: string where "warn_glyph = [CHR 0xE2, CHR 0x9A, CHR 0xA0]"

datatype line_style = StyPhase | StyDone | StyBlocked

definition getLineStyle :: "string \<Rightarrow> line_style option" where
  "getLineStyle line =
     (if str_includes line phase_mark then Some StyPhase
      else if starts_with line check_glyph then Some StyDone
      else if starts_with line warn_glyph then Some StyBlocked
      else None)"

text \<open>
  The pattern \<open>Phase: (.+?)\<close> followed by a blank and the rule: the shortest group after the first occurrence that has one. A
  dot matches no line terminator.
\<close>

definition line_terminator :: "string \<Rightarrow> bool" where
  "line_terminator s \<longleftrightarrow>
     starts_with s [CHR 0x0A] \<or> starts_with s [CHR 0x0D] \<or>
     starts_with s [CHR 0xE2, CHR 0x80, CHR 0xA8] \<or> starts_with s [CHR 0xE2, CHR 0x80, CHR 0xA9]"

fun lazy_group :: "string \<Rightarrow> string \<Rightarrow> string option" where
  "lazy_group stop [] = None"
| "lazy_group stop (c # s) =
     (if line_terminator (c # s) then None
      else if starts_with s stop then Some [c]
      else map_option ((#) c) (lazy_group stop s))"

fun phase_match :: "string \<Rightarrow> string option" where
  "phase_match [] = None"
| "phase_match (c # s) =
     (case (if starts_with (c # s) ''Phase: '' then lazy_group ('' '' @ rule_glyphs) (drop 6 s) else None) of
        Some n \<Rightarrow> Some n
      | None \<Rightarrow> phase_match s)"

definition extractAnnouncement :: "string list \<Rightarrow> string option" where
  "extractAnnouncement lines =
     (if lines = [] then None
      else (let l = last lines
            in if str_includes l phase_mark then map_option (\<lambda>n. ''Phase '' @ n @ '' started'') (phase_match l)
               else if str_includes l ''AUTOPILOT COMPLETE'' then Some ''Autopilot completed''
               else if str_includes l ''AUTOPILOT FAILED'' then Some ''Autopilot failed''
               else None))"

record log_viewer =
  lv_lines :: "(nat \<times> string) list"
  lv_scroll :: scroller
  lv_said :: string

definition announce :: "log_viewer \<Rightarrow> log_viewer" where
  "announce v = (case extractAnnouncement (map snd (lv_lines v)) of Some a \<Rightarrow> if a \<noteq> '''' then v\<lparr>lv_said := a\<rparr> else v | None \<Rightarrow> v)"

text \<open>A reply of the log hook is a new list of lines; scrolling leaves the lines as they are.\<close>

datatype log_view_event = LvLines "(nat \<times> string) list" int | LvScroll int | LvJump

fun log_view_step :: "log_view_event \<Rightarrow> log_viewer \<Rightarrow> log_viewer" where
  "log_view_step (LvLines ls h) v = announce (v\<lparr>lv_lines := ls, lv_scroll := scroll_step (ScContent h) (lv_scroll v)\<rparr>)"
| "log_view_step (LvScroll y) v = v\<lparr>lv_scroll := scroll_step (ScUser y) (lv_scroll v)\<rparr>"
| "log_view_step LvJump v = v\<lparr>lv_scroll := scroll_step ScJump (lv_scroll v)\<rparr>"

definition log_view_run :: "int \<Rightarrow> log_view_event list \<Rightarrow> log_viewer" where
  "log_view_run client evs = fold log_view_step evs \<lparr>lv_lines = [], lv_scroll = scroll_init client, lv_said = ''''\<rparr>"

record log_page =
  lp_label :: string
  lp_rows :: "(string \<times> line_style option) list"
  lp_jump :: bool
  lp_status :: string

definition LogViewer :: "string \<Rightarrow> log_viewer \<Rightarrow> log_page" where
  "LogViewer task v =
     \<lparr>lp_label = ''Live log output for '' @ task,
      lp_rows = map (\<lambda>(i, t). (t @ [CHR 0x0A], getLineStyle t)) (lv_lines v),
      lp_jump = (\<not> sc_auto (lv_scroll v)), lp_status = lv_said v\<rparr>"

section \<open>Recent activity\<close>

text \<open>
  The hook keeps a request per tick on the wire; a change of the task or of the flag cancels them. \<open>ah_source\<close> records
  the address whose answer is on show. Mounting is the first rendering, from \<open>activity_init\<close>.
\<close>

record activity_hook =
  ah_task :: "string option"
  ah_enabled :: bool
  ah_run :: nat
  ah_wire :: "(nat \<times> string) list"
  ah_events :: "tool_activity list"
  ah_active :: bool
  ah_source :: "string option"

definition activity_init :: activity_hook where
  "activity_init =
     \<lparr>ah_task = None, ah_enabled = False, ah_run = 0, ah_wire = [], ah_events = [], ah_active = False, ah_source = None\<rparr>"

definition activity_poll :: "activity_hook \<Rightarrow> activity_hook" where
  "activity_poll s =
     (if activity_polls (ah_task s) (ah_enabled s)
      then s\<lparr>ah_wire := ah_wire s @ [(ah_run s, activity_url (the (ah_task s)))]\<rparr> else s)"

definition activity_reset_effect :: "string option \<Rightarrow> activity_hook \<Rightarrow> activity_hook" where
  "activity_reset_effect t s = (if t \<noteq> ah_task s then s\<lparr>ah_events := [], ah_active := False, ah_source := None\<rparr> else s)"

definition activity_poll_effect :: "string option \<Rightarrow> bool \<Rightarrow> activity_hook \<Rightarrow> activity_hook" where
  "activity_poll_effect t en s =
     (let s1 = s\<lparr>ah_task := t, ah_enabled := en, ah_run := Suc (ah_run s)\<rparr>
      in if activity_polls t en then activity_poll s1 else s1\<lparr>ah_active := False\<rparr>)"

definition activity_render :: "string option \<Rightarrow> bool \<Rightarrow> activity_hook \<Rightarrow> activity_hook" where
  "activity_render t en s =
     (if t = ah_task s \<and> en = ah_enabled s then s else activity_poll_effect t en (activity_reset_effect t s))"

datatype activity_reply = ActFailed | ActData "tool_activity list option"

definition activity_apply :: "(string \<Rightarrow> int option) \<Rightarrow> int \<Rightarrow> string \<Rightarrow> activity_reply \<Rightarrow> activity_hook \<Rightarrow> activity_hook" where
  "activity_apply parse_date now url r s =
     (case r of
        ActFailed \<Rightarrow> s
      | ActData d \<Rightarrow>
          (let newEvents = (case d of Some es \<Rightarrow> es | None \<Rightarrow> [])
           in s\<lparr>ah_events := newEvents, ah_active := activity_active parse_date now newEvents, ah_source := Some url\<rparr>))"

definition activity_answer :: "(string \<Rightarrow> int option) \<Rightarrow> int \<Rightarrow> nat \<Rightarrow> activity_reply \<Rightarrow> activity_hook \<Rightarrow> activity_hook" where
  "activity_answer parse_date now n r s =
     (if n \<ge> length (ah_wire s) then s
      else (let s1 = s\<lparr>ah_wire := take n (ah_wire s) @ drop (Suc n) (ah_wire s)\<rparr>
            in if fst (ah_wire s ! n) \<noteq> ah_run s then s1 else activity_apply parse_date now (snd (ah_wire s ! n)) r s1))"

datatype activity_event = AhRender "string option" bool | AhTick | AhAnswer int nat activity_reply

fun activity_step :: "(string \<Rightarrow> int option) \<Rightarrow> activity_event \<Rightarrow> activity_hook \<Rightarrow> activity_hook" where
  "activity_step parse_date (AhRender t en) s = activity_render t en s"
| "activity_step parse_date AhTick s = activity_poll s"
| "activity_step parse_date (AhAnswer now n r) s = activity_answer parse_date now n r s"

definition activity_run :: "(string \<Rightarrow> int option) \<Rightarrow> activity_event list \<Rightarrow> activity_hook" where
  "activity_run parse_date evs = fold (activity_step parse_date) evs activity_init"

text \<open>The strip: the newest eight entries, with their age and opacity. An unreadable time gives an age that is no number.\<close>

definition activity_age :: "(string \<Rightarrow> int option) \<Rightarrow> int \<Rightarrow> string option \<Rightarrow> string" where
  "activity_age parse_date now ts =
     (if truthy ts
      then (case parse_date (the ts) of Some t \<Rightarrow> formatAge (Some ((now - t) div 1000)) | None \<Rightarrow> ''NaNm'')
      else formatAge None)"

record activity_line =
  al_tool :: string
  al_summary :: string
  al_age :: string
  al_opacity :: rat

definition ActivityStrip ::
    "(string \<Rightarrow> int option) \<Rightarrow> int \<Rightarrow> tool_activity list \<Rightarrow> bool \<Rightarrow> (bool \<times> activity_line list) option" where
  "ActivityStrip parse_date now events isActive =
     (if length events = 0 then None
      else Some (isActive, map (\<lambda>(i, e).
        \<lparr>al_tool = ta_tool e, al_summary = ta_summary e, al_age = activity_age parse_date now (ta_ts e),
         al_opacity = (if i = 0 then 9 / 10 else max (1 / 4) (9 / 10 - of_nat i * (1 / 10)))\<rparr>) (enumerate 0 (take 8 events))))"

section \<open>Rows of the stream\<close>

record phase_head =
  pm_name :: string
  pm_pulse :: bool
  pm_duration :: "string option"
  pm_pill :: "wf_phase_status \<times> string"

definition PhaseMarker :: "stream_event \<Rightarrow> phase_head" where
  "PhaseMarker e =
     (let wfStatus = phaseStatusToWf (e_status e)
      in \<lparr>pm_name = (case e_phase e of Some p \<Rightarrow> p | None \<Rightarrow> ''''), pm_pulse = (wfStatus = WpsRunning),
          pm_duration = map_option formatDuration (e_duration_s e),
          pm_pill = (wfStatus, case e_status e of Some s \<Rightarrow> s | None \<Rightarrow> ''running'')\<rparr>)"

record result_summary =
  rs_success :: bool
  rs_texts :: "string list"

definition ResultSummary :: "stream_event \<Rightarrow> result_summary" where
  "ResultSummary e =
     \<lparr>rs_success = (e_subtype e = Some ''success''),
      rs_texts =
        (case e_num_turns e of Some n \<Rightarrow> [string_of_int n @ '' turns''] | None \<Rightarrow> [])
        @ (case result_duration_min (e_duration_ms e) of Some d \<Rightarrow> [mdot @ '' '' @ d @ ''m''] | None \<Rightarrow> [])
        @ (case e_total_cost_usd e of Some c \<Rightarrow> [mdot @ '' $'' @ to_fixed 2 c] | None \<Rightarrow> [])\<rparr>"

text \<open>\<open>JSON.stringify(v, null, 2)\<close>.\<close>

definition json_newline :: "nat \<Rightarrow> string" where
  "json_newline d = CHR 0x0A # replicate (2 * d) (CHR '' '')"

fun pretty :: "nat \<Rightarrow> json \<Rightarrow> string"
  and pretty_elems :: "nat \<Rightarrow> json list \<Rightarrow> string"
  and pretty_members :: "nat \<Rightarrow> (string \<times> json) list \<Rightarrow> string" where
  "pretty d JNull = ''null''"
| "pretty d (JBool b) = (if b then ''true'' else ''false'')"
| "pretty d (JNum r) = string_of_rat r"
| "pretty d (JStr s) = quote_str s"
| "pretty d (JArr vs) = (if vs = [] then ''[]'' else ''['' @ pretty_elems (Suc d) vs @ json_newline d @ '']'')"
| "pretty d (JObj ms) = (if ms = [] then ''{}'' else ''{'' @ pretty_members (Suc d) ms @ json_newline d @ ''}'')"
| "pretty_elems d [] = []"
| "pretty_elems d [v] = json_newline d @ pretty d v"
| "pretty_elems d (v # w # vs) = json_newline d @ pretty d v @ '','' @ pretty_elems d (w # vs)"
| "pretty_members d [] = []"
| "pretty_members d [(k, v)] = json_newline d @ quote_str k @ '': '' @ pretty d v"
| "pretty_members d ((k, v) # m # ms) = json_newline d @ quote_str k @ '': '' @ pretty d v @ '','' @ pretty_members d (m # ms)"
record tool_call =
  tc_chip :: string
  tc_text :: "string option"
  tc_input :: string

definition ToolCallBlock :: "stream_content_block \<Rightarrow> tool_call" where
  "ToolCallBlock b =
     (let description = getToolCallDescription (b_input b)
      in \<lparr>tc_chip = (case b_name b of Some n \<Rightarrow> n | None \<Rightarrow> ''tool''),
          tc_text = (if truthy description then description else None),
          tc_input = (case b_input b of Some v \<Rightarrow> pretty 0 v | None \<Rightarrow> '''')\<rparr>)"

record tool_output =
  to_caption :: string
  to_open :: bool
  to_text :: string
  to_scrolls :: bool

definition ToolResultBlock :: "bool \<Rightarrow> stream_content_block \<Rightarrow> tool_output" where
  "ToolResultBlock expanded b =
     (let content = formatToolResultContent (b_content b);
          n = length (split_on (CHR 0x0A) content);
          needsTruncation = (n > tool_result_preview_lines)
      in \<lparr>to_caption = ''output '' @ mdot @ '' '' @ string_of_nat n @ '' lines''
            @ (if needsTruncation \<and> \<not> expanded then '' (truncated)'' else ''''),
          to_open = expanded, to_text = tool_result_display expanded content, to_scrolls = expanded\<rparr>)"

datatype stream_row =
    SrPhase phase_head
  | SrResult result_summary
  | SrPipeline string
  | SrText string
  | SrCall tool_call
  | SrOutput "nat \<times> nat" tool_output

text \<open>
  A block is known by the number of its event and its place in it; an output remembers whether it was opened. A text is
  turned from Markdown into markup by the library.
\<close>

definition StreamEventRenderer :: "(nat \<times> nat) list \<Rightarrow> nat keyed \<Rightarrow> stream_row list" where
  "StreamEventRenderer opened = (\<lambda>(seq, e).
     (if e_type e = EPhase then [SrPhase (PhaseMarker e)]
      else if e_type e = EResult then [SrResult (ResultSummary e)]
      else if e_type e = EOrchestrator then (if truthy (e_msg e) then [SrPipeline (the (e_msg e))] else [])
      else if e_type e = EAssistant then
        (case e_message e of None \<Rightarrow> []
         | Some bs \<Rightarrow> concat (map (\<lambda>b.
             if b_type b = BThinking then []
             else if b_type b = BText \<and> truthy (b_text b) then [SrText (the (b_text b))]
             else if b_type b = BToolUse then [SrCall (ToolCallBlock b)]
             else []) bs))
      else if e_type e = EUser then
        (case e_message e of None \<Rightarrow> []
         | Some bs \<Rightarrow> concat (map (\<lambda>(bi, b).
             if b_type b = BToolResult then [SrOutput (seq, bi) (ToolResultBlock ((seq, bi) \<in> set opened) b)] else [])
             (enumerate 0 bs)))
      else []))"

section \<open>The stream viewer\<close>

record stream_viewer =
  sv_events :: "nat keyed list"
  sv_has :: "bool option"
  sv_hidden :: "event_filter list"
  sv_open :: "(nat \<times> nat) list"
  sv_scroll :: scroller

definition stream_rows :: "stream_viewer \<Rightarrow> stream_row list" where
  "stream_rows v = concat (map (StreamEventRenderer (sv_open v)) (filteredEvents (sv_hidden v) (sv_events v)))"

definition output_keys :: "stream_row list \<Rightarrow> (nat \<times> nat) list" where
  "output_keys rows = List.map_filter (\<lambda>r. case r of SrOutput k t \<Rightarrow> Some k | _ \<Rightarrow> None) rows"

text \<open>An output that is no longer on the page is unmounted and forgets that it was opened.\<close>

definition drop_unmounted :: "stream_viewer \<Rightarrow> stream_viewer" where
  "drop_unmounted v =
     v\<lparr>sv_open := filter (\<lambda>k. sv_has v \<noteq> Some False \<and> k \<in> set (output_keys (stream_rows v))) (sv_open v)\<rparr>"

datatype stream_view_event =
    SvEvents "nat keyed list" "bool option" int
  | SvFilter event_filter int
  | SvOpen "nat \<times> nat" int
  | SvScroll int
  | SvJump

text \<open>
  New events and a click on a chip change the filtered list and run the effect. Opening an output only makes the content
  higher. While there is no stream there is no box.
\<close>

fun stream_view_step :: "stream_view_event \<Rightarrow> stream_viewer \<Rightarrow> stream_viewer" where
  "stream_view_step (SvEvents es has h) v =
     drop_unmounted (v\<lparr>sv_events := es, sv_has := has,
       sv_scroll := scroll_step (if has = Some False then ScGone else ScContent h) (sv_scroll v)\<rparr>)"
| "stream_view_step (SvFilter f h) v =
     (if sv_has v = Some False then v
      else drop_unmounted (v\<lparr>sv_hidden := toggleFilter f (sv_hidden v), sv_scroll := scroll_step (ScContent h) (sv_scroll v)\<rparr>))"
| "stream_view_step (SvOpen k h) v =
     (if sv_has v = Some False \<or> k \<notin> set (output_keys (stream_rows v)) then v
      else v\<lparr>sv_open := oset_toggle k (sv_open v), sv_scroll := scroll_step (ScGrow h) (sv_scroll v)\<rparr>)"
| "stream_view_step (SvScroll y) v =
     (if sv_has v = Some False then v else v\<lparr>sv_scroll := scroll_step (ScUser y) (sv_scroll v)\<rparr>)"
| "stream_view_step SvJump v =
     (if sv_has v = Some False then v else v\<lparr>sv_scroll := scroll_step ScJump (sv_scroll v)\<rparr>)"

definition stream_view_init :: "int \<Rightarrow> stream_viewer" where
  "stream_view_init client =
     \<lparr>sv_events = [], sv_has = None, sv_hidden = hidden_init, sv_open = [], sv_scroll = scroll_init client\<rparr>"

definition stream_view_run :: "int \<Rightarrow> stream_view_event list \<Rightarrow> stream_viewer" where
  "stream_view_run client evs = fold stream_view_step evs (stream_view_init client)"

datatype stream_page = NoStreamData | StreamPage string "(string \<times> bool) list" "stream_row list" bool

definition StreamViewer :: "string option \<Rightarrow> stream_viewer \<Rightarrow> stream_page" where
  "StreamViewer label v =
     (if sv_has v = Some False then NoStreamData
      else StreamPage (if truthy label then ''Live stream output for '' @ the label else ''Live stream output'')
        (map (\<lambda>f. (filter_label f, f \<notin> set (sv_hidden v))) filter_order)
        (stream_rows v) (\<not> sc_auto (sv_scroll v)))"

text \<open>The viewer of a run: the stream, and under it the recent activity, polled while the stream is quiet.\<close>

definition AutopilotStreamViewer ::
    "(string \<Rightarrow> int option) \<Rightarrow> int \<Rightarrow> string \<Rightarrow> stream_viewer \<Rightarrow> activity_hook \<Rightarrow>
     stream_page \<times> (bool \<times> activity_line list) option" where
  "AutopilotStreamViewer parse_date now task v a =
     (StreamViewer (Some task) v, ActivityStrip parse_date now (ah_events a) (ah_active a))"
section \<open>Following the end\<close>

definition scroll_ok :: "scroller \<Rightarrow> bool" where
  "scroll_ok s \<longleftrightarrow> 0 \<le> sc_client s \<and> 0 \<le> sc_top s \<and> sc_top s \<le> max 0 (sc_height s - sc_client s)"

lemma scroll_to_fields [simp]:
  "sc_client (scroll_to y s) = sc_client s" "sc_height (scroll_to y s) = sc_height s" "sc_auto (scroll_to y s) = sc_auto s"
  "sc_top (scroll_to y s) = max 0 (min y (sc_height s - sc_client s))"
  by (simp_all add: scroll_to_def)

lemma follow_fields [simp]:
  "sc_client (follow_effect s) = sc_client s" "sc_height (follow_effect s) = sc_height s" "sc_auto (follow_effect s) = sc_auto s"
  by (simp_all add: follow_effect_def)

lemma scroll_client [simp]: "sc_client (scroll_step e s) = sc_client s"
  by (cases e) (simp_all add: on_flag_def handleScroll_def jumpToBottom_def)

lemma scroll_ok_step: "scroll_ok s \<Longrightarrow> scroll_ok (scroll_step e s)"
  by (cases e) (auto simp: scroll_ok_def follow_effect_def on_flag_def handleScroll_def jumpToBottom_def)

text \<open>Every step but one that only changes the height leaves a following box near its end.\<close>

lemma scroll_follows_step:
  assumes "scroll_ok s" and "sc_auto s \<longrightarrow> at_bottom s" and "\<forall>h. e \<noteq> ScGrow h"
  shows "sc_auto (scroll_step e s) \<longrightarrow> at_bottom (scroll_step e s)"
  using assms by (cases e) (auto simp: scroll_ok_def at_bottom_def scroll_threshold_def follow_effect_def on_flag_def
      handleScroll_def jumpToBottom_def)

lemma scroll_fold_client [simp]: "sc_client (fold scroll_step es b) = sc_client b"
  by (induction es arbitrary: b) simp_all

lemma scroll_ok_fold: "scroll_ok b \<Longrightarrow> scroll_ok (fold scroll_step es b)"
  by (induction es arbitrary: b) (simp_all add: scroll_ok_step)

lemma scroll_follows_fold:
  "scroll_ok b \<Longrightarrow> sc_auto b \<longrightarrow> at_bottom b \<Longrightarrow> \<forall>a \<in> set es. \<forall>h. a \<noteq> ScGrow h \<Longrightarrow>
   sc_auto (fold scroll_step es b) \<longrightarrow> at_bottom (fold scroll_step es b)"
proof (induction es arbitrary: b)
  case (Cons e es)
  then have "sc_auto (scroll_step e b) \<longrightarrow> at_bottom (scroll_step e b)" by (intro scroll_follows_step) auto
  with Cons show ?case by (simp add: scroll_ok_step)
qed simp

text \<open>
  A view with such a box in it: every step of the view acts on the box by some of its events. What holds of the box after
  any events then holds of the view.
\<close>

locale scroll_view =
  fixes step :: "'e \<Rightarrow> 's \<Rightarrow> 's" and box :: "'s \<Rightarrow> scroller" and acts :: "'e \<Rightarrow> 's \<Rightarrow> scroll_event list"
  assumes box_step: "box (step e s) = fold scroll_step (acts e s) (box s)"
begin

lemma box_run: "\<exists>es. box (fold step evs s) = fold scroll_step es (box s)"
proof (induction evs arbitrary: s)
  case Nil
  show ?case by (rule exI [of _ "[]"]) simp
next
  case (Cons e evs)
  then obtain es where "box (fold step evs (step e s)) = fold scroll_step es (box (step e s))" by blast
  then have "box (fold step (e # evs) s) = fold scroll_step (acts e s @ es) (box s)" by (simp add: box_step)
  then show ?case by blast
qed

lemma box_ok: "scroll_ok (box s) \<Longrightarrow> scroll_ok (box (fold step evs s))"
  using box_run [of evs s] scroll_ok_fold by auto

lemma box_client: "sc_client (box (fold step evs s)) = sc_client (box s)"
  using box_run [of evs s] by auto

lemma box_follows:
  assumes "\<forall>e s. \<forall>a \<in> set (acts e s). \<forall>h. a \<noteq> ScGrow h" and "scroll_ok (box s)" and "sc_auto (box s) \<longrightarrow> at_bottom (box s)"
  shows "sc_auto (box (fold step evs s)) \<longrightarrow> at_bottom (box (fold step evs s))"
proof -
  have one: "scroll_ok (box (step e t)) \<and> (sc_auto (box (step e t)) \<longrightarrow> at_bottom (box (step e t)))"
    if "scroll_ok (box t)" and "sc_auto (box t) \<longrightarrow> at_bottom (box t)" for e t
    unfolding box_step using that assms(1) by (intro conjI scroll_ok_fold scroll_follows_fold) auto
  show ?thesis using assms(2,3) by (induction evs arbitrary: s) (simp_all add: one)
qed

end

definition log_acts :: "log_view_event \<Rightarrow> log_viewer \<Rightarrow> scroll_event list" where
  "log_acts e v = [case e of LvLines ls h \<Rightarrow> ScContent h | LvScroll y \<Rightarrow> ScUser y | LvJump \<Rightarrow> ScJump]"

lemma announce_scroll [simp]: "lv_scroll (announce v) = lv_scroll v" "lv_lines (announce v) = lv_lines v"
  by (simp_all add: announce_def split: option.splits)

interpretation log_box: scroll_view log_view_step lv_scroll log_acts
proof
  show "lv_scroll (log_view_step e v) = fold scroll_step (log_acts e v) (lv_scroll v)" for e v
    by (cases e) (simp_all add: log_acts_def)
qed

fun stream_acts :: "stream_view_event \<Rightarrow> stream_viewer \<Rightarrow> scroll_event list" where
  "stream_acts (SvEvents es has h) v = [if has = Some False then ScGone else ScContent h]"
| "stream_acts (SvFilter f h) v = (if sv_has v = Some False then [] else [ScContent h])"
| "stream_acts (SvOpen k h) v = (if sv_has v = Some False \<or> k \<notin> set (output_keys (stream_rows v)) then [] else [ScGrow h])"
| "stream_acts (SvScroll y) v = (if sv_has v = Some False then [] else [ScUser y])"
| "stream_acts SvJump v = (if sv_has v = Some False then [] else [ScJump])"

lemma drop_unmounted_fields [simp]:
  "sv_scroll (drop_unmounted v) = sv_scroll v" "sv_events (drop_unmounted v) = sv_events v"
  "sv_has (drop_unmounted v) = sv_has v" "sv_hidden (drop_unmounted v) = sv_hidden v"
  by (simp_all add: drop_unmounted_def)

interpretation stream_box: scroll_view stream_view_step sv_scroll stream_acts
proof
  show "sv_scroll (stream_view_step e v) = fold scroll_step (stream_acts e v) (sv_scroll v)" for e v
    by (cases e) auto
qed

lemma scroll_init_ok: "0 \<le> client \<Longrightarrow> scroll_ok (scroll_init client)" "0 \<le> client \<Longrightarrow> at_bottom (scroll_init client)"
  by (simp_all add: scroll_init_def scroll_ok_def at_bottom_def scroll_threshold_def)

text \<open>
  C36. As long as the log follows, its end is at most the threshold below what is seen, whatever arrived and however the reader
  scrolled; new lines then show the end itself. A reader who scrolled away is left where they are, and the button, which
  is there exactly then, brings them back to the end.
\<close>
theorem log_follows_or_stays:
  assumes "0 \<le> client" and "s = log_view_run client evs"
  shows "(lp_jump (LogViewer task s) \<longleftrightarrow> \<not> sc_auto (lv_scroll s)) \<and>
    (sc_auto (lv_scroll s) \<longrightarrow> sc_height (lv_scroll s) - (sc_top (lv_scroll s) + client) \<le> 50 \<and>
       sc_top (lv_scroll (log_view_step (LvLines ls h) s)) = max 0 (h - client)) \<and>
    (\<not> sc_auto (lv_scroll s) \<longrightarrow>
       (sc_top (lv_scroll s) + client \<le> h \<longrightarrow> sc_top (lv_scroll (log_view_step (LvLines ls h) s)) = sc_top (lv_scroll s)) \<and>
       sc_auto (lv_scroll (log_view_step LvJump s)) \<and>
       sc_top (lv_scroll (log_view_step LvJump s)) = max 0 (sc_height (lv_scroll s) - client))"
proof -
  let ?b = "lv_scroll s"
  have start: "scroll_ok (scroll_init client)" "sc_auto (scroll_init client) \<longrightarrow> at_bottom (scroll_init client)"
    using scroll_init_ok assms(1) by simp_all
  have "\<forall>e v. \<forall>a \<in> set (log_acts e v). \<forall>h. a \<noteq> ScGrow h" by (auto simp: log_acts_def split: log_view_event.splits)
  with start have follows: "sc_auto ?b \<longrightarrow> at_bottom ?b"
    using log_box.box_follows [of "\<lparr>lv_lines = [], lv_scroll = scroll_init client, lv_said = ''''\<rparr>" evs]
    by (simp add: assms(2) log_view_run_def)
  have ok: "scroll_ok ?b"
    using start log_box.box_ok [of "\<lparr>lv_lines = [], lv_scroll = scroll_init client, lv_said = ''''\<rparr>" evs]
    by (simp add: assms(2) log_view_run_def)
  have client: "sc_client ?b = client"
    using log_box.box_client [of evs "\<lparr>lv_lines = [], lv_scroll = scroll_init client, lv_said = ''''\<rparr>"]
    by (simp add: assms(2) log_view_run_def scroll_init_def)
  show ?thesis
    using follows ok client
    by (auto simp: LogViewer_def scroll_ok_def at_bottom_def scroll_threshold_def follow_effect_def on_flag_def jumpToBottom_def)
qed
section \<open>Announcements\<close>

text \<open>Only the last line of a reply is looked at, and only a line that is a marker changes what is said.\<close>

lemma lines_said:
  "lv_said (log_view_step (LvLines ls h) v) = (case extractAnnouncement (map snd ls) of Some a \<Rightarrow> if a \<noteq> '''' then a else lv_said v | None \<Rightarrow> lv_said v)"
  by (simp add: announce_def split: option.splits)

lemma scroll_said [simp]: "lv_said (log_view_step (LvScroll y) v) = lv_said v" "lv_said (log_view_step LvJump v) = lv_said v"
  by simp_all

lemma announcement_of_last: "ls \<noteq> [] \<Longrightarrow> extractAnnouncement ls = extractAnnouncement [last ls]"
  by (simp add: extractAnnouncement_def)

text \<open>A name without blanks or line ends is found again in its banner.\<close>

definition plain_name :: "string \<Rightarrow> bool" where
  "plain_name n \<longleftrightarrow> n \<noteq> [] \<and> set n \<inter> {CHR '' '', CHR 0x0A, CHR 0x0D, CHR 0xE2} = {}"

definition banner :: "string \<Rightarrow> string" where
  "banner n = rule_glyphs @ '' Phase: '' @ n @ '' '' @ rule_glyphs"

lemma lazy_group_plain:
  assumes "plain_name n"
  shows "lazy_group (CHR '' '' # g) (n @ CHR '' '' # g @ r) = Some n"
  using assms
proof (induction n)
  case (Cons c n)
  then have c: "\<not> line_terminator (c # n @ CHR '' '' # g @ r)" by (auto simp: line_terminator_def plain_name_def starts_with_def)
  show ?case
  proof (cases n)
    case Nil
    with c show ?thesis by (simp add: starts_with_def)
  next
    case (Cons d m)
    with Cons.prems have "d \<noteq> CHR '' ''" "plain_name n" by (auto simp: plain_name_def)
    moreover from this Cons have "\<not> starts_with (n @ CHR '' '' # g @ r) (CHR '' '' # g)" by (simp add: starts_with_def)
    ultimately show ?thesis using c Cons.IH by simp
  qed
qed (simp add: plain_name_def)

lemma phase_match_skip: "c \<noteq> CHR ''P'' \<Longrightarrow> phase_match (c # s) = phase_match s"
  by (simp add: starts_with_def)

lemma phase_match_here: "lazy_group ('' '' @ rule_glyphs) t = Some n \<Longrightarrow> phase_match (''Phase: '' @ t) = Some n"
  by (simp add: starts_with_def eval_nat_numeral)

lemma rule_glyphs_code:
  "rule_glyphs = [CHR 0xE2, CHR 0x94, CHR 0x81, CHR 0xE2, CHR 0x94, CHR 0x81, CHR 0xE2, CHR 0x94, CHR 0x81]"
  by (simp add: rule_glyphs_def eval_nat_numeral)

lemma phase_match_banner: "plain_name n \<Longrightarrow> phase_match (banner n) = Some n"
proof -
  assume "plain_name n"
  then have "lazy_group ('' '' @ rule_glyphs) (n @ CHR '' '' # rule_glyphs) = Some n"
    using lazy_group_plain [of n rule_glyphs "[]"] by simp
  then have "phase_match (''Phase: '' @ n @ CHR '' '' # rule_glyphs) = Some n" by (rule phase_match_here)
  moreover have "phase_match (banner n) = phase_match (''Phase: '' @ n @ CHR '' '' # rule_glyphs)"
    unfolding banner_def by (subst (1) rule_glyphs_code) (simp add: phase_match_skip del: phase_match.simps)
  ultimately show ?thesis by simp
qed

text \<open>
  The banner of a phase is announced by its name if it is the last line of a reply; if any line that is no marker comes
  after it in the same reply it is never announced, and the reader of the screen keeps hearing the phase before.
\<close>
theorem phase_announced_when_last:
  assumes "plain_name n" and "extractAnnouncement [l] = None"
    and "s = log_view_step (LvLines (ls @ [(i, banner n)]) h) v"
    and "t = log_view_step (LvLines (ls @ [(i, banner n), (j, l)]) h) v"
  shows "lp_status (LogViewer task s) = ''Phase '' @ n @ '' started'' \<and> lp_status (LogViewer task t) = lp_status (LogViewer task v) \<and>
         map snd (lp_rows (LogViewer task s)) = map (getLineStyle \<circ> snd) ls @ [Some StyPhase]"
proof -
  have mark: "str_includes (banner n) phase_mark" "str_includes (banner n) (rule_glyphs @ '' Phase:'')"
    unfolding includes_infix banner_def phase_mark_def
    by (rule exI [of _ "[]"], rule exI [of _ "'' '' @ n @ '' '' @ rule_glyphs"], simp)+
  from phase_match_banner [OF assms(1)] have "extractAnnouncement [banner n] = Some (''Phase '' @ n @ '' started'')"
    by (simp add: extractAnnouncement_def mark)
  then have "lv_said s = ''Phase '' @ n @ '' started''"
    unfolding assms(3) lines_said using announcement_of_last [of "map snd (ls @ [(i, banner n)])"] by simp
  moreover have "lv_said t = lv_said v"
    unfolding assms(4) lines_said using assms(2) announcement_of_last [of "map snd (ls @ [(i, banner n), (j, l)])"] by simp
  ultimately show ?thesis
    by (simp add: assms(3) LogViewer_def getLineStyle_def mark case_prod_unfold o_def)
qed
section \<open>Activity\<close>

definition activity_ok :: "activity_hook \<Rightarrow> bool" where
  "activity_ok s \<longleftrightarrow>
     (ah_events s \<noteq> [] \<longrightarrow> (\<exists>t. ah_task s = Some t \<and> ah_source s = Some (activity_url t))) \<and>
     (ah_active s \<longrightarrow> activity_polls (ah_task s) (ah_enabled s) \<and> ah_events s \<noteq> []) \<and>
     (\<forall>w \<in> set (ah_wire s). fst w \<le> ah_run s) \<and>
     (\<forall>u. (ah_run s, u) \<in> set (ah_wire s) \<longrightarrow>
        (\<exists>t. ah_task s = Some t \<and> u = activity_url t) \<and> activity_polls (ah_task s) (ah_enabled s))"

lemma activity_ok_poll: "activity_ok s \<Longrightarrow> activity_ok (activity_poll s)"
  by (auto simp: activity_ok_def activity_poll_def activity_polls_def truthy_def split: option.splits)

lemma activity_ok_reset: "activity_ok s \<Longrightarrow> activity_ok (activity_reset_effect t s)"
  by (auto simp: activity_ok_def activity_reset_effect_def)

lemma reset_effect_task: "ah_task (activity_reset_effect t s) = ah_task s" "t \<noteq> ah_task s \<Longrightarrow> ah_events (activity_reset_effect t s) = []"
  "ah_wire (activity_reset_effect t s) = ah_wire s"
  by (simp_all add: activity_reset_effect_def)

lemma activity_ok_effect:
  assumes "activity_ok s" and "t \<noteq> ah_task s \<Longrightarrow> ah_events s = []"
  shows "activity_ok (activity_poll_effect t en s)"
proof -
  let ?s1 = "s\<lparr>ah_task := t, ah_enabled := en, ah_run := Suc (ah_run s)\<rparr>"
  have old: "\<forall>w \<in> set (ah_wire s). fst w \<le> ah_run s" using assms(1) by (simp add: activity_ok_def)
  then have fresh: "(Suc (ah_run s), u) \<notin> set (ah_wire s)" for u by fastforce
  have events: "ah_events s \<noteq> [] \<longrightarrow> (\<exists>u. t = Some u \<and> ah_source s = Some (activity_url u))"
    using assms by (auto simp: activity_ok_def)
  show ?thesis
  proof (cases "activity_polls t en")
    case True
    then have "activity_ok ?s1" using assms old fresh events by (auto simp: activity_ok_def intro: le_SucI)
    with True show ?thesis by (simp add: activity_poll_effect_def activity_ok_poll Let_def)
  next
    case False
    then show ?thesis using old fresh events by (auto simp: activity_poll_effect_def activity_ok_def Let_def intro: le_SucI)
  qed
qed

lemma activity_ok_step: "activity_ok s \<Longrightarrow> activity_ok (activity_step pd e s)"
proof (cases e)
  case (AhRender t en)
  assume "activity_ok s"
  then show ?thesis
    using AhRender by (auto simp: activity_render_def reset_effect_task intro!: activity_ok_effect activity_ok_reset)
next
  case (AhAnswer now n r)
  assume ok: "activity_ok s"
  let ?w = "take n (ah_wire s) @ drop (Suc n) (ah_wire s)"
  have sub: "set ?w \<subseteq> set (ah_wire s)" by (auto dest: in_set_takeD in_set_dropD)
  then have ok1: "activity_ok (s\<lparr>ah_wire := ?w\<rparr>)" using ok unfolding activity_ok_def by (simp del: set_append) blast
  show ?thesis
  proof (cases "n < length (ah_wire s) \<and> fst (ah_wire s ! n) = ah_run s")
    case True
    then have "(ah_run s, snd (ah_wire s ! n)) \<in> set (ah_wire s)" by (metis nth_mem prod.collapse)
    then obtain t where t: "ah_task s = Some t" "snd (ah_wire s ! n) = activity_url t" "activity_polls (Some t) (ah_enabled s)"
      using ok unfolding activity_ok_def by metis
    show ?thesis
    proof (cases r)
      case ActFailed
      with ok1 True AhAnswer show ?thesis by (simp add: activity_answer_def activity_apply_def Let_def)
    next
      case (ActData d)
      with ok1 True t AhAnswer show ?thesis
        by (auto simp: activity_answer_def activity_apply_def activity_ok_def activity_active_def Let_def split: option.splits list.splits)
    qed
  next
    case False
    with ok ok1 AhAnswer show ?thesis by (auto simp: activity_answer_def Let_def)
  qed
qed (simp add: activity_ok_poll)

lemma activity_ok_run: "activity_ok (activity_run pd evs)"
proof -
  have "activity_ok s \<Longrightarrow> activity_ok (fold (activity_step pd) evs s)" for s
    by (induction evs arbitrary: s) (simp_all add: activity_ok_step)
  moreover have "activity_ok activity_init" by (simp add: activity_ok_def activity_init_def)
  ultimately show ?thesis by (simp add: activity_run_def)
qed

text \<open>
  C37. Whatever the order of renderings, ticks and answers, the entries under the stream were reported for the task on show,
  and the light beside them is on only while the hook is asking and has an entry; switched off, the hook sends nothing.
\<close>
theorem activity_matches_task:
  assumes "s = activity_run pd evs"
  shows "(\<forall>on lines. ActivityStrip pd now (ah_events s) (ah_active s) = Some (on, lines) \<longrightarrow>
           (\<exists>t. ah_task s = Some t \<and> ah_source s = Some (activity_url t)) \<and> length lines = min 8 (length (ah_events s)) \<and>
           (on \<longrightarrow> truthy (ah_task s) \<and> ah_enabled s)) \<and>
         (\<not> activity_polls (ah_task s) (ah_enabled s) \<longrightarrow> activity_poll s = s \<and> \<not> ah_active s)"
  using activity_ok_run [of pd evs]
  by (auto simp: assms ActivityStrip_def activity_ok_def activity_polls_def activity_poll_def split: if_splits)

text \<open>Two answers that overtake each other leave the older entries on show.\<close>

lemma late_answer_overwrites:
  assumes "t \<noteq> ''''" and "old \<noteq> new"
  shows "ah_events (activity_run pd [AhRender (Some t) True, AhTick, AhAnswer now 1 (ActData (Some new)), AhAnswer now 0 (ActData (Some old))]) = old"
  using assms by (simp add: activity_run_def activity_init_def activity_render_def activity_poll_effect_def activity_reset_effect_def
      activity_poll_def activity_polls_def activity_answer_def activity_apply_def truthy_def Let_def)
section \<open>Rows on the page\<close>

lemma output_keys_simps [simp]:
  "output_keys [] = []" "output_keys (xs @ ys) = output_keys xs @ output_keys ys"
  "output_keys (r # rs) = (case r of SrOutput k t \<Rightarrow> [k] | _ \<Rightarrow> []) @ output_keys rs"
  by (simp_all add: output_keys_def List.map_filter_def split: stream_row.splits)

lemma output_keys_iff: "k \<in> set (output_keys rows) \<longleftrightarrow> (\<exists>t. SrOutput k t \<in> set rows)"
proof (induction rows)
  case (Cons r rows)
  then show ?case by (cases r) auto
qed simp

lemma render_output:
  "SrOutput k t \<in> set (StreamEventRenderer opened (seq, e)) \<longleftrightarrow>
     (\<exists>bs bi b. e_type e = EUser \<and> e_message e = Some bs \<and> (bi, b) \<in> set (enumerate 0 bs) \<and> b_type b = BToolResult \<and>
        k = (seq, bi) \<and> t = ToolResultBlock ((seq, bi) \<in> set opened) b)"
proof (cases "e_type e")
  case EUser
  then show ?thesis by (cases "e_message e") (auto simp: StreamEventRenderer_def split: if_splits)
qed (auto simp: StreamEventRenderer_def split: option.splits if_splits)

lemma output_key_of_block:
  "k \<in> set (output_keys (stream_rows v)) \<longleftrightarrow>
     (\<exists>e bs b. (fst k, e) \<in> set (filteredEvents (sv_hidden v) (sv_events v)) \<and> e_type e = EUser \<and> e_message e = Some bs \<and>
        (snd k, b) \<in> set (enumerate 0 bs) \<and> b_type b = BToolResult)"
proof -
  have "k \<in> set (output_keys (stream_rows v)) \<longleftrightarrow>
      (\<exists>seq e. (seq, e) \<in> set (filteredEvents (sv_hidden v) (sv_events v)) \<and> (\<exists>t. SrOutput k t \<in> set (StreamEventRenderer (sv_open v) (seq, e))))"
    by (auto simp: output_keys_iff stream_rows_def)
  then show ?thesis unfolding render_output by (cases k) (simp, blast)
qed

lemma output_keys_opened: "set (output_keys (stream_rows (v\<lparr>sv_open := ks\<rparr>))) = set (output_keys (stream_rows v))"
  by (simp add: set_eq_iff output_key_of_block del: split_paired_All)

lemma stream_rows_scroll [simp]: "stream_rows (v\<lparr>sv_scroll := b\<rparr>) = stream_rows v"
  by (simp add: stream_rows_def)

lemma block_open [simp]: "to_open (ToolResultBlock x b) = x" "x \<Longrightarrow> to_text (ToolResultBlock x b) = formatToolResultContent (b_content b)"
  by (simp_all add: ToolResultBlock_def tool_result_display_def Let_def)

definition outputs_ok :: "stream_viewer \<Rightarrow> bool" where
  "outputs_ok v \<longleftrightarrow> distinct (sv_open v) \<and> (if sv_has v = Some False then sv_open v = [] else set (sv_open v) \<subseteq> set (output_keys (stream_rows v)))"

lemma outputs_ok_drop: "distinct (sv_open v) \<Longrightarrow> outputs_ok (drop_unmounted v)"
proof -
  have "set (output_keys (stream_rows (drop_unmounted v))) = set (output_keys (stream_rows v))"
    by (simp add: drop_unmounted_def output_keys_opened)
  then show "distinct (sv_open v) \<Longrightarrow> outputs_ok (drop_unmounted v)" by (auto simp: outputs_ok_def drop_unmounted_def)
qed

lemma outputs_distinct: "outputs_ok v \<Longrightarrow> distinct (sv_open v)"
  by (simp add: outputs_ok_def)

lemma outputs_ok_step: "outputs_ok v \<Longrightarrow> outputs_ok (stream_view_step e v)"
proof (cases e)
  case (SvOpen k h)
  assume ok: "outputs_ok v"
  have same: "stream_rows (v\<lparr>sv_open := ks, sv_scroll := b\<rparr>) = stream_rows (v\<lparr>sv_open := ks\<rparr>)" for ks b by (simp add: stream_rows_def)
  show ?thesis
    using ok SvOpen unfolding outputs_ok_def
    by (auto simp: same output_keys_opened oset_toggle_def split: if_splits)
next
  case (SvScroll y)
  then show "outputs_ok v \<Longrightarrow> outputs_ok (stream_view_step e v)" by (simp add: outputs_ok_def)
next
  case SvJump
  then show "outputs_ok v \<Longrightarrow> outputs_ok (stream_view_step e v)" by (simp add: outputs_ok_def)
qed (simp_all add: outputs_ok_drop outputs_distinct)

lemma outputs_ok_run: "outputs_ok (stream_view_run client evs)"
proof -
  have "outputs_ok v \<Longrightarrow> outputs_ok (fold stream_view_step evs v)" for v
    by (induction evs arbitrary: v) (simp_all add: outputs_ok_step)
  moreover have "outputs_ok (stream_view_init client)" by (simp add: outputs_ok_def stream_view_init_def)
  ultimately show ?thesis by (simp add: stream_view_run_def)
qed

text \<open>
  C35. The outputs remembered as opened are exactly those open on the page, and an open one shows its whole text; what is
  filtered away is forgotten. With the tool chip off, no call and no output is on the page, but also no word of a message
  that calls a tool, although the chip of the narrative is on.
\<close>
theorem stream_page_exact:
  assumes "v = stream_view_run client evs" and "StreamViewer label v = StreamPage name chips rows jump"
  shows "set (sv_open v) = {k. \<exists>t. SrOutput k t \<in> set rows \<and> to_open t} \<and>
         (\<forall>k t. SrOutput k t \<in> set rows \<and> to_open t \<longrightarrow>
            (\<exists>e bs b. (fst k, e) \<in> set (filteredEvents (sv_hidden v) (sv_events v)) \<and> e_message e = Some bs \<and>
               (snd k, b) \<in> set (enumerate 0 bs) \<and> to_text t = formatToolResultContent (b_content b))) \<and>
         (FTool \<in> set (sv_hidden v) \<longrightarrow>
            (\<forall>c. SrCall c \<notin> set rows) \<and> (\<forall>k t. SrOutput k t \<notin> set rows) \<and>
            (\<forall>k e bs. e_type e = EAssistant \<and> e_message e = Some bs \<and> has_block BToolUse bs \<longrightarrow>
               (k, e) \<notin> set (filteredEvents (sv_hidden v) (sv_events v))))"
proof -
  have has: "sv_has v \<noteq> Some False" and rows: "rows = stream_rows v"
    using assms(2) by (auto simp: StreamViewer_def split: if_splits)
  have shown: "r \<in> set rows \<longleftrightarrow> (\<exists>seq e. (seq, e) \<in> set (filteredEvents (sv_hidden v) (sv_events v)) \<and> r \<in> set (StreamEventRenderer (sv_open v) (seq, e)))" for r
    by (auto simp: rows stream_rows_def)
  have opened: "to_open t \<longleftrightarrow> k \<in> set (sv_open v)" if "SrOutput k t \<in> set rows" for k t
    using that by (auto simp: shown render_output)
  have "set (sv_open v) \<subseteq> set (output_keys rows)"
    using outputs_ok_run [of client evs] has by (simp add: assms(1) rows outputs_ok_def)
  with opened have one: "set (sv_open v) = {k. \<exists>t. SrOutput k t \<in> set rows \<and> to_open t}"
    unfolding subset_iff output_keys_iff by blast
  have two: "\<exists>e bs b. (fst k, e) \<in> set (filteredEvents (sv_hidden v) (sv_events v)) \<and> e_message e = Some bs \<and>
      (snd k, b) \<in> set (enumerate 0 bs) \<and> to_text t = formatToolResultContent (b_content b)"
    if "SrOutput k t \<in> set rows" and "to_open t" for k t
    using that unfolding shown render_output by fastforce
  have kept: "(k, e) \<in> set (filteredEvents (sv_hidden v) (sv_events v)) \<Longrightarrow> getEventFilter e \<noteq> Some FTool" if "FTool \<in> set (sv_hidden v)" for k e
    using that by (auto simp: filteredEvents_def)
  have tool: "getEventFilter e = Some FTool" if "e_type e = EUser \<or> e_type e = EAssistant \<and> e_message e = Some bs \<and> has_block BToolUse bs" for e bs
    using that by (auto simp: getEventFilter_def)
  have "e_type e = EAssistant \<and> (\<exists>bs. e_message e = Some bs \<and> has_block BToolUse bs)"
    if "SrCall c \<in> set (StreamEventRenderer (sv_open v) (seq, e))" for c seq e
    using that by (cases "e_type e"; cases "e_message e") (auto simp: StreamEventRenderer_def has_block_def list_ex_iff split: if_splits)
  then have "\<forall>c. SrCall c \<notin> set rows" if "FTool \<in> set (sv_hidden v)" using kept [OF that] tool unfolding shown by blast
  moreover have "\<forall>k t. SrOutput k t \<notin> set rows" if "FTool \<in> set (sv_hidden v)"
    using kept [OF that] tool unfolding shown render_output by blast
  ultimately show ?thesis using one two kept tool by blast
qed
section \<open>Witnesses\<close>

lemma log_follows_or_stays_witness:
  "sc_top (lv_scroll (log_view_step (LvLines [] 900) (log_view_run 100 [LvLines [] 500, LvScroll 200]))) = 200"
proof -
  let ?s = "log_view_run 100 [LvLines [] 500, LvScroll 200]"
  have s: "sc_auto (lv_scroll ?s) = False" "sc_top (lv_scroll ?s) = 200"
    by (simp_all add: log_view_run_def scroll_init_def follow_effect_def on_flag_def handleScroll_def at_bottom_def scroll_threshold_def)
  have "(0 :: int) \<le> 100" by simp
  from log_follows_or_stays [OF this refl, where task = "''t''" and evs = "[LvLines [] 500, LvScroll 200]" and h = 900 and ls = "[]"] s show ?thesis by simp
qed

lemma phase_announced_when_last_witness:
  "lp_status (LogViewer ''t'' (log_view_step (LvLines [(0, banner ''qa'')] 10) (log_view_run 100 []))) = ''Phase qa started''"
proof -
  have "plain_name ''qa''" "extractAnnouncement [''working''] = None"
    by (simp_all add: plain_name_def extractAnnouncement_def phase_mark_def rule_glyphs_code starts_with_def)
  from phase_announced_when_last [OF this refl refl, where task = "''t''" and ls = "[]" and i = 0 and h = 10 and v = "log_view_run 100 []"] show ?thesis by simp
qed

lemma activity_matches_task_witness:
  "ActivityStrip (\<lambda>_. None) 0 (ah_events (activity_run (\<lambda>_. None) [AhRender (Some ''t'') True, AhAnswer 0 0 (ActData (Some [\<lparr>ta_tool = ''Read'', ta_summary = ''a.py'', ta_ts = None, ta_sid = ''1''\<rparr>]))]))
     (ah_active (activity_run (\<lambda>_. None) [AhRender (Some ''t'') True, AhAnswer 0 0 (ActData (Some [\<lparr>ta_tool = ''Read'', ta_summary = ''a.py'', ta_ts = None, ta_sid = ''1''\<rparr>]))])) \<noteq> None
   \<and> ah_source (activity_run (\<lambda>_. None) [AhRender (Some ''t'') True, AhAnswer 0 0 (ActData (Some [\<lparr>ta_tool = ''Read'', ta_summary = ''a.py'', ta_ts = None, ta_sid = ''1''\<rparr>]))])
       = Some (activity_url ''t'')"
proof -
  let ?s = "activity_run (\<lambda>_. None) [AhRender (Some ''t'') True, AhAnswer 0 0 (ActData (Some [\<lparr>ta_tool = ''Read'', ta_summary = ''a.py'', ta_ts = None, ta_sid = ''1''\<rparr>]))]"
  have task: "ah_task ?s = Some ''t''" and some: "ActivityStrip (\<lambda>_. None) 0 (ah_events ?s) (ah_active ?s) \<noteq> None"
    by (simp_all add: activity_run_def activity_init_def activity_render_def activity_poll_effect_def activity_reset_effect_def
        activity_poll_def activity_polls_def activity_answer_def activity_apply_def truthy_def ActivityStrip_def Let_def)
  then obtain on ls where "ActivityStrip (\<lambda>_. None) 0 (ah_events ?s) (ah_active ?s) = Some (on, ls)" by auto
  with activity_matches_task [OF refl, where pd = "\<lambda>_. None" and now = 0 and evs =
      "[AhRender (Some ''t'') True, AhAnswer 0 0 (ActData (Some [\<lparr>ta_tool = ''Read'', ta_summary = ''a.py'', ta_ts = None, ta_sid = ''1''\<rparr>]))]"]
  have "\<exists>t. ah_task ?s = Some t \<and> ah_source ?s = Some (activity_url t)" by blast
  with task some show ?thesis by simp
qed

definition demo_output :: stream_content_block where
  "demo_output = \<lparr>b_type = BToolResult, b_text = None, b_thinking = None, b_name = None, b_input = None, b_content = Some (JStr ''ok'')\<rparr>"

lemma stream_page_exact_witness:
  "set (sv_open (stream_view_run 100 [SvEvents [(0, (mk_event EUser)\<lparr>e_message := Some [demo_output]\<rparr>)] (Some True) 50,
     SvFilter FTool 60, SvOpen (0, 0) 80])) = {(0, 0)}"
proof -
  let ?v = "stream_view_run 100 [SvEvents [(0, (mk_event EUser)\<lparr>e_message := Some [demo_output]\<rparr>)] (Some True) 50,
     SvFilter FTool 60, SvOpen (0, 0) 80]"
  have rows: "stream_rows ?v = [SrOutput (0, 0) (ToolResultBlock True demo_output)]" by code_simp
  have "sv_has ?v = Some True" by code_simp
  then obtain name chips jump where p: "StreamViewer None ?v = StreamPage name chips (stream_rows ?v) jump"
    by (simp add: StreamViewer_def)
  from stream_page_exact [OF refl p]
  have "set (sv_open ?v) = {k. \<exists>t. SrOutput k t \<in> set (stream_rows ?v) \<and> to_open t}" by blast
  then show ?thesis unfolding rows by auto
qed
end
