(* ===== verification/Grinder.thy ===== *)
theory Grinder
  imports ShellViews LiveViews
begin

text \<open>
  The view of the background grinder: its hooks (\<open>hooks/useGrinder.ts\<close>, \<open>hooks/useGrinderStream.ts\<close>), the list of
  projects, the page of one project with its pane for the stream of a batch, and the list of events
  (\<open>components/grinder/*.tsx\<close>). Polling of a stream is that of \<open>StreamPolling\<close>, its view that of \<open>LiveViews\<close>.
\<close>

section \<open>What the server reports\<close>

record grinder_pass =
  gp_id :: string
  gp_name :: string
  gp_status :: grinder_pass_status
  gp_total :: int
  gp_completed :: int

record grinder_batch =
  gb_id :: string
  gb_pass :: string
  gb_started :: string
  gb_turns :: int

record grinder_event =
  gv_ts :: string
  gv_batch :: string
  gv_event :: grinder_event_type
  gv_files_fixed :: "int option"
  gv_reason :: "string option"
  gv_reverted :: "bool option"

record grinder_deferral =
  gf_rule :: string
  gf_count :: int
  gf_example :: string

record grinder_detail =
  gd_passes :: "grinder_pass list"
  gd_batch :: "grinder_batch option"
  gd_events :: "grinder_event list"
  gd_deferrals :: "grinder_deferral list"

fun grinder_event_text :: "grinder_event_type \<Rightarrow> string" where
  "grinder_event_text GeStarted = ''started''"
| "grinder_event_text GeCompleted = ''completed''"
| "grinder_event_text GeFailed = ''failed''"
| "grinder_event_text GeAbandoned = ''abandoned''"
| "grinder_event_text GeDeferred = ''deferred''"
| "grinder_event_text GePaused = ''paused''"
| "grinder_event_text GeResumed = ''resumed''"

section \<open>Requests\<close>

definition grinder_list_interval :: nat where "grinder_list_interval = 10000"

definition grinder_detail_url :: "string option \<Rightarrow> string option" where
  "grinder_detail_url project =
     (if truthy project then Some (''/api/grinder?project='' @ encodeURIComponent (the project)) else None)"

definition grinder_detail_interval :: "grinder_detail option \<Rightarrow> nat" where
  "grinder_detail_interval data =
     (case data of
        None \<Rightarrow> 10000
      | Some d \<Rightarrow> if list_ex (\<lambda>p. gp_status p = GpInProgress) (gd_passes d) then 2000 else 30000)"

definition grinder_stream_base :: "string option \<Rightarrow> string option \<Rightarrow> string option" where
  "grinder_stream_base project batchId =
     (if truthy project
      then (let url = ''/api/grinder/stream?project='' @ encodeURIComponent (the project)
            in Some (if truthy batchId then url @ ''&batch='' @ encodeURIComponent (the batchId) else url))
      else None)"

text \<open>
  Pausing and resuming: a request is sent, and whatever status it is answered with, everything under the grinder's address
  is fetched anew. A request that fails to be sent rejects the promise. \<open>pz_sent\<close> logs the requests, \<open>pz_refreshed\<close>
  counts the refetches.
\<close>

record pause_hook =
  pz_isLoading :: bool
  pz_sent :: "(string \<times> string) list"
  pz_refreshed :: nat

datatype pause_reply = PauseAnswered nat | PauseThrown

definition pause_request :: "bool \<Rightarrow> string \<Rightarrow> pause_hook \<Rightarrow> pause_hook" where
  "pause_request resuming project s =
     s\<lparr>pz_isLoading := True,
       pz_sent := pz_sent s @ [(if resuming then ''DELETE'' else ''POST'', ''/api/grinder/pause?project='' @ encodeURIComponent project)]\<rparr>"

definition pause_reply_step :: "pause_reply \<Rightarrow> pause_hook \<Rightarrow> pause_hook" where
  "pause_reply_step r s =
     (case r of
        PauseAnswered status \<Rightarrow> s\<lparr>pz_refreshed := Suc (pz_refreshed s), pz_isLoading := False\<rparr>
      | PauseThrown \<Rightarrow> s\<lparr>pz_isLoading := False\<rparr>)"

definition grinder_key :: "string \<Rightarrow> bool" where
  "grinder_key key \<longleftrightarrow> starts_with key ''/api/grinder''"

section \<open>The list of projects\<close>

definition grinder_relativeTime :: "(string \<Rightarrow> int option) \<Rightarrow> int \<Rightarrow> string option \<Rightarrow> string" where
  "grinder_relativeTime parse_date now ts =
     (if \<not> truthy ts then emdash
      else (case parse_date (the ts) of
              None \<Rightarrow> ''NaNd ago''
            | Some t \<Rightarrow>
                (let mins = (now - t) div 60000; hours = mins div 60
                 in if mins < 1 then ''just now''
                    else if mins < 60 then string_of_int mins @ ''m ago''
                    else if hours < 24 then string_of_int hours @ ''h ago''
                    else string_of_int (hours div 24) @ ''d ago'')))"

definition under_blank :: "string \<Rightarrow> string" where
  "under_blank s =
     (case index_of (CHR ''_'') s of Some i \<Rightarrow> take i s @ '' '' @ drop (Suc i) s | None \<Rightarrow> s)"

record grinder_row =
  gw_project :: string
  gw_pass :: string
  gw_progress :: string
  gw_deferrals :: string
  gw_last :: string
  gw_pill :: "wf_status option \<times> string"

definition GrinderProjectList :: "(string \<Rightarrow> int option) \<Rightarrow> int \<Rightarrow> grinder_summary list \<Rightarrow> grinder_row list" where
  "GrinderProjectList parse_date now projects =
     map (\<lambda>p. \<lparr>gw_project = gr_project p, gw_pass = (case gr_current_pass p of Some c \<Rightarrow> c | None \<Rightarrow> emdash),
               gw_progress = string_of_int (gr_batches_completed p) @ ''/'' @ string_of_int (gr_batches_total p),
               gw_deferrals = string_of_int (gr_deferrals_count p),
               gw_last = grinder_relativeTime parse_date now (gr_last_event_ts p),
               gw_pill = (if gr_paused p then None else grinderPassStatusToWfStatus (gr_status p),
                          if gr_paused p then ''paused'' else under_blank (grinder_status_text (gr_status p)))\<rparr>) projects"

section \<open>The page of a project\<close>

text \<open>
  \<open>gs_stream\<close> is the batch whose stream is open and \<open>gs_seen\<close> the running batch the effect last saw. The effect runs when
  that batch changes.
\<close>

record grinder_page =
  gs_data :: "grinder_detail option"
  gs_seen :: "string option"
  gs_stream :: "string option"

definition current_batch_id :: "grinder_detail option \<Rightarrow> string option" where
  "current_batch_id data = (case data of Some d \<Rightarrow> map_option gb_id (gd_batch d) | None \<Rightarrow> None)"

definition batch_effect :: "grinder_page \<Rightarrow> grinder_page" where
  "batch_effect s =
     (let currentId = current_batch_id (gs_data s)
      in if currentId = gs_seen s then s else s\<lparr>gs_seen := currentId, gs_stream := currentId\<rparr>)"

datatype grinder_page_event = GdData "grinder_detail option" | GdOpen string | GdClose

fun grinder_page_step :: "grinder_page_event \<Rightarrow> grinder_page \<Rightarrow> grinder_page" where
  "grinder_page_step (GdData d) s = batch_effect (s\<lparr>gs_data := d\<rparr>)"
| "grinder_page_step (GdOpen b) s = s\<lparr>gs_stream := Some b\<rparr>"
| "grinder_page_step GdClose s = s\<lparr>gs_stream := None\<rparr>"

definition grinder_page_run :: "grinder_page_event list \<Rightarrow> grinder_page" where
  "grinder_page_run evs = fold grinder_page_step evs \<lparr>gs_data = None, gs_seen = None, gs_stream = None\<rparr>"

definition page_stream_base :: "string \<Rightarrow> grinder_page \<Rightarrow> string option" where
  "page_stream_base project s =
     grinder_stream_base (if truthy (gs_stream s) then Some project else None) (gs_stream s)"

record batch_card =
  bk_texts :: "(string \<times> string) list"
  bk_stream :: "string option"

definition GrinderBatchCard :: "(string \<Rightarrow> int option) \<Rightarrow> int \<Rightarrow> grinder_batch option \<Rightarrow> batch_card option" where
  "GrinderBatchCard parse_date now batch =
     map_option (\<lambda>b. \<lparr>bk_texts = [(''Batch:'', gb_id b), (''Pass:'', gb_pass b),
         (''Started:'', relativeTime parse_date now (gb_started b)), (''Turns:'', string_of_int (gb_turns b))],
       bk_stream = Some (gb_id b)\<rparr>) batch"

definition GrinderBatchView :: "string \<Rightarrow> grinder_batch option \<Rightarrow> stream_viewer \<Rightarrow> (string \<times> string) list \<times> stream_page" where
  "GrinderBatchView batchId batch v =
     ([(''Batch '' @ batchId, ''''), (''Pass:'', case batch of Some b \<Rightarrow> gb_pass b | None \<Rightarrow> emdash),
       (''Status:'', if batch \<noteq> None then ''active'' else emdash),
       (''Turns:'', case batch of Some b \<Rightarrow> string_of_int (gb_turns b) | None \<Rightarrow> emdash),
       (''Started:'', case batch of Some b \<Rightarrow> gb_started b | None \<Rightarrow> emdash)],
      StreamViewer (Some (''batch '' @ batchId)) v)"

record pass_card =
  pa_aria :: string
  pa_name :: string
  pa_pill :: "wf_status option \<times> string"
  pa_batches :: string

definition GrinderPassStepper :: "grinder_pass list \<Rightarrow> pass_card list" where
  "GrinderPassStepper passes =
     map (\<lambda>p. (let st = under_blank (grinder_status_text (Some (gp_status p)));
                   done = string_of_int (gp_completed p); total' = string_of_int (gp_total p)
               in \<lparr>pa_aria = gp_name p @ '' pass, '' @ st @ '', '' @ done @ '' of '' @ total' @ '' batches'',
                   pa_name = gp_name p, pa_pill = (grinderPassStatusToWfStatus (Some (gp_status p)), st),
                   pa_batches = done @ ''/'' @ total' @ '' batches''\<rparr>)) passes"

text \<open>The list of events with its chips: at most one type is chosen.\<close>

record event_line =
  el_age :: string
  el_batch :: string
  el_pill :: "wf_status option \<times> string"
  el_texts :: "string list"
  el_stream :: "string option"

definition event_types :: "grinder_event list \<Rightarrow> grinder_event_type list" where
  "event_types events = oset_of (map gv_event events)"

definition event_chip_click :: "grinder_event_type \<Rightarrow> grinder_event_type option \<Rightarrow> grinder_event_type option" where
  "event_chip_click t active = (if active = Some t then None else Some t)"

definition event_line_of :: "(string \<Rightarrow> int option) \<Rightarrow> int \<Rightarrow> grinder_event \<Rightarrow> event_line" where
  "event_line_of parse_date now e =
     \<lparr>el_age = relativeTime parse_date now (gv_ts e), el_batch = gv_batch e,
      el_pill = (grinderEventToWfStatus (gv_event e), grinder_event_text (gv_event e)),
      el_texts = (case gv_files_fixed e of Some n \<Rightarrow> [string_of_int n @ '' files fixed''] | None \<Rightarrow> [])
        @ (if truthy (gv_reason e) then [the (gv_reason e)] else [])
        @ (if gv_reverted e = Some True then [''reverted''] else []),
      el_stream = (if gv_batch e \<noteq> '''' then Some (gv_batch e) else None)\<rparr>"

definition GrinderEventsList ::
    "(string \<Rightarrow> int option) \<Rightarrow> int \<Rightarrow> grinder_event_type option \<Rightarrow> grinder_event list \<Rightarrow>
     ((grinder_event_type \<times> bool) list \<times> event_line list) option" where
  "GrinderEventsList parse_date now activeFilter events =
     (let filtered = (case activeFilter of Some t \<Rightarrow> filter (\<lambda>e. gv_event e = t) events | None \<Rightarrow> events)
      in if length events = 0 then None
         else Some (map (\<lambda>t. (t, activeFilter = Some t)) (event_types events), map (event_line_of parse_date now) filtered))"

definition GrinderDeferralsTable :: "grinder_deferral list \<Rightarrow> (string \<times> string \<times> string) list option" where
  "GrinderDeferralsTable deferrals =
     (if length deferrals = 0 then None
      else Some (map (\<lambda>d. (gf_rule d, string_of_int (gf_count d), gf_example d)) deferrals))"

record grinder_overview =
  go_title :: string
  go_button :: "string \<times> bool"
  go_passes :: "pass_card list"
  go_card :: "batch_card option"
  go_events :: "((grinder_event_type \<times> bool) list \<times> event_line list) option"
  go_deferrals :: "(string \<times> string \<times> string) list option"

datatype grinder_content =
    GrinderLoading
  | GrinderStream string "(string \<times> string) list \<times> stream_page"
  | GrinderOverview grinder_overview

definition GrinderDetail ::
    "(string \<Rightarrow> int option) \<Rightarrow> int \<Rightarrow> string \<Rightarrow> bool \<Rightarrow> bool \<Rightarrow> bool \<Rightarrow> grinder_event_type option \<Rightarrow> stream_viewer \<Rightarrow>
     grinder_page \<Rightarrow> grinder_content" where
  "GrinderDetail parse_date now project paused isLoading pauseLoading activeFilter v s =
     (case (isLoading, gs_data s) of
        (False, Some d) \<Rightarrow>
          if truthy (gs_stream s)
          then GrinderStream (''Grinder / '' @ project)
            (GrinderBatchView (the (gs_stream s))
              (if map_option gb_id (gd_batch d) = gs_stream s then gd_batch d else None) v)
          else GrinderOverview
            \<lparr>go_title = ''Grinder / '' @ project,
             go_button = (if paused then ''Resume grinder'' else ''Pause grinder'',
                          (gd_batch d = None \<and> \<not> paused) \<or> pauseLoading),
             go_passes = GrinderPassStepper (gd_passes d), go_card = GrinderBatchCard parse_date now (gd_batch d),
             go_events = GrinderEventsList parse_date now activeFilter (gd_events d),
             go_deferrals = GrinderDeferralsTable (gd_deferrals d)\<rparr>
      | _ \<Rightarrow> GrinderLoading)"

section \<open>The view\<close>

datatype grinder_view = GrinderViewLoading | NoGrinderData | GrinderOf string bool | GrinderProjects "grinder_row list"

definition GrinderView ::
    "(string \<Rightarrow> int option) \<Rightarrow> int \<Rightarrow> grinder_summary list option \<Rightarrow> bool \<Rightarrow> string option \<Rightarrow> grinder_view" where
  "GrinderView parse_date now projects isLoading selectedProject =
     (let selectedSummary = find (\<lambda>p. Some (gr_project p) = selectedProject) (case projects of Some ps \<Rightarrow> ps | None \<Rightarrow> [])
      in if isLoading then GrinderViewLoading
         else (case projects of
                 None \<Rightarrow> NoGrinderData
               | Some ps \<Rightarrow>
                   if length ps = 0 then NoGrinderData
                   else (case (truthy selectedProject, selectedSummary) of
                           (True, Some g) \<Rightarrow> GrinderOf (the selectedProject) (gr_paused g)
                         | _ \<Rightarrow> GrinderProjects (GrinderProjectList parse_date now ps))))"

section \<open>The pane of a batch\<close>

fun reader_choice :: "grinder_page_event \<Rightarrow> string option option" where
  "reader_choice (GdData d) = None"
| "reader_choice (GdOpen b) = Some (Some b)"
| "reader_choice GdClose = Some None"

definition last_choice :: "string option \<Rightarrow> grinder_page_event list \<Rightarrow> string option" where
  "last_choice start evs = fold (\<lambda>e c. case reader_choice e of Some c' \<Rightarrow> c' | None \<Rightarrow> c) evs start"

lemma seen_run: "gs_seen (grinder_page_run evs) = current_batch_id (gs_data (grinder_page_run evs))"
proof -
  have step: "gs_seen s = current_batch_id (gs_data s) \<Longrightarrow>
      gs_seen (grinder_page_step e s) = current_batch_id (gs_data (grinder_page_step e s))" for e s
    by (cases e) (simp_all add: batch_effect_def Let_def)
  have "gs_seen s = current_batch_id (gs_data s) \<Longrightarrow>
      gs_seen (fold grinder_page_step evs s) = current_batch_id (gs_data (fold grinder_page_step evs s))" for s
    by (induction evs arbitrary: s) (simp_all add: step)
  then show ?thesis by (simp add: grinder_page_run_def current_batch_id_def)
qed

lemma same_batch_run:
  assumes "gs_seen s = b" and "\<forall>d. GdData d \<in> set evs \<longrightarrow> current_batch_id d = b"
  shows "gs_stream (fold grinder_page_step evs s) = last_choice (gs_stream s) evs \<and> gs_seen (fold grinder_page_step evs s) = b"
  using assms
proof (induction evs arbitrary: s)
  case (Cons e evs)
  have "gs_seen (grinder_page_step e s) = b \<and> gs_stream (grinder_page_step e s) = last_choice (gs_stream s) [e]"
    using Cons.prems by (cases e) (auto simp: batch_effect_def last_choice_def Let_def)
  with Cons show ?case by (simp add: last_choice_def)
qed (simp add: last_choice_def)

text \<open>
  C38. While the same batch runs, the pane shows what the reader last chose: closed by the reader, it is not opened again by a
  poll. When another batch starts or the running one ends, the pane follows it, also when the reader is watching the
  stream of a third batch: that one is replaced or closed.
\<close>
theorem running_batch_takes_over:
  assumes "s = grinder_page_run (xs @ GdData d # ys)" and "\<forall>d'. GdData d' \<in> set ys \<longrightarrow> current_batch_id d' = current_batch_id d"
  shows "gs_stream s = last_choice (gs_stream (grinder_page_run (xs @ [GdData d]))) ys \<and>
         gs_stream (grinder_page_step (GdData e) s) = (if current_batch_id e = current_batch_id d then gs_stream s else current_batch_id e) \<and>
         (truthy (gs_stream s) \<longrightarrow>
            page_stream_base project s =
              (if project = '''' then None
               else Some (''/api/grinder/stream?project='' @ encodeURIComponent project @ ''&batch='' @ encodeURIComponent (the (gs_stream s))))) \<and>
         (\<not> truthy (gs_stream s) \<longrightarrow> page_stream_base project s = None)"
proof -
  let ?m = "grinder_page_run (xs @ [GdData d])"
  have "gs_seen ?m = current_batch_id d" by (simp add: seen_run) (simp add: grinder_page_run_def batch_effect_def Let_def)
  moreover have "s = fold grinder_page_step ys ?m" by (simp add: assms(1) grinder_page_run_def)
  ultimately have "gs_stream s = last_choice (gs_stream ?m) ys" "gs_seen s = current_batch_id d"
    using same_batch_run [of ?m "current_batch_id d" ys] assms(2) by simp_all
  then show ?thesis
    by (auto simp: batch_effect_def page_stream_base_def grinder_stream_base_def truthy_def Let_def split: option.splits)
qed

section \<open>Events\<close>

text \<open>
  The chips over the events are the reported types, each once and at most one of them on; the rows are the events of
  that type, in order. The rows are empty only if the chosen type is no longer reported, and then no chip is on.
\<close>
theorem grinder_events_exact:
  assumes "GrinderEventsList pd now chosen es = Some (chips, rows)"
  shows "distinct (map fst chips) \<and> set (map fst chips) = gv_event ` set es \<and> length (filter snd chips) \<le> 1 \<and>
         rows = map (event_line_of pd now) (filter (\<lambda>e. case chosen of Some t \<Rightarrow> gv_event e = t | None \<Rightarrow> True) es) \<and>
         (rows = [] \<longleftrightarrow> chosen \<noteq> None \<and> filter snd chips = [])"
proof -
  have es: "es \<noteq> []" and chips: "chips = map (\<lambda>t. (t, chosen = Some t)) (event_types es)"
    and rows: "rows = map (event_line_of pd now) (filter (\<lambda>e. case chosen of Some t \<Rightarrow> gv_event e = t | None \<Rightarrow> True) es)"
    using assms by (auto simp: GrinderEventsList_def Let_def split: if_splits option.splits)
  have types: "distinct (event_types es)" "set (event_types es) = gv_event ` set es"
    by (simp_all add: event_types_def distinct_oset_of set_oset_of)
  have on: "map fst (filter snd chips) = filter (\<lambda>t. chosen = Some t) (event_types es)"
    by (simp add: chips filter_map o_def)
  have one: "length (filter (\<lambda>t. chosen = Some t) ts) \<le> 1" if "distinct ts" for ts :: "grinder_event_type list"
    using that by (cases chosen) (auto simp: distinct_length_filter card_le_Suc0_iff_eq)
  have "length (filter snd chips) \<le> 1" using one [OF types(1)] on by (metis length_map)
  moreover have "filter snd chips = [] \<longleftrightarrow> (\<forall>t. chosen = Some t \<longrightarrow> t \<notin> gv_event ` set es)"
  proof -
    have "filter snd chips = [] \<longleftrightarrow> map fst (filter snd chips) = []" by simp
    then show ?thesis unfolding on using types(2) by (auto simp: filter_empty_conv)
  qed
  moreover have "rows = [] \<longleftrightarrow> chosen \<noteq> None \<and> (\<forall>t. chosen = Some t \<longrightarrow> t \<notin> gv_event ` set es)"
    using es by (cases chosen) (auto simp: rows filter_empty_conv)
  moreover have "map fst chips = event_types es" by (simp add: chips o_def)
  ultimately show ?thesis using types rows by simp
qed

text \<open>Whatever the server answers to a pause, the page does the same, and a request carries no token.\<close>

lemma refused_pause_unnoticed:
  "pause_reply_step (PauseAnswered 403) (pause_request r p s) = pause_reply_step (PauseAnswered 200) (pause_request r p s)"
  by (simp add: pause_reply_step_def)

text \<open>A paused project is grey in the list and counted among the active ones in the rail.\<close>

lemma paused_project_counted_active:
  assumes "gr_status g = Some GpInProgress" and "gr_paused g"
  shows "map gw_pill (GrinderProjectList pd now [g]) = [(None, ''paused'')] \<and>
         rs_count (rl_grinders (ActivityRail open' sessions as fs (Some [g]) ps)) = 1"
  using assms by (simp add: GrinderProjectList_def ActivityRail_def RailSection_def Let_def)
section \<open>Witnesses\<close>

definition demo_detail :: "string option \<Rightarrow> grinder_detail" where
  "demo_detail b =
     \<lparr>gd_passes = [], gd_batch = map_option (\<lambda>i. \<lparr>gb_id = i, gb_pass = ''lint'', gb_started = '''', gb_turns = 1\<rparr>) b,
      gd_events = [], gd_deferrals = []\<rparr>"

text \<open>A reader of the stream of batch b1 while b2 runs: the pane closes when b2 ends.\<close>

lemma running_batch_takes_over_witness:
  "gs_stream (grinder_page_run [GdData (Some (demo_detail (Some ''b2''))), GdOpen ''b1'']) = Some ''b1'' \<and>
   gs_stream (grinder_page_step (GdData (Some (demo_detail None)))
     (grinder_page_run [GdData (Some (demo_detail (Some ''b2''))), GdOpen ''b1''])) = None"
proof -
  let ?d = "Some (demo_detail (Some ''b2''))"
  have "\<forall>d'. GdData d' \<in> set [GdOpen ''b1''] \<longrightarrow> current_batch_id d' = current_batch_id ?d" by simp
  from running_batch_takes_over [OF refl this, of "[]" "Some (demo_detail None)" "''p''"] show ?thesis
    by (simp add: last_choice_def current_batch_id_def demo_detail_def)
qed

definition demo_grinder_event :: "grinder_event_type \<Rightarrow> grinder_event" where
  "demo_grinder_event t = \<lparr>gv_ts = '''', gv_batch = ''b1'', gv_event = t, gv_files_fixed = None, gv_reason = None, gv_reverted = None\<rparr>"

lemma grinder_events_exact_witness:
  "\<exists>chips. GrinderEventsList (\<lambda>_. None) 0 (Some GeFailed) [demo_grinder_event GeStarted] = Some (chips, []) \<and> filter snd chips = []"
proof -
  obtain chips rows where g: "GrinderEventsList (\<lambda>_. None) 0 (Some GeFailed) [demo_grinder_event GeStarted] = Some (chips, rows)"
    by (simp add: GrinderEventsList_def Let_def)
  have "rows = []" "filter snd chips = []" using grinder_events_exact [OF g] by (auto simp: demo_grinder_event_def)
  with g show ?thesis by blast
qed
end
