(* ===== verification/PlanBands.thy ===== *)
theory PlanBands
  imports ShellViews
begin

text \<open>
  The progress bands of a plan: one coloured segment per task (\<open>components/SegmentedProgress.tsx\<close>), the band beside a
  project's name (\<open>components/wf/PlanCompletionBand.tsx\<close>), the card over a plan (\<open>components/HeroStrip.tsx\<close>, which
  no page of this commit uses) and the chip of an invalid plan (\<open>components/plan2/PlanInvalidChip.tsx\<close>).
\<close>

record task_segment =
  sg_key :: string
  sg_colour :: string
  sg_minWidth :: nat

definition SegmentedProgress :: "nat \<Rightarrow> task list \<Rightarrow> task_segment list" where
  "SegmentedProgress minSegmentWidth tasks =
     map (\<lambda>t. \<lparr>sg_key = t_id t, sg_colour = ''var(--mui-palette-status-'' @ task_status_text (t_status t) @ '')'',
               sg_minWidth = minSegmentWidth\<rparr>) tasks"

section \<open>The band\<close>

record plan_band =
  pb_segments :: "task_segment list"
  pb_tasks :: "(string \<times> string) option"
  pb_features :: "(string \<times> string) option"

definition featuresPct :: "feature list \<Rightarrow> int" where
  "featuresPct features =
     (let n = length features; d = length (filter (\<lambda>f. f_status f = FDone) features)
      in if n = 0 then 0 else js_round (of_nat d / of_nat n * 100))"

definition PlanCompletionBand :: "plan \<Rightarrow> feature list \<Rightarrow> bool \<Rightarrow> plan_band" where
  "PlanCompletionBand plan features barOnly =
     (let tasks = flattenTasks plan;
          tasksDone = length (filter (\<lambda>t. t_status t = TDone) tasks);
          featuresDone = length (filter (\<lambda>f. f_status f = FDone) features);
          bar = SegmentedProgress 2 tasks
      in if barOnly then \<lparr>pb_segments = bar, pb_tasks = None, pb_features = None\<rparr>
         else \<lparr>pb_segments = bar,
               pb_tasks = Some (string_of_nat tasksDone @ ''/'' @ string_of_nat (length tasks) @ '' tasks'',
                                string_of_int (computeProgressPct plan) @ ''%''),
               pb_features = (if length features > 0
                 then Some (string_of_nat featuresDone @ ''/'' @ string_of_nat (length features) @ '' features'',
                            string_of_int (featuresPct features) @ ''%'') else None)\<rparr>)"

section \<open>The invalid chip\<close>

record invalid_chip =
  iv_aria :: string
  iv_tooltip :: string
  iv_heading :: string
  iv_errors :: "string list"

definition PlanInvalidChip :: "plan_validity \<Rightarrow> invalid_chip option" where
  "PlanInvalidChip validity =
     (if pv_valid validity then None
      else (let count = pv_totalCount validity;
                heading = string_of_nat count @ '' validity error'' @ (if count = 1 then '''' else ''s'')
            in Some \<lparr>iv_aria = ''Plan invalid: '' @ string_of_nat count @ '' errors'',
                     iv_tooltip = heading @ '' '' @ emdash @ '' click for details'',
                     iv_heading = heading, iv_errors = pv_errors validity\<rparr>))"

section \<open>The card over a plan\<close>

definition workingFeatures :: "session list \<Rightarrow> string list" where
  "workingFeatures sessions =
     map (\<lambda>s. last (split_on (CHR ''/'') (s_branch s)))
       (filter (\<lambda>s. s_status s = SWorking \<or> s_status s = SNeedsInput) sessions)"

text \<open>One step of the loop: a pending task on whose branch a session works counts as in progress.\<close>

definition augment :: "string list \<Rightarrow> task \<Rightarrow> (string, nat) omap \<times> task list \<Rightarrow> (string, nat) omap \<times> task list" where
  "augment working t = (\<lambda>(result, done_tasks).
     if t_status t = TPending \<and> t_id t \<in> set working
     then (om_set ''wip'' (om_get_or 0 result ''wip'' + 1) result, done_tasks @ [t\<lparr>t_status := TWip\<rparr>])
     else (let k = task_status_text (t_status t) in (om_set k (om_get_or 0 result k + 1) result, done_tasks @ [t])))"

definition hero_counts :: "plan \<Rightarrow> session list \<Rightarrow> (string, nat) omap \<times> task list" where
  "hero_counts plan sessions =
     (let allTasks = flattenTasks plan
      in fold (augment (workingFeatures sessions)) allTasks
           ([(''total'', length allTasks), (''done'', 0), (''wip'', 0), (''failed'', 0), (''pending'', 0), (''skipped'', 0)], []))"

record hero_strip =
  hs_name :: string
  hs_invalid :: "invalid_chip option"
  hs_percent :: string
  hs_description :: "string option"
  hs_counts :: string
  hs_segments :: "task_segment list"
  hs_legend :: string
  hs_working :: "string option"

definition HeroStrip :: "plan \<Rightarrow> plan_validity \<Rightarrow> session list \<Rightarrow> nat \<Rightarrow> hero_strip" where
  "HeroStrip plan validity sessions sessionCount =
     (case hero_counts plan sessions of (counts, liveTasks) \<Rightarrow>
        (let n = (\<lambda>k. string_of_nat (om_get_or 0 counts k))
         in \<lparr>hs_name = pl_name plan, hs_invalid = PlanInvalidChip validity,
             hs_percent = string_of_int (computeProgressPct plan) @ ''%'',
             hs_description = rest_text (pl_rest plan) ''description'',
             hs_counts = n ''done'' @ ''/'' @ n ''total'' @ '' tasks'', hs_segments = SegmentedProgress 3 liveTasks,
             hs_legend = ''done ('' @ n ''done'' @ '') '' @ mdot @ '' wip ('' @ n ''wip'' @ '') '' @ mdot @ '' pending ('' @ n ''pending'' @ '')'',
             hs_working = (if sessionCount > 0 then Some (string_of_nat sessionCount @ '' working'') else None)\<rparr>))"

section \<open>Counts and segments agree\<close>

definition live_task :: "string list \<Rightarrow> task \<Rightarrow> task" where
  "live_task working t = (if t_status t = TPending \<and> t_id t \<in> set working then t\<lparr>t_status := TWip\<rparr> else t)"

lemma augment_step: "augment working t (m, ts) = (count_task (live_task working t) m, ts @ [live_task working t])"
  by (simp add: augment_def live_task_def count_task_def Let_def)

lemma augment_fold:
  "fold (augment working) ts (m, acc) = (fold count_task (map (live_task working) ts) m, acc @ map (live_task working) ts)"
  by (induction ts arbitrary: m acc) (simp_all add: augment_step)

text \<open>
  The card's numbers are those of its segments: each is the number of tasks of that status with the tasks of working
  sessions in progress, there is a segment per task in the plan's order, and finished tasks and their share are those of
  the plan and of the band.
\<close>
theorem hero_matches_band:
  assumes "hero_counts plan sessions = (counts, live)"
  shows "live = map (live_task (workingFeatures sessions)) (flattenTasks plan) \<and>
         (\<forall>st. om_get_or 0 counts (task_status_text st) = length (filter (\<lambda>t. t_status t = st) live)) \<and>
         om_get_or 0 counts ''total'' = length live \<and>
         map sg_key (hs_segments (HeroStrip plan v sessions k)) = map sg_key (pb_segments (PlanCompletionBand plan fs b)) \<and>
         (\<forall>txt. pb_tasks (PlanCompletionBand plan fs False) = Some txt \<longrightarrow>
            txt = (hs_counts (HeroStrip plan v sessions k), hs_percent (HeroStrip plan v sessions k)))"
proof -
  let ?ts = "flattenTasks plan" and ?w = "workingFeatures sessions"
  let ?m = "[(''total'', length ?ts), (''done'', 0), (''wip'', 0), (''failed'', 0), (''pending'', 0), (''skipped'', 0)]"
  have c: "counts = fold count_task (map (live_task ?w) ?ts) ?m" and l: "live = map (live_task ?w) ?ts"
    using assms by (auto simp: hero_counts_def augment_fold Let_def)
  have status: "om_get_or 0 counts (task_status_text st) = length (filter (\<lambda>t. t_status t = st) live)" for st
    using fold_count_task [of "map (live_task ?w) ?ts" ?m st] unfolding c l by (cases st) (simp_all add: om_get_or_def)
  have all: "om_get_or 0 counts ''total'' = length live"
    using fold_count_task [of "map (live_task ?w) ?ts" ?m TDone] unfolding c l by (simp add: om_get_or_def)
  have "filter (\<lambda>t. t_status t = TDone) (map (live_task ?w) ts) = filter (\<lambda>t. t_status t = TDone) ts" for ts
    by (induction ts) (simp_all add: live_task_def)
  then have finished: "om_get_or 0 counts ''done'' = length (filter (\<lambda>t. t_status t = TDone) ?ts)"
    using status [of TDone] l by simp
  have keys: "t_id (live_task ?w t) = t_id t" for t by (simp add: live_task_def)
  show ?thesis
    using status all finished
    by (simp add: l assms HeroStrip_def PlanCompletionBand_def SegmentedProgress_def keys o_def Let_def)
qed

text \<open>The share of finished features is a percentage, and full only when all are finished, up to rounding.\<close>

lemma featuresPct_bounds: "0 \<le> featuresPct fs \<and> featuresPct fs \<le> 100"
  using pct_bounds [of "of_nat (length (filter (\<lambda>f. f_status f = FDone) fs))" "length fs"]
  by (auto simp: featuresPct_def Let_def)

text \<open>The chip counts every error, but lists at most the first five.\<close>

lemma validity_counts:
  "length (pv_errors (planValidity p)) = min error_cap (pv_totalCount (planValidity p)) \<and>
   (pv_valid (planValidity p) \<longleftrightarrow> pv_totalCount (planValidity p) = 0)"
proof (cases p)
  case None
  then show ?thesis by (simp add: planValidity_def error_cap_def)
next
  case (Some j)
  then show ?thesis by (simp only: planValidity_def option.case Let_def plan_validity.simps length_take) (simp add: min.commute)
qed

lemma invalid_chip_lists:
  assumes "PlanInvalidChip (planValidity p) = Some c"
  shows "length (iv_errors c) = min error_cap (pv_totalCount (planValidity p)) \<and> 0 < pv_totalCount (planValidity p)"
  using assms validity_counts [of p] by (auto simp: PlanInvalidChip_def Let_def split: if_split_asm)

end
