(* ===== verification/Spec2Isabelle.thy ===== *)
theory Spec2Isabelle
  imports DagLayoutCorrect SessionButtons TerminalView FilterState StreamPolling StreamView LogPolling
    PlanUtils PathUtils ListViews Tabs PipelineView RunEconomyView PhaseStepper ChainCollapse SessionPanel
    MetricsView DeferredAudit SessionMonitor Overview FeatureViews Grinder PlanBands
begin

text \<open>
  The dashboard of watchfloor: the TypeScript program under \<open>src/dashboard/app/src\<close>, a page that watches plans, task
  graphs and autonomous coding sessions on a developer's machine. It polls a local server, keeps filters and tabs in local
  storage, opens a web socket to a terminal, and sends the few commands that start, pause, resume and cancel a session.

  \<^bold>\<open>The program and how its parts interact\<close>

  \<^item> Hooks (\<open>hooks/*.ts\<close>) own the state that outlives a rendering. Each polls one address or keeps one stored item, and hands
    values to the views. \<open>useSessionControls\<close> and \<open>useTerminalSocket\<close> also send, with a token from \<open>csrfToken\<close>.
  \<^item> Helpers (\<open>utils/*.ts\<close>) are pure: layout and routing of the task graph, counts, paths, texts.
  \<^item> Views (\<open>components/**/*.tsx\<close>) combine both into what is on the page and turn clicks into calls of the hooks.
  \<^item> \<open>DashboardShell\<close> chooses the main view by the active tab. The plan list opens a plan's \<open>Pipeline\<close>, whose cards open the
    \<open>SessionPanel\<close> with its stream, log, documents, controls and terminal.

  \<^bold>\<open>How the code is modelled\<close>

  \<^item> An interface is a record, a union a datatype, a component a function from what it is given to a record or list of what it
    shows, in the order in which it shows it. Texts are complete, styling is left out.
  \<^item> A hook is a record of its \<open>useState\<close> and \<open>useRef\<close> cells with one definition per effect, callback and continuation.
    What the environment may do (a tick, a reply, a click, a new target, an unmount) is a datatype of events, and a step
    function runs one of them, so that every order of events is a list and invariants go by induction over it. Requests
    under way are explicit, which lets replies overtake each other where the code allows it. An effect with dependencies
    compares them with those of its last run.
  \<^item> Strings are UTF-8 byte lists, numbers exact integers and rationals, a \<open>Map\<close> an association list in insertion order, a
    \<open>Set\<close> a list without duplicates, \<open>sort\<close> a stable sort. A missing or null value is \<open>None\<close>, a value that JavaScript
    tests for truth goes through \<open>truthy\<close>. \<open>Prelude\<close> holds these and the lemmas about them.
  \<^item> What the browser decides is an argument: \<open>loc\<close> and \<open>locb\<close> for \<open>localeCompare\<close> (assumed to be comparators), \<open>parse_date\<close>
    for \<open>Date.parse\<close>, \<open>now\<close> for the clock, \<open>clock\<close> for local times, heights of rendered content, replies of the server.

  \<^bold>\<open>Theories\<close>

  \<^item> \<open>Prelude\<close>, \<open>Json\<close>, \<open>UriCodec\<close>, \<open>Types\<close>: the library part of JavaScript that the sources use, and \<open>types.ts\<close>.
  \<^item> \<open>DagLayout\<close>, \<open>DagLayoutCorrect\<close>, \<open>ChainCollapse\<close>: \<open>utils/dagLayout.ts\<close>. On an acyclic graph the layout ends, shows every
    task once, apart from the others, right of what it depends on; folding finished chains loses no task.
  \<^item> \<open>Connectors\<close>, \<open>PipelineView\<close>: \<open>utils/connectorRouting.ts\<close> and \<open>Pipeline.tsx\<close>: the lines between the cards, the cards, gates
    and phases. Together with the layout they give \<open>phase_page_complete\<close> below.
  \<^item> \<open>CsrfToken\<close>, \<open>SessionControls\<close>, \<open>SessionButtons\<close>: \<open>csrfToken.ts\<close>, \<open>useSessionControls.ts\<close>, \<open>SessionControls.tsx\<close>: callers of a token share its
    request and are answered once each, optimistic flags follow the status, buttons that agree with the guards of the calls, rollback.
  \<^item> \<open>TerminalSocket\<close>, \<open>TerminalCorrect\<close>, \<open>TerminalView\<close>: \<open>useTerminalSocket.ts\<close>, \<open>TerminalPanel.tsx\<close>: bounded reconnects, the
    socket belongs to the target on show, frames in order; the panel refines the socket.
  \<^item> \<open>FilterState\<close>, \<open>Tabs\<close>, \<open>ListViews\<close>, \<open>FeatureViews\<close>: stored filters and tabs that survive a reload, the filtered and
    sorted lists of plans and features, cards, bars and the pages of features and runs.
  \<^item> \<open>StreamPolling\<close>, \<open>StreamView\<close>, \<open>LogPolling\<close>, \<open>LiveViews\<close>: \<open>useStreamPolling.ts\<close> with the server's stream reader
    (\<open>server/autopilot_helpers.py\<close>), \<open>derivePhaseEvents.ts\<close>, \<open>useAutopilotLog.ts\<close>, \<open>useSessionActivity.ts\<close> and the two viewers.
  \<^item> \<open>PlanUtils\<close>, \<open>PathUtils\<close>, \<open>PlanBands\<close>: the helpers about plans, phases, paths and times, and the progress bands.
  \<^item> \<open>RunEconomy\<close>, \<open>RunEconomyView\<close>, \<open>PhaseStepper\<close>: cost and token figures of runs, in the table and in a run's phase list; both
    compute them in their own way and agree.
  \<^item> \<open>FetchEffects\<close>, \<open>SessionPanel\<close>: the hooks that fetch once per selection, and the detail panel of a task.
  \<^item> \<open>Metrics\<close>, \<open>MetricsView\<close>, \<open>ActivityTimeline\<close>: the metrics page with its window, cache, cards, export and zoom.
  \<^item> \<open>DeferredAudit\<close>, \<open>SessionMonitor\<close>, \<open>Overview\<close>, \<open>Grinder\<close>, \<open>ShellViews\<close>: the remaining pages, the rail and the shell.

  \<^bold>\<open>Interfaces\<close>

  The contracts between the parts are locales, each interpreted on the code's own definitions: \<open>js_comparator\<close> (a sort has
  one possible result; the comparators of all lists satisfy it), \<open>codec\<close> and \<open>persisted\<close> (a stored value is read back;
  JSON, URIs, forms, CSV and the three filter stores), \<open>tail_server\<close> (what one read of a growing file returns; the client's
  theorem about streams is proved against it), \<open>guarded_hook\<close> (an effect that marks its run as cancelled shows nothing of an
  earlier selection; four hooks), \<open>scroll_view\<close> (a view whose box follows its end; the log and the stream).

  \<^bold>\<open>What the lemmas show\<close>

  Each theory proves first that its steps keep an invariant, then what the operations do on every branch, then its
  numbered properties, and last their witnesses on concrete inputs. Where the code falls short
  of what its comments or its other parts promise, a lemma says exactly how, such as \<open>layout_diverges_on_cycle\<close>,
  \<open>log_overlap_duplicates\<close> or \<open>new_target_keeps_old_screen\<close>; the properties that hold carry the hypothesis that is missing.

  \<^bold>\<open>Bounds and fuel\<close>

  \<^item> \<open>compute_depth\<close> and the JSON parser carry fuel: the number of tasks plus one and the length of the text plus one, shown to
    be enough by \<open>compute_depth_fuel\<close> and \<open>parse_stringify\<close>.
  \<^item> The two loops of the layout that have no bound, \<open>bfs_cols\<close> and \<open>follow_chain\<close>, are partial functions into \<open>option\<close>; that
    they return on acyclic graphs is proved, and that the first does not on a cycle.
  \<^item> Caps of the code (10000 events, 500 kilobytes of log, five reconnects, timeouts) are its constants.

  \<^bold>\<open>Not modelled\<close>

  \<^item> Styling, icons and animation, including \<open>theme.ts\<close> and the primitives under \<open>components/wf\<close>, which draw what they are given.
  \<^item> React's scheduling beyond the order of effects within a commit; rounding of floating-point numbers; text in other units
    than bytes where only its length is cut. \<open>str_cmp\<close> compares bytes where the code compares UTF-16 units, which differs only
    for characters beyond the basic plane, and \<open>to_lower\<close> changes ASCII letters only, so searches agree with the code on ASCII text.
  \<^item> The libraries: SWR appears as its documented cache, xterm as the list of frames it was given, Markdown and the data grid
    not at all.
  \<^item> The Python server apart from its stream reader, and the shell tools: the server is the set of replies it may give.
  \<^item> Code that no page of this commit reaches, except \<open>collapseCompletedChains\<close>, \<open>SessionMonitor\<close> and \<open>HeroStrip\<close>, whose models
    are kept beside those of the parts they share.
\<close>

section \<open>From the server's answer to the token\<close>

definition after_response :: "string option \<Rightarrow> fetch_outcome \<Rightarrow> csrf_state \<Rightarrow> post_result \<times> csrf_state" where
  "after_response token out s =
     (case postMutation token out of (r, reset) \<Rightarrow> (r, if reset then resetCsrfBodyTokenCache s else s))"

text \<open>
  C13. The way out of a refused token: when the server rejects a mutation for its CSRF token, the next mutation on
  a page without cookie or meta tag does not reuse the cached token but waits for a request that was not
  on the wire before, and is answered with the token of that request's reply.
\<close>
theorem refused_token_refetched:
  assumes "after_response (Some t) (FetchRes res) (csrf_run evs) = (PErr e, s)" and "ce_slug e = ''csrf''"
    and "readCsrfToken pg None = None"
  shows "let r = cs_next (csrf_run evs); s' = resolveCsrfToken pg c s
    in r \<notin> set (cs_flight (csrf_run evs)) \<and> r \<in> set (cs_flight s') \<and> (c, r) \<in> set (cs_waiting s')
     \<and> cs_answers s' = cs_answers (csrf_run evs)
     \<and> (c, token_of_reply reply) \<in> set (cs_answers (csrf_settle r reply s'))"
proof -
  let ?s = "csrf_run evs"
  have s: "s = resetCsrfBodyTokenCache ?s"
    using assms(1,2) by (auto simp: after_response_def postMutation_def parseControlError_def Let_def
        split: option.splits if_splits)
  have "r < cs_next ?s" if "r \<in> set (cs_flight ?s)" for r
    using csrf_ok_run [of evs] that by (simp add: csrf_ok_def)
  then have "cs_next ?s \<notin> set (cs_flight ?s)" by blast
  moreover have "resolveCsrfToken pg c s = fetchCsrfBodyToken c s"
    using assms(3) by (simp add: resolveCsrfToken_def s resetCsrfBodyTokenCache_def)
  ultimately show ?thesis
    by (force simp: s csrf_defs Let_def image_iff)
qed


section \<open>From the plan to the page\<close>

lemma nat_apart: "(a::nat) \<noteq> b \<Longrightarrow> (1::rat) \<le> \<bar>of_nat a - of_nat b\<bar>"
proof (cases a b rule: linorder_cases)
  case less
  then have "of_nat (a + 1) \<le> (of_nat b :: rat)" unfolding of_nat_le_iff by simp
  then show ?thesis by simp
next
  case greater
  then have "of_nat (b + 1) \<le> (of_nat a :: rat)" unfolding of_nat_le_iff by simp
  then show ?thesis by simp
qed simp

lemma card_node:
  assumes "distinct (map t_id (ph_tasks p))" and "buildTreeLayout (ph_tasks p) = Some L" and "(i, n) \<in> set (lr_nodes L)"
  shows "om_get (lr_nodes L) i = Some n \<and> t_id (tn_task n) = i"
proof -
  have get: "om_get (lr_nodes L) i = Some n" using layout_keys_distinct [OF assms(2)] assms(3) by simp
  then have "om_has (lr_nodes L) i" by (simp add: om_has_def)
  then show ?thesis using layout_nodes_ok [OF assms(1,2)] get by auto
qed

lemma phase_card_at:
  assumes "distinct (map t_id (ph_tasks p))" and "buildTreeLayout (ph_tasks p) = Some L"
    and "(x, y, c) \<in> set (phase_cards L hovered isV2 sessions autos)"
  shows "\<exists>n. (tk_title c, n) \<in> set (lr_nodes L) \<and> x = node_left (tn_col n) \<and> y = node_top (tn_row n)"
proof -
  obtain i n where n: "(i, n) \<in> set (lr_nodes L)" "tk_title c = t_id (tn_task n)" "x = node_left (tn_col n)" "y = node_top (tn_row n)"
    using assms(3) by (auto simp: phase_cards_def TaskNodeCard_def Let_def)
  with card_node [OF assms(1,2) n(1)] show ?thesis by auto
qed

lemma phase_card_titles:
  assumes "distinct (map t_id (ph_tasks p))" and "buildTreeLayout (ph_tasks p) = Some L"
  shows "map (\<lambda>(x, y, c). tk_title c) (phase_cards L hovered isV2 sessions autos) = om_keys (lr_nodes L)"
  using card_node [OF assms] by (auto simp: phase_cards_def TaskNodeCard_def Let_def)

lemma cells_apart:
  assumes "tn_col n \<noteq> tn_col m \<or> tn_row n \<noteq> tn_row m"
  shows "of_int (NODE_W + GAP_X) \<le> \<bar>node_left (tn_col n) - node_left (tn_col m)\<bar> \<or>
         of_int (NODE_H + GAP_Y) \<le> \<bar>node_top (tn_row n) - node_top (tn_row m)\<bar>"
proof -
  have "node_left (tn_col n) - node_left (tn_col m) = (of_nat (tn_col n) - of_nat (tn_col m)) * 268"
    "node_top (tn_row n) - node_top (tn_row m) = (of_nat (tn_row n) - of_nat (tn_row m)) * 96"
    by (simp_all add: node_left_def node_top_def pitch_values algebra_simps)
  then show ?thesis
    using assms nat_apart [of "tn_col n" "tn_col m"] nat_apart [of "tn_row n" "tn_row m"]
    by (auto simp: abs_mult NODE_W_def GAP_X_def NODE_H_def GAP_Y_def)
qed

text \<open>
  C14. The page of an expanded phase shows every task exactly once: one card per task, named by its id, with
  the boxes of any two cards a full gap apart.
\<close>
theorem phase_page_complete:
  assumes "distinct (map t_id (ph_tasks p))" and "buildTreeLayout (ph_tasks p) = Some L"
    and "cards = phase_cards L hovered isV2 sessions autos"
  shows "distinct (map (\<lambda>(x, y, c). tk_title c) cards)
    \<and> set (map (\<lambda>(x, y, c). tk_title c) cards) = t_id ` set (ph_tasks p)
    \<and> (\<forall>(x, y, c)\<in>set cards. \<forall>(x', y', c')\<in>set cards. tk_title c \<noteq> tk_title c' \<longrightarrow>
         of_int (NODE_W + GAP_X) \<le> \<bar>x - x'\<bar> \<or> of_int (NODE_H + GAP_Y) \<le> \<bar>y - y'\<bar>)"
proof (intro conjI)
  have titles: "map (\<lambda>(x, y, c). tk_title c) cards = om_keys (lr_nodes L)"
    unfolding assms(3) by (rule phase_card_titles [OF assms(1,2)])
  show "distinct (map (\<lambda>(x, y, c). tk_title c) cards)" unfolding titles by (rule layout_keys_distinct [OF assms(2)])
  show "set (map (\<lambda>(x, y, c). tk_title c) cards) = t_id ` set (ph_tasks p)"
    unfolding titles using conjunct1 [OF layout_nodes_ok [OF assms(1,2)]] unfolding om_has_iff set_eq_iff .
  have "of_int (NODE_W + GAP_X) \<le> \<bar>x - x'\<bar> \<or> of_int (NODE_H + GAP_Y) \<le> \<bar>y - y'\<bar>"
    if c: "(x, y, c) \<in> set cards" "(x', y', c') \<in> set cards" and ne: "tk_title c \<noteq> tk_title c'" for x y c x' y' c'
  proof -
    obtain n m where n: "(tk_title c, n) \<in> set (lr_nodes L)" "x = node_left (tn_col n)" "y = node_top (tn_row n)"
      and m: "(tk_title c', m) \<in> set (lr_nodes L)" "x' = node_left (tn_col m)" "y' = node_top (tn_row m)"
      using c [unfolded assms(3), THEN phase_card_at [OF assms(1,2)]] by blast
    have "tn_col n \<noteq> tn_col m \<or> tn_row n \<noteq> tn_row m"
      using cells_distinct [OF assms(2)] card_node [OF assms(1,2) n(1)] card_node [OF assms(1,2) m(1)] ne by blast
    from cells_apart [OF this] show ?thesis unfolding n m .
  qed
  then show "\<forall>(x, y, c)\<in>set cards. \<forall>(x', y', c')\<in>set cards. tk_title c \<noteq> tk_title c' \<longrightarrow>
         of_int (NODE_W + GAP_X) \<le> \<bar>x - x'\<bar> \<or> of_int (NODE_H + GAP_Y) \<le> \<bar>y - y'\<bar>" by blast
qed

definition csrf_refusal :: http_res where
  "csrf_refusal = \<lparr>hr_ok = False, hr_status = 403, hr_statusText = ''Forbidden'',
     hr_json = Some (JObj [(''error'', JStr ''csrf'')]), hr_retryAfter = None\<rparr>"

definition stale_run :: "csrf_event list" where
  "stale_run = [CsrfResolve \<lparr>pg_cookie = Some [], pg_meta = None\<rparr> 1, CsrfReply 0 (CsrfBody (JObj [(''token'', JStr ''old'')]))]"

lemma refused_token_refetched_witness:
  "(2, Some ''new'') \<in> set (cs_answers (csrf_settle 1 (CsrfBody (JObj [(''token'', JStr ''new'')]))
     (resolveCsrfToken \<lparr>pg_cookie = Some [], pg_meta = None\<rparr> 2
        (snd (after_response (Some ''old'') (FetchRes csrf_refusal) (csrf_run stale_run))))))"
proof -
  let ?r = "after_response (Some ''old'') (FetchRes csrf_refusal) (csrf_run stale_run)"
  obtain e where r: "?r = (PErr e, snd ?r)" and e: "ce_slug e = ''csrf''"
  proof -
    have "(case fst ?r of PErr e \<Rightarrow> ce_slug e = ''csrf'' | POk \<Rightarrow> False)"
      by (simp add: after_response_def postMutation_def parseControlError_def csrf_refusal_def str_field_def error_slug_def Let_def
          split: prod.split)
    then show thesis using that by (cases ?r) (auto split: post_result.splits)
  qed
  have "readCsrfToken \<lparr>pg_cookie = Some [], pg_meta = None\<rparr> None = None" "cs_next (csrf_run stale_run) = 1"
    "token_of_reply (CsrfBody (JObj [(''token'', JStr ''new'')])) = Some ''new''"
    by (simp_all add: readCsrfToken_def readCsrfFromCookie_def readCsrfFromMeta_def truthy_def page.simps token_of_reply_def
        csrf_run_def stale_run_def csrf_init_def csrf_defs)
  with refused_token_refetched [OF r e this(1), of 2 "CsrfBody (JObj [(''token'', JStr ''new'')])"]
  show ?thesis by (simp add: Let_def)
qed

lemma phase_page_complete_witness:
  "set (map (\<lambda>(x, y, c). tk_title c) (phase_cards good_layout None True [] [])) = {''a'', ''b'', ''c'', ''d''}"
proof -
  let ?p = "mk_phase ''p'' ''P'' good_tasks"
  have d: "distinct (map t_id (ph_tasks ?p))" and l: "buildTreeLayout (ph_tasks ?p) = Some good_layout"
    using good_distinct good_layout by (simp_all add: mk_phase_def)
  have "t_id ` set good_tasks = {''a'', ''b'', ''c'', ''d''}" by (simp add: good_tasks_def dep_task_def mk_task_def)
  then show ?thesis using phase_page_complete [OF d l refl, of None True "[]" "[]"] by (simp add: mk_phase_def)
qed

end
